(* ===== verification/Anvil_Prelude.thy ===== *)
theory Anvil_Prelude
  imports
    Main
    "HOL-Library.Word"
    "HOL-Library.AList"
    "HOL-Library.Char_ord"
    "HOL-Library.List_Lexorder"
    "HOL-Library.Sublist"
    "HOL-Library.Multiset"
begin

text \<open>
  The prelude of the development: the Go types and the pieces of the Go standard library
  that the components share.
  \<^item> Go strings and byte slices are lists of bytes, \<^typ>\<open>string\<close> (a HOL \<^typ>\<open>char\<close> is one byte).
  \<^item> A function that returns \<open>(T, error)\<close> is modelled by \<open>'e + 'a\<close>, \<^const>\<open>Inl\<close> carrying the error.
  \<^item> \<^verbatim>\<open>strconv.Itoa\<close>, \<^verbatim>\<open>hex.EncodeToString\<close>, \<^verbatim>\<open>hex.DecodeString\<close>, \<^verbatim>\<open>binary.BigEndian\<close> and the
    ASCII part of \<^verbatim>\<open>strings.ToLower\<close> are written out as executable functions.
  \<^item> A Go \<^verbatim>\<open>map\<close> over which the code ranges is an association list: its order stands for the
    order in which the runtime happens to range over the map, so a theorem about every
    association list is a theorem about every iteration order.
  \<^item> A clock reading is an argument \<open>now\<close> of the operation that takes it.
\<close>

named_theorems go_bytes \<comment> \<open>facts on the byte encodings\<close>
named_theorems sep_free \<comment> \<open>which separators an encoding never contains\<close>

type_synonym bytes = string
type_synonym uint32 = "32 word"

section \<open>Lists and maps\<close>

lemma sep_inject:
  assumes "a @ c # b = a' @ c # b'" and "c \<notin> set a" and "c \<notin> set a'"
  shows "a = a' \<and> b = b'"
  using assms
proof (induction a arbitrary: a')
  case Nil
  then show ?case by (cases a') auto
next
  case (Cons x xs)
  then show ?case by (cases a') auto
qed

lemma sep_inject_end:
  assumes "a = a' @ c # b'" and "c \<notin> set a"
  shows False
  using assms by auto

lemma prefix_append_drop: "prefix p xs \<longleftrightarrow> (\<exists>zs. xs = p @ zs)"
  by (auto simp: prefix_def)

lemma map_of_filter_key:
  "map_of (filter (\<lambda>(k, v). P k) xs) k = (if P k then map_of xs k else None)"
  by (induction xs) auto

lemma map_of_distinct_mem:
  "distinct (map fst xs) \<Longrightarrow> (k, v) \<in> set xs \<longleftrightarrow> map_of xs k = Some v"
  by (auto intro: map_of_is_SomeI dest: map_of_SomeD)

lemma distinct_map_fst_filter:
  "distinct (map fst xs) \<Longrightarrow> distinct (map fst (filter P xs))"
  by (induction xs) auto

lemma map_of_filter_distinct:
  assumes "distinct (map fst xs)"
  shows "map_of (filter P xs) k =
    (case map_of xs k of Some v \<Rightarrow> if P (k, v) then Some v else None | None \<Rightarrow> None)"
  using assms
proof (induction xs)
  case Nil
  then show ?case by simp
next
  case (Cons x xs)
  obtain k' v' where x: "x = (k', v')" by (cases x)
  show ?case
  proof (cases "k = k'")
    case True
    with Cons.prems x have "map_of xs k = None"
      by (simp add: map_of_eq_None_iff)
    with Cons True x show ?thesis by simp
  next
    case False
    with Cons x show ?thesis by simp
  qed
qed

lemma set_map_filter: "y \<in> set (List.map_filter f xs) \<longleftrightarrow> (\<exists>x \<in> set xs. f x = Some y)"
  by (induction xs) (auto simp: List.map_filter_simps split: option.splits)

lemma sorted_desc_take:
  "sorted_wrt (\<lambda>x y. f y \<le> f x) xs \<Longrightarrow> sorted_wrt (\<lambda>x y. f y \<le> f x) (take n xs)"
  by (metis append_take_drop_id sorted_wrt_append)

lemma sorted_wrt_sort_key_desc:
  fixes f :: "'a \<Rightarrow> int"
  shows "sorted_wrt (\<lambda>x y. f y \<le> f x) (sort_key (\<lambda>x. - f x) xs)"
proof -
  have "sorted (map (\<lambda>x. - f x) (sort_key (\<lambda>x. - f x) xs))" by (rule sorted_sort_key)
  then show ?thesis by (simp add: sorted_wrt_map)
qed

section \<open>Decimal numbers: strconv.Itoa, strconv.FormatInt\<close>

definition digit :: "nat \<Rightarrow> char" where
  "digit n = char_of (48 + n)"

fun digits :: "nat \<Rightarrow> string" where
  "digits n = (if n < 10 then [digit n] else digits (n div 10) @ [digit (n mod 10)])"

declare digits.simps [simp del]

definition itoa :: "int \<Rightarrow> string" where
  "itoa i = (if i < 0 then CHR ''-'' # digits (nat (- i)) else digits (nat i))"

lemma of_char_digit: "n < 10 \<Longrightarrow> of_char (digit n) = (48 + n :: nat)"
  by (simp add: digit_def)

lemma digit_eq_iff: "m < 10 \<Longrightarrow> n < 10 \<Longrightarrow> digit m = digit n \<longleftrightarrow> m = n"
  by (metis add_left_cancel of_char_digit)

lemma digits_nonempty: "digits n \<noteq> []"
  by (subst digits.simps) simp

lemma digits_range: "c \<in> set (digits n) \<Longrightarrow> \<exists>d < 10. c = digit d"
proof (induction n rule: digits.induct)
  case (1 n)
  show ?case
  proof (cases "n < 10")
    case True
    with "1.prems" show ?thesis by (auto simp: digits.simps [of n])
  next
    case False
    with "1.prems" have "c \<in> set (digits (n div 10)) \<or> c = digit (n mod 10)"
      by (auto simp: digits.simps [of n])
    with False "1.IH" show ?thesis by (metis mod_less_divisor zero_less_numeral)
  qed
qed

lemma digits_of_char: "c \<in> set (digits n) \<Longrightarrow> 48 \<le> (of_char c :: nat) \<and> of_char c < (58 :: nat)"
  using digits_range of_char_digit by fastforce

lemma digits_inject: "digits m = digits n \<Longrightarrow> m = n"
proof (induction m arbitrary: n rule: digits.induct)
  case (1 m)
  note eq = "1.prems"
  show ?case
  proof (cases "m < 10"; cases "n < 10")
    assume "m < 10" "n < 10"
    with eq show ?thesis by (simp add: digits.simps [of m] digits.simps [of n] digit_eq_iff)
  next
    assume "m < 10" "\<not> n < 10"
    with eq show ?thesis
      by (simp add: digits.simps [of m] digits.simps [of n] digits_nonempty digits_nonempty [symmetric])
  next
    assume "\<not> m < 10" "n < 10"
    with eq show ?thesis
      by (simp add: digits.simps [of m] digits.simps [of n] digits_nonempty)
  next
    assume a: "\<not> m < 10" "\<not> n < 10"
    with eq have "digits (m div 10) = digits (n div 10)" "m mod 10 = n mod 10"
      by (simp_all add: digits.simps [of m] digits.simps [of n] digit_eq_iff)
    with a "1.IH" have "m div 10 = n div 10" by blast
    with \<open>m mod 10 = n mod 10\<close> show ?thesis by (metis div_mult_mod_eq)
  qed
qed

lemma minus_not_digits: "CHR ''-'' \<notin> set (digits n)"
  using digits_of_char [of "CHR ''-''" n] by auto

lemma itoa_inject [go_bytes]: "itoa i = itoa j \<longleftrightarrow> i = j"
proof
  assume eq: "itoa i = itoa j"
  have no: "digits n \<noteq> CHR ''-'' # s" for n s
    using minus_not_digits [of n] by (metis list.set_intros(1))
  show "i = j"
    using eq no no [symmetric] by (auto simp: itoa_def split: if_splits dest: digits_inject)
qed simp

lemma itoa_range:
  "c \<in> set (itoa i) \<Longrightarrow> c = CHR ''-'' \<or> (48 \<le> (of_char c :: nat) \<and> of_char c < (58 :: nat))"
  by (auto simp: itoa_def split: if_splits dest: digits_of_char)

lemma newline_itoa [simp, sep_free]: "CHR 0x0A \<notin> set (itoa i)"
  using itoa_range [of "CHR 0x0A" i] by auto

lemma colon_itoa [simp, sep_free]: "CHR '':'' \<notin> set (itoa i)"
  using itoa_range [of "CHR '':''" i] by auto

lemma last_sep_inject:
  "c \<notin> set ys \<Longrightarrow> c \<notin> set ys' \<Longrightarrow> xs @ c # ys = xs' @ c # ys' \<longleftrightarrow> xs = xs' \<and> ys = ys'"
  by (auto simp: append_eq_append_conv2 Cons_eq_append_conv append_eq_Cons_conv)

lemma last_colon_inject: "a @ CHR '':'' # itoa i = b @ CHR '':'' # itoa j \<longleftrightarrow> a = b \<and> i = j"
  by (simp add: last_sep_inject itoa_inject)

lemma itoa_nonempty [simp]: "itoa i \<noteq> []"
  by (simp add: itoa_def digits_nonempty)

lemma itoa_small: "0 \<le> i \<Longrightarrow> i < 10 \<Longrightarrow> itoa i = [digit (nat i)]"
  by (subst itoa_def, subst digits.simps) auto

section \<open>Hexadecimal: encoding/hex\<close>

definition hexdigit :: "nat \<Rightarrow> char" where
  "hexdigit n = (if n < 10 then char_of (48 + n) else char_of (87 + n))"

definition unhex :: "char \<Rightarrow> nat option" where
  "unhex c = (let n = of_char c :: nat in
     if 48 \<le> n \<and> n \<le> 57 then Some (n - 48)
     else if 97 \<le> n \<and> n \<le> 102 then Some (n - 87)
     else if 65 \<le> n \<and> n \<le> 70 then Some (n - 55)
     else None)"

fun hex_encode :: "bytes \<Rightarrow> string" where
  "hex_encode [] = []"
| "hex_encode (c # cs) =
     hexdigit (of_char c div 16) # hexdigit (of_char c mod 16) # hex_encode cs"

fun hex_decode :: "string \<Rightarrow> bytes option" where
  "hex_decode [] = Some []"
| "hex_decode [c] = None"
| "hex_decode (c # d # cs) =
     (case (unhex c, unhex d) of
        (Some m, Some n) \<Rightarrow> map_option ((#) (char_of (16 * m + n))) (hex_decode cs)
      | _ \<Rightarrow> None)"

lemma unhex_hexdigit [simp]: "n < 16 \<Longrightarrow> unhex (hexdigit n) = Some n"
  by (simp add: unhex_def hexdigit_def)

lemma of_char_bound: "(of_char c :: nat) < 256"
  by simp

lemma hex_decode_encode [simp, go_bytes]: "hex_decode (hex_encode b) = Some b"
proof (induction b)
  case Nil
  then show ?case by simp
next
  case (Cons c cs)
  have "(of_char c :: nat) div 16 < 16" using of_char_bound [of c] by linarith
  moreover have "(16 * (of_char c div 16) + of_char c mod 16 :: nat) = of_char c" by simp
  ultimately show ?case using Cons by simp
qed

lemma hex_encode_inject [simp, go_bytes]: "hex_encode a = hex_encode b \<longleftrightarrow> a = b"
  by (metis hex_decode_encode option.inject)

lemma length_hex_encode [simp, go_bytes]: "length (hex_encode b) = 2 * length b"
  by (induction b) auto

lemma hex_encode_eq_Nil [simp]: "hex_encode b = [] \<longleftrightarrow> b = []"
  by (cases b) auto

lemma length_hex_decode [go_bytes]: "hex_decode s = Some b \<Longrightarrow> length s = 2 * length b"
  by (induction s arbitrary: b rule: hex_decode.induct) (auto split: option.splits)

lemma hex_decode_chars:
  "hex_decode s = Some b \<Longrightarrow> c \<in> set s \<Longrightarrow> unhex c \<noteq> None"
  by (induction s arbitrary: b rule: hex_decode.induct) (auto split: option.splits)

lemma hex_decode_no_newline [sep_free]: "hex_decode s = Some b \<Longrightarrow> CHR 0x0A \<notin> set s"
  using hex_decode_chars [of s b "CHR 0x0A"] by (auto simp: unhex_def)

section \<open>Case folding and truncation\<close>

text \<open>
  \<^verbatim>\<open>strings.ToLower\<close> on the ASCII range, which is where the code applies it (hexadecimal keys and
  hashes); bytes outside ASCII are left alone.
\<close>

definition lower_char :: "char \<Rightarrow> char" where
  "lower_char c = (let n = of_char c :: nat in if 65 \<le> n \<and> n \<le> 90 then char_of (n + 32) else c)"

definition to_lower :: "string \<Rightarrow> string" where
  "to_lower = map lower_char"

lemma lower_char_idem: "lower_char (lower_char c) = lower_char c"
  by (auto simp: lower_char_def Let_def)

lemma to_lower_idem [simp]: "to_lower (to_lower s) = to_lower s"
  by (simp add: to_lower_def lower_char_idem)

section \<open>Big-endian 32-bit integers: encoding/binary\<close>

definition be32 :: "uint32 \<Rightarrow> bytes" where
  "be32 w = (let n = unat w in
     [char_of (n div 2 ^ 24), char_of (n div 2 ^ 16 mod 256), char_of (n div 2 ^ 8 mod 256),
      char_of (n mod 256)])"

fun un_be32 :: "bytes \<Rightarrow> uint32" where
  "un_be32 (a # b # c # d # _) =
     word_of_nat (of_char a * 2 ^ 24 + of_char b * 2 ^ 16 + of_char c * 2 ^ 8 + of_char d)"
| "un_be32 _ = 0"

lemma split_be32:
  fixes n :: nat
  shows "n div 2 ^ 24 * 2 ^ 24 + n div 2 ^ 16 mod 256 * 2 ^ 16 + n div 2 ^ 8 mod 256 * 2 ^ 8
    + n mod 256 = n"
proof -
  have q: "n div 2 ^ 16 div 256 = n div 2 ^ 24" "n div 2 ^ 8 div 256 = n div 2 ^ 16"
    by (simp_all flip: div_mult2_eq)
  have eqs: "n div 2 ^ 24 * 256 + n div 2 ^ 16 mod 256 = n div 2 ^ 16"
    "n div 2 ^ 16 * 256 + n div 2 ^ 8 mod 256 = n div 2 ^ 8"
    by (metis q div_mult_mod_eq)+
  have "n div 2 ^ 24 * 2 ^ 24 + n div 2 ^ 16 mod 256 * 2 ^ 16 + n div 2 ^ 8 mod 256 * 2 ^ 8
      + n mod 256 = ((n div 2 ^ 24 * 256 + n div 2 ^ 16 mod 256) * 256 + n div 2 ^ 8 mod 256) * 256
      + n mod 256"
    by (simp only: add_mult_distrib mult.assoc) simp
  also have "\<dots> = n div 256 * 256 + n mod 256" by (simp only: eqs) simp
  finally show ?thesis by simp
qed

lemma un_be32_be32 [simp, go_bytes]: "un_be32 (be32 w) = w"
proof -
  let ?n = "unat w"
  have "?n < 2 ^ 32" using unsigned_less [of w] by simp
  then have "?n div 2 ^ 24 < 256" by simp
  then have "un_be32 (be32 w) = word_of_nat (?n div 2 ^ 24 * 2 ^ 24 + ?n div 2 ^ 16 mod 256 * 2 ^ 16
      + ?n div 2 ^ 8 mod 256 * 2 ^ 8 + ?n mod 256)"
    by (simp add: be32_def Let_def)
  also have "\<dots> = word_of_nat ?n" by (simp only: split_be32)
  finally show ?thesis by simp
qed

lemma be32_inject [simp, go_bytes]: "be32 v = be32 w \<longleftrightarrow> v = w"
  by (metis un_be32_be32)

lemma length_be32 [simp]: "length (be32 w) = 4"
  by (simp add: be32_def Let_def)

section \<open>Machine integers\<close>

lemma unat_less_32: "unat (w :: uint32) < 2 ^ 32"
  using unsigned_less [of w] by simp

lemma word_eq_of_unat: "unat w = n \<Longrightarrow> w = word_of_nat n" for w :: "'a::len word"
  by auto

lemma bit_unat: "bit (w :: 'a::len word) n \<longleftrightarrow> odd (unat w div 2 ^ n)"
  by (metis bit_iff_odd bit_unsigned_iff possible_bit_nat)

unbundle bit_operations_syntax

lemma nat_pack:
  fixes a b :: nat
  assumes "b < 2 ^ k"
  shows "push_bit k a OR b = a * 2 ^ k + b"
proof -
  have "\<not> bit b n" if "k \<le> n" for n
  proof -
    have "b < 2 ^ n" using assms that by (meson less_le_trans one_le_numeral power_increasing)
    then show ?thesis by (simp add: bit_iff_odd)
  qed
  then have "push_bit k a AND b = 0"
    by (intro bit_eqI) (auto simp: bit_simps)
  then have "push_bit k a OR b = push_bit k a + b" by (simp add: disjunctive_add_eq_or)
  then show ?thesis by (simp add: push_bit_eq_mult)
qed

lemma word_pack:
  assumes "b < 2 ^ k"
  shows "push_bit k (word_of_nat a) OR word_of_nat b = (word_of_nat (a * 2 ^ k + b) :: 'a::len word)"
  using nat_pack [OF assms, of a] by (metis of_nat_or_eq of_nat_push_bit)

text \<open>
  Go's \<^verbatim>\<open>int\<close> and \<^verbatim>\<open>int64\<close> are 64-bit two's complement: sums wrap. A conversion to \<^verbatim>\<open>uint64\<close> is
  reduction modulo \<open>2 ^ 64\<close>.
\<close>

definition wrap64 :: "int \<Rightarrow> int" where
  "wrap64 x = (x + 2 ^ 63) mod 2 ^ 64 - 2 ^ 63"

definition uint64 :: "int \<Rightarrow> int" where
  "uint64 x = x mod 2 ^ 64"

lemma wrap64_id: "- (2 ^ 63) \<le> x \<Longrightarrow> x < 2 ^ 63 \<Longrightarrow> wrap64 x = x"
  by (simp add: wrap64_def)

lemma wrap64_bounds: "- (2 ^ 63) \<le> wrap64 x \<and> wrap64 x < 2 ^ 63"
  by (simp add: wrap64_def)

lemma uint64_id: "0 \<le> x \<Longrightarrow> x < 2 ^ 63 \<Longrightarrow> uint64 x = x"
  by (simp add: uint64_def)

section \<open>JSON documents\<close>

text \<open>
  \<^verbatim>\<open>encoding/json\<close> restores the structs of strings, numbers and booleans that the program writes. A
  stored or transmitted document is kept as the value it decodes to, or as text that does not decode.
\<close>

datatype 'a json = Json 'a | Malformed bytes

fun unjson :: "'a json \<Rightarrow> 'a option" where
  "unjson (Json a) = Some a"
| "unjson (Malformed _) = None"

end
