(* ===== verification/Leveldb.thy ===== *)
theory Leveldb
  imports Anvil_Prelude
begin

text \<open>
  The interface to goleveldb, the key-value store below the header store, the envelope store,
  the SHIP directory, the overlay engine and the watcher. goleveldb is not part of the
  repository: its operations are a parameter \<open>ops\<close> of every definition that touches a database,
  and the locale \<open>leveldb\<close> states the documented behaviour the code relies on, through an
  abstraction \<open>contents\<close> of a database handle to a finite map:
  \<^item> \<^verbatim>\<open>Get\<close> and \<^verbatim>\<open>Has\<close> read the current contents, \<^verbatim>\<open>Get\<close> failing with \<^verbatim>\<open>ErrNotFound\<close> for an absent key;
  \<^item> \<^verbatim>\<open>Put\<close>, \<^verbatim>\<open>Delete\<close> and \<^verbatim>\<open>Write\<close> (a batch, applied atomically and in order) may fail, and change
    the contents as described when they succeed;
  \<^item> an iterator over \<^verbatim>\<open>util.BytesPrefix(p)\<close> yields every entry whose key starts with \<open>p\<close>, once, in
    bytewise key order.
  \<open>mem_ops\<close> is a list-backed store with these laws: it shows that they are consistent and is
  what concrete runs of the model are evaluated on.
\<close>

datatype dberr = ErrNotFound | ErrIO string

datatype 'v batch_op = BPut bytes 'v | BDelete bytes

record ('db, 'v) leveldb_ops =
  db_get :: "'db \<Rightarrow> bytes \<Rightarrow> dberr + 'v"
  db_has :: "'db \<Rightarrow> bytes \<Rightarrow> dberr + bool"
  db_put :: "'db \<Rightarrow> bytes \<Rightarrow> 'v \<Rightarrow> dberr + 'db"
  db_delete :: "'db \<Rightarrow> bytes \<Rightarrow> dberr + 'db"
  db_write :: "'db \<Rightarrow> 'v batch_op list \<Rightarrow> dberr + 'db"
  db_iter :: "'db \<Rightarrow> bytes \<Rightarrow> (bytes \<times> 'v) list \<times> dberr option"

fun run_batch :: "'v batch_op list \<Rightarrow> (bytes \<rightharpoonup> 'v) \<Rightarrow> (bytes \<rightharpoonup> 'v)" where
  "run_batch [] m = m"
| "run_batch (BPut k v # b) m = run_batch b (m(k \<mapsto> v))"
| "run_batch (BDelete k # b) m = run_batch b (m(k := None))"

lemma run_batch_append [simp]: "run_batch (a @ b) m = run_batch b (run_batch a m)"
  by (induction a m rule: run_batch.induct) (auto simp: fun_upd_def)

fun batch_key :: "'v batch_op \<Rightarrow> bytes" where
  "batch_key (BPut k v) = k"
| "batch_key (BDelete k) = k"

lemma run_batch_other: "k \<notin> batch_key ` set b \<Longrightarrow> run_batch b m k = m k"
  by (induction b m rule: run_batch.induct) (auto simp: fun_upd_def)

locale leveldb =
  fixes ops :: "('db, 'v) leveldb_ops"
    and contents :: "'db \<Rightarrow> (bytes \<rightharpoonup> 'v)"
  assumes get_spec: "db_get ops d k = (case contents d k of Some v \<Rightarrow> Inr v | None \<Rightarrow> Inl ErrNotFound)"
    and has_spec: "db_has ops d k = Inr (contents d k \<noteq> None)"
    and put_spec: "db_put ops d k v = Inr d' \<Longrightarrow> contents d' = (contents d)(k \<mapsto> v)"
    and delete_spec: "db_delete ops d k = Inr d' \<Longrightarrow> contents d' = (contents d)(k := None)"
    and write_spec: "db_write ops d b = Inr d' \<Longrightarrow> contents d' = run_batch b (contents d)"
    and iter_ok: "snd (db_iter ops d p) = None"
    and iter_set: "set (fst (db_iter ops d p)) = {(k, v). contents d k = Some v \<and> prefix p k}"
    and iter_sorted: "sorted_wrt (<) (map fst (fst (db_iter ops d p)))"
begin

lemma get_Inr: "db_get ops d k = Inr v \<longleftrightarrow> contents d k = Some v"
  by (simp add: get_spec split: option.splits)

lemma get_found: "contents d k = Some v \<Longrightarrow> db_get ops d k = Inr v"
  by (simp add: get_spec)

lemma get_absent: "contents d k = None \<Longrightarrow> db_get ops d k = Inl ErrNotFound"
  by (simp add: get_spec)

lemma put_get: "db_put ops d k v = Inr d' \<Longrightarrow> db_get ops d' k' = (if k' = k then Inr v else db_get ops d k')"
  by (simp add: get_spec put_spec)

lemma iter_distinct: "distinct (map fst (fst (db_iter ops d p)))"
  using iter_sorted strict_sorted_iff by blast

lemma iter_mem: "(k, v) \<in> set (fst (db_iter ops d p)) \<longleftrightarrow> contents d k = Some v \<and> prefix p k"
  by (simp add: iter_set)

lemma iter_pair: "db_iter ops d p = (fst (db_iter ops d p), None)"
  by (metis iter_ok prod.collapse)

end

text \<open>
  \<^verbatim>\<open>for _, key := range toDelete { db.Delete(key, nil) }\<close>: the errors of the single deletions
  are dropped, and a failed deletion leaves the database as it is.
\<close>

fun delete_keys :: "('db, 'v) leveldb_ops \<Rightarrow> 'db \<Rightarrow> bytes list \<Rightarrow> 'db" where
  "delete_keys ops d [] = d"
| "delete_keys ops d (k # ks) =
     (case db_delete ops d k of Inr d' \<Rightarrow> delete_keys ops d' ks | Inl _ \<Rightarrow> delete_keys ops d ks)"

definition reliable :: "('db, 'v) leveldb_ops \<Rightarrow> bool" where
  \<comment> \<open>no write fails\<close>
  "reliable ops \<longleftrightarrow> (\<forall>d k v b. (\<exists>d'. db_put ops d k v = Inr d') \<and> (\<exists>d'. db_delete ops d k = Inr d')
     \<and> (\<exists>d'. db_write ops d b = Inr d'))"

lemma reliable_delete: "reliable ops \<Longrightarrow> \<exists>d'. db_delete ops d k = Inr d'"
  by (simp add: reliable_def)

lemma reliable_put: "reliable ops \<Longrightarrow> \<exists>d'. db_put ops d k v = Inr d'"
  by (simp add: reliable_def)

lemma reliable_write: "reliable ops \<Longrightarrow> \<exists>d'. db_write ops d b = Inr d'"
  by (simp add: reliable_def)

context leveldb
begin

lemma delete_keys_contents:
  assumes "reliable ops"
  shows "contents (delete_keys ops d ks) = (\<lambda>k. if k \<in> set ks then None else contents d k)"
proof (induction ks arbitrary: d)
  case Nil
  then show ?case by simp
next
  case (Cons k ks)
  obtain d' where d': "db_delete ops d k = Inr d'"
    using reliable_delete [OF assms] by blast
  then have "contents d' = (contents d)(k := None)" by (rule delete_spec)
  with d' Cons.IH [of d'] show ?case by (auto simp: fun_eq_iff)
qed

lemma delete_keys_subset:
  "contents (delete_keys ops d ks) k = contents d k
   \<or> (k \<in> set ks \<and> contents (delete_keys ops d ks) k = None)"
proof (induction ks arbitrary: d)
  case Nil
  then show ?case by simp
next
  case (Cons k' ks)
  show ?case
  proof (cases "db_delete ops d k'")
    case (Inl e)
    with Cons.IH [of d] show ?thesis by auto
  next
    case (Inr d')
    with delete_spec [OF Inr] Cons.IH [of d'] show ?thesis by (auto split: if_splits)
  qed
qed

end

section \<open>A list-backed store\<close>

type_synonym 'v mem_db = "(bytes \<times> 'v) list"

definition mem_iter :: "'v mem_db \<Rightarrow> bytes \<Rightarrow> (bytes \<times> 'v) list" where
  "mem_iter d p = map (\<lambda>k. (k, the (map_of d k))) (filter (prefix p) (sort (remdups (map fst d))))"

fun mem_batch :: "'v batch_op list \<Rightarrow> 'v mem_db \<Rightarrow> 'v mem_db" where
  "mem_batch [] d = d"
| "mem_batch (BPut k v # b) d = mem_batch b (AList.update k v d)"
| "mem_batch (BDelete k # b) d = mem_batch b (AList.delete k d)"

definition mem_ops :: "('v mem_db, 'v) leveldb_ops" where
  "mem_ops = \<lparr>db_get = (\<lambda>d k. case map_of d k of Some v \<Rightarrow> Inr v | None \<Rightarrow> Inl ErrNotFound),
     db_has = (\<lambda>d k. Inr (map_of d k \<noteq> None)),
     db_put = (\<lambda>d k v. Inr (AList.update k v d)),
     db_delete = (\<lambda>d k. Inr (AList.delete k d)),
     db_write = (\<lambda>d b. Inr (mem_batch b d)),
     db_iter = (\<lambda>d p. (mem_iter d p, None))\<rparr>"

lemma map_of_mem_batch: "map_of (mem_batch b d) = run_batch b (map_of d)"
  by (induction b d rule: mem_batch.induct)
     (auto simp: update_conv' delete_conv' fun_upd_def)

lemma mem_iter_set: "set (mem_iter d p) = {(k, v). map_of d k = Some v \<and> prefix p k}"
proof -
  have "(k, v) \<in> set (mem_iter d p) \<longleftrightarrow> map_of d k = Some v \<and> prefix p k" for k v
  proof -
    have "k \<in> fst ` set d \<longleftrightarrow> map_of d k \<noteq> None" by (simp add: map_of_eq_None_iff)
    then show ?thesis by (auto simp: mem_iter_def image_iff)
  qed
  then show ?thesis by auto
qed

lemma mem_iter_sorted: "sorted_wrt (<) (map fst (mem_iter d p))"
proof -
  have "map fst (mem_iter d p) = filter (prefix p) (sort (remdups (map fst d)))"
    by (simp add: mem_iter_def comp_def)
  moreover have "sorted_wrt (<) (sort (remdups (map fst d)))"
    by (simp add: strict_sorted_iff)
  ultimately show ?thesis by (simp add: sorted_wrt_filter)
qed

interpretation mem: leveldb mem_ops map_of
  by unfold_locales
     (auto simp: mem_ops_def map_of_mem_batch mem_iter_set mem_iter_sorted update_conv' delete_conv'
       split: option.splits)

lemma mem_reliable: "reliable mem_ops"
  by (simp add: reliable_def mem_ops_def)

end
