(* ===== verification/Pow.thy ===== *)
theory Pow
  imports Anvil_Prelude
begin

unbundle bit_operations_syntax

text \<open>
  \<^verbatim>\<open>internal/headers/pow.go\<close>: the compact target encoding of a block header, proof of work and
  chain work. Header (de)serialisation and the block hash belong to go-p2p's \<^verbatim>\<open>wire\<close> package: they
  are the fields of the parameter \<open>w\<close>. \<^verbatim>\<open>big.Int\<close> is \<^typ>\<open>int\<close>; the 32-bit arithmetic on \<^verbatim>\<open>nBits\<close> is
  kept on words.
\<close>

record block_header =
  Version :: "32 word"
  PrevBlock :: bytes
  MerkleRoot :: bytes
  Timestamp :: int
  Bits :: uint32
  Nonce :: uint32

record wire =
  Serialize :: "block_header \<Rightarrow> bytes option"
  Deserialize :: "bytes \<Rightarrow> block_header option"
  BlockHash :: "block_header \<Rightarrow> bytes"
  NewHashFromStr :: "string \<Rightarrow> bytes option"

datatype pow_err = NonPositiveTarget uint32 | HashExceedsTarget bytes uint32 | PrevHashMismatch

section \<open>Operations\<close>

definition compactToBig :: "uint32 \<Rightarrow> int" where
  "compactToBig compact =
     (let mantissa = compact AND 0x007fffff;
          exponent = drop_bit 24 compact;
          negative = compact AND 0x00800000 \<noteq> 0;
          target = (if exponent \<le> 3
                    then uint (drop_bit (unat (8 * (3 - exponent))) mantissa)
                    else uint mantissa * 2 ^ (8 * (unat exponent - 3)))
      in if negative then - target else target)"

text \<open>\<^verbatim>\<open>big.Int.SetBytes\<close> and \<^verbatim>\<open>big.Int.Bytes\<close>: big-endian magnitude, without leading zeros.\<close>

definition be_val :: "bytes \<Rightarrow> nat" where
  "be_val bs = foldl (\<lambda>a c. a * 256 + of_char c) 0 bs"

fun be_bytes :: "nat \<Rightarrow> bytes" where
  "be_bytes n = (if n = 0 then [] else be_bytes (n div 256) @ [char_of (n mod 256)])"

declare be_bytes.simps [simp del]

definition hashToBig :: "bytes \<Rightarrow> int" where
  "hashToBig hash = int (be_val (map (\<lambda>i. hash ! (31 - i)) [0..<32]))"

definition ValidatePoW :: "wire \<Rightarrow> block_header \<Rightarrow> pow_err + unit" where
  "ValidatePoW w hdr =
     (let target = compactToBig (Bits hdr) in
      if target \<le> 0 then Inl (NonPositiveTarget (Bits hdr))
      else let hash = BlockHash w hdr in
        if hashToBig hash > target then Inl (HashExceedsTarget hash (Bits hdr)) else Inr ())"

fun ValidateHeaderChain :: "wire \<Rightarrow> block_header list \<Rightarrow> bytes \<Rightarrow> pow_err + unit" where
  "ValidateHeaderChain w [] prevHash = Inr ()"
| "ValidateHeaderChain w (hdr # hdrs) prevHash =
     (if PrevBlock hdr \<noteq> prevHash then Inl PrevHashMismatch
      else case ValidatePoW w hdr of
        Inl e \<Rightarrow> Inl e
      | Inr _ \<Rightarrow> ValidateHeaderChain w hdrs (BlockHash w hdr))"

definition WorkForHeader :: "block_header \<Rightarrow> int" where
  "WorkForHeader hdr =
     (let target = compactToBig (Bits hdr) in
      if target \<le> 0 then 0 else 2 ^ 256 div (target + 1))"

fun CumulativeWork :: "block_header list \<Rightarrow> int" where
  "CumulativeWork [] = 0"
| "CumulativeWork (hdr # hdrs) = WorkForHeader hdr + CumulativeWork hdrs"

text \<open>
  \<^verbatim>\<open>BigToCompact\<close>: the first three bytes of the magnitude, or, for at most three bytes, the
  bytes copied to the end of a four-byte buffer and read big-endian, shifted right by 8.
\<close>

definition BigToCompact :: "int \<Rightarrow> uint32" where
  "BigToCompact target =
     (if target = 0 then 0
      else let b = be_bytes (nat \<bar>target\<bar>);
               size = word_of_nat (length b) :: uint32;
               mantissa = (if size \<le> 3
                 then drop_bit 8 (un_be32 (replicate (4 - length b) (CHR 0x00) @ b))
                 else push_bit 16 (word_of_nat (of_char (b ! 0)))
                   OR push_bit 8 (word_of_nat (of_char (b ! 1))) OR word_of_nat (of_char (b ! 2)));
               (mantissa, size) =
                 (if mantissa AND 0x00800000 \<noteq> 0 then (drop_bit 8 mantissa, size + 1)
                  else (mantissa, size))
           in push_bit 24 size OR mantissa)"

section \<open>Specification vocabulary\<close>

text \<open>
  A canonical encoding has a positive mantissa without redundant leading zeros and an exponent
  of at least 5, which every \<^verbatim>\<open>nBits\<close> of the main chain has.
\<close>

definition canonical_bits :: "uint32 \<Rightarrow> bool" where
  "canonical_bits c \<longleftrightarrow> 5 \<le> unat c div 2 ^ 24
     \<and> 0x8000 \<le> unat c mod 2 ^ 24 \<and> unat c mod 2 ^ 24 < 0x800000"

text \<open>A linked run of headers, each meeting its own target.\<close>

fun linked :: "wire \<Rightarrow> bytes \<Rightarrow> block_header list \<Rightarrow> bool" where
  "linked w prev [] \<longleftrightarrow> True"
| "linked w prev (hdr # hdrs) \<longleftrightarrow> PrevBlock hdr = prev \<and> linked w (BlockHash w hdr) hdrs"

definition meets_target :: "wire \<Rightarrow> block_header \<Rightarrow> bool" where
  "meets_target w hdr \<longleftrightarrow>
     0 < compactToBig (Bits hdr) \<and> hashToBig (BlockHash w hdr) \<le> compactToBig (Bits hdr)"

section \<open>Magnitudes\<close>

lemma be_val_snoc [simp]: "be_val (bs @ [c]) = be_val bs * 256 + of_char c"
  by (simp add: be_val_def)

lemma be_val_Nil [simp]: "be_val [] = 0"
  by (simp add: be_val_def)

lemma be_val_be_bytes [simp, go_bytes]: "be_val (be_bytes n) = n"
proof (induction n rule: be_bytes.induct)
  case (1 n)
  then show ?case
    by (cases "n = 0") (simp_all add: be_bytes.simps [of n] be_bytes.simps [of 0])
qed

lemma be_bytes_shift:
  assumes "0 < m"
  shows "be_bytes (m * 256 ^ k) = be_bytes m @ replicate k (CHR 0x00)"
proof (induction k)
  case 0
  then show ?case by simp
next
  case (Suc k)
  have "be_bytes (m * 256 ^ Suc k) = be_bytes (m * 256 ^ k) @ [CHR 0x00]"
    using assms by (subst be_bytes.simps) (simp add: char_of_def)
  with Suc show ?case by (simp add: replicate_append_same)
qed

lemma be_bytes_digit: "0 < n \<Longrightarrow> n < 256 \<Longrightarrow> be_bytes n = [char_of n]"
  by (subst be_bytes.simps, subst be_bytes.simps) simp

lemma be_bytes_step: "256 \<le> n \<Longrightarrow> be_bytes n = be_bytes (n div 256) @ [char_of (n mod 256)]"
  by (subst be_bytes.simps) simp

section \<open>The compact encoding on numbers\<close>

lemma bit_mask23: "(0x007fffff :: uint32) = mask 23"
  by (simp add: mask_eq_exp_minus_1)

lemma sign_bit: "(c AND 0x00800000 \<noteq> (0 :: uint32)) = bit c 23"
proof -
  have "(0x00800000 :: uint32) = push_bit 23 1" by (simp add: push_bit_eq_mult)
  then show ?thesis by (metis and_exp_eq_0_iff_not_bit push_bit_of_1)
qed

lemma compactToBig_fields:
  fixes c :: uint32
  assumes "unat c = e * 2 ^ 24 + m" and "m < 2 ^ 23" and "e < 256"
  shows "c AND 0x007fffff = word_of_nat m" and "drop_bit 24 c = word_of_nat e" and "\<not> bit c 23"
proof -
  have c: "c = word_of_nat (e * 2 ^ 24 + m)" by (rule word_eq_of_unat) (rule assms)
  have "unat (c AND 0x007fffff) = take_bit 23 (unat c)"
    by (simp only: bit_mask23 unsigned_take_bit_eq flip: take_bit_eq_mask)
  also have "\<dots> = unat c mod 2 ^ 23" by (rule take_bit_eq_mod)
  also have "\<dots> = (m + (2 * e) * 2 ^ 23) mod 2 ^ 23" using assms(1) by (simp add: ac_simps)
  also have "\<dots> = m mod 2 ^ 23" by (rule mod_mult_self1)
  also have "\<dots> = m" using assms(2) by simp
  finally show "c AND 0x007fffff = word_of_nat m" by (rule word_eq_of_unat)
  have "unat (drop_bit 24 c) = unat c div 2 ^ 24"
    by (simp only: unat_drop_bit_eq) (rule drop_bit_eq_div)
  also have "\<dots> = e" using assms by simp
  finally show "drop_bit 24 c = word_of_nat e" by (rule word_eq_of_unat)
  have "bit c 23 \<longleftrightarrow> odd (unat c div 2 ^ 23)"
    by (rule bit_unat)
  also have "unat c div 2 ^ 23 = 2 * e"
  proof -
    have "unat c = (2 * e) * 2 ^ 23 + m" using assms(1) by simp
    then show ?thesis using assms(2) by simp
  qed
  finally show "\<not> bit c 23" by simp
qed

lemma compactToBig_val:
  fixes c :: uint32
  assumes "unat c = e * 2 ^ 24 + m" and "m < 2 ^ 23" and "3 < e" and "e < 256"
  shows "compactToBig c = int m * 256 ^ (e - 3)"
proof -
  note fs = compactToBig_fields [OF assms(1,2,4)]
  have ue: "unat (word_of_nat e :: uint32) = e" and um: "unat (word_of_nat m :: uint32) = m"
    using assms by (simp_all add: unat_of_nat)
  have ge: "\<not> (word_of_nat e :: uint32) \<le> 3"
    using assms by (simp add: word_le_nat_alt ue)
  have "uint (word_of_nat m :: uint32) = int m" by (metis um uint_nat)
  then have "compactToBig c = int m * 2 ^ (8 * (e - 3))"
    using fs ge by (simp add: compactToBig_def Let_def sign_bit ue)
  also have "(2 :: int) ^ (8 * (e - 3)) = 256 ^ (e - 3)"
    by (simp add: power_mult)
  finally show ?thesis .
qed

lemma pack_fields:
  fixes e m :: nat
  assumes "m < 2 ^ 24" and "e < 256"
  shows "unat (push_bit 24 (word_of_nat e) OR word_of_nat m :: uint32) = e * 2 ^ 24 + m"
  using assms by (simp only: word_pack unat_of_nat) simp

lemma three_bytes:
  fixes x y z :: char
  defines "v \<equiv> of_char x * 2 ^ 16 + of_char y * 2 ^ 8 + of_char z :: nat"
  shows "push_bit 16 (word_of_nat (of_char x)) OR push_bit 8 (word_of_nat (of_char y))
      OR word_of_nat (of_char z) = (word_of_nat v :: uint32)" (is ?pack)
    and "v < 2 ^ 24" (is ?bound)
proof -
  have lt: "of_char x < (256 :: nat)" "of_char y < (256 :: nat)" "of_char z < (256 :: nat)"
    by simp_all
  have yz': "of_char y * 256 + of_char z < (65536 :: nat)" using lt by linarith
  then have yz: "of_char y * 2 ^ 8 + of_char z < (2 ^ 16 :: nat)" by simp
  have yzw: "push_bit 8 (word_of_nat (of_char y)) OR word_of_nat (of_char z)
      = (word_of_nat (of_char y * 2 ^ 8 + of_char z) :: uint32)"
    by (rule word_pack) simp
  have "push_bit 16 (word_of_nat (of_char x)) OR push_bit 8 (word_of_nat (of_char y))
      OR word_of_nat (of_char z)
      = (push_bit 16 (word_of_nat (of_char x))
         OR word_of_nat (of_char y * 2 ^ 8 + of_char z) :: uint32)"
    by (simp only: yzw or.assoc)
  also have "\<dots> = word_of_nat v"
    using yz by (simp only: word_pack) (simp add: v_def)
  finally show ?pack .
  have "of_char x * 65536 + (of_char y * 256 + of_char z) < (16777216 :: nat)"
    using lt(1) yz' by linarith
  then show ?bound by (simp add: v_def)
qed

lemma word_of_nat_le:
  fixes k :: uint32
  assumes "n < 2 ^ 32"
  shows "word_of_nat n \<le> k \<longleftrightarrow> n \<le> unat k"
  using assms by (simp add: word_le_nat_alt unat_of_nat)

lemma sign_bit_nat:
  assumes "v < 2 ^ 24"
  shows "word_of_nat v AND 0x00800000 \<noteq> (0 :: uint32) \<longleftrightarrow> 2 ^ 23 \<le> v"
proof -
  have u: "unat (word_of_nat v :: uint32) = v" using assms by (simp add: unat_of_nat)
  have "v div 2 ^ 23 = 0 \<or> v div 2 ^ 23 = 1" using assms by auto
  then have "odd (v div 2 ^ 23) \<longleftrightarrow> 2 ^ 23 \<le> v" using assms by (auto simp: div_eq_0_iff)
  then show ?thesis by (simp only: sign_bit bit_unat u)
qed

lemma drop_bit_word_of_nat:
  assumes "v < 2 ^ 32"
  shows "drop_bit k (word_of_nat v :: uint32) = word_of_nat (v div 2 ^ k)"
proof (rule word_eq_of_unat)
  have "unat (drop_bit k (word_of_nat v :: uint32)) = drop_bit k (unat (word_of_nat v :: uint32))"
    by (rule unat_drop_bit_eq)
  also have "\<dots> = v div 2 ^ k"
    using assms by (simp add: unat_of_nat drop_bit_eq_div)
  finally show "unat (drop_bit k (word_of_nat v :: uint32)) = v div 2 ^ k" .
qed

lemma BigToCompact_long:
  assumes b: "be_bytes n = x # y # z # rest" and n: "0 < n" and rest: "rest \<noteq> []"
    and len: "length rest < 1000"
  defines "v \<equiv> of_char x * 2 ^ 16 + of_char y * 2 ^ 8 + of_char z :: nat"
  shows "BigToCompact (int n) =
    (if v < 2 ^ 23 then push_bit 24 (word_of_nat (length rest + 3)) OR word_of_nat v
     else push_bit 24 (word_of_nat (length rest + 4)) OR word_of_nat (v div 2 ^ 8))"
proof -
  have sz: "\<not> (word_of_nat (length (be_bytes n)) :: uint32) \<le> 3"
    using len rest b by (subst word_of_nat_le) (auto simp: Suc_le_eq)
  have v: "v < 2 ^ 24" unfolding v_def by (rule three_bytes)
  then have d: "drop_bit 8 (word_of_nat v :: uint32) = word_of_nat (v div 2 ^ 8)"
    by (intro drop_bit_word_of_nat) simp
  have m: "push_bit 16 (word_of_nat (of_char (be_bytes n ! 0)))
      OR push_bit 8 (word_of_nat (of_char (be_bytes n ! 1)))
      OR word_of_nat (of_char (be_bytes n ! 2)) = (word_of_nat v :: uint32)"
    using three_bytes(1) [of x y z] by (simp only: b v_def) simp
  have "BigToCompact (int n) =
      (let (mantissa, size) = (if 2 ^ 23 \<le> v
           then (word_of_nat (v div 2 ^ 8), word_of_nat (length (be_bytes n)) + 1)
           else (word_of_nat v, word_of_nat (length (be_bytes n))))
       in push_bit 24 size OR mantissa :: uint32)"
    using n sz sign_bit_nat [OF v] d m
    by (simp only: BigToCompact_def Let_def abs_of_nat nat_int of_nat_eq_0_iff)
       (simp del: push_bit_of_nat)
  then show ?thesis by (auto simp: b add.commute)
qed

section \<open>Round trips of the compact encoding\<close>

lemma be_bytes_three:
  assumes "2 ^ 16 \<le> m" and "m < 2 ^ 24"
  shows "be_bytes m = [char_of (m div 2 ^ 16), char_of (m div 2 ^ 8 mod 256), char_of (m mod 256)]"
proof -
  have "be_bytes m = (be_bytes (m div 256 div 256) @ [char_of (m div 256 mod 256)]) @ [char_of (m mod 256)]"
    using assms by (subst be_bytes_step, simp, subst be_bytes_step) simp_all
  also have "m div 256 div 256 = m div 2 ^ 16" by (simp flip: div_mult2_eq)
  also have "be_bytes (m div 2 ^ 16) = [char_of (m div 2 ^ 16)]"
    using assms by (intro be_bytes_digit) (simp_all add: div_greater_zero_iff)
  finally show ?thesis by simp
qed

lemma be_bytes_two:
  assumes "2 ^ 8 \<le> m" and "m < 2 ^ 16"
  shows "be_bytes m = [char_of (m div 2 ^ 8), char_of (m mod 256)]"
proof -
  have "be_bytes m = be_bytes (m div 256) @ [char_of (m mod 256)]"
    using assms by (intro be_bytes_step) simp
  also have "be_bytes (m div 256) = [char_of (m div 256)]"
    using assms by (intro be_bytes_digit) (simp_all add: div_greater_zero_iff)
  finally show ?thesis by simp
qed

lemma BigToCompact_shifted:
  assumes m: "0x8000 \<le> m" "m < 0x800000" and e: "5 \<le> e" "e < 256"
  shows "BigToCompact (int (m * 256 ^ (e - 3))) = push_bit 24 (word_of_nat e) OR word_of_nat m"
proof -
  let ?n = "m * 256 ^ (e - 3)"
  have pos: "0 < ?n" using m by simp
  have bs: "be_bytes ?n = be_bytes m @ replicate (e - 3) (CHR 0x00)"
    using m by (intro be_bytes_shift) simp
  show ?thesis
  proof (cases "2 ^ 16 \<le> m")
    case True
    then have b: "be_bytes ?n = char_of (m div 2 ^ 16) # char_of (m div 2 ^ 8 mod 256)
        # char_of (m mod 256) # replicate (e - 3) (CHR 0x00)"
      using m by (simp add: bs be_bytes_three)
    have v: "of_char (char_of (m div 2 ^ 16) :: char) * 2 ^ 16
        + of_char (char_of (m div 2 ^ 8 mod 256) :: char) * 2 ^ 8
        + of_char (char_of (m mod 256) :: char) = m"
      using m split_be32 [of m] by simp
    show ?thesis
      using BigToCompact_long [OF b pos] m e unfolding v by simp
  next
    case False
    obtain r where r: "e - 3 = Suc r" using e by (cases "e - 3") auto
    have b: "be_bytes ?n = char_of (m div 2 ^ 8) # char_of (m mod 256) # CHR 0x00
        # replicate r (CHR 0x00)"
      using m False by (subst bs) (simp add: be_bytes_two r)
    have v: "of_char (char_of (m div 2 ^ 8) :: char) * 2 ^ 16
        + of_char (char_of (m mod 256) :: char) * 2 ^ 8 + of_char (CHR 0x00) = m * 256"
    proof -
      have "m div 256 * 65536 + m mod 256 * 256 = (m div 256 * 256 + m mod 256) * 256"
        unfolding add_mult_distrib mult.assoc by simp
      also have "\<dots> = m * 256" by (simp only: div_mult_mod_eq)
      finally show ?thesis using False by simp
    qed
    have "replicate r (CHR 0x00) \<noteq> []" using r e by auto
    moreover have "r + 4 = e" "r < 1000" using r e by simp_all
    ultimately show ?thesis
      using BigToCompact_long [OF b pos] m unfolding v by simp
  qed
qed

lemma compactToBig_val_small:
  fixes c :: uint32
  assumes "unat c = e * 2 ^ 24 + m" and "m < 2 ^ 23" and "e \<in> {1, 2, 3}"
  shows "compactToBig c = int (m div 256 ^ (3 - e))"
proof -
  have "e < 256" using assms(3) by auto
  note fs = compactToBig_fields [OF assms(1,2) this]
  have le: "(word_of_nat e :: uint32) \<le> 3" using assms(3) by auto
  have sh: "unat (8 * (3 - word_of_nat e :: uint32)) = 8 * (3 - e)" using assms(3) by auto
  have d: "drop_bit (8 * (3 - e)) (word_of_nat m :: uint32) = word_of_nat (m div 2 ^ (8 * (3 - e)))"
    using assms(2) by (intro drop_bit_word_of_nat) simp
  have "m div 2 ^ (8 * (3 - e)) < 2 ^ 32"
    using assms(2) by (intro le_less_trans [OF div_le_dividend]) simp
  then have "unat (word_of_nat (m div 2 ^ (8 * (3 - e))) :: uint32) = m div 2 ^ (8 * (3 - e))"
    by (simp add: unat_of_nat)
  then have "uint (word_of_nat (m div 2 ^ (8 * (3 - e))) :: uint32) = int (m div 2 ^ (8 * (3 - e)))"
    by (metis uint_nat)
  then have "compactToBig c = int (m div 2 ^ (8 * (3 - e)))"
    using fs le by (simp only: compactToBig_def Let_def sign_bit sh d if_True if_False)
  then show ?thesis by (simp add: power_mult)
qed

lemma replicate_small: "replicate 3 a = [a, a, a]" "replicate 2 a = [a, a]"
  by (simp_all add: numeral_eq_Suc)

lemma BigToCompact_short:
  assumes "0 < t" and "t < 2 ^ 24"
  shows "unat (BigToCompact (int t)) = length (be_bytes t) * 2 ^ 24 + t div 256"
    and "length (be_bytes t) = (if t < 2 ^ 8 then 1 else if t < 2 ^ 16 then 2 else 3)"
proof -
  consider "t < 2 ^ 8" | "2 ^ 8 \<le> t" "t < 2 ^ 16" | "2 ^ 16 \<le> t" by linarith
  then have "length (be_bytes t) = (if t < 2 ^ 8 then 1 else if t < 2 ^ 16 then 2 else 3)
    \<and> un_be32 (replicate (4 - length (be_bytes t)) (CHR 0x00) @ be_bytes t) = word_of_nat t"
  proof cases
    case 1
    with assms show ?thesis by (simp add: be_bytes_digit replicate_small)
  next
    case 2
    then have "t div 256 * 256 + t mod 256 = t" "t div 256 < 256" by simp_all
    with 2 show ?thesis
      by (simp add: be_bytes_two replicate_small flip: of_nat_mult of_nat_add)
  next
    case 3
    have "t div 65536 < 256" using assms by simp
    with 3 assms split_be32 [of t] show ?thesis
      by (simp add: be_bytes_three flip: of_nat_mult of_nat_add)
  qed
  then have len: "length (be_bytes t) = (if t < 2 ^ 8 then 1 else if t < 2 ^ 16 then 2 else 3)"
    and val: "un_be32 (replicate (4 - length (be_bytes t)) (CHR 0x00) @ be_bytes t) = word_of_nat t"
    by blast+
  show "length (be_bytes t) = (if t < 2 ^ 8 then 1 else if t < 2 ^ 16 then 2 else 3)" by (rule len)
  have sz: "(word_of_nat (length (be_bytes t)) :: uint32) \<le> 3"
    by (subst word_of_nat_le) (auto simp: len)
  have d: "drop_bit 8 (word_of_nat t :: uint32) = word_of_nat (t div 256)"
    using assms by (subst drop_bit_word_of_nat) simp_all
  have small: "t div 256 < 2 ^ 16" using assms by simp
  have "\<not> (word_of_nat (t div 256) AND 0x00800000 \<noteq> (0 :: uint32))"
    using small by (subst sign_bit_nat) simp_all
  then have "BigToCompact (int t) = push_bit 24 (word_of_nat (length (be_bytes t))) OR word_of_nat (t div 256)"
    using assms(1) sz d val by (simp only: BigToCompact_def Let_def abs_of_nat nat_int of_nat_eq_0_iff) simp
  then show "unat (BigToCompact (int t)) = length (be_bytes t) * 2 ^ 24 + t div 256"
    using small by (simp only:) (subst pack_fields, auto simp: len)
qed

section \<open>Proof of work and chain work\<close>

lemma WorkForHeader_nonneg [simp]: "0 \<le> WorkForHeader hdr"
  by (simp add: WorkForHeader_def Let_def pos_imp_zdiv_nonneg_iff)

lemma CumulativeWork_append [simp]: "CumulativeWork (xs @ ys) = CumulativeWork xs + CumulativeWork ys"
  by (induction xs) auto

lemma CumulativeWork_nonneg [simp]: "0 \<le> CumulativeWork hdrs"
  by (induction hdrs) auto

lemma ValidatePoW_Inr [simp]: "ValidatePoW w hdr = Inr u \<longleftrightarrow> meets_target w hdr"
  by (simp add: ValidatePoW_def meets_target_def Let_def)

lemma ValidatePoW_Inl: "ValidatePoW w hdr = Inl e \<Longrightarrow> \<not> meets_target w hdr"
  by (metis ValidatePoW_Inr sum.distinct(1))

lemma ValidateHeaderChain_iff:
  "ValidateHeaderChain w hdrs prev = Inr u \<longleftrightarrow>
     linked w prev hdrs \<and> (\<forall>h \<in> set hdrs. meets_target w h)"
  by (induction hdrs arbitrary: prev) (auto split: sum.splits dest: ValidatePoW_Inl)

lemma linked_append:
  "linked w prev (xs @ ys) \<longleftrightarrow>
     linked w prev xs \<and> linked w (if xs = [] then prev else BlockHash w (last xs)) ys"
  by (induction xs arbitrary: prev) auto

lemma linked_take: "linked w prev xs \<Longrightarrow> linked w prev (take n xs)"
  by (metis append_take_drop_id linked_append)

section \<open>Properties\<close>

lemma canonical_fields:
  fixes c :: uint32
  shows "c = push_bit 24 (word_of_nat (unat c div 2 ^ 24)) OR word_of_nat (unat c mod 2 ^ 24)"
    and "unat c div 2 ^ 24 < 256"
proof -
  have "unat c < 2 ^ 32" using unsigned_less [of c] by simp
  then show e: "unat c div 2 ^ 24 < 256" by simp
  have "unat (push_bit 24 (word_of_nat (unat c div 2 ^ 24)) OR word_of_nat (unat c mod 2 ^ 24) :: uint32)
      = unat c"
    using e by (subst pack_fields) simp_all
  then show "c = push_bit 24 (word_of_nat (unat c div 2 ^ 24)) OR word_of_nat (unat c mod 2 ^ 24)"
    by (metis word_unat_eq_iff)
qed

text \<open>
  decoding a canonical compact target and encoding it again gives the same 32 bits, so no
  difficulty value of the main chain is altered by \<^verbatim>\<open>compactToBig\<close> followed by \<^verbatim>\<open>BigToCompact\<close>.
\<close>

theorem compact_roundtrip:
  assumes "canonical_bits c"
  shows "BigToCompact (compactToBig c) = c"
proof -
  let ?e = "unat c div 2 ^ 24" and ?m = "unat c mod 2 ^ 24"
  have c: "0x8000 \<le> ?m" "?m < 0x800000" "5 \<le> ?e" "?e < 256"
    using assms canonical_fields(2) [of c] by (auto simp: canonical_bits_def)
  have "compactToBig c = int ?m * 256 ^ (?e - 3)"
    using c by (intro compactToBig_val) simp_all
  also have "\<dots> = int (?m * 256 ^ (?e - 3))" by simp
  finally show ?thesis
    using BigToCompact_shifted [OF c] canonical_fields(1) [of c] by simp
qed

theorem compact_roundtrip_witness:
  "canonical_bits 0x1d00ffff \<and> BigToCompact (compactToBig 0x1d00ffff) = 0x1d00ffff"
proof -
  have h: "canonical_bits 0x1d00ffff" by (simp add: canonical_bits_def)
  with compact_roundtrip [OF h] show ?thesis by simp
qed

text \<open>
  for a target of at most three bytes \<^verbatim>\<open>BigToCompact\<close> loses the low byte: the buffer is filled
  from its end and then shifted right by eight. Encoding and decoding such a target divides it
  by 256 (or yields 0 below \<open>2 ^ 16\<close>) and never returns it.
\<close>

theorem compact_small_target_lossy:
  assumes "0 < t" and "t < 2 ^ 24"
  shows "compactToBig (BigToCompact (int t)) = (if t < 2 ^ 16 then 0 else int (t div 256))
    \<and> compactToBig (BigToCompact (int t)) \<noteq> int t"
proof -
  let ?e = "length (be_bytes t)"
  note short = BigToCompact_short [OF assms]
  have q: "t div 256 < 2 ^ 16" using assms by simp
  have "compactToBig (BigToCompact (int t)) = int (t div 256 div 256 ^ (3 - ?e))"
    using q by (intro compactToBig_val_small [OF short(1)]) (auto simp: short(2))
  also have "t div 256 div 256 ^ (3 - ?e) = (if t < 2 ^ 16 then 0 else t div 256)"
    by (auto simp: short(2) simp flip: div_mult2_eq)
  finally show ?thesis using assms by auto
qed

theorem compact_small_target_lossy_witness:
  "compactToBig (BigToCompact 0x123456) = 0x1234"
  using compact_small_target_lossy [of "0x123456"] by simp

text \<open>
  \<^verbatim>\<open>ValidateHeaderChain\<close> accepts exactly the header runs that link to the expected hash, link to
  each other and meet their own targets.
\<close>

theorem ValidateHeaderChain_correct:
  "ValidateHeaderChain w hdrs prev = Inr () \<longleftrightarrow>
     linked w prev hdrs \<and> list_all (meets_target w) hdrs"
  by (simp add: ValidateHeaderChain_iff list_all_iff)

end
