(* ===== verification/Header_Store.thy ===== *)
theory Header_Store
  imports Leveldb Pow
begin

text \<open>
  \<^verbatim>\<open>internal/headers/store.go\<close>: the block header store. Its state is the open database, the
  cached tip height (a 32-bit word, as in the code), the cached cumulative work and the test
  switch \<^verbatim>\<open>skipPoW\<close>. Every operation takes the lock for its whole duration, so an operation is one
  atomic function on the state. An operation that returns an error leaves the state as it was:
  the error is \<^const>\<open>Inl\<close>, a successful update \<^const>\<open>Inr\<close> with the new state.

  The abstract view of a store is the list of the headers of its chain, genesis first
  (\<open>repr\<close>): \<^verbatim>\<open>AddHeaders\<close> refines appending to that list and \<^verbatim>\<open>Rollback\<close> refines cutting it.
\<close>

datatype header_err =
    ErrDB dberr
  | ErrStartHeight uint32 uint32
  | ErrTipHash dberr
  | ErrTipHeader
  | ErrPrevHash nat uint32
  | ErrPoW nat uint32 pow_err
  | ErrSerialize nat
  | ErrRollbackTarget uint32 uint32
  | ErrReadHeader uint32 dberr
  | ErrDeserialize uint32
  | ErrGenesis
  | ErrShortValue

record 'db header_store =
  hs_db :: 'db
  tip :: uint32
  work :: int
  skipPoW :: bool

section \<open>Keys\<close>

definition prefixHeader :: bytes where "prefixHeader = ''h:''"
definition prefixHash :: bytes where "prefixHash = ''hi:''"
definition prefixMerkle :: bytes where "prefixMerkle = ''m:''"
definition keyTip :: bytes where "keyTip = ''tip''"
definition keyWork :: bytes where "keyWork = ''work''"

definition heightToKey :: "bytes \<Rightarrow> uint32 \<Rightarrow> bytes" where
  "heightToKey p height = p @ be32 height"

section \<open>Operations\<close>

text \<open>\<^verbatim>\<open>binary.BigEndian.Uint32\<close> panics on fewer than four bytes: the model returns an error there.\<close>

definition read_uint32 :: "bytes \<Rightarrow> header_err + uint32" where
  "read_uint32 b = (if length b < 4 then Inl ErrShortValue else Inr (un_be32 b))"

definition genesisHeader :: "wire \<Rightarrow> block_header option" where
  "genesisHeader w =
     (case NewHashFromStr w ''4a5e1e4baab89f3a32518a88c31bc87f618f76673e2cc77ab2127b7afdeda33b'' of
        None \<Rightarrow> None \<comment> \<open>\<^verbatim>\<open>mustHash\<close> panics\<close>
      | Some root \<Rightarrow> Some \<lparr>Version = 1, PrevBlock = replicate 32 (CHR 0x00), MerkleRoot = root,
          Timestamp = 1231006505, Bits = 0x1d00ffff, Nonce = 2083236893\<rparr>)"

definition genesisHeaderBytes :: "wire \<Rightarrow> bytes option" where
  "genesisHeaderBytes w = Option.bind (genesisHeader w) (Serialize w)"

definition writeGenesis ::
  "('db, bytes) leveldb_ops \<Rightarrow> wire \<Rightarrow> 'db header_store \<Rightarrow> header_err + 'db header_store" where
  "writeGenesis ops w s =
     (case genesisHeaderBytes w of
        None \<Rightarrow> Inl ErrGenesis
      | Some raw \<Rightarrow>
         (case Deserialize w raw of
            None \<Rightarrow> Inl ErrGenesis
          | Some hdr \<Rightarrow>
             (let batch = [BPut (heightToKey prefixHeader 0) raw,
                           BPut (prefixHash @ BlockHash w hdr) (be32 0),
                           BPut (heightToKey prefixMerkle 0) (MerkleRoot hdr),
                           BPut keyTip (be32 0)]
              in case db_write ops (hs_db s) batch of
                   Inl e \<Rightarrow> Inl (ErrDB e)
                 | Inr db \<Rightarrow> Inr (s\<lparr>hs_db := db, tip := 0\<rparr>))))"

text \<open>\<^verbatim>\<open>NewStore\<close>, after \<^verbatim>\<open>leveldb.OpenFile\<close> has returned the handle \<open>db\<close>.\<close>

definition NewStore :: "('db, bytes) leveldb_ops \<Rightarrow> wire \<Rightarrow> 'db \<Rightarrow> header_err + 'db header_store" where
  "NewStore ops w db =
     (let s = \<lparr>hs_db = db, tip = 0, work = 0, skipPoW = False\<rparr>;
          opened = (case db_get ops db keyTip of
             Inl ErrNotFound \<Rightarrow> writeGenesis ops w s
           | Inl e \<Rightarrow> Inl (ErrDB e)
           | Inr tipBytes \<Rightarrow>
              (case read_uint32 tipBytes of Inl e \<Rightarrow> Inl e | Inr t \<Rightarrow> Inr (s\<lparr>tip := t\<rparr>)))
      in case opened of
           Inl e \<Rightarrow> Inl e
         | Inr s' \<Rightarrow>
            (case db_get ops (hs_db s') keyWork of
               Inr workBytes \<Rightarrow> Inr (s'\<lparr>work := int (be_val workBytes)\<rparr>)
             | Inl ErrNotFound \<Rightarrow> Inr s'
             | Inl e \<Rightarrow> Inl (ErrDB e)))"

definition NewTestStore :: "('db, bytes) leveldb_ops \<Rightarrow> wire \<Rightarrow> 'db \<Rightarrow> header_err + 'db header_store" where
  "NewTestStore ops w db =
     (case NewStore ops w db of Inl e \<Rightarrow> Inl e | Inr s \<Rightarrow> Inr (s\<lparr>skipPoW := True\<rparr>))"

definition Tip :: "'db header_store \<Rightarrow> uint32" where
  "Tip s = tip s"

definition Work :: "'db header_store \<Rightarrow> int" where
  "Work s = work s"

definition HeaderAtHeight :: "('db, bytes) leveldb_ops \<Rightarrow> 'db header_store \<Rightarrow> uint32 \<Rightarrow> dberr + bytes" where
  "HeaderAtHeight ops s height = db_get ops (hs_db s) (heightToKey prefixHeader height)"

definition hashAtHeight ::
  "('db, bytes) leveldb_ops \<Rightarrow> wire \<Rightarrow> 'db header_store \<Rightarrow> uint32 \<Rightarrow> header_err + bytes" where
  "hashAtHeight ops w s height =
     (case db_get ops (hs_db s) (heightToKey prefixHeader height) of
        Inl e \<Rightarrow> Inl (ErrTipHash e)
      | Inr raw \<Rightarrow>
         (case Deserialize w raw of None \<Rightarrow> Inl ErrTipHeader | Some hdr \<Rightarrow> Inr (BlockHash w hdr)))"

definition HashAtHeight ::
  "('db, bytes) leveldb_ops \<Rightarrow> wire \<Rightarrow> 'db header_store \<Rightarrow> uint32 \<Rightarrow> header_err + bytes" where
  "HashAtHeight ops w s height = hashAtHeight ops w s height"

definition HeightForHash :: "('db, bytes) leveldb_ops \<Rightarrow> 'db header_store \<Rightarrow> bytes \<Rightarrow> header_err + uint32" where
  "HeightForHash ops s hash =
     (case db_get ops (hs_db s) (prefixHash @ hash) of
        Inl e \<Rightarrow> Inl (ErrDB e)
      | Inr val \<Rightarrow> read_uint32 val)"

definition IsValidRootForHeight ::
  "('db, bytes) leveldb_ops \<Rightarrow> 'db header_store \<Rightarrow> bytes \<Rightarrow> uint32 \<Rightarrow> dberr + bool" where
  "IsValidRootForHeight ops s root height =
     (case db_get ops (hs_db s) (heightToKey prefixMerkle height) of
        Inl ErrNotFound \<Rightarrow> Inr False
      | Inl e \<Rightarrow> Inl e
      | Inr merkle \<Rightarrow> Inr (merkle = root))"

definition CurrentHeight :: "'db header_store \<Rightarrow> dberr + uint32" where
  "CurrentHeight s = Inr (tip s)"

text \<open>
  The loop of \<^verbatim>\<open>AddHeaders\<close>: \<open>i\<close> is the index of the next header, \<open>height\<close>, \<open>tipHash\<close>, \<open>batch\<close> and
  \<open>batchWork\<close> are the loop's variables.
\<close>

fun addLoop :: "wire \<Rightarrow> bool \<Rightarrow> nat \<Rightarrow> uint32 \<Rightarrow> bytes \<Rightarrow> bytes batch_op list \<Rightarrow> int \<Rightarrow> block_header list
    \<Rightarrow> header_err + (uint32 \<times> bytes batch_op list \<times> int)" where
  "addLoop w skip i height tipHash batch batchWork [] = Inr (height, batch, batchWork)"
| "addLoop w skip i height tipHash batch batchWork (hdr # hdrs) =
     (if PrevBlock hdr \<noteq> tipHash then Inl (ErrPrevHash i height)
      else case (if skip then Inr () else ValidatePoW w hdr) of
        Inl e \<Rightarrow> Inl (ErrPoW i height e)
      | Inr _ \<Rightarrow>
         (case Serialize w hdr of
            None \<Rightarrow> Inl (ErrSerialize i)
          | Some raw \<Rightarrow>
             addLoop w skip (Suc i) (height + 1) (BlockHash w hdr)
               (batch @ [BPut (heightToKey prefixHeader height) raw,
                         BPut (prefixHash @ BlockHash w hdr) (be32 height),
                         BPut (heightToKey prefixMerkle height) (MerkleRoot hdr)])
               (batchWork + WorkForHeader hdr) hdrs))"

definition AddHeaders :: "('db, bytes) leveldb_ops \<Rightarrow> wire \<Rightarrow> 'db header_store \<Rightarrow> uint32
    \<Rightarrow> block_header list \<Rightarrow> header_err + 'db header_store" where
  "AddHeaders ops w s startHeight headers =
     (if startHeight \<noteq> tip s + 1 then Inl (ErrStartHeight (tip s + 1) startHeight)
      else if headers = [] then Inr s
      else case hashAtHeight ops w s (tip s) of
        Inl e \<Rightarrow> Inl e
      | Inr tipHash \<Rightarrow>
         (case addLoop w (skipPoW s) 0 startHeight tipHash [] 0 headers of
            Inl e \<Rightarrow> Inl e
          | Inr (height, batch, batchWork) \<Rightarrow>
             (let newTip = height - 1;
                  newWork = work s + batchWork
              in case db_write ops (hs_db s)
                     (batch @ [BPut keyTip (be32 newTip), BPut keyWork (be_bytes (nat \<bar>newWork\<bar>))]) of
                   Inl e \<Rightarrow> Inl (ErrDB e)
                 | Inr db \<Rightarrow> Inr (s\<lparr>hs_db := db, tip := newTip, work := newWork\<rparr>))))"

text \<open>
  The loop of \<^verbatim>\<open>Rollback\<close>: from \<open>h\<close> down to \<open>toHeight\<close> (exclusive). The loop variable strictly
  decreases as a 32-bit word, since the guard keeps it above \<open>toHeight\<close>.
\<close>

function rollbackLoop :: "('db, bytes) leveldb_ops \<Rightarrow> wire \<Rightarrow> 'db \<Rightarrow> uint32 \<Rightarrow> uint32
    \<Rightarrow> bytes batch_op list \<Rightarrow> int \<Rightarrow> header_err + (bytes batch_op list \<times> int)" where
  "rollbackLoop ops w db h toHeight batch rollbackWork =
     (if h > toHeight then
        (case db_get ops db (heightToKey prefixHeader h) of
           Inl e \<Rightarrow> Inl (ErrReadHeader h e)
         | Inr raw \<Rightarrow>
            (case Deserialize w raw of
               None \<Rightarrow> Inl (ErrDeserialize h)
             | Some hdr \<Rightarrow>
                rollbackLoop ops w db (h - 1) toHeight
                  (batch @ [BDelete (heightToKey prefixHeader h),
                            BDelete (prefixHash @ BlockHash w hdr),
                            BDelete (heightToKey prefixMerkle h)])
                  (rollbackWork + WorkForHeader hdr)))
      else Inr (batch, rollbackWork))"
  by pat_completeness auto
termination
proof (relation "measure (\<lambda>(ops, w, db, h, t, b, r). unat h)")
  show "wf (measure (\<lambda>(ops, w, db, h, t, b, r). unat h))" by simp
next
  fix h toHeight :: uint32
  assume "toHeight < h"
  then have "h \<noteq> 0" by auto
  then show "\<And>(ops :: ('db, bytes) leveldb_ops) w db batch r raw hdr batch' r'.
      ((ops, w, db, h - 1, toHeight, batch', r'), (ops, w, db, h, toHeight, batch, r))
        \<in> measure (\<lambda>(ops, w, db, h, t, b, r). unat h)"
    by (simp add: unat_gt_0 measure_unat)
qed

declare rollbackLoop.simps [simp del]

definition Rollback :: "('db, bytes) leveldb_ops \<Rightarrow> wire \<Rightarrow> 'db header_store \<Rightarrow> uint32
    \<Rightarrow> header_err + 'db header_store" where
  "Rollback ops w s toHeight =
     (if toHeight \<ge> tip s then Inl (ErrRollbackTarget toHeight (tip s))
      else case rollbackLoop ops w (hs_db s) (tip s) toHeight [] 0 of
        Inl e \<Rightarrow> Inl e
      | Inr (batch, rollbackWork) \<Rightarrow>
         (let newWork = work s - rollbackWork
          in case db_write ops (hs_db s)
                 (batch @ [BPut keyTip (be32 toHeight), BPut keyWork (be_bytes (nat \<bar>newWork\<bar>))]) of
               Inl e \<Rightarrow> Inl (ErrDB e)
             | Inr db \<Rightarrow> Inr (s\<lparr>hs_db := db, tip := toHeight, work := newWork\<rparr>)))"

section \<open>The abstract chain\<close>

definition chain_map :: "wire \<Rightarrow> (bytes \<rightharpoonup> bytes) \<Rightarrow> block_header list \<Rightarrow> bool" where
  "chain_map w m hs \<longleftrightarrow>
     (\<forall>i < length hs. \<exists>raw. m (heightToKey prefixHeader (word_of_nat i)) = Some raw
        \<and> Deserialize w raw = Some (hs ! i)) \<and>
     (\<forall>i < length hs. m (heightToKey prefixMerkle (word_of_nat i)) = Some (MerkleRoot (hs ! i))) \<and>
     (\<forall>i < length hs. m (prefixHash @ BlockHash w (hs ! i)) = Some (be32 (word_of_nat i))) \<and>
     (\<forall>h. length hs \<le> unat h \<longrightarrow>
        m (heightToKey prefixHeader h) = None \<and> m (heightToKey prefixMerkle h) = None) \<and>
     (\<forall>x. x \<notin> BlockHash w ` set hs \<longrightarrow> m (prefixHash @ x) = None)"

definition repr ::
  "wire \<Rightarrow> ('db \<Rightarrow> (bytes \<rightharpoonup> bytes)) \<Rightarrow> 'db header_store \<Rightarrow> block_header list \<Rightarrow> bool" where
  "repr w contents s hs \<longleftrightarrow>
     hs \<noteq> [] \<and> length hs = Suc (unat (tip s)) \<and> distinct (map (BlockHash w) hs) \<and>
     linked w (PrevBlock (hd hs)) hs \<and>
     (\<not> skipPoW s \<longrightarrow> list_all (meets_target w) (tl hs)) \<and>
     work s = CumulativeWork (tl hs) \<and>
     contents (hs_db s) keyTip = Some (be32 (tip s)) \<and>
     (case contents (hs_db s) keyWork of None \<Rightarrow> work s = 0 | Some b \<Rightarrow> int (be_val b) = work s) \<and>
     chain_map w (contents (hs_db s)) hs"

lemmas key_defs = heightToKey_def prefixHeader_def prefixHash_def prefixMerkle_def keyTip_def keyWork_def

lemma key_simps [simp]:
  "heightToKey prefixHeader a = heightToKey prefixHeader b \<longleftrightarrow> a = b"
  "heightToKey prefixMerkle a = heightToKey prefixMerkle b \<longleftrightarrow> a = b"
  "heightToKey prefixHeader a \<noteq> heightToKey prefixMerkle b"
  "heightToKey prefixMerkle b \<noteq> heightToKey prefixHeader a"
  "heightToKey prefixHeader a \<noteq> prefixHash @ x" "prefixHash @ x \<noteq> heightToKey prefixHeader a"
  "heightToKey prefixMerkle a \<noteq> prefixHash @ x" "prefixHash @ x \<noteq> heightToKey prefixMerkle a"
  "heightToKey prefixHeader a \<noteq> keyTip" "heightToKey prefixHeader a \<noteq> keyWork"
  "heightToKey prefixMerkle a \<noteq> keyTip" "heightToKey prefixMerkle a \<noteq> keyWork"
  "keyTip \<noteq> heightToKey prefixHeader a" "keyWork \<noteq> heightToKey prefixHeader a"
  "keyTip \<noteq> heightToKey prefixMerkle a" "keyWork \<noteq> heightToKey prefixMerkle a"
  "keyTip \<noteq> prefixHash @ x" "keyWork \<noteq> prefixHash @ x"
  "prefixHash @ x \<noteq> keyTip" "prefixHash @ x \<noteq> keyWork" "keyTip \<noteq> keyWork" "keyWork \<noteq> keyTip"
  by (auto simp: key_defs)

lemma chain_map_meta [simp]:
  "chain_map w (m(keyTip \<mapsto> a)) hs = chain_map w m hs"
  "chain_map w (m(keyWork \<mapsto> b)) hs = chain_map w m hs"
  by (simp_all add: chain_map_def)

lemma chain_mapI:
  assumes "\<And>i. i < length hs \<Longrightarrow> \<exists>raw. m (heightToKey prefixHeader (word_of_nat i)) = Some raw
      \<and> Deserialize w raw = Some (hs ! i)"
    and "\<And>i. i < length hs \<Longrightarrow> m (heightToKey prefixMerkle (word_of_nat i)) = Some (MerkleRoot (hs ! i))"
    and "\<And>i. i < length hs \<Longrightarrow> m (prefixHash @ BlockHash w (hs ! i)) = Some (be32 (word_of_nat i))"
    and "\<And>h k. length hs \<le> unat h \<Longrightarrow> k \<in> {heightToKey prefixHeader h, heightToKey prefixMerkle h} \<Longrightarrow> m k = None"
    and "\<And>x. x \<notin> BlockHash w ` set hs \<Longrightarrow> m (prefixHash @ x) = None"
  shows "chain_map w m hs"
  using assms by (simp add: chain_map_def)

lemma chain_mapD:
  assumes "chain_map w m hs" and "i < length hs"
  shows "\<exists>raw. m (heightToKey prefixHeader (word_of_nat i)) = Some raw \<and> Deserialize w raw = Some (hs ! i)"
    and "m (heightToKey prefixMerkle (word_of_nat i)) = Some (MerkleRoot (hs ! i))"
    and "m (prefixHash @ BlockHash w (hs ! i)) = Some (be32 (word_of_nat i))"
  using assms by (simp_all add: chain_map_def)

lemma chain_map_absent:
  "chain_map w m hs \<Longrightarrow> m (prefixHash @ x) \<noteq> None \<Longrightarrow> x \<in> BlockHash w ` set hs"
  by (auto simp: chain_map_def)

lemma unat_word_of_nat32: "n < 2 ^ 32 \<Longrightarrow> unat (word_of_nat n :: uint32) = n"
  by (simp add: unat_of_nat)

lemma chain_map_snoc:
  assumes cm: "chain_map w m hs" and len: "length hs < 2 ^ 32"
    and fresh: "BlockHash w h \<notin> BlockHash w ` set hs" and raw: "Deserialize w raw = Some h"
  defines "n \<equiv> word_of_nat (length hs) :: uint32"
  shows "chain_map w (m(heightToKey prefixHeader n \<mapsto> raw, prefixHash @ BlockHash w h \<mapsto> be32 n,
    heightToKey prefixMerkle n \<mapsto> MerkleRoot h)) (hs @ [h])"
proof -
  have un: "unat n = length hs" using len by (simp add: n_def unat_word_of_nat32)
  have ne: "(word_of_nat i :: uint32) \<noteq> n" if "i < length hs" for i
    using that len un by (metis less_trans nat_neq_iff unat_word_of_nat32)
  have nh: "BlockHash w (hs ! i) \<noteq> BlockHash w h" if "i < length hs" for i
    using that fresh by (metis image_eqI nth_mem)
  have nu: "u \<noteq> n" if "Suc (length hs) \<le> unat u" for u
    using that un by auto
  show ?thesis
    using cm raw ne nh nu un
    by (auto simp: chain_map_def nth_append less_Suc_eq n_def)
qed

lemma run_batch_deletes: "run_batch (map BDelete ks) m = (\<lambda>k. if k \<in> set ks then None else m k)"
  by (induction ks arbitrary: m) (auto simp: fun_eq_iff)

section \<open>AddHeaders\<close>

fun header_puts :: "wire \<Rightarrow> uint32 \<Rightarrow> block_header list \<Rightarrow> bytes batch_op list" where
  "header_puts w height [] = []"
| "header_puts w height (hdr # hdrs) =
     [BPut (heightToKey prefixHeader height) (the (Serialize w hdr)),
      BPut (prefixHash @ BlockHash w hdr) (be32 height),
      BPut (heightToKey prefixMerkle height) (MerkleRoot hdr)] @ header_puts w (height + 1) hdrs"

lemma addLoop_iff:
  "addLoop w skip i height th batch bw hdrs = Inr r \<longleftrightarrow>
     linked w th hdrs \<and> (skip \<or> list_all (meets_target w) hdrs)
     \<and> list_all (\<lambda>h. Serialize w h \<noteq> None) hdrs
     \<and> r = (height + word_of_nat (length hdrs), batch @ header_puts w height hdrs, bw + CumulativeWork hdrs)"
proof (induction hdrs arbitrary: i height th batch bw)
  case Nil
  then show ?case by auto
next
  case (Cons h hs)
  show ?case
    using Cons.IH
    by (cases "PrevBlock h = th"; cases skip; cases "Serialize w h")
       (auto simp: ac_simps split: sum.splits dest: ValidatePoW_Inl)
qed

lemma chain_map_puts:
  assumes "chain_map w m hs" and "length hs + length new \<le> 2 ^ 32"
    and "distinct (map (BlockHash w) (hs @ new))"
    and "list_all (\<lambda>h. \<exists>raw. Serialize w h = Some raw \<and> Deserialize w raw = Some h) new"
  shows "chain_map w (run_batch (header_puts w (word_of_nat (length hs)) new) m) (hs @ new)"
  using assms
proof (induction new arbitrary: m hs)
  case Nil
  then show ?case by simp
next
  case (Cons h new)
  let ?n = "word_of_nat (length hs) :: uint32"
  obtain raw where raw: "Serialize w h = Some raw" "Deserialize w raw = Some h"
    using Cons.prems(4) by auto
  have step: "chain_map w (m(heightToKey prefixHeader ?n \<mapsto> raw, prefixHash @ BlockHash w h \<mapsto> be32 ?n,
      heightToKey prefixMerkle ?n \<mapsto> MerkleRoot h)) (hs @ [h])"
    using Cons.prems raw(2) by (intro chain_map_snoc) auto
  from Cons.prems(2,3,4) raw have "length (hs @ [h]) + length new \<le> 2 ^ 32"
    "distinct (map (BlockHash w) ((hs @ [h]) @ new))"
    "list_all (\<lambda>h. \<exists>raw. Serialize w h = Some raw \<and> Deserialize w raw = Some h) new"
    by auto
  note Cons.IH [OF step this]
  with raw show ?case by (simp add: add.commute fun_upd_def)
qed

locale header_env = leveldb ops contents
  for ops :: "('db, bytes) leveldb_ops" and contents :: "'db \<Rightarrow> (bytes \<rightharpoonup> bytes)" +
  fixes w :: wire
  assumes deserialize_serialize: "Serialize w h = Some raw \<Longrightarrow> Deserialize w raw = Some h"
begin

lemma repr_header:
  assumes "repr w contents s hs" and "unat h < length hs"
  obtains raw where "db_get ops (hs_db s) (heightToKey prefixHeader h) = Inr raw"
    and "Deserialize w raw = Some (hs ! unat h)"
proof -
  have "chain_map w (contents (hs_db s)) hs" using assms(1) by (simp add: repr_def)
  then obtain raw where "contents (hs_db s) (heightToKey prefixHeader (word_of_nat (unat h))) = Some raw"
    and "Deserialize w raw = Some (hs ! unat h)"
    using assms(2) by (auto simp: chain_map_def)
  then show thesis using that by (simp add: get_found)
qed

lemma hashAtHeight_repr:
  assumes "repr w contents s hs" and "unat h < length hs"
  shows "hashAtHeight ops w s h = Inr (BlockHash w (hs ! unat h))"
  using repr_header [OF assms] by (metis (no_types, lifting) hashAtHeight_def option.simps(5) sum.simps(6))

lemma repr_tip: "repr w contents s hs \<Longrightarrow> hs ! unat (tip s) = last hs"
  by (simp add: repr_def last_conv_nth)

lemma AddHeaders_inversion:
  assumes "repr w contents s hs" and "AddHeaders ops w s start new = Inr s'" and "new \<noteq> []"
  obtains db where "start = tip s + 1"
    and "linked w (BlockHash w (last hs)) new"
    and "skipPoW s \<or> list_all (meets_target w) new"
    and "list_all (\<lambda>h. Serialize w h \<noteq> None) new"
    and "contents db = (run_batch (header_puts w (tip s + 1) new) (contents (hs_db s)))
           (keyTip \<mapsto> be32 (tip s + word_of_nat (length new)),
            keyWork \<mapsto> be_bytes (nat \<bar>work s + CumulativeWork new\<bar>))"
    and "s' = s\<lparr>hs_db := db, tip := tip s + word_of_nat (length new),
           work := work s + CumulativeWork new\<rparr>"
proof -
  have hash: "hashAtHeight ops w s (tip s) = Inr (BlockHash w (last hs))"
    using hashAtHeight_repr [OF assms(1), of "tip s"] repr_tip [OF assms(1)] assms(1)
    by (simp add: repr_def)
  from assms(2,3) hash obtain r where start: "start = tip s + 1"
    and loop: "addLoop w (skipPoW s) 0 start (BlockHash w (last hs)) [] 0 new = Inr r"
    by (auto simp: AddHeaders_def split: if_splits sum.splits)
  note conds = loop [unfolded addLoop_iff]
  let ?b = "header_puts w start new @ [BPut keyTip (be32 (tip s + word_of_nat (length new))),
      BPut keyWork (be_bytes (nat \<bar>work s + CumulativeWork new\<bar>))]"
  from assms(2,3) hash start loop conds obtain db
    where db: "db_write ops (hs_db s) ?b = Inr db"
      and s': "s' = s\<lparr>hs_db := db, tip := tip s + word_of_nat (length new),
           work := work s + CumulativeWork new\<rparr>"
    by (auto simp: AddHeaders_def Let_def split: sum.splits)
  from write_spec [OF db] start have "contents db = (run_batch (header_puts w (tip s + 1) new) (contents (hs_db s)))
           (keyTip \<mapsto> be32 (tip s + word_of_nat (length new)),
            keyWork \<mapsto> be_bytes (nat \<bar>work s + CumulativeWork new\<bar>))" by simp
  with that [OF start _ _ _ _ s'] conds show thesis by blast
qed

lemma tip_word:
  assumes "repr w contents s hs"
  shows "tip s + 1 = word_of_nat (length hs)" and "length hs \<le> 2 ^ 32"
proof -
  have len: "length hs = Suc (unat (tip s))" using assms by (simp add: repr_def)
  then show "tip s + 1 = word_of_nat (length hs)" by (simp add: add.commute)
  show "length hs \<le> 2 ^ 32" using len unat_less_32 [of "tip s"] by simp
qed

lemma AddHeaders_refines:
  assumes rp: "repr w contents s hs" and add: "AddHeaders ops w s start new = Inr s'"
    and len: "length hs + length new \<le> 2 ^ 32" and dist: "distinct (map (BlockHash w) (hs @ new))"
  shows "repr w contents s' (hs @ new)"
proof (cases "new = []")
  case True
  with add rp show ?thesis by (simp add: AddHeaders_def split: if_splits)
next
  case False
  note tw = tip_word [OF rp]
  from AddHeaders_inversion [OF rp add False] obtain db where inv:
    "linked w (BlockHash w (last hs)) new" "skipPoW s \<or> list_all (meets_target w) new"
    "list_all (\<lambda>h. Serialize w h \<noteq> None) new"
    "contents db = (run_batch (header_puts w (tip s + 1) new) (contents (hs_db s)))
       (keyTip \<mapsto> be32 (tip s + word_of_nat (length new)),
        keyWork \<mapsto> be_bytes (nat \<bar>work s + CumulativeWork new\<bar>))"
    "s' = s\<lparr>hs_db := db, tip := tip s + word_of_nat (length new), work := work s + CumulativeWork new\<rparr>"
    by metis
  have ser: "list_all (\<lambda>h. \<exists>raw. Serialize w h = Some raw \<and> Deserialize w raw = Some h) new"
    using inv(3) deserialize_serialize by (auto simp: list_all_iff)
  have cm: "chain_map w (contents db) (hs @ new)"
    using chain_map_puts [OF _ len dist ser, of "contents (hs_db s)"] rp
    by (simp add: inv(4) tw(1) repr_def)
  have tip': "Suc (unat (tip s + word_of_nat (length new))) = length (hs @ new)"
  proof -
    have "tip s + word_of_nat (length new) = word_of_nat (unat (tip s) + length new)" by simp
    moreover have "unat (tip s) + length new < 2 ^ 32" using rp len by (simp add: repr_def)
    ultimately show ?thesis using rp by (simp only: unat_word_of_nat32) (simp add: repr_def)
  qed
  show ?thesis
    using rp inv cm tip' dist
    by (simp add: repr_def linked_append tl_append list_all_iff split: list.splits) (cases hs; auto)
qed

end

section \<open>Rollback\<close>

definition header_keys :: "wire \<Rightarrow> block_header list \<Rightarrow> nat \<Rightarrow> bytes list" where
  "header_keys w hs i = [heightToKey prefixHeader (word_of_nat i), prefixHash @ BlockHash w (hs ! i),
     heightToKey prefixMerkle (word_of_nat i)]"

definition dropped_keys :: "wire \<Rightarrow> block_header list \<Rightarrow> nat \<Rightarrow> nat \<Rightarrow> bytes list" where
  "dropped_keys w hs t h = concat (map (header_keys w hs) (rev [Suc t..<Suc h]))"

lemma dropped_keys_step:
  "t < h \<Longrightarrow> dropped_keys w hs t h = header_keys w hs h @ dropped_keys w hs t (h - 1)"
  by (cases h) (simp_all add: dropped_keys_def)

lemma CumulativeWork_take_Suc:
  "t < h \<Longrightarrow> h < length hs \<Longrightarrow>
     CumulativeWork (drop (Suc t) (take (Suc h) hs))
     = WorkForHeader (hs ! h) + CumulativeWork (drop (Suc t) (take h hs))"
  by (simp add: take_Suc_conv_app_nth)

lemma set_dropped_keys:
  "set (dropped_keys w hs t h) = (\<Union>i \<in> {t<..h}. set (header_keys w hs i))"
proof -
  have "set (rev [Suc t..<Suc h]) = {t<..h}" by auto
  then show ?thesis unfolding dropped_keys_def set_concat set_map by simp
qed

context header_env
begin

lemma rollbackLoop_repr:
  assumes "repr w contents s hs" and "unat h < length hs" and "unat t \<le> unat h"
  shows "rollbackLoop ops w (hs_db s) h t batch rw =
    Inr (batch @ map BDelete (dropped_keys w hs (unat t) (unat h)),
         rw + CumulativeWork (drop (Suc (unat t)) (take (Suc (unat h)) hs)))"
  using assms(2,3)
proof (induction "unat h" arbitrary: h batch rw)
  case 0
  then have "\<not> t < h" by (simp add: word_less_nat_alt)
  with 0 show ?case
    by (subst rollbackLoop.simps) (simp add: dropped_keys_def)
next
  case (Suc n)
  show ?case
  proof (cases "t < h")
    case True
    then have lt: "unat t < unat h" by (simp add: word_less_nat_alt)
    have h1: "unat (h - 1) = unat h - 1" using Suc.hyps(2) by (intro unat_minus_one) auto
    obtain raw where raw: "db_get ops (hs_db s) (heightToKey prefixHeader h) = Inr raw"
      "Deserialize w raw = Some (hs ! unat h)"
      using repr_header [OF assms(1) Suc.prems(1)] by blast
    have "rollbackLoop ops w (hs_db s) (h - 1) t
        (batch @ map BDelete (header_keys w hs (unat h))) (rw + WorkForHeader (hs ! unat h)) =
      Inr ((batch @ map BDelete (header_keys w hs (unat h)))
             @ map BDelete (dropped_keys w hs (unat t) (unat (h - 1))),
           rw + WorkForHeader (hs ! unat h)
             + CumulativeWork (drop (Suc (unat t)) (take (Suc (unat (h - 1))) hs)))"
      using Suc.prems Suc.hyps(2) lt h1 by (intro Suc.hyps(1)) auto
    then show ?thesis
      using True raw h1 lt Suc.prems
      by (subst rollbackLoop.simps)
         (simp add: dropped_keys_step [OF lt] header_keys_def CumulativeWork_take_Suc)
  next
    case False
    with Suc.prems(2) have "unat t = unat h" by (simp add: word_less_nat_alt)
    with False show ?thesis
      by (subst rollbackLoop.simps) (simp add: dropped_keys_def)
  qed
qed

lemma mem_dropped_keys:
  assumes dist: "distinct (map (BlockHash w) hs)" and len: "length hs \<le> 2 ^ 32" and i: "i < length hs"
  shows "heightToKey prefixHeader (word_of_nat i) \<in> set (dropped_keys w hs t (length hs - 1)) \<longleftrightarrow> t < i"
    and "heightToKey prefixMerkle (word_of_nat i) \<in> set (dropped_keys w hs t (length hs - 1)) \<longleftrightarrow> t < i"
    and "prefixHash @ BlockHash w (hs ! i) \<in> set (dropped_keys w hs t (length hs - 1)) \<longleftrightarrow> t < i"
proof -
  have inj: "(word_of_nat a :: uint32) = word_of_nat b \<longleftrightarrow> a = b" if "a < length hs" "b < length hs" for a b
    using that len by (metis less_le_trans unat_word_of_nat32)
  have hinj: "BlockHash w (hs ! a) = BlockHash w (hs ! b) \<longleftrightarrow> a = b" if "a < length hs" "b < length hs" for a b
    using that dist by (metis (no_types, lifting) distinct_conv_nth length_map nth_map)
  show "heightToKey prefixHeader (word_of_nat i) \<in> set (dropped_keys w hs t (length hs - 1)) \<longleftrightarrow> t < i"
    and "heightToKey prefixMerkle (word_of_nat i) \<in> set (dropped_keys w hs t (length hs - 1)) \<longleftrightarrow> t < i"
    and "prefixHash @ BlockHash w (hs ! i) \<in> set (dropped_keys w hs t (length hs - 1)) \<longleftrightarrow> t < i"
    using i inj hinj by (auto simp: set_dropped_keys header_keys_def)
qed

text \<open>What a rollback to \<open>t\<close> leaves nothing of: the keys of the heights above and of the hashes it drops.\<close>

lemma cut_heights:
  assumes cm: "chain_map w m hs" and dist: "distinct (map (BlockHash w) hs)" and len: "length hs \<le> 2 ^ 32"
    and "Suc t \<le> unat u" and k: "k \<in> {heightToKey prefixHeader u, heightToKey prefixMerkle u}"
  shows "m k = None \<or> k \<in> set (dropped_keys w hs t (length hs - 1))"
proof (cases "unat u < length hs")
  case True
  with assms(4) k mem_dropped_keys(1,2) [OF dist len True, of t] show ?thesis by auto
next
  case False
  with k cm show ?thesis by (auto simp: chain_map_def)
qed

lemma cut_hashes:
  assumes cm: "chain_map w m hs" and dist: "distinct (map (BlockHash w) hs)" and len: "length hs \<le> 2 ^ 32"
    and x: "x \<notin> BlockHash w ` set (take (Suc t) hs)"
  shows "m (prefixHash @ x) = None \<or> prefixHash @ x \<in> set (dropped_keys w hs t (length hs - 1))"
proof (cases "x \<in> BlockHash w ` set hs")
  case True
  then obtain i where i: "i < length hs" "x = BlockHash w (hs ! i)" by (auto simp: in_set_conv_nth)
  have "hs ! i \<in> set (take (Suc t) hs)" if "i \<le> t"
    using that i(1) by (auto simp: in_set_conv_nth)
  with x i(2) have "t < i" by (metis image_eqI not_le_imp_less)
  with i mem_dropped_keys(3) [OF dist len i(1)] show ?thesis by simp
next
  case False
  with cm show ?thesis by (simp add: chain_map_def)
qed

lemma chain_map_cut:
  assumes cm: "chain_map w m hs" and dist: "distinct (map (BlockHash w) hs)"
    and t: "t < length hs" and len: "length hs \<le> 2 ^ 32"
  shows "chain_map w (run_batch (map BDelete (dropped_keys w hs t (length hs - 1))) m) (take (Suc t) hs)"
proof (rule chain_mapI)
  fix i assume "i < length (take (Suc t) hs)"
  then have i: "i \<le> t" "i < length hs" by auto
  note at_i = chain_mapD [OF cm i(2)] and kept = mem_dropped_keys [OF dist len i(2), of t]
  show "\<exists>raw. run_batch (map BDelete (dropped_keys w hs t (length hs - 1))) m
      (heightToKey prefixHeader (word_of_nat i)) = Some raw \<and> Deserialize w raw = Some (take (Suc t) hs ! i)"
    using at_i(1) i kept(1) by (simp add: run_batch_deletes)
  show "run_batch (map BDelete (dropped_keys w hs t (length hs - 1))) m
      (heightToKey prefixMerkle (word_of_nat i)) = Some (MerkleRoot (take (Suc t) hs ! i))"
    using at_i(2) i kept(2) by (simp add: run_batch_deletes)
  show "run_batch (map BDelete (dropped_keys w hs t (length hs - 1))) m
      (prefixHash @ BlockHash w (take (Suc t) hs ! i)) = Some (be32 (word_of_nat i))"
    using at_i(3) i kept(3) by (simp add: run_batch_deletes)
next
  fix u :: uint32 and k
  assume "length (take (Suc t) hs) \<le> unat u"
    and "k \<in> {heightToKey prefixHeader u, heightToKey prefixMerkle u}"
  with cut_heights [OF cm dist len, of t u k] t
  show "run_batch (map BDelete (dropped_keys w hs t (length hs - 1))) m k = None" by (auto simp: run_batch_deletes)
next
  fix x assume "x \<notin> BlockHash w ` set (take (Suc t) hs)"
  with cut_hashes [OF cm dist len]
  show "run_batch (map BDelete (dropped_keys w hs t (length hs - 1))) m (prefixHash @ x) = None" by (auto simp: run_batch_deletes)
qed

end

context header_env
begin

lemma Rollback_value:
  assumes rp: "repr w contents s hs" and t: "t < tip s"
  shows "Rollback ops w s t =
    (case db_write ops (hs_db s)
       (map BDelete (dropped_keys w hs (unat t) (length hs - 1))
        @ [BPut keyTip (be32 t),
           BPut keyWork (be_bytes (nat (CumulativeWork (tl (take (Suc (unat t)) hs)))))]) of
       Inl e \<Rightarrow> Inl (ErrDB e)
     | Inr db \<Rightarrow> Inr (s\<lparr>hs_db := db, tip := t, work := CumulativeWork (tl (take (Suc (unat t)) hs))\<rparr>))"
proof -
  have len: "length hs = Suc (unat (tip s))" and hs: "hs \<noteq> []" using rp by (auto simp: repr_def)
  have lt: "unat t < unat (tip s)" using t by (simp add: word_less_nat_alt)
  have loop: "rollbackLoop ops w (hs_db s) (tip s) t [] 0 =
      Inr (map BDelete (dropped_keys w hs (unat t) (length hs - 1)), CumulativeWork (drop (Suc (unat t)) hs))"
    using rollbackLoop_repr [OF rp, of "tip s" t "[]" 0] len lt by simp
  have "tl hs = tl (take (Suc (unat t)) hs) @ drop (Suc (unat t)) hs"
    using hs by (cases hs) simp_all
  then have "work s - CumulativeWork (drop (Suc (unat t)) hs) = CumulativeWork (tl (take (Suc (unat t)) hs))"
    using rp by (simp add: repr_def)
  then show ?thesis
    using t loop by (simp add: Rollback_def Let_def not_le split: sum.splits)
qed

lemma Rollback_refines:
  assumes rp: "repr w contents s hs" and roll: "Rollback ops w s t = Inr s'"
  shows "repr w contents s' (take (Suc (unat t)) hs)"
proof -
  have t: "t < tip s" using roll by (simp add: Rollback_def split: if_splits)
  then have lt: "unat t < unat (tip s)" by (simp add: word_less_nat_alt)
  let ?hs = "take (Suc (unat t)) hs"
  from roll Rollback_value [OF rp t] obtain db where
    db: "db_write ops (hs_db s) (map BDelete (dropped_keys w hs (unat t) (length hs - 1))
        @ [BPut keyTip (be32 t), BPut keyWork (be_bytes (nat (CumulativeWork (tl ?hs))))]) = Inr db"
    and s': "s' = s\<lparr>hs_db := db, tip := t, work := CumulativeWork (tl ?hs)\<rparr>"
    by (auto split: sum.splits)
  have c: "contents db = (run_batch (map BDelete (dropped_keys w hs (unat t) (length hs - 1))) (contents (hs_db s)))
      (keyTip \<mapsto> be32 t, keyWork \<mapsto> be_bytes (nat (CumulativeWork (tl ?hs))))"
    using write_spec [OF db] by simp
  have cm: "chain_map w (contents db) ?hs"
    using rp lt tip_word(2) [OF rp] chain_map_cut [of "contents (hs_db s)" hs "unat t"]
    by (simp add: c repr_def)
  have "distinct (map (BlockHash w) ?hs)" using rp by (simp add: repr_def flip: take_map)
  moreover have "linked w (PrevBlock (hd ?hs)) ?hs" using rp by (cases hs) (auto simp: repr_def intro: linked_take)
  moreover have "\<not> skipPoW s \<longrightarrow> list_all (meets_target w) (tl ?hs)"
    using rp by (cases hs) (auto simp: repr_def list_all_iff dest: in_set_takeD)
  ultimately show ?thesis
    using rp lt cm by (simp add: repr_def s' c)
qed

lemma AddHeaders_accepts:
  assumes rp: "repr w contents s hs" and lk: "linked w (BlockHash w (last hs)) new"
    and pow: "skipPoW s \<or> list_all (meets_target w) new"
    and ser: "list_all (\<lambda>h. Serialize w h \<noteq> None) new" and rel: "reliable ops"
  shows "\<exists>s'. AddHeaders ops w s (tip s + 1) new = Inr s'"
proof -
  have hash: "hashAtHeight ops w s (tip s) = Inr (BlockHash w (last hs))"
    using hashAtHeight_repr [OF rp, of "tip s"] repr_tip [OF rp] rp by (simp add: repr_def)
  obtain height batch bw
    where loop: "addLoop w (skipPoW s) 0 (tip s + 1) (BlockHash w (last hs)) [] 0 new = Inr (height, batch, bw)"
    using lk pow ser by (auto simp: addLoop_iff)
  obtain db where "db_write ops (hs_db s) (batch @ [BPut keyTip (be32 (height - 1)),
      BPut keyWork (be_bytes (nat \<bar>work s + bw\<bar>))]) = Inr db"
    using reliable_write [OF rel] by blast
  with hash loop show ?thesis by (simp add: AddHeaders_def Let_def)
qed

lemma IsValidRootForHeight_repr:
  assumes "repr w contents s hs"
  shows "IsValidRootForHeight ops s root h =
    Inr (unat h < length hs \<and> MerkleRoot (hs ! unat h) = root)"
proof (cases "unat h < length hs")
  case True
  have cm: "chain_map w (contents (hs_db s)) hs" using assms by (simp add: repr_def)
  then have "contents (hs_db s) (heightToKey prefixMerkle (word_of_nat (unat h)))
      = Some (MerkleRoot (hs ! unat h))"
    using True unfolding chain_map_def by blast
  with True show ?thesis by (simp add: IsValidRootForHeight_def get_spec)
next
  case False
  have "chain_map w (contents (hs_db s)) hs" using assms by (simp add: repr_def)
  with False have "contents (hs_db s) (heightToKey prefixMerkle h) = None"
    by (simp add: chain_map_def)
  with False show ?thesis by (simp add: IsValidRootForHeight_def get_spec)
qed

lemma HeightForHash_repr:
  assumes "repr w contents s hs"
  shows "HeightForHash ops s (BlockHash w h) = Inr n \<Longrightarrow> unat n < length hs \<and> BlockHash w (hs ! unat n) = BlockHash w h"
    and "i < length hs \<Longrightarrow> HeightForHash ops s (BlockHash w (hs ! i)) = Inr (word_of_nat i)"
proof -
  have cm: "chain_map w (contents (hs_db s)) hs" using assms by (simp add: repr_def)
  show known: "HeightForHash ops s (BlockHash w (hs ! i)) = Inr (word_of_nat i)" if "i < length hs" for i
    using that cm by (simp add: chain_map_def HeightForHash_def get_spec read_uint32_def)
  assume n: "HeightForHash ops s (BlockHash w h) = Inr n"
  then have "contents (hs_db s) (prefixHash @ BlockHash w h) \<noteq> None"
    by (auto simp: HeightForHash_def get_spec split: option.splits)
  with cm have "BlockHash w h \<in> BlockHash w ` set hs" by (rule chain_map_absent)
  then obtain i where i: "i < length hs" "BlockHash w h = BlockHash w (hs ! i)"
    by (metis image_iff in_set_conv_nth)
  with known n have "n = word_of_nat i" by simp
  moreover have "i < 2 ^ 32" using i tip_word(2) [OF assms] by simp
  ultimately show "unat n < length hs \<and> BlockHash w (hs ! unat n) = BlockHash w h"
    using i by (simp add: unat_word_of_nat32)
qed

lemma NewStore_reopen:
  assumes "repr w contents s hs"
  shows "NewStore ops w (hs_db s) = Inr (s\<lparr>skipPoW := False\<rparr>)"
  using assms
  by (auto simp: NewStore_def Let_def repr_def get_spec read_uint32_def split: option.splits)

lemma NewStore_fresh:
  assumes "contents db = Map.empty" and "NewStore ops w db = Inr s"
  shows "\<exists>g. genesisHeader w = Some g \<and> repr w contents s [g]"
proof -
  let ?s0 = "\<lparr>hs_db = db, tip = 0, work = 0, skipPoW = False\<rparr> :: 'db header_store"
  obtain s1 where s1: "writeGenesis ops w ?s0 = Inr s1"
    using assms by (auto simp: NewStore_def Let_def get_spec split: sum.splits)
  then obtain g raw where g: "genesisHeader w = Some g" "Serialize w g = Some raw"
    by (auto simp: writeGenesis_def genesisHeaderBytes_def bind_eq_Some_conv split: option.splits)
  note d = deserialize_serialize [OF g(2)]
  from s1 g d obtain db1 where db1: "db_write ops db [BPut (heightToKey prefixHeader 0) raw,
      BPut (prefixHash @ BlockHash w g) (be32 0), BPut (heightToKey prefixMerkle 0) (MerkleRoot g),
      BPut keyTip (be32 0)] = Inr db1" and s1': "s1 = ?s0\<lparr>hs_db := db1\<rparr>"
    by (auto simp: writeGenesis_def genesisHeaderBytes_def Let_def split: sum.splits)
  have c: "contents db1 = (Map.empty :: bytes \<rightharpoonup> bytes)(heightToKey prefixHeader 0 \<mapsto> raw,
      prefixHash @ BlockHash w g \<mapsto> be32 0, heightToKey prefixMerkle 0 \<mapsto> MerkleRoot g, keyTip \<mapsto> be32 0)"
    using write_spec [OF db1] assms(1) by simp
  have "s = s1"
    using assms s1 s1' c by (simp add: NewStore_def Let_def get_spec)
  moreover have "chain_map w (contents db1) [g]"
    using d by (auto simp: c chain_map_def)
  ultimately have "repr w contents s [g]" by (simp add: repr_def s1' c)
  with g show ?thesis by blast
qed

end

section \<open>Reachable stores\<close>

text \<open>
  Every history of a store: opening an empty database, adding headers, rolling back, closing and
  opening again. The second argument follows the abstract chain. The side conditions of \<open>add\<close> say
  that no two blocks of the chain have the same hash and that heights fit into 32 bits.
\<close>

inductive store_history :: "('db, bytes) leveldb_ops \<Rightarrow> wire \<Rightarrow> 'db \<Rightarrow> 'db header_store
    \<Rightarrow> block_header list \<Rightarrow> bool"
  for ops :: "('db, bytes) leveldb_ops" and w :: wire and db0 :: 'db where
  opened: "NewStore ops w db0 = Inr s \<Longrightarrow> genesisHeader w = Some g \<Longrightarrow> store_history ops w db0 s [g]"
| add: "store_history ops w db0 s hs \<Longrightarrow> AddHeaders ops w s start new = Inr s' \<Longrightarrow>
    length hs + length new \<le> 2 ^ 32 \<Longrightarrow> distinct (map (BlockHash w) (hs @ new)) \<Longrightarrow>
    store_history ops w db0 s' (hs @ new)"
| rollback: "store_history ops w db0 s hs \<Longrightarrow> Rollback ops w s t = Inr s' \<Longrightarrow>
    store_history ops w db0 s' (take (Suc (unat t)) hs)"
| reopen: "store_history ops w db0 s hs \<Longrightarrow> NewStore ops w (hs_db s) = Inr s' \<Longrightarrow>
    store_history ops w db0 s' hs"

context header_env
begin

lemma history_repr:
  assumes "contents db0 = Map.empty" and "store_history ops w db0 s hs"
  shows "repr w contents s hs \<and> \<not> skipPoW s \<and> genesisHeader w = Some (hd hs)"
  using assms(2)
proof (induction rule: store_history.induct)
  case (opened s g)
  then show ?case
    using NewStore_fresh [OF assms(1) opened(1)]
    by (auto simp: NewStore_def writeGenesis_def Let_def split: sum.splits option.splits dberr.splits)
next
  case (add s hs start new s')
  then have "repr w contents s' (hs @ new)" using AddHeaders_refines by blast
  moreover have "skipPoW s' = skipPoW s"
    using add(2) by (auto simp: AddHeaders_def Let_def split: if_splits sum.splits)
  moreover have "hs \<noteq> []" using add.IH by (simp add: repr_def)
  ultimately show ?case using add.IH by simp
next
  case (rollback s hs t s')
  then have "repr w contents s' (take (Suc (unat t)) hs)" using Rollback_refines by blast
  moreover have "skipPoW s' = skipPoW s"
    using rollback(2) by (auto simp: Rollback_def Let_def split: if_splits sum.splits)
  ultimately show ?case using rollback.IH by (cases hs) auto
next
  case (reopen s hs s')
  then have "s' = s\<lparr>skipPoW := False\<rparr>" using NewStore_reopen by auto
  with reopen.IH show ?case by (auto simp: repr_def split: option.splits)
qed

end

section \<open>A concrete header format\<close>

text \<open>
  For concrete runs: an 80-byte header format in the layout of \<^verbatim>\<open>wire.BlockHeader\<close> (big-endian
  integers), and a stand-in for the block hash that reads the nonce.
\<close>

definition fits :: "block_header \<Rightarrow> bool" where
  "fits h \<longleftrightarrow> length (PrevBlock h) = 32 \<and> length (MerkleRoot h) = 32
     \<and> 0 \<le> Timestamp h \<and> Timestamp h < 2 ^ 32"

definition demo_wire :: wire where
  "demo_wire = \<lparr>
     Serialize = (\<lambda>h. if fits h then Some (be32 (Version h) @ PrevBlock h @ MerkleRoot h
        @ be32 (word_of_int (Timestamp h)) @ be32 (Bits h) @ be32 (Nonce h)) else None),
     Deserialize = (\<lambda>b. Some \<lparr>Version = un_be32 b, PrevBlock = take 32 (drop 4 b),
        MerkleRoot = take 32 (drop 36 b), Timestamp = uint (un_be32 (drop 68 b)),
        Bits = un_be32 (drop 72 b), Nonce = un_be32 (drop 76 b)\<rparr>),
     BlockHash = (\<lambda>h. be32 (Nonce h) @ replicate 28 (CHR 0x00)),
     NewHashFromStr = (\<lambda>s. map_option rev (hex_decode s))\<rparr>"

lemma un_be32_append [simp]: "un_be32 (be32 x @ ys) = x"
  using un_be32_be32 [of x] by (simp add: be32_def Let_def)

lemma demo_roundtrip: "Serialize demo_wire h = Some raw \<Longrightarrow> Deserialize demo_wire raw = Some h"
  by (cases h) (auto simp: demo_wire_def fits_def uint_word_of_int split: if_splits)

interpretation demo: header_env mem_ops map_of demo_wire
  by unfold_locales (rule demo_roundtrip)

definition demo_block :: "uint32 \<Rightarrow> uint32 \<Rightarrow> block_header" where
  "demo_block prev nonce = \<lparr>Version = 1, PrevBlock = be32 prev @ replicate 28 (CHR 0x00),
     MerkleRoot = replicate 32 (CHR 0x41), Timestamp = 1231469665, Bits = 0x1d00ffff, Nonce = nonce\<rparr>"

definition demo_genesis :: block_header where
  "demo_genesis = the (genesisHeader demo_wire)"

lemma demo_genesis: "genesisHeader demo_wire = Some demo_genesis" "fits demo_genesis"
  "BlockHash demo_wire demo_genesis = be32 2083236893 @ replicate 28 (CHR 0x00)"
  by (simp_all add: genesisHeader_def demo_genesis_def demo_wire_def fits_def unhex_def)

lemma demo_block_simps [simp]:
  "\<exists>raw. Serialize demo_wire (demo_block p n) = Some raw"
  "BlockHash demo_wire (demo_block p n) = be32 n @ replicate 28 (CHR 0x00)"
  "PrevBlock (demo_block p n) = be32 p @ replicate 28 (CHR 0x00)"
  "MerkleRoot (demo_block p n) = replicate 32 (CHR 0x41)"
  by (simp_all add: demo_wire_def demo_block_def fits_def)

lemma demo_opens: "\<exists>s. NewStore mem_ops demo_wire [] = Inr s"
proof -
  obtain raw where "Serialize demo_wire demo_genesis = Some raw"
    using demo_genesis(2) by (simp add: demo_wire_def)
  moreover from this have "Deserialize demo_wire raw = Some demo_genesis" by (rule demo_roundtrip)
  ultimately show ?thesis
    by (simp add: NewStore_def writeGenesis_def genesisHeaderBytes_def demo_genesis mem_ops_def Let_def
        split: option.splits)
qed

lemma demo_meets: "n \<in> {1, 2} \<Longrightarrow> meets_target demo_wire (demo_block p n)"
  by (auto simp: meets_target_def hashToBig_def be_val_def be32_def Let_def upt_rec)
     (simp_all add: compactToBig_def demo_block_def Let_def)

section \<open>Properties\<close>

lemma repr_functional:
  assumes "repr w contents s hs" and "repr w contents t hs"
  shows "tip s = tip t \<and> work s = work t"
proof -
  have "unat (tip s) = unat (tip t)" "work s = work t" using assms by (simp_all add: repr_def)
  then show ?thesis by (simp add: word_unat_eq_iff)
qed

lemma demo_chain:
  assumes "NewStore mem_ops demo_wire [] = Inr s"
  shows "repr demo_wire map_of s [demo_genesis]" and "\<not> skipPoW s" and "tip s = 0"
proof -
  have h: "store_history mem_ops demo_wire [] s [demo_genesis]"
    using assms demo_genesis(1) by (rule store_history.opened)
  have "map_of [] = Map.empty" by simp
  from demo.history_repr [OF this h] show rp: "repr demo_wire map_of s [demo_genesis]" and "\<not> skipPoW s"
    by simp_all
  show "tip s = 0" using rp by (simp add: repr_def unat_eq_0)
qed

lemma demo_adds:
  assumes "NewStore mem_ops demo_wire [] = Inr s"
  shows "\<exists>s'. AddHeaders mem_ops demo_wire s 1 [demo_block 2083236893 1] = Inr s'"
proof -
  have "\<exists>s'. AddHeaders mem_ops demo_wire s (tip s + 1) [demo_block 2083236893 1] = Inr s'"
    using demo_chain [OF assms] demo_genesis(3) demo_meets [of 1] mem_reliable
    by (intro demo.AddHeaders_accepts [where hs = "[demo_genesis]"]) auto
  then show ?thesis by (simp add: demo_chain [OF assms])
qed

lemma demo_distinct: "distinct (map (BlockHash demo_wire) ([demo_genesis] @ [demo_block 2083236893 1]))"
  by (simp add: demo_genesis)

text \<open>
  C9: \<^verbatim>\<open>AddHeaders\<close> refines appending to the chain. From a store that represents the chain \<open>hs\<close>, a
  successful call leaves a store that represents \<open>hs @ new\<close>: every header, merkle root and hash
  index entry is in the database, the links and proofs of work hold along the whole chain, and the
  persisted and cached tip and work agree with it.
\<close>

theorem AddHeaders_appends:
  assumes "header_env ops contents w" and "repr w contents s hs"
    and "AddHeaders ops w s start new = Inr s'"
    and "length hs + length new \<le> 2 ^ 32" and "distinct (map (BlockHash w) (hs @ new))"
  shows "repr w contents s' (hs @ new)"
  using assms by (rule header_env.AddHeaders_refines)

theorem AddHeaders_appends_witness:
  "\<exists>s s'. AddHeaders mem_ops demo_wire s 1 [demo_block 2083236893 1] = Inr s'
     \<and> repr demo_wire map_of s' [demo_genesis, demo_block 2083236893 1]"
proof -
  obtain s s' where s: "NewStore mem_ops demo_wire [] = Inr s"
    and s': "AddHeaders mem_ops demo_wire s 1 [demo_block 2083236893 1] = Inr s'"
    using demo_opens demo_adds by blast
  have "repr demo_wire map_of s' ([demo_genesis] @ [demo_block 2083236893 1])"
    using AddHeaders_appends [OF demo.header_env_axioms demo_chain(1) [OF s] s'] demo_distinct by simp
  with s' show ?thesis by auto
qed

text \<open>
  \<^verbatim>\<open>AddHeaders\<close> accepts exactly the valid extensions. With proof of work enabled and a database
  that does not fail, a non-empty batch of serialisable headers is stored if and only if it starts
  at the next height and \<^verbatim>\<open>ValidateHeaderChain\<close> accepts it after the current tip.
\<close>

theorem AddHeaders_accepts_iff_valid:
  assumes env: "header_env ops contents w" and rel: "reliable ops" and rp: "repr w contents s hs"
    and pow: "\<not> skipPoW s" and new: "new \<noteq> []" and ser: "list_all (\<lambda>h. Serialize w h \<noteq> None) new"
  shows "(\<exists>s'. AddHeaders ops w s start new = Inr s') \<longleftrightarrow>
    start = tip s + 1 \<and> ValidateHeaderChain w new (BlockHash w (last hs)) = Inr ()"
proof
  assume "\<exists>s'. AddHeaders ops w s start new = Inr s'"
  then obtain s' where "AddHeaders ops w s start new = Inr s'" ..
  from header_env.AddHeaders_inversion [OF env rp this new] pow
  show "start = tip s + 1 \<and> ValidateHeaderChain w new (BlockHash w (last hs)) = Inr ()"
    by (metis ValidateHeaderChain_iff list_all_iff)
next
  assume "start = tip s + 1 \<and> ValidateHeaderChain w new (BlockHash w (last hs)) = Inr ()"
  then show "\<exists>s'. AddHeaders ops w s start new = Inr s'"
    using header_env.AddHeaders_accepts [OF env rp _ _ ser rel] pow
    by (auto simp: ValidateHeaderChain_iff list_all_iff)
qed

theorem AddHeaders_accepts_iff_valid_witness:
  "\<exists>s. NewStore mem_ops demo_wire [] = Inr s
     \<and> ((\<exists>s'. AddHeaders mem_ops demo_wire s 1 [demo_block 2083236893 1] = Inr s') \<longleftrightarrow>
        1 = tip s + 1
        \<and> ValidateHeaderChain demo_wire [demo_block 2083236893 1] (BlockHash demo_wire demo_genesis) = Inr ())"
proof -
  obtain s where s: "NewStore mem_ops demo_wire [] = Inr s" using demo_opens by blast
  show ?thesis
    using AddHeaders_accepts_iff_valid [OF demo.header_env_axioms mem_reliable demo_chain(1,2) [OF s],
      of "[demo_block 2083236893 1]" 1] s
    by (intro exI [of _ s] conjI) simp_all
qed

text \<open>
  \<^verbatim>\<open>Rollback\<close> undoes \<^verbatim>\<open>AddHeaders\<close>. After headers were added, rolling back to the old tip succeeds
  (on a database that does not fail) and the store represents the old chain again, with the old
  tip and the old cumulative work.
\<close>

theorem Rollback_undoes_AddHeaders:
  assumes env: "header_env ops contents w" and rel: "reliable ops" and rp: "repr w contents s hs"
    and add: "AddHeaders ops w s start new = Inr s'" and new: "new \<noteq> []"
    and len: "length hs + length new \<le> 2 ^ 32" and dist: "distinct (map (BlockHash w) (hs @ new))"
  shows "\<exists>s''. Rollback ops w s' (tip s) = Inr s'' \<and> repr w contents s'' hs
    \<and> tip s'' = tip s \<and> work s'' = work s"
proof -
  note rp' = header_env.AddHeaders_refines [OF env rp add len dist]
  have hs: "length hs = Suc (unat (tip s))" and hs': "length (hs @ new) = Suc (unat (tip s'))"
    using rp rp' by (simp_all only: repr_def)
  moreover have "length (hs @ new) > length hs" using new by simp
  ultimately have lt: "tip s < tip s'" by (simp only: word_less_nat_alt Suc_less_eq)
  obtain s'' where s'': "Rollback ops w s' (tip s) = Inr s''"
    using header_env.Rollback_value [OF env rp' lt] reliable_write [OF rel]
    by (auto split: sum.splits) (metis old.sum.exhaust sum.distinct(1))
  from header_env.Rollback_refines [OF env rp' s''] hs have "repr w contents s'' hs" by simp
  with rp s'' show ?thesis using repr_functional by blast
qed

theorem Rollback_undoes_AddHeaders_witness:
  "\<exists>s s' s''. AddHeaders mem_ops demo_wire s 1 [demo_block 2083236893 1] = Inr s'
     \<and> Rollback mem_ops demo_wire s' (tip s) = Inr s'' \<and> repr demo_wire map_of s'' [demo_genesis]"
proof -
  obtain s s' where s: "NewStore mem_ops demo_wire [] = Inr s"
    and s': "AddHeaders mem_ops demo_wire s 1 [demo_block 2083236893 1] = Inr s'"
    using demo_opens demo_adds by blast
  show ?thesis
    using Rollback_undoes_AddHeaders [OF demo.header_env_axioms mem_reliable demo_chain(1) [OF s] s']
      demo_distinct s' by auto
qed

text \<open>
  C1: \<^verbatim>\<open>IsValidRootForHeight\<close>, the chain tracker that SPV verification trusts, is exact in every
  reachable store. After any sequence of opening, adding, rolling back and reopening that started
  from an empty database, the store holds a chain from the genesis block that is linked and meets
  its proof-of-work targets, the recorded work is the work of that chain, and a merkle root is
  confirmed at a height if and only if the header at that height on that chain carries it.
\<close>

theorem reachable_store_sound:
  assumes env: "header_env ops contents w" and "contents db0 = Map.empty"
    and "store_history ops w db0 s hs"
  shows "genesisHeader w = Some (hd hs) \<and> linked w (PrevBlock (hd hs)) hs
    \<and> list_all (meets_target w) (tl hs) \<and> length hs = Suc (unat (tip s))
    \<and> work s = CumulativeWork (tl hs)
    \<and> IsValidRootForHeight ops s root h = Inr (unat h < length hs \<and> MerkleRoot (hs ! unat h) = root)"
proof -
  note r = header_env.history_repr [OF assms]
  then have rp: "repr w contents s hs" ..
  show ?thesis
    using r rp header_env.IsValidRootForHeight_repr [OF env rp] by (simp only: repr_def simp_thms)
qed

theorem reachable_store_sound_witness:
  "\<exists>s. NewStore mem_ops demo_wire [] = Inr s
     \<and> IsValidRootForHeight mem_ops s (MerkleRoot demo_genesis) 0 = Inr True
     \<and> IsValidRootForHeight mem_ops s (MerkleRoot demo_genesis) 1 = Inr False"
proof -
  obtain s where s: "NewStore mem_ops demo_wire [] = Inr s" using demo_opens by blast
  have "store_history mem_ops demo_wire [] s [demo_genesis]"
    using s demo_genesis(1) by (rule store_history.opened)
  from reachable_store_sound [OF demo.header_env_axioms _ this] s show ?thesis by auto
qed

text \<open>
  a header store survives a restart. Opening the database of any store that represents a chain
  gives back the same tip and cumulative work, and the same answers to every later operation,
  because the reopened store is the store that was closed (with proof-of-work checking on).
\<close>

theorem NewStore_restores:
  assumes "header_env ops contents w" and "repr w contents s hs" and "\<not> skipPoW s"
  shows "NewStore ops w (hs_db s) = Inr s"
  using header_env.NewStore_reopen [OF assms(1,2)] assms(3) by simp

theorem NewStore_restores_witness:
  "\<exists>s. NewStore mem_ops demo_wire [] = Inr s \<and> NewStore mem_ops demo_wire (hs_db s) = Inr s"
proof -
  obtain s where s: "NewStore mem_ops demo_wire [] = Inr s" using demo_opens by blast
  with NewStore_restores [OF demo.header_env_axioms demo_chain(1,2) [OF s]] show ?thesis by blast
qed

end
