(* ===== verification/P2p.thy ===== *)
theory P2p
  imports Pow "HOL-Library.AList"
begin

text \<open>
  \<^verbatim>\<open>internal/p2p\<close>: the connection to a Bitcoin peer (\<^verbatim>\<open>peer.go\<close>), the transaction fetchers over it
  (\<^verbatim>\<open>txfetcher.go\<close>, \<^verbatim>\<open>blockfetcher.go\<close>) and the mempool monitor (\<^verbatim>\<open>mempool_monitor.go\<close>).

  A connection is the stream of messages the remote side delivers until the connection fails (or
  the read deadline passes), the messages written so far, and whether writing fails. Reading past
  the end of the stream is \<^verbatim>\<open>io.EOF\<close>. Message framing, transaction hashes and hash strings belong
  to go-p2p: messages are values of \<open>wire_msg\<close> and the rest is the parameter \<open>tx_lib\<close>. What
  \<^verbatim>\<open>net.DialTimeout\<close> returns for an address is the parameter \<open>dial\<close>.
\<close>

datatype inv_type = InvTypeTx | InvTypeBlock | InvTypeOther nat

type_synonym inv_vect = "inv_type \<times> bytes"

datatype 'tx wire_msg =
    MsgVersion string uint32 "64 word" bool
  | MsgVerAck
  | MsgGetHeaders uint32 "bytes list" "bytes option"
  | MsgHeaders "block_header list"
  | MsgPing "64 word"
  | MsgPong "64 word"
  | MsgGetData "inv_vect list"
  | MsgInv "inv_vect list"
  | MsgTx 'tx
  | MsgBlock "'tx list"
  | MsgNotFound "inv_vect list"
  | MsgOther string

datatype read_err = EOF | ReadErr string

record 'tx conn =
  incoming :: "(string + 'tx wire_msg) list"
  sent :: "'tx wire_msg list"
  write_err :: "string option"
  closed :: bool

record 'tx tx_lib =
  TxHash :: "'tx \<Rightarrow> bytes"
  TxSerialize :: "'tx \<Rightarrow> bytes option"
  HashString :: "bytes \<Rightarrow> string"
  HashFromStr :: "string \<Rightarrow> bytes option"

definition protocolVersion :: uint32 where "protocolVersion = 70016"
definition userAgent :: string where "userAgent = ''/Anvil:0.1.0/''"

section \<open>The peer connection\<close>

datatype p2p_err =
    ErrDial string
  | ErrWrite string
  | ErrRead string
  | ErrPeerDisconnected
  | ErrExpectedVersion
  | ErrTxNotFound
  | ErrTxSerialize
  | ErrInvalidHash
  | ErrAllPeersFailed
  | ErrNotInBlock
  | ErrNotInCachedBlock
  | ErrBlockNotFound
  | PanicSliceBounds
  | ErrNotConnected
  | PanicNilConn

definition writeMsg :: "'tx conn \<Rightarrow> 'tx wire_msg \<Rightarrow> (p2p_err + unit) \<times> 'tx conn" where
  "writeMsg c msg =
     (if closed c then (Inl (ErrWrite ''use of closed network connection''), c)
      else case write_err c of
        Some e \<Rightarrow> (Inl (ErrWrite e), c)
      | None \<Rightarrow> (Inr (), c\<lparr>sent := sent c @ [msg]\<rparr>))"

definition readMsgTimeout :: "'tx conn \<Rightarrow> (p2p_err + 'tx wire_msg) \<times> 'tx conn" where
  "readMsgTimeout c =
     (if closed c then (Inl (ErrRead ''use of closed network connection''), c)
      else case incoming c of
        [] \<Rightarrow> (Inl ErrPeerDisconnected, c)
      | Inl e # ms \<Rightarrow> (Inl (ErrRead e), c\<lparr>incoming := ms\<rparr>)
      | Inr m # ms \<Rightarrow> (Inr m, c\<lparr>incoming := ms\<rparr>))"

definition readMsg :: "'tx conn \<Rightarrow> (p2p_err + 'tx wire_msg) \<times> 'tx conn" where
  "readMsg c = readMsgTimeout c"

definition readMsgLarge :: "'tx conn \<Rightarrow> (p2p_err + 'tx wire_msg) \<times> 'tx conn" where
  "readMsgLarge c = readMsgTimeout c"

definition CloseConn :: "'tx conn \<Rightarrow> 'tx conn" where
  "CloseConn c = c\<lparr>closed := True\<rparr>"

definition nonce :: "64 word \<Rightarrow> 64 word \<times> 64 word" where
  \<comment> \<open>the result and the new \<^verbatim>\<open>nonceCounter\<close>\<close>
  "nonce nonceCounter = (nonceCounter + 1, nonceCounter + 1)"

lemma readMsgTimeout_shrinks:
  "readMsgTimeout c = (Inr m, c') \<Longrightarrow> length (incoming c') < length (incoming c)"
  by (auto simp: readMsgTimeout_def split: if_splits list.splits sum.splits)

text \<open>\<^verbatim>\<open>for { msg = readMsg(); if verack break }\<close>: everything before the verack is skipped.\<close>

function awaitVerAck :: "'tx conn \<Rightarrow> (p2p_err + unit) \<times> 'tx conn" where
  "awaitVerAck c =
     (case readMsg c of
        (Inl e, c') \<Rightarrow> (Inl e, c')
      | (Inr m, c') \<Rightarrow> (if m = MsgVerAck then (Inr (), c') else awaitVerAck c'))"
  by pat_completeness auto
termination
  by (relation "measure (length \<circ> incoming)") (auto simp: readMsg_def dest: readMsgTimeout_shrinks [OF sym])

definition handshake_with :: "bool \<Rightarrow> 64 word \<Rightarrow> 'tx conn \<Rightarrow> (p2p_err + unit) \<times> 'tx conn" where
  \<comment> \<open>\<open>disableRelay\<close> is \<^verbatim>\<open>DisableRelayTx\<close>, the one difference between the two handshakes\<close>
  "handshake_with disableRelay n c =
     (case writeMsg c (MsgVersion userAgent protocolVersion n disableRelay) of
        (Inl e, c') \<Rightarrow> (Inl e, c')
      | (Inr _, c1) \<Rightarrow>
         (case readMsg c1 of
            (Inl e, c') \<Rightarrow> (Inl e, c')
          | (Inr (MsgVersion _ _ _ _), c2) \<Rightarrow>
             (case writeMsg c2 MsgVerAck of
                (Inl e, c') \<Rightarrow> (Inl e, c')
              | (Inr _, c3) \<Rightarrow> awaitVerAck c3)
          | (Inr _, c2) \<Rightarrow> (Inl ErrExpectedVersion, c2)))"

definition handshake :: "64 word \<Rightarrow> 'tx conn \<Rightarrow> (p2p_err + unit) \<times> 'tx conn" where
  "handshake n c = handshake_with True n c"

definition Connect :: "(string \<Rightarrow> string + 'tx conn) \<Rightarrow> string \<Rightarrow> 64 word
    \<Rightarrow> (p2p_err + 'tx conn) \<times> 64 word" where
  "Connect dial address nonceCounter =
     (case dial address of
        Inl e \<Rightarrow> (Inl (ErrDial e), nonceCounter)
      | Inr c \<Rightarrow>
         (let (n, nonceCounter') = nonce nonceCounter in
          case handshake n c of
            (Inl e, _) \<Rightarrow> (Inl e, nonceCounter')
          | (Inr _, c') \<Rightarrow> (Inr c', nonceCounter')))"

definition RequestHeaders :: "'tx conn \<Rightarrow> bytes list \<Rightarrow> bytes option \<Rightarrow> (p2p_err + unit) \<times> 'tx conn" where
  "RequestHeaders c locators hashStop = writeMsg c (MsgGetHeaders protocolVersion locators hashStop)"

function ReadHeaders :: "'tx conn \<Rightarrow> (p2p_err + block_header list) \<times> 'tx conn" where
  "ReadHeaders c =
     (case readMsg c of
        (Inl e, c') \<Rightarrow> (Inl e, c')
      | (Inr m, c') \<Rightarrow>
         (case m of
            MsgHeaders hs \<Rightarrow> (Inr hs, c')
          | MsgPing n \<Rightarrow> ReadHeaders (snd (writeMsg c' (MsgPong n)))
          | _ \<Rightarrow> ReadHeaders c'))"
  by pat_completeness auto

lemma writeMsg_incoming [simp]: "incoming (snd (writeMsg c m)) = incoming c"
  by (simp add: writeMsg_def split: option.splits)

termination ReadHeaders
  by (relation "measure (length \<circ> incoming)") (auto simp: readMsg_def dest: readMsgTimeout_shrinks [OF sym])

definition RequestTransaction :: "'tx conn \<Rightarrow> bytes \<Rightarrow> (p2p_err + unit) \<times> 'tx conn" where
  "RequestTransaction c txHash = writeMsg c (MsgGetData [(InvTypeTx, txHash)])"

function ReadTransaction :: "'tx tx_lib \<Rightarrow> 'tx conn \<Rightarrow> bytes \<Rightarrow> (p2p_err + 'tx) \<times> 'tx conn" where
  "ReadTransaction lib c targetHash =
     (case readMsgLarge c of
        (Inl e, c') \<Rightarrow> (Inl e, c')
      | (Inr m, c') \<Rightarrow>
         (case m of
            MsgTx tx \<Rightarrow> if TxHash lib tx = targetHash then (Inr tx, c') else ReadTransaction lib c' targetHash
          | MsgPing n \<Rightarrow> ReadTransaction lib (snd (writeMsg c' (MsgPong n))) targetHash
          | MsgNotFound _ \<Rightarrow> (Inl ErrTxNotFound, c')
          | _ \<Rightarrow> ReadTransaction lib c' targetHash))"
  by pat_completeness auto
termination
  by (relation "measure (\<lambda>(lib, c, h). length (incoming c))")
     (auto simp: readMsgLarge_def dest: readMsgTimeout_shrinks [OF sym])

declare awaitVerAck.simps [simp del] ReadHeaders.simps [simp del] ReadTransaction.simps [simp del]

section \<open>Fetching a transaction from a peer\<close>

record 'tx TxFetcher =
  tf_addresses :: "string list"
  tf_peer :: "'tx conn option"

definition NewTxFetcher :: "string list \<Rightarrow> 'tx TxFetcher" where
  "NewTxFetcher addresses = \<lparr>tf_addresses = addresses, tf_peer = None\<rparr>"

definition fetchFromPeer :: "'tx tx_lib \<Rightarrow> 'tx conn \<Rightarrow> bytes \<Rightarrow> (p2p_err + string) \<times> 'tx conn" where
  "fetchFromPeer lib c hash =
     (case RequestTransaction c hash of
        (Inl e, c') \<Rightarrow> (Inl e, c')
      | (Inr _, c1) \<Rightarrow>
         (case ReadTransaction lib c1 hash of
            (Inl e, c') \<Rightarrow> (Inl e, c')
          | (Inr tx, c2) \<Rightarrow>
             (case TxSerialize lib tx of
                None \<Rightarrow> (Inl ErrTxSerialize, c2)
              | Some raw \<Rightarrow> (Inr (hex_encode raw), c2))))"

text \<open>The loop of \<^verbatim>\<open>FetchRawTx\<close> over the configured addresses; it returns the connection to keep.\<close>

fun fetchFromAddresses :: "'tx tx_lib \<Rightarrow> (string \<Rightarrow> string + 'tx conn) \<Rightarrow> bytes \<Rightarrow> 64 word \<Rightarrow> string list
    \<Rightarrow> (p2p_err + string) \<times> 'tx conn option \<times> 64 word" where
  "fetchFromAddresses lib dial hash nc [] = (Inl ErrAllPeersFailed, None, nc)"
| "fetchFromAddresses lib dial hash nc (addr # addrs) =
     (case Connect dial addr nc of
        (Inl _, nc') \<Rightarrow> fetchFromAddresses lib dial hash nc' addrs
      | (Inr c, nc') \<Rightarrow>
         (case fetchFromPeer lib c hash of
            (Inl _, _) \<Rightarrow> fetchFromAddresses lib dial hash nc' addrs
          | (Inr rawHex, c') \<Rightarrow> (Inr rawHex, Some c', nc')))"

definition FetchRawTx :: "'tx tx_lib \<Rightarrow> (string \<Rightarrow> string + 'tx conn) \<Rightarrow> 64 word \<Rightarrow> 'tx TxFetcher \<Rightarrow> string
    \<Rightarrow> (p2p_err + string) \<times> 'tx TxFetcher \<times> 64 word" where
  "FetchRawTx lib dial nc f txid =
     (case HashFromStr lib txid of
        None \<Rightarrow> (Inl ErrInvalidHash, f, nc)
      | Some hash \<Rightarrow>
         (let retry = (case fetchFromAddresses lib dial hash nc (tf_addresses f) of
                         (r, kept, nc') \<Rightarrow> (r, f\<lparr>tf_peer := kept\<rparr>, nc'))
          in case tf_peer f of
               None \<Rightarrow> retry
             | Some c \<Rightarrow>
                (case fetchFromPeer lib c hash of
                   (Inr rawHex, c') \<Rightarrow> (Inr rawHex, f\<lparr>tf_peer := Some c'\<rparr>, nc)
                 | (Inl _, _) \<Rightarrow> retry)))"

definition CloseFetcher :: "'tx TxFetcher \<Rightarrow> 'tx TxFetcher" where
  "CloseFetcher f = f\<lparr>tf_peer := None\<rparr>"

section \<open>Fetching a block and caching its transactions\<close>

record BlockTxFetcher =
  bf_addresses :: "string list"
  blockCache :: "(string \<times> (string \<rightharpoonup> string)) list"

definition NewBlockTxFetcher :: "string list \<Rightarrow> BlockTxFetcher" where
  "NewBlockTxFetcher addresses = \<lparr>bf_addresses = addresses, blockCache = []\<rparr>"

text \<open>
  \<^verbatim>\<open>b[len(h)-2-i], b[len(h)-1-i] = h[i], h[i+1]\<close>: the pairs of \<open>h\<close> in reverse order.
\<close>

fun reversePairs :: "string \<Rightarrow> string" where
  "reversePairs (a # b # h) = reversePairs h @ [a, b]"
| "reversePairs h = h"

definition reverseHashHex :: "string \<Rightarrow> string" where
  "reverseHashHex h = (if length h mod 2 \<noteq> 0 then h else reversePairs h)"

definition reverseHex :: "string \<Rightarrow> string" where
  "reverseHex h = reverseHashHex h"

fun blockTxMap :: "'tx tx_lib \<Rightarrow> 'tx list \<Rightarrow> (string \<rightharpoonup> string) \<Rightarrow> (string \<rightharpoonup> string)" where
  "blockTxMap lib [] m = m"
| "blockTxMap lib (tx # txs) m =
     (case TxSerialize lib tx of
        None \<Rightarrow> blockTxMap lib txs m
      | Some raw \<Rightarrow>
         (let rawHex = hex_encode raw; natural = HashString lib (TxHash lib tx)
          in blockTxMap lib txs (m(natural \<mapsto> rawHex, reverseHashHex natural \<mapsto> rawHex))))"

function readBlock :: "'tx tx_lib \<Rightarrow> 'tx conn \<Rightarrow> (p2p_err + (string \<rightharpoonup> string)) \<times> 'tx conn" where
  "readBlock lib c =
     (case readMsgTimeout c of
        (Inl e, c') \<Rightarrow> (Inl e, c')
      | (Inr m, c') \<Rightarrow>
         (case m of
            MsgBlock txs \<Rightarrow> (Inr (blockTxMap lib txs Map.empty), c')
          | MsgPing n \<Rightarrow> readBlock lib (snd (writeMsg c' (MsgPong n)))
          | MsgNotFound _ \<Rightarrow> (Inl ErrBlockNotFound, c')
          | _ \<Rightarrow> readBlock lib c'))"
  by pat_completeness auto
termination
  by (relation "measure (\<lambda>(lib, c). length (incoming c))") (auto dest: readMsgTimeout_shrinks [OF sym])

declare readBlock.simps [simp del]

definition fetchBlock :: "'tx tx_lib \<Rightarrow> 'tx conn \<Rightarrow> bytes \<Rightarrow> (p2p_err + (string \<rightharpoonup> string)) \<times> 'tx conn" where
  "fetchBlock lib c blockHash =
     (case writeMsg c (MsgGetData [(InvTypeBlock, blockHash)]) of
        (Inl e, c') \<Rightarrow> (Inl e, c')
      | (Inr _, c') \<Rightarrow> readBlock lib c')"

text \<open>
  Eviction ranges over a Go map in arbitrary order and deletes the first key other than the block
  just fetched; here the order is that of the association list.
\<close>

definition evictBlock :: "string \<Rightarrow> (string \<times> 'm) list \<Rightarrow> (string \<times> 'm) list" where
  "evictBlock keep cache =
     (if length cache > 50
      then case filter (\<lambda>(k, _). k \<noteq> keep) cache of
             [] \<Rightarrow> cache
           | (k, _) # _ \<Rightarrow> AList.delete k cache
      else cache)"

fun fetchBlockFromAddresses :: "'tx tx_lib \<Rightarrow> (string \<Rightarrow> string + 'tx conn) \<Rightarrow> 64 word \<Rightarrow> BlockTxFetcher
    \<Rightarrow> string \<Rightarrow> string \<Rightarrow> bytes \<Rightarrow> string list \<Rightarrow> (p2p_err + string) \<times> BlockTxFetcher \<times> 64 word" where
  "fetchBlockFromAddresses lib dial nc f txid blockHashHex blockHash [] =
     (if length blockHashHex < 16 then (Inl PanicSliceBounds, f, nc) else (Inl ErrAllPeersFailed, f, nc))"
| "fetchBlockFromAddresses lib dial nc f txid blockHashHex blockHash (addr # addrs) =
     (if length txid < 16 \<or> length blockHashHex < 16 then (Inl PanicSliceBounds, f, nc)
      else case Connect dial addr nc of
        (Inl _, nc') \<Rightarrow> fetchBlockFromAddresses lib dial nc' f txid blockHashHex blockHash addrs
      | (Inr c, nc') \<Rightarrow>
         (case fetchBlock lib c blockHash of
            (Inl _, _) \<Rightarrow> fetchBlockFromAddresses lib dial nc' f txid blockHashHex blockHash addrs
          | (Inr txMap, _) \<Rightarrow>
             (let f' = f\<lparr>blockCache := evictBlock blockHashHex (AList.update blockHashHex txMap (blockCache f))\<rparr>
              in case txMap txid of
                   Some rawHex \<Rightarrow> (Inr rawHex, f', nc')
                 | None \<Rightarrow> (Inl ErrNotInBlock, f', nc'))))"

definition FetchTxFromBlock :: "'tx tx_lib \<Rightarrow> (string \<Rightarrow> string + 'tx conn) \<Rightarrow> 64 word \<Rightarrow> BlockTxFetcher
    \<Rightarrow> string \<Rightarrow> string \<Rightarrow> (p2p_err + string) \<times> BlockTxFetcher \<times> 64 word" where
  "FetchTxFromBlock lib dial nc f txid blockHashHex =
     (case map_of (blockCache f) blockHashHex of
        Some txMap \<Rightarrow>
          (case txMap txid of
             Some rawHex \<Rightarrow> (Inr rawHex, f, nc)
           | None \<Rightarrow> if length blockHashHex < 16 then (Inl PanicSliceBounds, f, nc) else (Inl ErrNotInCachedBlock, f, nc))
      | None \<Rightarrow>
          (case HashFromStr lib blockHashHex of
             None \<Rightarrow> (Inl ErrInvalidHash, f, nc)
           | Some blockHash \<Rightarrow>
               fetchBlockFromAddresses lib dial nc f txid blockHashHex blockHash (bf_addresses f)))"

fun lookupBlocks :: "string \<Rightarrow> (string \<times> (string \<rightharpoonup> string)) list \<Rightarrow> p2p_err + string option" where
  "lookupBlocks txid [] = Inr None"
| "lookupBlocks txid ((blockHash, txMap) # cache) =
     (case txMap txid of
        Some rawHex \<Rightarrow> Inr (Some rawHex)
      | None \<Rightarrow>
         (case txMap (reverseHex txid) of
            Some rawHex \<Rightarrow>
              if length txid < 16 \<or> length blockHash < 16 then Inl PanicSliceBounds else Inr (Some rawHex)
          | None \<Rightarrow> lookupBlocks txid cache))"

definition LookupCachedTx :: "BlockTxFetcher \<Rightarrow> string \<Rightarrow> p2p_err + string option" where
  "LookupCachedTx f txid = lookupBlocks txid (blockCache f)"

section \<open>The mempool monitor\<close>

text \<open>
  The callback \<^verbatim>\<open>onTx\<close> is \<open>onTx_set\<close> (whether it is non-nil) and \<open>delivered\<close> (the calls made to it).
  The inventory hashes are 32 bytes long, so the first byte exists. Of the goroutines the monitor starts,
  \<open>mm_reading\<close> says whether \<^verbatim>\<open>readLoop\<close> runs and \<open>mm_done\<close> whether it has closed the channel \<^verbatim>\<open>done\<close>;
  \<open>mm_cancelled\<close> is the state of the context.
\<close>

record 'tx MempoolMonitor =
  mm_addr :: string
  coverage :: "char list"
  maxTxSize :: int
  onTx_set :: bool
  mm_conn :: "'tx conn option"
  batch :: "bytes list"
  pending :: "(bytes \<times> int) list"
  invSeen :: int
  invFiltered :: int
  txReceived :: int
  connected :: bool
  mm_cancelled :: bool
  mm_reading :: bool
  mm_done :: bool
  delivered :: "(bytes \<times> bytes) list"

record MonitorStats =
  ms_InvSeen :: int
  ms_InvFiltered :: int
  ms_TxReceived :: int
  ms_Connected :: bool

definition maxGetDataPerMsg :: nat where "maxGetDataPerMsg = 50000"

definition NewMempoolMonitor :: "string \<Rightarrow> char list \<Rightarrow> int \<Rightarrow> bool \<Rightarrow> 'tx MempoolMonitor" where
  "NewMempoolMonitor addr cov maxSize hasOnTx =
     \<lparr>mm_addr = addr, coverage = cov, maxTxSize = maxSize, onTx_set = hasOnTx, mm_conn = None, batch = [], pending = [],
      invSeen = 0, invFiltered = 0, txReceived = 0, connected = False, mm_cancelled = False, mm_reading = False,
      mm_done = False, delivered = []\<rparr>"

definition MonitorStats_of :: "'tx MempoolMonitor \<Rightarrow> MonitorStats" where
  "MonitorStats_of m = \<lparr>ms_InvSeen = invSeen m, ms_InvFiltered = invFiltered m, ms_TxReceived = txReceived m, ms_Connected = connected m\<rparr>"

definition writeMonitor :: "'tx MempoolMonitor \<Rightarrow> 'tx wire_msg \<Rightarrow> (p2p_err + unit) \<times> 'tx MempoolMonitor" where
  "writeMonitor m msg =
     (case mm_conn m of
        None \<Rightarrow> (Inl ErrNotConnected, m)
      | Some c \<Rightarrow> (case writeMsg c msg of (r, c') \<Rightarrow> (r, m\<lparr>mm_conn := Some c'\<rparr>)))"

definition readMonitor :: "'tx MempoolMonitor \<Rightarrow> (p2p_err + 'tx wire_msg) \<times> 'tx MempoolMonitor" where
  "readMonitor m =
     (case mm_conn m of
        None \<Rightarrow> (Inl PanicNilConn, m)
      | Some c \<Rightarrow> (case readMsgTimeout c of (r, c') \<Rightarrow> (r, m\<lparr>mm_conn := Some c'\<rparr>)))"

text \<open>One step of the loop of \<^verbatim>\<open>handleInv\<close>; \<open>now\<close> is the reading of the clock.\<close>

definition handleInvOne :: "int \<Rightarrow> 'tx MempoolMonitor \<Rightarrow> inv_vect \<Rightarrow> 'tx MempoolMonitor" where
  "handleInvOne now m iv =
     (if fst iv \<noteq> InvTypeTx then m
      else let m1 = m\<lparr>invSeen := wrap64 (invSeen m + 1)\<rparr> in
        if hd (snd iv) \<notin> set (coverage m1) then m1\<lparr>invFiltered := wrap64 (invFiltered m1 + 1)\<rparr>
        else if map_of (pending m1) (snd iv) \<noteq> None then m1
        else m1\<lparr>pending := AList.update (snd iv) now (pending m1), batch := batch m1 @ [snd iv]\<rparr>)"

definition handleInv :: "int \<Rightarrow> 'tx MempoolMonitor \<Rightarrow> inv_vect list \<Rightarrow> 'tx MempoolMonitor" where
  "handleInv now m invList = fold (\<lambda>iv m. handleInvOne now m iv) invList m"

definition handleTx :: "'tx tx_lib \<Rightarrow> 'tx MempoolMonitor \<Rightarrow> 'tx \<Rightarrow> 'tx MempoolMonitor" where
  "handleTx lib m tx =
     (let hash = TxHash lib tx;
          m1 = m\<lparr>txReceived := wrap64 (txReceived m + 1), pending := AList.delete hash (pending m)\<rparr>;
          buf = (case TxSerialize lib tx of Some raw \<Rightarrow> raw | None \<Rightarrow> [])
      in if \<not> onTx_set m1 then m1
         else if maxTxSize m1 > 0 \<and> int (length buf) > maxTxSize m1 then m1
         else m1\<lparr>delivered := delivered m1 @ [(hash, buf)]\<rparr>)"

definition handleNotFound :: "'tx MempoolMonitor \<Rightarrow> inv_vect list \<Rightarrow> 'tx MempoolMonitor" where
  "handleNotFound m invList = m\<lparr>pending := fold (\<lambda>iv p. AList.delete (snd iv) p) invList (pending m)\<rparr>"

fun sendChunks :: "'tx MempoolMonitor \<Rightarrow> bytes list \<Rightarrow> nat \<Rightarrow> 'tx MempoolMonitor" where
  "sendChunks m hashes 0 = m"
| "sendChunks m hashes (Suc n) =
     (if hashes = [] then m
      else sendChunks (snd (writeMonitor m (MsgGetData (map (Pair InvTypeTx) (take maxGetDataPerMsg hashes)))))
             (drop maxGetDataPerMsg hashes) n)"

definition flushBatch :: "'tx MempoolMonitor \<Rightarrow> 'tx MempoolMonitor" where
  "flushBatch m = (if batch m = [] then m else sendChunks (m\<lparr>batch := []\<rparr>) (batch m) (length (batch m)))"

text \<open>
  One round of \<^verbatim>\<open>readLoop\<close>: a cancelled context or a read error ends the loop, whose deferred calls mark
  the monitor disconnected and close \<^verbatim>\<open>done\<close>; otherwise one message is dispatched.
\<close>

definition readLoopExit :: "'tx MempoolMonitor \<Rightarrow> 'tx MempoolMonitor" where
  "readLoopExit m = m\<lparr>connected := False, mm_done := True, mm_reading := False\<rparr>"

definition readLoopStep :: "'tx tx_lib \<Rightarrow> int \<Rightarrow> 'tx MempoolMonitor \<Rightarrow> 'tx MempoolMonitor" where
  "readLoopStep lib now m =
     (if mm_cancelled m then readLoopExit m
      else case readMonitor m of
        (Inl _, m1) \<Rightarrow> readLoopExit m1
      | (Inr msg, m1) \<Rightarrow>
         (case msg of
            MsgInv invs \<Rightarrow> handleInv now m1 invs
          | MsgTx tx \<Rightarrow> handleTx lib m1 tx
          | MsgPing n \<Rightarrow> snd (writeMonitor m1 (MsgPong n))
          | MsgNotFound invs \<Rightarrow> handleNotFound m1 invs
          | _ \<Rightarrow> m1))"

text \<open>The handshake of the monitor asks the peer to relay transactions.\<close>

definition monitorHandshake :: "64 word \<Rightarrow> 'tx MempoolMonitor \<Rightarrow> (p2p_err + unit) \<times> 'tx MempoolMonitor" where
  "monitorHandshake n m =
     (case mm_conn m of
        None \<Rightarrow> (Inl ErrNotConnected, m)
      | Some c \<Rightarrow> (case handshake_with False n c of (r, c') \<Rightarrow> (r, m\<lparr>mm_conn := Some c'\<rparr>)))"

text \<open>
  \<^verbatim>\<open>Start\<close> up to its last statement: dial, handshake, and the two goroutines. Its last statement,
  \<^verbatim>\<open>connected.Store(true)\<close>, runs beside the goroutines; \<open>StartMonitor\<close> is the whole of \<^verbatim>\<open>Start\<close> when it comes
  before their first step.
\<close>

definition launchMonitor :: "(string \<Rightarrow> string + 'tx conn) \<Rightarrow> 64 word \<Rightarrow> 'tx MempoolMonitor
    \<Rightarrow> (p2p_err + unit) \<times> 'tx MempoolMonitor \<times> 64 word" where
  "launchMonitor dial nonceCounter m =
     (case dial (mm_addr m) of
        Inl e \<Rightarrow> (Inl (ErrDial e), m, nonceCounter)
      | Inr c \<Rightarrow>
         (let (n, nonceCounter') = nonce nonceCounter in
          case monitorHandshake n (m\<lparr>mm_conn := Some c\<rparr>) of
            (Inl e, m1) \<Rightarrow> (Inl e, m1\<lparr>mm_conn := map_option CloseConn (mm_conn m1)\<rparr>, nonceCounter')
          | (Inr _, m1) \<Rightarrow> (Inr (), m1\<lparr>mm_reading := True\<rparr>, nonceCounter')))"

definition StartMonitor :: "(string \<Rightarrow> string + 'tx conn) \<Rightarrow> 64 word \<Rightarrow> 'tx MempoolMonitor
    \<Rightarrow> (p2p_err + unit) \<times> 'tx MempoolMonitor \<times> 64 word" where
  "StartMonitor dial nonceCounter m =
     (case launchMonitor dial nonceCounter m of
        (Inl e, m1, nc) \<Rightarrow> (Inl e, m1, nc)
      | (Inr _, m1, nc) \<Rightarrow> (Inr (), m1\<lparr>connected := True\<rparr>, nc))"

text \<open>
  \<^verbatim>\<open>Stop\<close> cancels the context (there is one once the goroutines were started), closes the connection and
  waits for \<^verbatim>\<open>readLoop\<close>, whose next round ends it. With no loop that has run or runs, the wait never ends: \<^const>\<open>None\<close>.
\<close>

definition haltMonitor :: "'tx MempoolMonitor \<Rightarrow> 'tx MempoolMonitor" where
  "haltMonitor m = m\<lparr>mm_cancelled := (mm_cancelled m \<or> mm_reading m \<or> mm_done m), mm_conn := map_option CloseConn (mm_conn m)\<rparr>"

definition StopMonitor :: "'tx MempoolMonitor \<Rightarrow> 'tx MempoolMonitor option" where
  "StopMonitor m =
     (if mm_done m then Some (haltMonitor m)
      else if mm_reading m then Some (readLoopExit (haltMonitor m))
      else None)"

text \<open>
  The runs of a monitor: \<^verbatim>\<open>Start\<close> (the flag says whether its last statement is still to come), the rounds
  of the two loops in any order, and the halt of \<^verbatim>\<open>Stop\<close>.
\<close>

inductive monitor_run :: "'tx tx_lib \<Rightarrow> (string \<Rightarrow> string + 'tx conn) \<Rightarrow> 'tx MempoolMonitor \<Rightarrow> bool \<Rightarrow> 'tx MempoolMonitor \<Rightarrow> bool"
  for lib :: "'tx tx_lib" and dial :: "string \<Rightarrow> string + 'tx conn" and m0 :: "'tx MempoolMonitor" where
  launch: "launchMonitor dial nc m0 = (Inr (), m, nc') \<Longrightarrow> monitor_run lib dial m0 True m"
| mark: "monitor_run lib dial m0 True m \<Longrightarrow> monitor_run lib dial m0 False (m\<lparr>connected := True\<rparr>)"
| read: "monitor_run lib dial m0 b m \<Longrightarrow> mm_reading m \<Longrightarrow> monitor_run lib dial m0 b (readLoopStep lib now m)"
| flush: "monitor_run lib dial m0 b m \<Longrightarrow> monitor_run lib dial m0 b (flushBatch m)"
| halt: "monitor_run lib dial m0 False m \<Longrightarrow> monitor_run lib dial m0 False (haltMonitor m)"

section \<open>Lemmas\<close>

lemma ReadTransaction_hash:
  "ReadTransaction lib c h = (Inr tx, c') \<Longrightarrow> TxHash lib tx = h"
proof (induction lib c h rule: ReadTransaction.induct)
  case (1 lib c h)
  from "1.prems" [unfolded ReadTransaction.simps [of lib c h]] show ?case
    by (auto split: prod.splits sum.splits wire_msg.splits if_splits intro: "1.IH")
qed

definition serialises :: "'tx tx_lib \<Rightarrow> bytes \<Rightarrow> string \<Rightarrow> bool" where
  \<comment> \<open>\<open>rawHex\<close> is the hexadecimal serialisation of a transaction with hash \<open>h\<close>\<close>
  "serialises lib h rawHex \<longleftrightarrow> (\<exists>tx raw. TxHash lib tx = h \<and> TxSerialize lib tx = Some raw \<and> rawHex = hex_encode raw)"

lemma fetchFromPeer_sound: "fetchFromPeer lib c h = (Inr rawHex, c') \<Longrightarrow> serialises lib h rawHex"
  by (auto simp: fetchFromPeer_def serialises_def dest: ReadTransaction_hash
      split: prod.splits sum.splits option.splits)

lemma fetchFromAddresses_sound:
  "fetchFromAddresses lib dial h nc addrs = (Inr rawHex, r) \<Longrightarrow> serialises lib h rawHex"
  by (induction lib dial h nc addrs rule: fetchFromAddresses.induct)
     (auto dest: fetchFromPeer_sound split: prod.splits sum.splits)

lemma evictBlock_length:
  assumes "distinct (map fst cache)" and "length cache \<le> 51"
  shows "length (evictBlock k cache) \<le> 50"
proof (cases "length cache > 50")
  case True
  let ?o = "filter (\<lambda>(k', _). k' \<noteq> k) cache"
  have "length (filter (\<lambda>(k', _). k' = k) cache) \<le> 1"
    using assms(1) by (induction cache) (auto simp: filter_empty_conv image_iff)
  moreover have "length ?o + length (filter (\<lambda>(k', _). k' = k) cache) = length cache"
    using sum_length_filter_compl [of "\<lambda>(k', _). k' \<noteq> k" cache] by (simp add: case_prod_unfold)
  ultimately have "?o \<noteq> []" using True by auto
  then obtain x v rest where o: "?o = (x, v) # rest" by (cases ?o) auto
  then have "(x, v) \<in> set ?o" by simp
  then have "(x, v) \<in> set cache" by simp
  then have "length (AList.delete x cache) < length cache"
    by (auto simp: AList.delete_eq intro!: length_filter_less)
  then show ?thesis using o assms(2) by (simp add: evictBlock_def)
qed (simp add: evictBlock_def)

lemma evictBlock_distinct: "distinct (map fst cache) \<Longrightarrow> distinct (map fst (evictBlock k cache))"
  by (auto simp: evictBlock_def distinct_delete split: list.splits)

lemma evictBlock_subset: "set (evictBlock k cache) \<subseteq> set cache"
  by (auto simp: evictBlock_def AList.delete_eq split: list.splits if_splits)

definition cached_txs_sound :: "'tx tx_lib \<Rightarrow> (string \<rightharpoonup> string) \<Rightarrow> bool" where
  \<comment> \<open>every entry is a transaction under its own hash string, in one of the two byte orders\<close>
  "cached_txs_sound lib m \<longleftrightarrow> (\<forall>t rawHex. m t = Some rawHex \<longrightarrow>
     (\<exists>h. serialises lib h rawHex \<and> (t = HashString lib h \<or> t = reverseHashHex (HashString lib h))))"

definition cache_ok :: "'tx tx_lib \<Rightarrow> BlockTxFetcher \<Rightarrow> bool" where
  "cache_ok lib f \<longleftrightarrow> length (blockCache f) \<le> 50 \<and> distinct (map fst (blockCache f))
     \<and> (\<forall>(b, m) \<in> set (blockCache f). cached_txs_sound lib m)"

lemma blockTxMap_sound: "cached_txs_sound lib m \<Longrightarrow> cached_txs_sound lib (blockTxMap lib txs m)"
proof (induction lib txs m rule: blockTxMap.induct)
  case (2 lib tx txs m)
  show ?case
  proof (cases "TxSerialize lib tx")
    case (Some raw)
    then have "serialises lib (TxHash lib tx) (hex_encode raw)" by (auto simp: serialises_def)
    with 2(3) have "cached_txs_sound lib (m(HashString lib (TxHash lib tx) \<mapsto> hex_encode raw,
        reverseHashHex (HashString lib (TxHash lib tx)) \<mapsto> hex_encode raw))"
      by (auto simp: cached_txs_sound_def)
    with 2(2) [OF Some refl refl] Some show ?thesis by (simp add: Let_def fun_upd_def)
  qed (use 2 in simp)
qed simp

lemma readBlock_sound: "readBlock lib c = (Inr m, c') \<Longrightarrow> cached_txs_sound lib m"
proof (induction lib c rule: readBlock.induct)
  case (1 lib c)
  have e: "cached_txs_sound lib Map.empty" by (simp add: cached_txs_sound_def)
  from "1.prems" [unfolded readBlock.simps [of lib c]] show ?case
    by (auto split: prod.splits sum.splits wire_msg.splits intro: "1.IH" blockTxMap_sound [OF e])
qed

lemma fetchBlock_sound: "fetchBlock lib c h = (Inr m, c') \<Longrightarrow> cached_txs_sound lib m"
  by (auto simp: fetchBlock_def dest: readBlock_sound split: prod.splits sum.splits)

lemma length_alist_update: "length (AList.update k v xs) \<le> Suc (length xs)"
  by (induction xs) auto

lemma set_alist_update: "set (AList.update k v xs) \<subseteq> insert (k, v) (set xs)"
  by (induction xs) auto

lemma cache_insert_ok:
  assumes "cache_ok lib f" and "cached_txs_sound lib m"
  shows "cache_ok lib (f\<lparr>blockCache := evictBlock b (AList.update b m (blockCache f))\<rparr>)"
proof -
  let ?c = "AList.update b m (blockCache f)"
  have d: "distinct (map fst ?c)" using assms(1) by (simp add: cache_ok_def distinct_update)
  have "length ?c \<le> 51" using length_alist_update [of b m "blockCache f"] assms(1) by (simp add: cache_ok_def)
  moreover have "\<forall>(b, m) \<in> set (evictBlock b ?c). cached_txs_sound lib m"
    using evictBlock_subset set_alist_update assms unfolding cache_ok_def by fast
  ultimately show ?thesis using d by (simp add: cache_ok_def evictBlock_length evictBlock_distinct)
qed

lemma fetchBlockFromAddresses_ok:
  "cache_ok lib f \<Longrightarrow> fetchBlockFromAddresses lib dial nc f txid b h addrs = (r, f', nc') \<Longrightarrow>
   cache_ok lib f' \<and> (\<forall>rawHex. r = Inr rawHex \<longrightarrow>
     (\<exists>h. serialises lib h rawHex \<and> (txid = HashString lib h \<or> txid = reverseHashHex (HashString lib h))))"
proof (induction lib dial nc f txid b h addrs rule: fetchBlockFromAddresses.induct)
  case (2 lib dial nc f txid b h addr addrs)
  show ?case
  proof (cases "\<exists>c nc1 m c1. Connect dial addr nc = (Inr c, nc1) \<and> fetchBlock lib c h = (Inr m, c1)")
    case True
    then obtain c nc1 m c1 where c: "Connect dial addr nc = (Inr c, nc1)" "fetchBlock lib c h = (Inr m, c1)"
      by blast
    note m = fetchBlock_sound [OF c(2)]
    from 2(4) c show ?thesis
      using cache_insert_ok [OF 2(3) m] m 2(3)
      by (auto simp: Let_def cached_txs_sound_def split: if_splits option.splits)
  next
    case False
    with 2 show ?thesis by (auto split: if_splits prod.splits sum.splits)
  qed
qed (auto split: if_splits)

definition getdata_ok :: "char list \<Rightarrow> 'tx wire_msg \<Rightarrow> bool" where
  "getdata_ok cov msg \<longleftrightarrow> (\<forall>invs. msg = MsgGetData invs \<longrightarrow> invs \<noteq> [] \<and> length invs \<le> maxGetDataPerMsg
     \<and> (\<forall>iv \<in> set invs. fst iv = InvTypeTx \<and> hd (snd iv) \<in> set cov))"

definition monitor_sent :: "'tx MempoolMonitor \<Rightarrow> 'tx wire_msg list" where
  "monitor_sent m = (case mm_conn m of None \<Rightarrow> [] | Some c \<Rightarrow> sent c)"

definition monitor_inv :: "char list \<Rightarrow> 'tx MempoolMonitor \<Rightarrow> bool" where
  "monitor_inv cov m \<longleftrightarrow> coverage m = cov \<and> (\<forall>h \<in> set (batch m). hd h \<in> set cov)
     \<and> (\<forall>msg \<in> set (monitor_sent m). getdata_ok cov msg) \<and> mm_conn m \<noteq> None \<and> (mm_reading m \<longleftrightarrow> \<not> mm_done m)"

lemma sent_writeMsg: "set (sent (snd (writeMsg c m))) \<subseteq> insert m (set (sent c))"
  by (auto simp: writeMsg_def split: option.splits)

lemma sent_readMsg: "readMsg c = (r, c') \<Longrightarrow> sent c' = sent c"
  by (auto simp: readMsg_def readMsgTimeout_def split: if_splits list.splits sum.splits)

lemma sent_awaitVerAck: "awaitVerAck c = (r, c') \<Longrightarrow> sent c' = sent c"
proof (induction c rule: awaitVerAck.induct)
  case (1 c)
  obtain r1 c1 where rd: "readMsg c = (r1, c1)" by (cases "readMsg c")
  from "1.prems" [unfolded awaitVerAck.simps [of c]] sent_readMsg [OF rd] "1.IH" [OF rd [symmetric]]
  show ?case by (auto simp: rd split: sum.splits if_splits)
qed

lemma sent_handshake_with:
  assumes "handshake_with b n c = (r, c')"
  shows "set (sent c') \<subseteq> {MsgVersion userAgent protocolVersion n b, MsgVerAck} \<union> set (sent c)"
proof -
  let ?v = "MsgVersion userAgent protocolVersion n b"
  obtain r1 c1 where 1: "writeMsg c ?v = (r1, c1)" by (cases "writeMsg c ?v")
  obtain r2 c2 where 2: "readMsg c1 = (r2, c2)" by (cases "readMsg c1")
  obtain r3 c3 where 3: "writeMsg c2 MsgVerAck = (r3, c3)" by (cases "writeMsg c2 MsgVerAck")
  obtain r4 c4 where 4: "awaitVerAck c3 = (r4, c4)" by (cases "awaitVerAck c3")
  have "c' \<in> {c1, c2, c3, c4}"
    using assms by (simp add: handshake_with_def 1 2 3 4 split: sum.splits wire_msg.splits)
  moreover have "set (sent c1) \<subseteq> insert ?v (set (sent c))" "set (sent c3) \<subseteq> insert MsgVerAck (set (sent c2))"
    using sent_writeMsg [of c ?v] sent_writeMsg [of c2 MsgVerAck] 1 3 by simp_all
  moreover have "sent c2 = sent c1" "sent c4 = sent c3"
    using sent_readMsg [OF 2] sent_awaitVerAck [OF 4] by simp_all
  ultimately show ?thesis by auto
qed

lemma writeMonitor_inv:
  assumes "monitor_inv cov m" and "getdata_ok cov msg"
  shows "monitor_inv cov (snd (writeMonitor m msg))"
proof -
  from assms(1) obtain c where c: "mm_conn m = Some c" by (auto simp: monitor_inv_def)
  from sent_writeMsg [of c msg] assms show ?thesis
    by (auto simp: writeMonitor_def monitor_inv_def monitor_sent_def c split: prod.splits)
qed

lemma sendChunks_inv:
  "monitor_inv cov m \<Longrightarrow> \<forall>h \<in> set hashes. hd h \<in> set cov \<Longrightarrow> monitor_inv cov (sendChunks m hashes n)"
proof (induction m hashes n rule: sendChunks.induct)
  case (2 m hashes n)
  show ?case
  proof (cases "hashes = []")
    case False
    let ?msg = "MsgGetData (map (Pair InvTypeTx) (take maxGetDataPerMsg hashes))"
    have "getdata_ok cov ?msg"
      using 2(3) False by (auto simp: getdata_ok_def maxGetDataPerMsg_def dest: in_set_takeD)
    with 2 False show ?thesis by (auto intro: writeMonitor_inv dest: in_set_dropD)
  qed (use 2 in simp)
qed simp

lemma handleInvOne_inv: "monitor_inv cov m \<Longrightarrow> monitor_inv cov (handleInvOne now m iv)"
  by (simp add: handleInvOne_def monitor_inv_def monitor_sent_def Let_def)

lemma handleInv_inv: "monitor_inv cov m \<Longrightarrow> monitor_inv cov (handleInv now m invs)"
  unfolding handleInv_def by (induction invs arbitrary: m) (simp_all add: handleInvOne_inv)

lemma readMonitor_inv:
  assumes "monitor_inv cov m" and "readMonitor m = (r, m')"
  shows "monitor_inv cov m'"
proof -
  from assms(1) obtain c where c: "mm_conn m = Some c" by (auto simp: monitor_inv_def)
  obtain c' where "readMsgTimeout c = (r, c')" "m' = m\<lparr>mm_conn := Some c'\<rparr>"
    using assms(2) by (auto simp: readMonitor_def c split: prod.splits)
  with assms(1) sent_readMsg [of c r c'] show ?thesis by (simp add: monitor_inv_def monitor_sent_def c readMsg_def)
qed

lemma readLoopExit_inv: "monitor_inv cov m \<Longrightarrow> monitor_inv cov (readLoopExit m)"
  by (simp add: readLoopExit_def monitor_inv_def monitor_sent_def)

lemma readLoopStep_inv:
  assumes "monitor_inv cov m"
  shows "monitor_inv cov (readLoopStep lib now m)"
proof -
  obtain r m1 where r: "readMonitor m = (r, m1)" by fastforce
  have i: "monitor_inv cov m1" using assms r by (rule readMonitor_inv)
  then have "monitor_inv cov (handleTx lib m1 tx)" "monitor_inv cov (handleNotFound m1 invs)" for tx invs
    by (simp_all add: monitor_inv_def monitor_sent_def handleTx_def handleNotFound_def Let_def)
  moreover have "monitor_inv cov (snd (writeMonitor m1 (MsgPong n)))" for n
    using i by (rule writeMonitor_inv) (simp add: getdata_ok_def)
  ultimately show ?thesis using i assms
    by (simp add: readLoopStep_def r readLoopExit_inv handleInv_inv split: sum.splits wire_msg.splits)
qed

lemma flushBatch_inv: "monitor_inv cov m \<Longrightarrow> monitor_inv cov (flushBatch m)"
  using sendChunks_inv [of cov "m\<lparr>batch := []\<rparr>" "batch m" "length (batch m)"]
  by (simp add: flushBatch_def monitor_inv_def monitor_sent_def)

lemma launchMonitor_inv:
  assumes l: "launchMonitor dial nc m0 = (Inr (), m, nc')" and m0: "m0 = NewMempoolMonitor a cov mx f"
    and fresh: "\<And>c. dial a = Inr c \<Longrightarrow> sent c = []"
  shows "monitor_inv cov m"
proof -
  from l m0 obtain c where c: "dial a = Inr c" by (auto simp: launchMonitor_def NewMempoolMonitor_def split: sum.splits)
  obtain r c' where h: "handshake_with False (fst (nonce nc)) c = (r, c')" by fastforce
  from sent_handshake_with [OF h] fresh [OF c]
  have "\<forall>msg \<in> set (sent c'). getdata_ok cov msg" by (auto simp: getdata_ok_def)
  with l m0 c h show ?thesis
    by (auto simp: launchMonitor_def monitorHandshake_def NewMempoolMonitor_def monitor_inv_def monitor_sent_def nonce_def split: sum.splits)
qed

lemma haltMonitor_inv: "monitor_inv cov m \<Longrightarrow> monitor_inv cov (haltMonitor m)"
  by (auto simp: haltMonitor_def monitor_inv_def monitor_sent_def CloseConn_def split: option.splits)

lemma monitor_run_inv:
  assumes "monitor_run lib dial (NewMempoolMonitor a cov mx f) b m" and "\<And>c. dial a = Inr c \<Longrightarrow> sent c = []"
  shows "monitor_inv cov m"
  using assms(1)
proof (induction rule: monitor_run.induct)
  case (launch nc m nc')
  then show ?case by (rule launchMonitor_inv) (use assms(2) in auto)
next
  case (mark m)
  then show ?case by (simp add: monitor_inv_def monitor_sent_def)
qed (auto intro: readLoopStep_inv flushBatch_inv haltMonitor_inv)

text \<open>Once a monitor was started, \<^verbatim>\<open>Stop\<close> returns, and it returns what the next round of the read loop leaves.\<close>

lemma StopMonitor_returns:
  assumes "monitor_run lib dial (NewMempoolMonitor a cov mx f) b m" and "\<And>c. dial a = Inr c \<Longrightarrow> sent c = []"
  obtains m' where "StopMonitor m = Some m'" "mm_done m'" "\<not> mm_reading m'"
    "mm_reading m \<Longrightarrow> m' = readLoopStep lib now (haltMonitor m)" "mm_reading m \<Longrightarrow> \<not> ms_Connected (MonitorStats_of m')"
proof -
  have "mm_reading m \<longleftrightarrow> \<not> mm_done m" using monitor_run_inv [OF assms] by (simp add: monitor_inv_def)
  then show ?thesis using that
    by (cases "mm_reading m") (simp_all add: StopMonitor_def readLoopStep_def haltMonitor_def readLoopExit_def MonitorStats_of_def)
qed

lemma StopMonitor_unstarted: "StopMonitor (NewMempoolMonitor a cov mx f) = None"
  by (simp add: StopMonitor_def NewMempoolMonitor_def)

section \<open>Properties\<close>

definition demo_lib :: "bytes tx_lib" where
  "demo_lib = \<lparr>TxHash = (\<lambda>t. t), TxSerialize = Some, HashString = hex_encode,
     HashFromStr = (\<lambda>s. Some s)\<rparr>"

definition demo_conn :: "'tx wire_msg list \<Rightarrow> 'tx conn" where
  "demo_conn ms = \<lparr>incoming = map Inr ms, sent = [], write_err = None, closed = False\<rparr>"

definition demo_script :: "bytes wire_msg list" where
  "demo_script = [MsgVersion [] 70016 1 False, MsgVerAck, MsgPing 7, MsgTx ''x'', MsgTx ''A'']"

text \<open>
  a transaction fetched over P2P is the one asked for. Whatever the peers send, in whatever
  order, a raw transaction returned by \<^verbatim>\<open>FetchRawTx\<close> is the serialisation of a transaction whose
  hash is the hash that the txid denotes.
\<close>

theorem FetchRawTx_sound:
  assumes "FetchRawTx lib dial nc f txid = (Inr rawHex, f', nc')"
  shows "\<exists>h. HashFromStr lib txid = Some h \<and> serialises lib h rawHex"
  using assms
  by (auto simp: FetchRawTx_def Let_def dest: fetchFromPeer_sound fetchFromAddresses_sound
      split: option.splits prod.splits sum.splits)

lemmas conn_run = readMsg_def readMsgLarge_def readMsgTimeout_def writeMsg_def demo_conn_def

theorem FetchRawTx_sound_witness:
  "\<exists>f' nc'. FetchRawTx demo_lib (\<lambda>_. Inr (demo_conn demo_script)) 0 (NewTxFetcher [''p'']) ''A''
       = (Inr (hex_encode ''A''), f', nc') \<and> serialises demo_lib ''A'' (hex_encode ''A'')"
proof -
  have "\<exists>f' nc'. FetchRawTx demo_lib (\<lambda>_. Inr (demo_conn demo_script)) 0 (NewTxFetcher [''p'']) ''A''
      = (Inr (hex_encode ''A''), f', nc')"
    by (simp add: FetchRawTx_def NewTxFetcher_def Connect_def nonce_def handshake_def handshake_with_def
        conn_run awaitVerAck.simps fetchFromPeer_def RequestTransaction_def ReadTransaction.simps
        demo_lib_def demo_script_def Let_def)
  then obtain f' nc' where e: "FetchRawTx demo_lib (\<lambda>_. Inr (demo_conn demo_script)) 0
      (NewTxFetcher [''p'']) ''A'' = (Inr (hex_encode ''A''), f', nc')" by blast
  from FetchRawTx_sound [OF e] e show ?thesis by (auto simp: demo_lib_def)
qed

text \<open>
  the block cache stays bounded and truthful. Every call of \<^verbatim>\<open>FetchTxFromBlock\<close> keeps at most 50
  blocks in the cache, one entry per block, and every cached transaction is filed under its own
  hash string in natural or reversed byte order; so is a transaction the call returns.
\<close>

theorem FetchTxFromBlock_cache:
  assumes "cache_ok lib f" and "FetchTxFromBlock lib dial nc f txid b = (r, f', nc')"
  shows "cache_ok lib f' \<and> (\<forall>rawHex. r = Inr rawHex \<longrightarrow>
     (\<exists>h. serialises lib h rawHex \<and> (txid = HashString lib h \<or> txid = reverseHashHex (HashString lib h))))"
proof (cases "map_of (blockCache f) b")
  case None
  with assms show ?thesis
    by (auto simp: FetchTxFromBlock_def split: option.splits dest: fetchBlockFromAddresses_ok)
next
  case (Some m)
  then have "cached_txs_sound lib m" using assms(1) map_of_SomeD unfolding cache_ok_def by fast
  with Some assms show ?thesis
    by (auto simp: FetchTxFromBlock_def cached_txs_sound_def split: option.splits if_splits)
qed

theorem FetchTxFromBlock_cache_witness:
  "cache_ok demo_lib (NewBlockTxFetcher [])
   \<and> cache_ok demo_lib (fst (snd (FetchTxFromBlock demo_lib (\<lambda>_. Inl ''refused'') 0 (NewBlockTxFetcher [])
        ''A'' (replicate 64 CHR ''0''))))"
proof -
  have ok: "cache_ok demo_lib (NewBlockTxFetcher [])" by (simp add: cache_ok_def NewBlockTxFetcher_def)
  obtain r f' nc' where "FetchTxFromBlock demo_lib (\<lambda>_. Inl ''refused'') 0 (NewBlockTxFetcher [])
        ''A'' (replicate 64 CHR ''0'') = (r, f', nc')" by (metis prod_cases3)
  with FetchTxFromBlock_cache [OF ok this] ok show ?thesis by simp
qed

text \<open>
  the mempool monitor respects its coverage. In every run, for every message sequence the peer
  sends and every interleaving of starting, reading, flushing and stopping, a \<^verbatim>\<open>getdata\<close> message the monitor
  writes is not empty, asks for at most 50000 objects, and asks only for transactions whose first hash byte
  is covered.
\<close>

theorem monitor_respects_coverage:
  assumes "monitor_run lib dial (NewMempoolMonitor a cov mx f) b m" and "\<And>c. dial a = Inr c \<Longrightarrow> sent c = []"
    and "MsgGetData invs \<in> set (monitor_sent m)"
  shows "invs \<noteq> [] \<and> length invs \<le> 50000 \<and> (\<forall>iv \<in> set invs. fst iv = InvTypeTx \<and> hd (snd iv) \<in> set cov)"
proof -
  have "getdata_ok cov (MsgGetData invs :: 'a wire_msg)"
    using monitor_run_inv [OF assms(1,2)] assms(3) by (auto simp: monitor_inv_def)
  then show ?thesis by (simp add: getdata_ok_def maxGetDataPerMsg_def)
qed

definition demo_inv_conn :: "bytes conn" where
  "demo_inv_conn = demo_conn [MsgVersion [] 70016 1 False, MsgVerAck, MsgInv [(InvTypeTx, ''A1''), (InvTypeTx, ''B1'')]]"

lemmas monitor_eval = launchMonitor_def monitorHandshake_def handshake_with_def conn_run awaitVerAck.simps
  NewMempoolMonitor_def readMonitor_def writeMonitor_def nonce_def readLoopStep_def

theorem monitor_respects_coverage_witness:
  "\<exists>m. monitor_run demo_lib (\<lambda>_. Inr demo_inv_conn) (NewMempoolMonitor ''p'' ''A'' 0 True) False m
     \<and> MsgGetData [(InvTypeTx, ''A1'')] \<in> set (monitor_sent m) \<and> hd ''A1'' \<in> set ''A''"
proof -
  let ?dial = "\<lambda>_. Inr demo_inv_conn" and ?m0 = "NewMempoolMonitor ''p'' ''A'' 0 True"
  let ?m1 = "fst (snd (launchMonitor ?dial 0 ?m0))"
  let ?m2 = "?m1\<lparr>connected := True\<rparr>"
  let ?fin = "flushBatch (readLoopStep demo_lib 0 ?m2)"
  note ev = monitor_eval demo_inv_conn_def
  have l: "launchMonitor ?dial 0 ?m0 = (Inr (), ?m1, 1)" "mm_reading ?m2" by (simp_all add: ev)
  have run: "monitor_run demo_lib ?dial ?m0 False ?fin"
    by (rule monitor_run.flush, rule monitor_run.read, rule monitor_run.mark, rule monitor_run.launch, fact l, fact l)
  have sent: "MsgGetData [(InvTypeTx, ''A1'')] \<in> set (monitor_sent ?fin)"
    by (simp add: ev handleInv_def handleInvOne_def flushBatch_def maxGetDataPerMsg_def monitor_sent_def Let_def)
  have "sent c = []" if "?dial ''p'' = Inr c" for c using that by (auto simp: demo_inv_conn_def demo_conn_def)
  from monitor_respects_coverage [OF run this sent] run sent show ?thesis by auto
qed

text \<open>
  the flag can outlive the loop. The peer answers the handshake and hangs up; when the read loop
  notices before the last statement of \<^verbatim>\<open>Start\<close>, the monitor reports that it is connected with no loop left to
  say otherwise, and a later \<^verbatim>\<open>Stop\<close> does not correct it.
\<close>

theorem stale_connected:
  "\<exists>m m'. monitor_run demo_lib (\<lambda>_. Inr (demo_conn [MsgVersion [] 70016 1 False, MsgVerAck])) (NewMempoolMonitor ''p'' cov 0 True) False m
     \<and> mm_done m \<and> ms_Connected (MonitorStats_of m) \<and> StopMonitor m = Some m' \<and> ms_Connected (MonitorStats_of m')"
proof -
  let ?dial = "\<lambda>_. Inr (demo_conn [MsgVersion [] 70016 1 False, MsgVerAck])" and ?m0 = "NewMempoolMonitor ''p'' cov 0 True"
  let ?m1 = "fst (snd (launchMonitor ?dial 0 ?m0))"
  let ?dead = "(readLoopStep demo_lib 0 ?m1)\<lparr>connected := True\<rparr>"
  have l: "launchMonitor ?dial 0 ?m0 = (Inr (), ?m1, 1)" "mm_reading ?m1" by (simp_all add: monitor_eval)
  have run: "monitor_run demo_lib ?dial ?m0 False ?dead"
    by (rule monitor_run.mark, rule monitor_run.read, rule monitor_run.launch, fact l, fact l)
  have "mm_done ?dead" by (simp add: monitor_eval readLoopExit_def)
  then have stop: "StopMonitor ?dead = Some (haltMonitor ?dead)" by (simp add: StopMonitor_def)
  have "ms_Connected (MonitorStats_of (m\<lparr>connected := True\<rparr>))" "ms_Connected (MonitorStats_of (haltMonitor (m\<lparr>connected := True\<rparr>)))"
    for m :: "bytes MempoolMonitor" by (simp_all add: MonitorStats_of_def haltMonitor_def)
  with run \<open>mm_done ?dead\<close> stop show ?thesis by blast
qed

end
