(* ===== verification/Header_Sync.thy ===== *)
theory Header_Sync
  imports Header_Store P2p
begin

text \<open>
  \<^verbatim>\<open>internal/headers/sync.go\<close>: header synchronisation. The Go interface \<^verbatim>\<open>HeaderPeer\<close> is the record
  \<open>header_peer\<close> of the two operations the sync loop calls; \<open>conn_peer\<close> is its implementation by
  \<^verbatim>\<open>p2p.Peer\<close>. The sync loop has no bound of its own, so \<open>SyncWith\<close> takes fuel and \<^const>\<open>None\<close> means
  that it ran out; the theorems show how much is enough. Error texts and timestamps of
  \<^verbatim>\<open>SyncStats\<close> are kept as the error values and the clock readings they print.
\<close>

record 'p header_peer =
  hp_request :: "'p \<Rightarrow> bytes list \<Rightarrow> bytes option \<Rightarrow> (p2p_err + unit) \<times> 'p"
  hp_read :: "'p \<Rightarrow> (p2p_err + block_header list) \<times> 'p"

definition conn_peer :: "'tx conn header_peer" where
  "conn_peer = \<lparr>hp_request = RequestHeaders, hp_read = ReadHeaders\<rparr>"

datatype sync_err =
    ErrBuildLocator header_err
  | ErrRequestHeaders p2p_err
  | ErrReadHeaders p2p_err
  | ErrStoreHeaders uint32 header_err
  | ErrConnect p2p_err

record sync_stats =
  LastSource :: string
  LastAttemptAt :: string
  LastSuccessAt :: string
  LastError :: "sync_err option"
  LastTip :: uint32

definition maxHeadersPerMsg :: nat where "maxHeadersPerMsg = 2000"

section \<open>Operations\<close>

text \<open>
  The loop of \<^verbatim>\<open>buildLocator\<close>: \<open>i\<close>, \<open>step\<close>, \<open>height\<close> and \<open>locators\<close> are the loop's variables; the
  last component of the result is \<^verbatim>\<open>addedGenesis\<close>.
\<close>

function locatorLoop :: "('db, bytes) leveldb_ops \<Rightarrow> wire \<Rightarrow> 'db header_store \<Rightarrow> nat \<Rightarrow> uint32 \<Rightarrow> uint32
    \<Rightarrow> bytes list \<Rightarrow> header_err + (bytes list \<times> bool)" where
  "locatorLoop ops w s i step height locators =
     (if i < 32 then
        (case HashAtHeight ops w s height of
           Inl e \<Rightarrow> Inl e
         | Inr hash \<Rightarrow>
            (let locators' = locators @ [hash] in
             if height = 0 then Inr (locators', True)
             else let step' = (if 10 \<le> i then step * 2 else step);
                      height' = (if height \<le> step' then 0 else height - step')
                  in locatorLoop ops w s (i + 1) step' height' locators'))
      else Inr (locators, False))"
  by pat_completeness auto
termination
  by (relation "measure (\<lambda>(ops, w, s, i, st, h, ls). 32 - i)") auto

declare locatorLoop.simps [simp del]

definition buildLocator :: "('db, bytes) leveldb_ops \<Rightarrow> wire \<Rightarrow> 'db header_store \<Rightarrow> header_err + bytes list" where
  "buildLocator ops w s =
     (case locatorLoop ops w s 0 1 (Tip s) [] of
        Inl e \<Rightarrow> Inl e
      | Inr (locators, addedGenesis) \<Rightarrow>
         (if addedGenesis then Inr locators
          else case HashAtHeight ops w s 0 of
            Inl e \<Rightarrow> Inl e
          | Inr genesis \<Rightarrow> Inr (locators @ [genesis])))"

fun SyncWith :: "nat \<Rightarrow> ('db, bytes) leveldb_ops \<Rightarrow> wire \<Rightarrow> 'p header_peer \<Rightarrow> 'db header_store \<Rightarrow> 'p
    \<Rightarrow> ((sync_err + uint32) \<times> 'db header_store \<times> 'p) option" where
  "SyncWith 0 ops w pr s p = None"
| "SyncWith (Suc fuel) ops w pr s p =
     (case buildLocator ops w s of
        Inl e \<Rightarrow> Some (Inl (ErrBuildLocator e), s, p)
      | Inr locators \<Rightarrow>
         (case hp_request pr p locators None of
            (Inl e, p1) \<Rightarrow> Some (Inl (ErrRequestHeaders e), s, p1)
          | (Inr _, p1) \<Rightarrow>
             (case hp_read pr p1 of
                (Inl e, p2) \<Rightarrow> Some (Inl (ErrReadHeaders e), s, p2)
              | (Inr hdrs, p2) \<Rightarrow>
                 (if hdrs = [] then Some (Inr (Tip s), s, p2)
                  else let height = Tip s + 1 in
                    case AddHeaders ops w s height hdrs of
                      Inl e \<Rightarrow> Some (Inl (ErrStoreHeaders height e), s, p2)
                    | Inr s' \<Rightarrow>
                       (if length hdrs < maxHeadersPerMsg then Some (Inr (Tip s'), s', p2)
                        else SyncWith fuel ops w pr s' p2)))))"

record 'db Syncer =
  sy_store :: "'db header_store"
  stats :: sync_stats

definition NewSyncer :: "'db header_store \<Rightarrow> 'db Syncer" where
  "NewSyncer store = \<lparr>sy_store = store,
     stats = \<lparr>LastSource = [], LastAttemptAt = [], LastSuccessAt = [], LastError = None, LastTip = 0\<rparr>\<rparr>"

definition Stats :: "'db Syncer \<Rightarrow> sync_stats" where
  "Stats sy = stats sy"

definition recordAttempt :: "string \<Rightarrow> string \<Rightarrow> 'db Syncer \<Rightarrow> 'db Syncer" where
  "recordAttempt now source sy =
     sy\<lparr>stats := (stats sy)\<lparr>LastSource := source, LastAttemptAt := now, LastError := None\<rparr>\<rparr>"

definition recordSuccess :: "string \<Rightarrow> string \<Rightarrow> uint32 \<Rightarrow> 'db Syncer \<Rightarrow> 'db Syncer" where
  "recordSuccess now source tipHeight sy =
     sy\<lparr>stats := (stats sy)\<lparr>LastSource := source, LastAttemptAt := now, LastSuccessAt := now,
       LastError := None, LastTip := tipHeight\<rparr>\<rparr>"

definition recordFailure :: "string \<Rightarrow> string \<Rightarrow> sync_err \<Rightarrow> 'db Syncer \<Rightarrow> 'db Syncer" where
  "recordFailure now source err sy =
     sy\<lparr>stats := (stats sy)\<lparr>LastSource := source, LastAttemptAt := now, LastError := Some err\<rparr>\<rparr>"

text \<open>
  \<open>t1\<close> and \<open>t2\<close> are the clock readings of the attempt and of its outcome, \<open>nc\<close> the nonce counter of
  the P2P package.
\<close>

definition SyncFrom :: "nat \<Rightarrow> ('db, bytes) leveldb_ops \<Rightarrow> wire \<Rightarrow> (string \<Rightarrow> string + 'tx conn) \<Rightarrow> string
    \<Rightarrow> string \<Rightarrow> 64 word \<Rightarrow> string \<Rightarrow> 'db Syncer \<Rightarrow> ((sync_err + uint32) \<times> 'db Syncer \<times> 64 word) option" where
  "SyncFrom fuel ops w dial t1 t2 nc address sy =
     (let sy1 = recordAttempt t1 address sy in
      case Connect dial address nc of
        (Inl e, nc') \<Rightarrow> Some (Inl (ErrConnect e), recordFailure t2 address (ErrConnect e) sy1, nc')
      | (Inr c, nc') \<Rightarrow>
         (case SyncWith fuel ops w conn_peer (sy_store sy1) c of
            None \<Rightarrow> None
          | Some (Inl e, st, _) \<Rightarrow>
              Some (Inl e, recordFailure t2 address e (sy1\<lparr>sy_store := st\<rparr>), nc')
          | Some (Inr h, st, _) \<Rightarrow>
              Some (Inr h, recordSuccess t2 address h (sy1\<lparr>sy_store := st\<rparr>), nc')))"

section \<open>The heights of a locator\<close>

function locator_heights :: "nat \<Rightarrow> nat \<Rightarrow> nat \<Rightarrow> nat list" where
  "locator_heights i step height =
     (if i < 32 then
        height # (if height = 0 then []
                  else let step' = (if 10 \<le> i then step * 2 else step)
                       in locator_heights (i + 1) step' (height - step'))
      else [0])"
  by pat_completeness auto
termination
  by (relation "measure (\<lambda>(i, st, h). 32 - i)") auto

declare locator_heights.simps [simp del]

lemma locator_heights_length: "i \<le> 32 \<Longrightarrow> length (locator_heights i st h) \<le> 33 - i"
proof (induction i st h rule: locator_heights.induct)
  case (1 i st h)
  show ?case
  proof (cases "i < 32 \<and> h \<noteq> 0")
    case True
    with "1.IH" [of "if 10 \<le> i then st * 2 else st"] show ?thesis
      by (auto simp: locator_heights.simps [of i st h] Let_def)
  qed (use 1 in \<open>auto simp: locator_heights.simps [of i st h]\<close>)
qed

lemma hd_locator_heights: "i < 32 \<Longrightarrow> hd (locator_heights i st h) = h"
  by (simp add: locator_heights.simps [of i st h])

lemma last_locator_heights: "last (locator_heights i st h) = 0"
proof (induction i st h rule: locator_heights.induct)
  case (1 i st h)
  have ne: "locator_heights j a b \<noteq> []" for j a b by (simp add: locator_heights.simps [of j a b])
  from 1 show ?case by (simp add: locator_heights.simps [of i st h] Let_def ne)
qed

lemma locator_heights_decreasing: "0 < st \<Longrightarrow> h \<noteq> 0 \<or> i < 32 \<Longrightarrow> sorted_wrt (>) (locator_heights i st h)
    \<and> (\<forall>x \<in> set (locator_heights i st h). x \<le> h)"
proof (induction i st h rule: locator_heights.induct)
  case (1 i st h)
  show ?case
  proof (cases "i < 32 \<and> h \<noteq> 0")
    case True
    let ?st = "if 10 \<le> i then st * 2 else st"
    have st: "0 < ?st" using 1(2) by simp
    show ?thesis
    proof (cases "h - ?st \<noteq> 0 \<or> i + 1 < 32")
      case t: True
      from "1.IH" [OF _ _ refl st] t True
      have "sorted_wrt (>) (locator_heights (i + 1) ?st (h - ?st))"
        "\<forall>x \<in> set (locator_heights (i + 1) ?st (h - ?st)). x \<le> h - ?st" by blast+
      moreover have "h - ?st < h" using True st by auto
      ultimately show ?thesis using True
        by (subst locator_heights.simps, subst (2) locator_heights.simps) (simp add: Let_def, fastforce)
    next
      case False
      with True have "i = 31" by simp
      then show ?thesis using True False
        by (simp add: locator_heights.simps [of 31] locator_heights.simps [of 32])
    qed
  qed (auto simp: locator_heights.simps [of i st h])
qed

context header_env
begin

lemma locatorLoop_repr:
  assumes rp: "repr w contents s hs"
  shows "i \<le> 32 \<Longrightarrow> unat step \<le> 2 ^ (i - 10) \<Longrightarrow> unat height < length hs \<Longrightarrow>
    (case locatorLoop ops w s i step height locs of
       Inl e \<Rightarrow> False
     | Inr (ls, added) \<Rightarrow> (if added then ls else ls @ [BlockHash w (hs ! 0)])
         = locs @ map (\<lambda>n. BlockHash w (hs ! n)) (locator_heights i (unat step) (unat height)))"
proof (induction "32 - i" arbitrary: i step height locs)
  case 0
  then have "i = 32" by simp
  then show ?case by (simp add: locatorLoop.simps [of ops w s 32] locator_heights.simps [of 32])
next
  case (Suc k)
  note loop = locatorLoop.simps [of ops w s i step height locs] locator_heights.simps [of i "unat step" "unat height"]
  have hash: "HashAtHeight ops w s height = Inr (BlockHash w (hs ! unat height))"
    using hashAtHeight_repr [OF rp] Suc.prems(3) by (simp add: HashAtHeight_def)
  have i: "i < 32" using Suc.hyps(2) by simp
  show ?case
  proof (cases "height = 0")
    case True
    show ?thesis unfolding loop using i hash True by (simp add: Let_def)
  next
    case False
    let ?st = "if 10 \<le> i then step * 2 else step"
    let ?h = "if height \<le> ?st then 0 else height - ?st"
    have "(2::nat) ^ (i - 10) \<le> 2 ^ 21" using i by (intro power_increasing) auto
    then have st: "unat (step * 2) = unat step * 2" using Suc.prems(2) by (simp add: unat_word_ariths)
    have h: "unat ?h = unat height - unat ?st"
      using unat_sub [of ?st height] by (auto simp: word_le_nat_alt)
    have le: "unat ?st \<le> 2 ^ (i + 1 - 10)"
    proof (cases "10 \<le> i")
      case True
      then have "i + 1 - 10 = Suc (i - 10)" by simp
      with True st Suc.prems(2) show ?thesis by simp
    qed (use Suc.prems(2) in simp)
    have l: "locatorLoop ops w s i step height locs
        = locatorLoop ops w s (i + 1) ?st ?h (locs @ [BlockHash w (hs ! unat height)])"
      using i False hash by (simp add: loop(1) Let_def)
    have hts: "locator_heights i (unat step) (unat height)
        = unat height # locator_heights (i + 1) (unat ?st) (unat ?h)"
      using i False st by (subst h) (simp add: loop(2) Let_def unat_eq_0)
    have "unat ?h < length hs" "k = 32 - (i + 1)" "i + 1 \<le> 32" using h Suc.prems(3) Suc.hyps(2) i by simp_all
    note IH = Suc.hyps(1) [OF this(2,3) le this(1), of "locs @ [BlockHash w (hs ! unat height)]"]
    show ?thesis
      unfolding l hts using IH by (simp only: list.map append_assoc append_Cons append_Nil)
  qed
qed

lemma buildLocator_repr:
  assumes rp: "repr w contents s hs"
  shows "buildLocator ops w s = Inr (map (\<lambda>n. BlockHash w (hs ! n)) (locator_heights 0 1 (unat (tip s))))"
proof -
  have len: "unat (tip s) < length hs" "0 < length hs" using rp by (simp_all add: repr_def)
  have "HashAtHeight ops w s 0 = Inr (BlockHash w (hs ! 0))"
    using hashAtHeight_repr [OF rp, of 0] len by (simp add: HashAtHeight_def)
  then show ?thesis
    using locatorLoop_repr [OF rp, of 0 1 "tip s" "[]"] len
    by (auto simp: buildLocator_def Tip_def split: sum.splits if_splits)
qed

end

section \<open>Honest peers\<close>

text \<open>
  The documented answer of a Bitcoin node to \<^verbatim>\<open>getheaders\<close>: up to 2000 headers of its chain after the
  first locator hash that is on the chain (after the genesis block if none is).
\<close>

definition served_from :: "wire \<Rightarrow> block_header list \<Rightarrow> bytes list \<Rightarrow> nat" where
  "served_from w chain locs =
     (case filter (\<lambda>l. l \<in> BlockHash w ` set chain) locs of
        [] \<Rightarrow> 1
      | l # _ \<Rightarrow> Suc (length (takeWhile (\<lambda>h. BlockHash w h \<noteq> l) chain)))"

definition honest_peer :: "wire \<Rightarrow> 'p header_peer \<Rightarrow> block_header list \<Rightarrow> bool" where
  "honest_peer w pr chain \<longleftrightarrow> (\<forall>p locs. \<exists>p1 p2. hp_request pr p locs None = (Inr (), p1)
     \<and> hp_read pr p1 = (Inr (take maxHeadersPerMsg (drop (served_from w chain locs) chain)), p2))"

definition valid_chain :: "wire \<Rightarrow> block_header list \<Rightarrow> bool" where
  "valid_chain w chain \<longleftrightarrow> chain \<noteq> [] \<and> length chain \<le> 2 ^ 32 \<and> linked w (PrevBlock (hd chain)) chain
     \<and> list_all (meets_target w) (tl chain) \<and> list_all (\<lambda>h. Serialize w h \<noteq> None) chain
     \<and> distinct (map (BlockHash w) chain)"

lemma takeWhile_distinct:
  "distinct (map f xs) \<Longrightarrow> i < length xs \<Longrightarrow> takeWhile (\<lambda>x. f x \<noteq> f (xs ! i)) xs = take i xs"
proof (induction xs arbitrary: i)
  case (Cons x xs)
  then show ?case by (cases i) (auto simp: nth_mem)
qed simp

context header_env
begin

lemma served_to_store:
  assumes rp: "repr w contents s hs" and chain: "chain = hs @ rest" and d: "distinct (map (BlockHash w) chain)"
  shows "served_from w chain (map (\<lambda>n. BlockHash w (hs ! n)) (locator_heights 0 1 (unat (tip s)))) = length hs"
proof -
  have len: "length hs = Suc (unat (tip s))" using rp by (simp add: repr_def)
  obtain more where hts: "locator_heights 0 1 (unat (tip s)) = unat (tip s) # more"
    using locator_heights.simps [of 0 1 "unat (tip s)"] by simp
  have lc: "unat (tip s) < length chain" using len chain by simp
  have "hs ! unat (tip s) = chain ! unat (tip s)" using len chain by (simp add: nth_append)
  moreover have "takeWhile (\<lambda>h. BlockHash w h \<noteq> BlockHash w (chain ! unat (tip s))) chain = take (unat (tip s)) chain"
    using d lc by (rule takeWhile_distinct)
  moreover have "chain ! unat (tip s) \<in> set chain" using lc by (rule nth_mem)
  ultimately show ?thesis using len lc unfolding served_from_def hts by simp
qed

lemma SyncWith_honest:
  assumes rel: "reliable ops" and vc: "valid_chain w chain" and hp: "honest_peer w pr chain"
  shows "repr w contents s hs \<Longrightarrow> \<not> skipPoW s \<Longrightarrow> chain = hs @ rest \<Longrightarrow> length rest < fuel \<Longrightarrow>
    \<exists>s' p'. SyncWith fuel ops w pr s p = Some (Inr (tip s'), s', p') \<and> repr w contents s' chain"
proof (induction fuel arbitrary: s hs rest p)
  case (Suc fuel)
  note rp = Suc.prems(1) and pow = Suc.prems(2) and chain = Suc.prems(3)
  let ?locs = "map (\<lambda>n. BlockHash w (hs ! n)) (locator_heights 0 1 (unat (tip s)))"
  let ?new = "take maxHeadersPerMsg rest"
  have ne: "hs \<noteq> []" using rp by (simp add: repr_def)
  obtain p1 p2 where io: "hp_request pr p ?locs None = (Inr (), p1)"
      "hp_read pr p1 = (Inr (take maxHeadersPerMsg (drop (served_from w chain ?locs) chain)), p2)"
    using hp unfolding honest_peer_def by blast
  have d: "distinct (map (BlockHash w) chain)" using vc by (simp add: valid_chain_def)
  have io2: "hp_read pr p1 = (Inr ?new, p2)"
    using io(2) served_to_store [OF rp chain d] by (simp add: chain)
  show ?case
  proof (cases "rest = []")
    case True
    then show ?thesis using io(1) io2 rp chain by (simp add: buildLocator_repr [OF rp] Tip_def)
  next
    case False
    have new: "?new \<noteq> []" using False by (simp add: maxHeadersPerMsg_def)
    have split: "chain = (hs @ ?new) @ drop maxHeadersPerMsg rest" by (simp add: chain)
    have "linked w (BlockHash w (last hs)) (?new @ drop maxHeadersPerMsg rest)"
      using vc ne by (simp only: valid_chain_def chain linked_append append_take_drop_id simp_thms if_False)
    then have "linked w (BlockHash w (last hs)) ?new" by (simp only: linked_append)
    moreover have "set rest \<subseteq> set (tl chain)" using ne chain by (cases hs) auto
    then have "list_all (meets_target w) ?new" "list_all (\<lambda>h. Serialize w h \<noteq> None) ?new"
      using vc chain by (auto simp: valid_chain_def list_all_iff dest!: in_set_takeD)
    ultimately obtain s' where add: "AddHeaders ops w s (tip s + 1) ?new = Inr s'"
      using AddHeaders_accepts [OF rp _ _ _ rel] new by blast
    have len: "length hs + length ?new \<le> 2 ^ 32" using vc chain by (auto simp: valid_chain_def)
    have dn: "distinct (map (BlockHash w) (hs @ ?new))"
      using d by (subst (asm) split) (simp only: map_append [of _ "hs @ ?new"] distinct_append)
    have rp': "repr w contents s' (hs @ ?new)" using AddHeaders_refines [OF rp add len dn] .
    have pow': "\<not> skipPoW s'"
      using add pow by (auto simp: AddHeaders_def Let_def split: if_splits sum.splits)
    show ?thesis
    proof (cases "length rest < maxHeadersPerMsg")
      case True
      then show ?thesis using io(1) io2 add False rp' chain
        by (simp add: buildLocator_repr [OF rp] Tip_def Let_def)
    next
      case more: False
      have "length (drop maxHeadersPerMsg rest) < fuel"
        using Suc.prems(4) more by (simp add: maxHeadersPerMsg_def)
      from Suc.IH [OF rp' pow' split this, of p2]
      show ?thesis using io(1) io2 add new more by (simp add: buildLocator_repr [OF rp] Tip_def Let_def)
    qed
  qed
qed simp

end

section \<open>Connections give up\<close>

text \<open>
  Over a connection every round of the loop consumes at least one message, so the loop ends.
\<close>

lemma ReadHeaders_shrinks:
  "ReadHeaders c = (Inr hs, c') \<Longrightarrow> length (incoming c') < length (incoming c)"
proof (induction c rule: ReadHeaders.induct)
  case (1 c)
  obtain r1 c1 where rd: "readMsg c = (r1, c1)" by (cases "readMsg c")
  show ?case
  proof (cases r1)
    case (Inr m)
    have lt: "length (incoming c1) < length (incoming c)"
      using rd Inr by (simp add: readMsg_def readMsgTimeout_shrinks)
    from "1.prems" [unfolded ReadHeaders.simps [of c]] "1.IH" [OF rd [symmetric] Inr] lt
    show ?thesis by (simp add: rd Inr split: wire_msg.splits)
  qed (use "1.prems" rd in \<open>simp add: ReadHeaders.simps [of c]\<close>)
qed

lemma SyncWith_conn_returns:
  "length (incoming c) < fuel \<Longrightarrow> SyncWith fuel ops w conn_peer s c \<noteq> None"
proof (induction fuel arbitrary: s c)
  case (Suc fuel)
  have "incoming c1 = incoming c" if "RequestHeaders c locs None = (Inr (), c1)" for locs c1
    using that writeMsg_incoming [of c "MsgGetHeaders protocolVersion locs None"]
    by (simp add: RequestHeaders_def)
  with Suc show ?case
    by (auto simp: conn_peer_def Let_def split: sum.splits prod.splits dest!: ReadHeaders_shrinks)
qed simp

section \<open>Properties\<close>

definition demo_server :: "wire \<Rightarrow> block_header list \<Rightarrow> bytes list header_peer" where
  "demo_server w chain = \<lparr>hp_request = (\<lambda>p locs stop. (Inr (), locs)),
     hp_read = (\<lambda>p. (Inr (take maxHeadersPerMsg (drop (served_from w chain p) chain)), p))\<rparr>"

lemma demo_server_honest: "honest_peer w (demo_server w chain) chain"
  by (simp add: honest_peer_def demo_server_def)

lemma demo_valid_chain: "valid_chain demo_wire [demo_genesis, demo_block 2083236893 1]"
  using demo_distinct demo_meets [of 1] demo_genesis(2,3)
  by (simp add: valid_chain_def demo_wire_def demo_block_def fits_def)

text \<open>
  the block locator describes the whole chain. On a store that represents the chain \<open>hs\<close>,
  \<^verbatim>\<open>buildLocator\<close> succeeds and returns the hashes of at most 33 blocks of the chain at strictly
  decreasing heights, from the tip down to the genesis block.
\<close>

theorem buildLocator_shape:
  assumes "header_env ops contents w" and "repr w contents s hs"
  shows "\<exists>heights. buildLocator ops w s = Inr (map (\<lambda>n. BlockHash w (hs ! n)) heights)
    \<and> heights \<noteq> [] \<and> hd heights = unat (tip s) \<and> last heights = 0 \<and> sorted_wrt (>) heights \<and> length heights \<le> 33"
proof -
  let ?h = "locator_heights 0 1 (unat (tip s))"
  have "?h \<noteq> []" by (subst locator_heights.simps) simp
  then show ?thesis
    using header_env.buildLocator_repr [OF assms] hd_locator_heights [of 0] last_locator_heights
      locator_heights_decreasing [of 1 "unat (tip s)" 0] locator_heights_length [of 0]
    by (intro exI [of _ ?h]) simp
qed

theorem buildLocator_shape_witness:
  "\<exists>s heights. NewStore mem_ops demo_wire [] = Inr s
     \<and> buildLocator mem_ops demo_wire s = Inr (map (\<lambda>n. BlockHash demo_wire ([demo_genesis] ! n)) heights)
     \<and> heights \<noteq> [] \<and> hd heights = 0"
proof -
  obtain s where s: "NewStore mem_ops demo_wire [] = Inr s" using demo_opens by blast
  from buildLocator_shape [OF demo.header_env_axioms demo_chain(1) [OF s]] s demo_chain(3) [OF s]
  show ?thesis by auto
qed

text \<open>
  C10: header sync converges. From a store that holds a prefix of a valid chain, syncing with a peer
  that serves this chain returns the height of its last block and leaves a store that represents
  the whole chain. One unit of fuel per missing header, and one more, is enough (the loop needs
  one round per 2000 headers).
\<close>

theorem SyncWith_converges:
  assumes "header_env ops contents w" and "reliable ops" and "valid_chain w chain" and "honest_peer w pr chain"
    and "repr w contents s hs" and "\<not> skipPoW s" and "chain = hs @ rest" and "length rest < fuel"
  shows "\<exists>s' p'. SyncWith fuel ops w pr s p = Some (Inr (tip s'), s', p') \<and> repr w contents s' chain"
  using assms by (rule header_env.SyncWith_honest)

theorem SyncWith_converges_witness:
  "\<exists>s s' p'. NewStore mem_ops demo_wire [] = Inr s
     \<and> SyncWith 2 mem_ops demo_wire (demo_server demo_wire [demo_genesis, demo_block 2083236893 1]) s []
       = Some (Inr (tip s'), s', p') \<and> repr demo_wire map_of s' [demo_genesis, demo_block 2083236893 1]"
proof -
  obtain s where s: "NewStore mem_ops demo_wire [] = Inr s" using demo_opens by blast
  from SyncWith_converges [OF demo.header_env_axioms mem_reliable demo_valid_chain demo_server_honest
      demo_chain(1,2) [OF s], of "[demo_block 2083236893 1]" 2 "[]"] s
  show ?thesis by auto
qed



end
