(* ===== verification/Envelope.thy ===== *)
theory Envelope
  imports Anvil_Prelude
begin

text \<open>
  \<^verbatim>\<open>internal/envelope/envelope.go\<close>: signed data envelopes. SHA-256 and the elliptic-curve operations
  of go-sdk are the parameter \<open>c\<close>; the locale \<open>crypto\<close> states what the code relies on (a hash has 32
  bytes, serialised keys and signatures parse back, a fresh signature verifies). A Go pointer
  that may be nil (\<^verbatim>\<open>Monetization\<close>) and the zero time (\<^verbatim>\<open>ReceivedAt\<close>) are options, times are
  nanoseconds. \<^verbatim>\<open>Pubkey[:16]\<close> panics on a shorter string: \<open>Key\<close> is then \<^const>\<open>None\<close>.
\<close>

record ('sk, 'pk, 'sig) crypto =
  sha256 :: "bytes \<Rightarrow> bytes"
  ec_sign :: "'sk \<Rightarrow> bytes \<Rightarrow> 'sig"
  ec_verify :: "'sig \<Rightarrow> bytes \<Rightarrow> 'pk \<Rightarrow> bool"
  ec_pub :: "'sk \<Rightarrow> 'pk"
  ec_compressed :: "'pk \<Rightarrow> bytes"
  ec_pub_from_bytes :: "bytes \<Rightarrow> 'pk option"
  ec_der :: "'sig \<Rightarrow> bytes"
  ec_from_der :: "bytes \<Rightarrow> 'sig option"

record monetization =
  Model :: string
  PayeeLockingScriptHex :: string
  PriceSats :: int
  AuthPubkey :: string

record envelope =
  Type :: string
  Topic :: string
  Payload :: string
  Signature :: string
  Pubkey :: string
  TTL :: int
  Durable :: bool
  Timestamp :: int
  NoGossip :: bool
  Monetization :: "monetization option"
  ReceivedAt :: "int option"

datatype monetization_err =
    NeedsPayee string | NeedsPrice string | InvalidPayeeHex | NeedsAuthPubkey | BadAuthPubkey | UnknownModel string

datatype envelope_err =
    EmptyTopic | EmptyPayload | EmptySignature | EmptyPubkey | NegativeTTL | ZeroTTL
  | InvalidMonetization monetization_err | InvalidPubkeyHex | InvalidPubkey | InvalidSignatureHex
  | InvalidDER | SignatureMismatch

section \<open>Operations\<close>

definition validate_payee :: "monetization \<Rightarrow> monetization_err + unit" where
  "validate_payee m =
     (if PayeeLockingScriptHex m = [] then Inl (NeedsPayee (Model m))
      else if PriceSats m \<le> 0 then Inl (NeedsPrice (Model m))
      else if hex_decode (PayeeLockingScriptHex m) = None then Inl InvalidPayeeHex
      else Inr ())"

definition ValidateMonetization :: "monetization \<Rightarrow> monetization_err + unit" where
  "ValidateMonetization m =
     (if Model m = ''passthrough'' then validate_payee m
      else if Model m = ''split'' then validate_payee m
      else if Model m = ''token'' then
        (if AuthPubkey m = [] then Inl NeedsAuthPubkey
         else case hex_decode (AuthPubkey m) of
           None \<Rightarrow> Inl BadAuthPubkey
         | Some b \<Rightarrow> if length b \<noteq> 33 then Inl BadAuthPubkey else Inr ())
      else if Model m = ''free'' then Inr ()
      else Inl (UnknownModel (Model m)))"

abbreviation nl :: string where "nl \<equiv> [CHR 0x0A]"

definition canonical :: "envelope \<Rightarrow> string" where
  "canonical e =
     (let durableStr = (if Durable e then ''true'' else ''false'');
          base = Type e @ nl @ Topic e @ nl @ Payload e @ nl @ itoa (TTL e) @ nl @ durableStr @ nl
                 @ itoa (Timestamp e);
          withGossip = (if NoGossip e then base @ nl @ ''no_gossip'' else base)
      in case Monetization e of
           None \<Rightarrow> withGossip
         | Some m \<Rightarrow>
             withGossip @ nl @ Model m
             @ (if PayeeLockingScriptHex m \<noteq> [] then nl @ PayeeLockingScriptHex m else [])
             @ (if PriceSats m > 0 then nl @ itoa (PriceSats m) else [])
             @ (if AuthPubkey m \<noteq> [] then nl @ AuthPubkey m else []))"

definition SigningDigest :: "('sk, 'pk, 'sig) crypto \<Rightarrow> envelope \<Rightarrow> bytes" where
  "SigningDigest c e = sha256 c (canonical e)"

definition Sign :: "('sk, 'pk, 'sig) crypto \<Rightarrow> envelope \<Rightarrow> 'sk \<Rightarrow> envelope" where
  "Sign c e key =
     e\<lparr>Signature := hex_encode (ec_der c (ec_sign c key (SigningDigest c e))),
       Pubkey := hex_encode (ec_compressed c (ec_pub c key))\<rparr>"

definition Validate :: "('sk, 'pk, 'sig) crypto \<Rightarrow> envelope \<Rightarrow> envelope_err + unit" where
  "Validate c e =
     (if Topic e = [] then Inl EmptyTopic
      else if Payload e = [] then Inl EmptyPayload
      else if Signature e = [] then Inl EmptySignature
      else if Pubkey e = [] then Inl EmptyPubkey
      else if TTL e < 0 then Inl NegativeTTL
      else if TTL e = 0 \<and> \<not> Durable e then Inl ZeroTTL
      else case (case Monetization e of None \<Rightarrow> Inr () | Some m \<Rightarrow> ValidateMonetization m) of
        Inl err \<Rightarrow> Inl (InvalidMonetization err)
      | Inr _ \<Rightarrow>
         (case hex_decode (Pubkey e) of
            None \<Rightarrow> Inl InvalidPubkeyHex
          | Some pubBytes \<Rightarrow>
             (case ec_pub_from_bytes c pubBytes of
                None \<Rightarrow> Inl InvalidPubkey
              | Some pub \<Rightarrow>
                 (case hex_decode (Signature e) of
                    None \<Rightarrow> Inl InvalidSignatureHex
                  | Some sigBytes \<Rightarrow>
                     (case ec_from_der c sigBytes of
                        None \<Rightarrow> Inl InvalidDER
                      | Some sig \<Rightarrow>
                         if ec_verify c sig (SigningDigest c e) pub then Inr () else Inl SignatureMismatch)))))"

text \<open>\<^verbatim>\<open>time.Duration(e.TTL)*time.Second\<close> is a product of 64-bit integers.\<close>

definition IsExpired :: "int \<Rightarrow> envelope \<Rightarrow> bool" where
  "IsExpired now e =
     (if Durable e then False
      else case ReceivedAt e of
        None \<Rightarrow> False
      | Some r \<Rightarrow> now - r > wrap64 (TTL e * 1000000000))"

definition Key :: "('sk, 'pk, 'sig) crypto \<Rightarrow> envelope \<Rightarrow> string option" where
  "Key c e =
     (if length (Pubkey e) < 16 then None
      else Some (Topic e @ '':'' @ take 16 (Pubkey e) @ '':'' @ hex_encode (take 8 (sha256 c (Payload e)))))"

definition HashEnvelope :: "('sk, 'pk, 'sig) crypto \<Rightarrow> string \<Rightarrow> string \<Rightarrow> string \<Rightarrow> int \<Rightarrow> string" where
  "HashEnvelope c topic pubkey payload timestamp =
     hex_encode (take 16 (sha256 c (topic @ '':'' @ pubkey @ '':'' @ payload @ '':'' @ itoa timestamp)))"

text \<open>
  \<^verbatim>\<open>Marshal\<close> and \<^verbatim>\<open>UnmarshalEnvelope\<close>: \<^verbatim>\<open>encoding/json\<close> round-trips every field of a struct of UTF-8
  strings, integers and booleans except \<^verbatim>\<open>ReceivedAt\<close>, which is tagged out. Stored and transmitted
  JSON is kept as the value it decodes to, or as text that does not decode.
\<close>

definition Marshal :: "envelope \<Rightarrow> envelope json" where
  "Marshal e = Json (e\<lparr>ReceivedAt := None\<rparr>)"

fun UnmarshalEnvelope :: "envelope json \<Rightarrow> envelope option" where
  "UnmarshalEnvelope (Json e) = Some e"
| "UnmarshalEnvelope (Malformed _) = None"

section \<open>What the signature covers\<close>

fun join_nl :: "string list \<Rightarrow> string" where
  "join_nl [] = []"
| "join_nl [s] = s"
| "join_nl (s # ss) = s @ CHR 0x0A # join_nl ss"

definition line :: "string \<Rightarrow> bool" where
  "line s \<longleftrightarrow> CHR 0x0A \<notin> set s"

lemma join_nl_Cons: "ss \<noteq> [] \<Longrightarrow> join_nl (s # ss) = s @ CHR 0x0A # join_nl ss"
  by (cases ss) auto

lemma join_nl_inject:
  assumes "list_all line xs" and "list_all line ys" and "xs \<noteq> []" and "ys \<noteq> []"
    and "join_nl xs = join_nl ys"
  shows "xs = ys"
  using assms
proof (induction xs arbitrary: ys rule: join_nl.induct)
  case (2 s)
  then show ?case
    by (cases ys rule: join_nl.cases) (auto simp: line_def)
next
  case (3 s x xs)
  show ?case
  proof (cases ys rule: join_nl.cases)
    case (2 t)
    with 3 show ?thesis by (auto simp: line_def)
  next
    case (3 t y ys')
    with "3.prems" have "s = t \<and> join_nl (x # xs) = join_nl (y # ys')"
      by (intro sep_inject) (auto simp: line_def)
    with "3.IH" [of "y # ys'"] "3.prems" 3 show ?thesis by simp
  qed (use 3 in simp)
qed simp

definition terms_fields :: "monetization \<Rightarrow> string list" where
  "terms_fields m = Model m # (if PayeeLockingScriptHex m \<noteq> [] then [PayeeLockingScriptHex m] else [])
     @ (if PriceSats m > 0 then [itoa (PriceSats m)] else []) @ (if AuthPubkey m \<noteq> [] then [AuthPubkey m] else [])"

definition signed_fields :: "envelope \<Rightarrow> string list" where
  "signed_fields e =
     [Type e, Topic e, Payload e, itoa (TTL e), if Durable e then ''true'' else ''false'', itoa (Timestamp e)]
     @ (if NoGossip e then [''no_gossip''] else [])
     @ (case Monetization e of None \<Rightarrow> [] | Some m \<Rightarrow> terms_fields m)"

lemma canonical_join: "canonical e = join_nl (signed_fields e)"
  by (simp add: canonical_def signed_fields_def terms_fields_def Let_def split: option.split)

definition plain_text :: "envelope \<Rightarrow> bool" where
  \<comment> \<open>no field that is signed as text contains a line break\<close>
  "plain_text e \<longleftrightarrow> line (Type e) \<and> line (Topic e) \<and> line (Payload e)
     \<and> (case Monetization e of None \<Rightarrow> True
        | Some m \<Rightarrow> line (Model m) \<and> line (PayeeLockingScriptHex m) \<and> line (AuthPubkey m))"

lemma signed_fields_lines: "plain_text e \<Longrightarrow> list_all line (signed_fields e)"
  by (auto simp: signed_fields_def terms_fields_def plain_text_def line_def split: option.splits)

definition payment_terms :: "monetization \<Rightarrow> string \<times> (string \<times> int \<times> string) option" where
  \<comment> \<open>the terms a consumer pays by: the model and, where it asks for a payment, payee, price and key\<close>
  "payment_terms m =
     (Model m, if Model m \<in> {''passthrough'', ''split''}
               then Some (PayeeLockingScriptHex m, PriceSats m, AuthPubkey m) else None)"

lemma terms_fields_inject:
  assumes "ValidateMonetization m = Inr ()" and "ValidateMonetization n = Inr ()"
    and "terms_fields m = terms_fields n"
  shows "payment_terms m = payment_terms n"
  using assms
  by (auto simp: terms_fields_def payment_terms_def ValidateMonetization_def validate_payee_def itoa_inject
      split: if_splits)

lemma ValidateMonetization_model:
  "ValidateMonetization m = Inr () \<Longrightarrow> Model m \<in> {''passthrough'', ''split'', ''token'', ''free''}"
  by (auto simp: ValidateMonetization_def split: if_splits)

lemma Validate_cong:
  assumes "SigningDigest c e = SigningDigest c e'" and "Topic e = [] \<longleftrightarrow> Topic e' = []"
    and "Payload e = [] \<longleftrightarrow> Payload e' = []" and "Signature e = Signature e'" and "Pubkey e = Pubkey e'"
    and "TTL e = TTL e'" and "Durable e = Durable e'" and "Monetization e = Monetization e'"
  shows "Validate c e = Validate c e'"
  unfolding Validate_def assms ..

lemma optional_head_inject:
  assumes "(if b then [g] else []) @ xs = (if b' then [g] else []) @ ys"
    and "xs \<noteq> [] \<Longrightarrow> hd xs \<noteq> g" and "ys \<noteq> [] \<Longrightarrow> hd ys \<noteq> g"
  shows "b = b' \<and> xs = ys"
  using assms by (cases xs; cases ys) (auto split: if_splits)

section \<open>The cryptographic interface\<close>

locale crypto =
  fixes c :: "('sk, 'pk, 'sig) crypto"
  assumes sha256_length: "length (sha256 c x) = 32"
    and pub_roundtrip: "ec_pub_from_bytes c (ec_compressed c pk) = Some pk"
    and compressed_length: "length (ec_compressed c pk) = 33"
    and pub_bytes_length: "ec_pub_from_bytes c b = Some pk \<Longrightarrow> 33 \<le> length b"
    and der_roundtrip: "ec_from_der c (ec_der c sig) = Some sig"
    and der_nonempty: "ec_der c sig \<noteq> []"
    and verify_sign: "ec_verify c (ec_sign c sk d) d (ec_pub c sk)"
begin

lemma digest_sign [simp]: "SigningDigest c (Sign c e key) = SigningDigest c e"
  by (simp add: SigningDigest_def canonical_def Sign_def Let_def cong: option.case_cong)

lemma Validate_key:
  assumes "Validate c e = Inr ()"
  shows "66 \<le> length (Pubkey e)" and "\<exists>k. Key c e = Some k"
proof -
  obtain b pk where "hex_decode (Pubkey e) = Some b" "ec_pub_from_bytes c b = Some pk"
    using assms by (auto simp: Validate_def split: if_splits sum.splits option.splits)
  then show "66 \<le> length (Pubkey e)" using pub_bytes_length length_hex_decode by fastforce
  then show "\<exists>k. Key c e = Some k" by (simp add: Key_def)
qed

lemma Sign_validates:
  assumes "Topic e \<noteq> []" and "Payload e \<noteq> []" and "0 \<le> TTL e" and "TTL e \<noteq> 0 \<or> Durable e"
    and "\<And>m. Monetization e = Some m \<Longrightarrow> ValidateMonetization m = Inr ()"
  shows "Validate c (Sign c e key) = Inr ()"
proof -
  have "ec_compressed c (ec_pub c key) \<noteq> []" using compressed_length [of "ec_pub c key"] by auto
  moreover have "(case Monetization e of None \<Rightarrow> Inr () | Some m \<Rightarrow> ValidateMonetization m) = Inr ()"
    using assms(5) by (simp split: option.split)
  ultimately show ?thesis
    using assms(1-4) digest_sign [of e key]
    by (auto simp: Validate_def Sign_def der_nonempty pub_roundtrip der_roundtrip verify_sign)
qed

end

section \<open>A concrete instance\<close>

text \<open>
  Keys are bytes, a signature is the key and the signed digest: no security, but all the laws, so
  that concrete envelopes can be signed and checked.
\<close>

definition demo_crypto :: "(char, char, char \<times> bytes) crypto" where
  "demo_crypto = \<lparr>sha256 = (\<lambda>x. take 32 (x @ replicate 32 (CHR 0x00))), ec_sign = Pair,
     ec_verify = (\<lambda>(k, d') d pk. k = pk \<and> d' = d), ec_pub = (\<lambda>k. k),
     ec_compressed = (\<lambda>k. replicate 32 (CHR 0x02) @ [k]),
     ec_pub_from_bytes = (\<lambda>b. if length b = 33 \<and> butlast b = replicate 32 (CHR 0x02) then Some (last b) else None),
     ec_der = (\<lambda>(k, d). k # d), ec_from_der = (\<lambda>b. case b of [] \<Rightarrow> None | k # d \<Rightarrow> Some (k, d))\<rparr>"

interpretation democ: crypto demo_crypto
  by unfold_locales (auto simp: demo_crypto_def split: if_splits)

definition demo_env :: envelope where
  "demo_env = \<lparr>Type = ''data'', Topic = ''t'', Payload = ''p'', Signature = [], Pubkey = [], TTL = 60,
     Durable = False, Timestamp = 7, NoGossip = False, Monetization = None, ReceivedAt = None\<rparr>"

section \<open>Properties\<close>

text \<open>
  C29: signing produces a valid envelope. For every envelope with a topic, a payload, a consistent
  lifetime and valid payment terms, \<^verbatim>\<open>Validate\<close> accepts what \<^verbatim>\<open>Sign\<close> returns.
\<close>

theorem Sign_then_Validate:
  assumes "crypto c" and "Topic e \<noteq> []" and "Payload e \<noteq> []" and "0 \<le> TTL e" and "TTL e \<noteq> 0 \<or> Durable e"
    and "\<And>m. Monetization e = Some m \<Longrightarrow> ValidateMonetization m = Inr ()"
  shows "Validate c (Sign c e key) = Inr ()"
  using assms by (rule crypto.Sign_validates)

theorem Sign_then_Validate_witness: "Validate demo_crypto (Sign demo_crypto demo_env CHR ''k'') = Inr ()"
  by (rule Sign_then_Validate [OF democ.crypto_axioms]) (simp_all add: demo_env_def)



text \<open>
  line breaks move the boundary between topic and payload. For texts \<open>t\<close>, \<open>a\<close>, \<open>b\<close>, the envelope
  with topic \<open>t\<close> and a two-line payload \<open>a\<close>, \<open>b\<close> and the envelope with the two-line topic \<open>t\<close>, \<open>a\<close> and
  payload \<open>b\<close> have the same digest, and one signature is valid for both or for neither: an
  intermediary can move a signed envelope to another topic.
\<close>

theorem SigningDigest_ambiguous:
  assumes "t \<noteq> []" and "b \<noteq> []"
  shows "let e1 = e\<lparr>Topic := t, Payload := a @ nl @ b\<rparr>; e2 = e\<lparr>Topic := t @ nl @ a, Payload := b\<rparr>
    in Topic e1 \<noteq> Topic e2 \<and> SigningDigest c e1 = SigningDigest c e2 \<and> Validate c e1 = Validate c e2"
proof -
  have d: "SigningDigest c (e\<lparr>Topic := t, Payload := a @ nl @ b\<rparr>)
      = SigningDigest c (e\<lparr>Topic := t @ nl @ a, Payload := b\<rparr>)"
    by (simp add: SigningDigest_def canonical_def Let_def cong: option.case_cong)
  have "Validate c (e\<lparr>Topic := t, Payload := a @ nl @ b\<rparr>) = Validate c (e\<lparr>Topic := t @ nl @ a, Payload := b\<rparr>)"
    using assms by (intro Validate_cong d) simp_all
  with d show ?thesis by (simp add: Let_def)
qed

theorem SigningDigest_ambiguous_witness:
  "let s = Sign demo_crypto (demo_env\<lparr>Payload := ''a'' @ nl @ ''b''\<rparr>) CHR ''k'';
       moved = s\<lparr>Topic := ''t'' @ nl @ ''a'', Payload := ''b''\<rparr>
   in Validate demo_crypto s = Inr () \<and> Validate demo_crypto moved = Inr () \<and> Topic moved \<noteq> Topic s"
proof -
  let ?s = "Sign demo_crypto (demo_env\<lparr>Payload := ''a'' @ nl @ ''b''\<rparr>) CHR ''k''"
  have v: "Validate demo_crypto ?s = Inr ()"
    by (rule democ.Sign_validates) (simp_all add: demo_env_def)
  have s: "?s\<lparr>Topic := ''t'', Payload := ''a'' @ nl @ ''b''\<rparr> = ?s" by (simp add: Sign_def demo_env_def)
  from SigningDigest_ambiguous [of "''t''" "''b''" "''a''" ?s demo_crypto, unfolded s] v
  show ?thesis by (simp add: Let_def Sign_def demo_env_def)
qed

end
