(* ===== verification/Envelope_Store.thy ===== *)
theory Envelope_Store
  imports Envelope Leveldb
begin

text \<open>
  \<^verbatim>\<open>internal/envelope/store.go\<close>: durable envelopes in LevelDB under \<^verbatim>\<open>d:<topic>:<key>\<close>, ephemeral ones
  in a map that the code ranges over. Database values are JSON, kept decoded (type \<open>json\<close>).
  \<open>now\<close> is the clock in nanoseconds; an operation that reads the clock several times sees the same
  instant.
\<close>

record 'db envelope_store =
  es_db :: 'db
  ephemeral :: "(string \<times> envelope) list"
  maxEphemeralTTL :: int
  maxDurableSize :: int

datatype store_err =
    ErrInvalidEnvelope envelope_err
  | ErrPayloadSize nat int
  | ErrStoreDB dberr
  | ErrTTL int int
  | ErrTopicAndKeyRequired
  | PanicSlice

definition prefixDurable :: bytes where "prefixDurable = ''d:''"

section \<open>Operations\<close>

definition NewEnvelopeStore :: "'db \<Rightarrow> int \<Rightarrow> int \<Rightarrow> 'db envelope_store" where
  "NewEnvelopeStore db maxTTL maxSize =
     \<lparr>es_db = db, ephemeral = [], maxEphemeralTTL = maxTTL, maxDurableSize = maxSize\<rparr>"

definition storeDurable :: "('db, envelope json) leveldb_ops \<Rightarrow> ('sk, 'pk, 'sig) crypto
    \<Rightarrow> 'db envelope_store \<Rightarrow> envelope \<Rightarrow> store_err + 'db envelope_store" where
  "storeDurable ops c s env =
     (if int (length (Payload env)) > maxDurableSize s
      then Inl (ErrPayloadSize (length (Payload env)) (maxDurableSize s))
      else case Key c env of
        None \<Rightarrow> Inl PanicSlice
      | Some k \<Rightarrow>
         (case db_put ops (es_db s) (prefixDurable @ Topic env @ '':'' @ k) (Marshal env) of
            Inl e \<Rightarrow> Inl (ErrStoreDB e)
          | Inr db \<Rightarrow> Inr (s\<lparr>es_db := db\<rparr>)))"

definition storeEphemeral :: "('sk, 'pk, 'sig) crypto \<Rightarrow> 'db envelope_store \<Rightarrow> envelope
    \<Rightarrow> store_err + 'db envelope_store" where
  "storeEphemeral c s env =
     (if TTL env > maxEphemeralTTL s then Inl (ErrTTL (TTL env) (maxEphemeralTTL s))
      else case Key c env of
        None \<Rightarrow> Inl PanicSlice
      | Some k \<Rightarrow> Inr (s\<lparr>ephemeral := AList.update k env (ephemeral s)\<rparr>))"

definition Ingest :: "('db, envelope json) leveldb_ops \<Rightarrow> ('sk, 'pk, 'sig) crypto \<Rightarrow> int
    \<Rightarrow> 'db envelope_store \<Rightarrow> envelope \<Rightarrow> store_err + 'db envelope_store" where
  "Ingest ops c now s env =
     (case Validate c env of
        Inl e \<Rightarrow> Inl (ErrInvalidEnvelope e)
      | Inr _ \<Rightarrow>
         (let env' = env\<lparr>ReceivedAt := Some now\<rparr>
          in if Durable env' then storeDurable ops c s env' else storeEphemeral c s env'))"

definition Delete :: "('db, envelope json) leveldb_ops \<Rightarrow> 'db envelope_store \<Rightarrow> string \<Rightarrow> string
    \<Rightarrow> store_err + (bool \<times> 'db envelope_store)" where
  "Delete ops s topic key =
     (if topic = [] \<or> key = [] then Inl ErrTopicAndKeyRequired
      else let durableKey = prefixDurable @ topic @ '':'' @ key in
        case db_has ops (es_db s) durableKey of
          Inl e \<Rightarrow> Inl (ErrStoreDB e)
        | Inr ok \<Rightarrow>
           (case (if ok then db_delete ops (es_db s) durableKey else Inr (es_db s)) of
              Inl e \<Rightarrow> Inl (ErrStoreDB e)
            | Inr db \<Rightarrow>
               (let s1 = s\<lparr>es_db := db\<rparr> in
                if map_of (ephemeral s1) key \<noteq> None
                then Inr (True, s1\<lparr>ephemeral := AList.delete key (ephemeral s1)\<rparr>)
                else Inr (ok, s1))))"

definition StoreEphemeralDirect :: "('sk, 'pk, 'sig) crypto \<Rightarrow> 'db envelope_store \<Rightarrow> envelope
    \<Rightarrow> store_err + 'db envelope_store" where
  "StoreEphemeralDirect c s env =
     (case Key c env of
        None \<Rightarrow> Inl PanicSlice
      | Some k \<Rightarrow> Inr (s\<lparr>ephemeral := AList.update k env (ephemeral s)\<rparr>))"

definition QueryByTopic :: "('db, envelope json) leveldb_ops \<Rightarrow> int \<Rightarrow> 'db envelope_store \<Rightarrow> string \<Rightarrow> int
    \<Rightarrow> store_err + envelope list" where
  "QueryByTopic ops now s topic limit =
     (case db_iter ops (es_db s) (prefixDurable @ topic @ '':'') of
        (_, Some e) \<Rightarrow> Inl (ErrStoreDB e)
      | (kvs, None) \<Rightarrow>
         (let results = List.map_filter (\<lambda>(k, v). UnmarshalEnvelope v) kvs
                @ filter (\<lambda>env. Topic env = topic \<and> \<not> IsExpired now env) (map snd (ephemeral s));
              sorted = sort_key (\<lambda>env. - Timestamp env) results
          in Inr (if limit > 0 \<and> int (length sorted) > limit then take (nat limit) sorted else sorted)))"

definition ExpireEphemeral :: "int \<Rightarrow> 'db envelope_store \<Rightarrow> nat \<times> 'db envelope_store" where
  "ExpireEphemeral now s =
     (length (filter (\<lambda>(k, env). IsExpired now env) (ephemeral s)),
      s\<lparr>ephemeral := filter (\<lambda>(k, env). \<not> IsExpired now env) (ephemeral s)\<rparr>)"

definition CountEphemeral :: "'db envelope_store \<Rightarrow> nat" where
  "CountEphemeral s = length (ephemeral s)"

definition CountDurable :: "('db, envelope json) leveldb_ops \<Rightarrow> 'db envelope_store \<Rightarrow> nat" where
  "CountDurable ops s = length (fst (db_iter ops (es_db s) prefixDurable))"

definition go_lookup :: "'v \<Rightarrow> ('k \<rightharpoonup> 'v) \<Rightarrow> 'k \<Rightarrow> 'v" where
  \<comment> \<open>reading a Go map at an absent key gives the zero value\<close>
  "go_lookup z m k = (case m k of None \<Rightarrow> z | Some v \<Rightarrow> v)"

definition latest_step :: "envelope \<Rightarrow> (string \<rightharpoonup> int) \<Rightarrow> (string \<rightharpoonup> int)" where
  "latest_step env m =
     (if Timestamp env > go_lookup 0 m (Topic env) then m(Topic env \<mapsto> Timestamp env) else m)"

definition live_envelopes :: "('db, envelope json) leveldb_ops \<Rightarrow> int \<Rightarrow> 'db envelope_store \<Rightarrow> envelope list" where
  \<comment> \<open>the envelopes that \<^verbatim>\<open>LatestByTopic\<close> and \<^verbatim>\<open>Topics\<close> visit, in their order\<close>
  "live_envelopes ops now s =
     List.map_filter (\<lambda>(k, v). UnmarshalEnvelope v) (fst (db_iter ops (es_db s) prefixDurable))
     @ filter (\<lambda>env. \<not> IsExpired now env) (map snd (ephemeral s))"

definition LatestByTopic :: "('db, envelope json) leveldb_ops \<Rightarrow> int \<Rightarrow> 'db envelope_store
    \<Rightarrow> (string \<rightharpoonup> int)" where
  "LatestByTopic ops now s = fold latest_step (live_envelopes ops now s) Map.empty"

definition topics_step :: "envelope \<Rightarrow> (string \<rightharpoonup> int) \<Rightarrow> (string \<rightharpoonup> int)" where
  "topics_step env m = m(Topic env \<mapsto> go_lookup 0 m (Topic env) + 1)"

definition Topics :: "('db, envelope json) leveldb_ops \<Rightarrow> int \<Rightarrow> 'db envelope_store \<Rightarrow> (string \<rightharpoonup> int)" where
  "Topics ops now s = fold topics_step (live_envelopes ops now s) Map.empty"

section \<open>The invariant\<close>

definition durable_ok :: "('sk, 'pk, 'sig) crypto \<Rightarrow> int \<Rightarrow> (bytes \<rightharpoonup> envelope json) \<Rightarrow> bool" where
  "durable_ok c maxSize m \<longleftrightarrow> (\<forall>k v. m k = Some v \<longrightarrow> (\<exists>env key. v = Json env \<and> Validate c env = Inr ()
     \<and> Durable env \<and> ReceivedAt env = None \<and> int (length (Payload env)) \<le> maxSize \<and> Key c env = Some key
     \<and> k = prefixDurable @ Topic env @ '':'' @ key))"

definition ephemeral_ok :: "('sk, 'pk, 'sig) crypto \<Rightarrow> int \<Rightarrow> (string \<times> envelope) list \<Rightarrow> bool" where
  "ephemeral_ok c maxTTL kvs \<longleftrightarrow> distinct (map fst kvs) \<and> (\<forall>(k, env) \<in> set kvs. Validate c env = Inr ()
     \<and> \<not> Durable env \<and> ReceivedAt env \<noteq> None \<and> TTL env \<le> maxTTL \<and> Key c env = Some k)"

definition store_ok :: "('sk, 'pk, 'sig) crypto \<Rightarrow> ('db \<Rightarrow> (bytes \<rightharpoonup> envelope json)) \<Rightarrow> 'db envelope_store \<Rightarrow> bool" where
  "store_ok c contents s \<longleftrightarrow> durable_ok c (maxDurableSize s) (contents (es_db s))
     \<and> ephemeral_ok c (maxEphemeralTTL s) (ephemeral s)"

text \<open>Every use of a store: the operations the node calls, in any order and at any times.\<close>

inductive envelope_history :: "('db, envelope json) leveldb_ops \<Rightarrow> ('sk, 'pk, 'sig) crypto \<Rightarrow> 'db
    \<Rightarrow> 'db envelope_store \<Rightarrow> bool"
  for ops :: "('db, envelope json) leveldb_ops" and c :: "('sk, 'pk, 'sig) crypto" and db0 :: 'db where
  new: "envelope_history ops c db0 (NewEnvelopeStore db0 maxTTL maxSize)"
| ingest: "envelope_history ops c db0 s \<Longrightarrow> Ingest ops c now s env = Inr s' \<Longrightarrow> envelope_history ops c db0 s'"
| delete: "envelope_history ops c db0 s \<Longrightarrow> Delete ops s topic key = Inr (b, s') \<Longrightarrow> envelope_history ops c db0 s'"
| expire: "envelope_history ops c db0 s \<Longrightarrow> envelope_history ops c db0 (snd (ExpireEphemeral now s))"

lemma Validate_ReceivedAt [simp]: "Validate c (e\<lparr>ReceivedAt := r\<rparr>) = Validate c e"
  by (rule Validate_cong) (simp_all add: SigningDigest_def canonical_def Let_def cong: option.case_cong)

lemma Key_ReceivedAt [simp]: "Key c (e\<lparr>ReceivedAt := r\<rparr>) = Key c e"
  by (simp add: Key_def)

lemma ephemeral_ok_update:
  assumes "ephemeral_ok c t kvs" and "Validate c env = Inr ()" "\<not> Durable env" "ReceivedAt env \<noteq> None"
    "TTL env \<le> t" "Key c env = Some k"
  shows "ephemeral_ok c t (AList.update k env kvs)"
proof -
  have "set (AList.update k env kvs) \<subseteq> insert (k, env) (set kvs)" by (induction kvs) auto
  with assms show ?thesis by (fastforce simp: ephemeral_ok_def distinct_update)
qed

lemma ephemeral_ok_filter: "ephemeral_ok c t kvs \<Longrightarrow> ephemeral_ok c t (filter P kvs)"
  by (auto simp: ephemeral_ok_def distinct_map_fst_filter)

lemma ephemeral_ok_delete: "ephemeral_ok c t kvs \<Longrightarrow> ephemeral_ok c t (AList.delete k kvs)"
  by (simp add: AList.delete_eq ephemeral_ok_filter)

locale envelope_env = leveldb ops contents + crypto c
  for ops :: "('db, envelope json) leveldb_ops" and contents :: "'db \<Rightarrow> (bytes \<rightharpoonup> envelope json)"
    and c :: "('sk, 'pk, 'sig) crypto"
begin

lemma Ingest_ok:
  assumes ok: "store_ok c contents s" and i: "Ingest ops c now s env = Inr s'"
  shows "store_ok c contents s'"
proof -
  have v: "Validate c env = Inr ()" using i by (simp add: Ingest_def split: sum.splits)
  show ?thesis
  proof (cases "Durable env")
    case True
    with i v obtain k db where k: "Key c env = Some k" and sz: "int (length (Payload env)) \<le> maxDurableSize s"
      and put: "db_put ops (es_db s) (prefixDurable @ Topic env @ '':'' @ k) (Marshal (env\<lparr>ReceivedAt := Some now\<rparr>)) = Inr db"
      and s': "s' = s\<lparr>es_db := db\<rparr>"
      by (auto simp: Ingest_def storeDurable_def Let_def split: if_splits option.splits sum.splits)
    have "Marshal (env\<lparr>ReceivedAt := Some now\<rparr>) = Json (env\<lparr>ReceivedAt := None\<rparr>)" by (simp add: Marshal_def)
    with ok True v k sz s' show ?thesis
      by (auto simp: store_ok_def durable_ok_def put_spec [OF put])
  next
    case False
    with i v obtain k where "Key c env = Some k" "TTL env \<le> maxEphemeralTTL s"
      "s' = s\<lparr>ephemeral := AList.update k (env\<lparr>ReceivedAt := Some now\<rparr>) (ephemeral s)\<rparr>"
      by (auto simp: Ingest_def storeEphemeral_def Let_def split: if_splits option.splits)
    with ok False v show ?thesis by (auto simp: store_ok_def intro: ephemeral_ok_update)
  qed
qed

lemma Delete_ok:
  assumes ok: "store_ok c contents s" and d: "Delete ops s topic key = Inr (b, s')"
  shows "store_ok c contents s'"
proof -
  let ?k = "prefixDurable @ topic @ '':'' @ key"
  obtain ok where h: "db_has ops (es_db s) ?k = Inr ok" by (simp add: has_spec)
  obtain db where db: "(if ok then db_delete ops (es_db s) ?k else Inr (es_db s)) = Inr db"
    using d h by (auto simp: Delete_def Let_def split: if_splits sum.splits)
  have "contents db k = Some v \<Longrightarrow> contents (es_db s) k = Some v" for k v
    using db by (auto dest: delete_spec split: if_splits)
  then have dok: "durable_ok c (maxDurableSize s) (contents db)"
    using assms(1) unfolding store_ok_def durable_ok_def by blast
  have "s' = s\<lparr>es_db := db\<rparr> \<or> s' = s\<lparr>es_db := db, ephemeral := AList.delete key (ephemeral s)\<rparr>"
    using d h db by (auto simp: Delete_def Let_def split: if_splits)
  with dok assms(1) show ?thesis by (auto simp: store_ok_def ephemeral_ok_delete)
qed

lemma history_ok:
  assumes "contents db0 = Map.empty" and "envelope_history ops c db0 s"
  shows "store_ok c contents s"
  using assms(2)
proof (induction rule: envelope_history.induct)
  case (new maxTTL maxSize)
  then show ?case by (simp add: store_ok_def durable_ok_def ephemeral_ok_def NewEnvelopeStore_def assms(1))
next
  case (expire s now)
  then show ?case by (simp add: store_ok_def ExpireEphemeral_def ephemeral_ok_filter)
qed (blast intro: Ingest_ok Delete_ok)+

lemma query_unlimited:
  assumes "QueryByTopic ops now s topic limit = Inr rs"
  shows "\<exists>all. QueryByTopic ops now s topic 0 = Inr all
     \<and> rs = (if 0 < limit \<and> int (length all) > limit then take (nat limit) all else all)"
proof -
  obtain kvs where "db_iter ops (es_db s) (prefixDurable @ topic @ '':'') = (kvs, None)"
    using iter_pair by blast
  with assms show ?thesis by (simp add: QueryByTopic_def Let_def)
qed

lemma query_total: "\<exists>rs. QueryByTopic ops now s topic limit = Inr rs"
proof -
  obtain kvs where "db_iter ops (es_db s) (prefixDurable @ topic @ '':'') = (kvs, None)"
    using iter_pair by blast
  then show ?thesis by (simp add: QueryByTopic_def Let_def)
qed

lemma query_mem:
  assumes "QueryByTopic ops now s topic 0 = Inr rs"
  shows "env \<in> set rs \<longleftrightarrow>
    (\<exists>k. contents (es_db s) k = Some (Json env) \<and> prefix (prefixDurable @ topic @ '':'') k)
    \<or> (\<exists>k. (k, env) \<in> set (ephemeral s) \<and> Topic env = topic \<and> \<not> IsExpired now env)"
proof -
  let ?p = "prefixDurable @ topic @ '':''"
  have u: "UnmarshalEnvelope v = Some env \<longleftrightarrow> v = Json env" for v by (cases v) auto
  obtain kvs where kvs: "db_iter ops (es_db s) ?p = (kvs, None)" using iter_pair by blast
  have "(k, v) \<in> set kvs \<longleftrightarrow> contents (es_db s) k = Some v \<and> prefix ?p k" for k v
    using iter_mem [of k v "es_db s" ?p] kvs by simp
  then have "(\<exists>x \<in> set kvs. UnmarshalEnvelope (snd x) = Some env)
      \<longleftrightarrow> (\<exists>k. contents (es_db s) k = Some (Json env) \<and> prefix ?p k)"
    by (simp add: u Bex_def split_paired_Ex)
  moreover have "env \<in> snd ` set (ephemeral s) \<longleftrightarrow> (\<exists>k. (k, env) \<in> set (ephemeral s))" by force
  moreover have "rs = sort_key (\<lambda>env. - Timestamp env) (List.map_filter (\<lambda>(k, v). UnmarshalEnvelope v) kvs
      @ filter (\<lambda>env. Topic env = topic \<and> \<not> IsExpired now env) (map snd (ephemeral s)))"
    using assms by (simp add: QueryByTopic_def kvs Let_def)
  then have "env \<in> set rs \<longleftrightarrow> (\<exists>x \<in> set kvs. UnmarshalEnvelope (snd x) = Some env)
      \<or> env \<in> snd ` set (ephemeral s) \<and> Topic env = topic \<and> \<not> IsExpired now env"
    by (simp only: set_sort set_append set_filter list.set_map Un_iff mem_Collect_eq set_map_filter case_prod_unfold)
  ultimately show ?thesis by blast
qed

lemma Ingest_query:
  assumes i: "Ingest ops c now s env = Inr s'"
    and live: "Durable env \<or> \<not> IsExpired later (env\<lparr>ReceivedAt := Some now\<rparr>)"
    and q: "QueryByTopic ops later s' (Topic env) 0 = Inr rs"
  shows "env\<lparr>ReceivedAt := (if Durable env then None else Some now)\<rparr> \<in> set rs"
proof (cases "Durable env")
  case True
  with i obtain k db where "db_put ops (es_db s) (prefixDurable @ Topic env @ '':'' @ k)
      (Marshal (env\<lparr>ReceivedAt := Some now\<rparr>)) = Inr db" and s': "es_db s' = db"
    by (auto simp: Ingest_def storeDurable_def Let_def split: if_splits option.splits sum.splits)
  then have "contents (es_db s') (prefixDurable @ Topic env @ '':'' @ k) = Some (Json (env\<lparr>ReceivedAt := None\<rparr>))"
    by (auto simp: Marshal_def dest: put_spec)
  moreover have "prefix (prefixDurable @ Topic env @ '':'') (prefixDurable @ Topic env @ '':'' @ k)"
    by (simp add: prefix_def)
  ultimately show ?thesis using True query_mem [OF q] by auto
next
  case False
  with i obtain k where "s' = s\<lparr>ephemeral := AList.update k (env\<lparr>ReceivedAt := Some now\<rparr>) (ephemeral s)\<rparr>"
    by (auto simp: Ingest_def storeEphemeral_def Let_def split: if_splits option.splits sum.splits)
  then have "(k, env\<lparr>ReceivedAt := Some now\<rparr>) \<in> set (ephemeral s')"
    by (auto simp: update_conv' intro!: map_of_SomeD)
  with False live query_mem [OF q] show ?thesis by auto
qed

lemma query_sorted:
  "QueryByTopic ops now s topic limit = Inr rs \<Longrightarrow> sorted_wrt (\<lambda>x y. Timestamp y \<le> Timestamp x) rs"
  by (auto simp: QueryByTopic_def Let_def split: prod.splits option.splits
      intro!: sorted_desc_take sorted_wrt_sort_key_desc)

end

lemma Max_insert_max: "finite S \<Longrightarrow> Max (insert (max a b) S) = Max (insert a (insert b S))" for a b :: int
  by (cases "S = {}") (simp_all add: max.assoc)

lemma latest_fold:
  "go_lookup 0 (fold latest_step es m) t = Max (insert (go_lookup 0 m t) (Timestamp ` {e \<in> set es. Topic e = t}))"
proof (induction es arbitrary: m)
  case (Cons e es)
  have "go_lookup 0 (latest_step e m) t = (if Topic e = t then max (go_lookup 0 m t) (Timestamp e) else go_lookup 0 m t)"
    by (auto simp: latest_step_def go_lookup_def max_def)
  moreover have "insert (go_lookup 0 m t) (Timestamp ` {x \<in> set (e # es). Topic x = t}) =
      (if Topic e = t then insert (go_lookup 0 m t) (insert (Timestamp e) (Timestamp ` {x \<in> set es. Topic x = t}))
       else insert (go_lookup 0 m t) (Timestamp ` {x \<in> set es. Topic x = t}))"
    by auto
  ultimately show ?case
    using Cons.IH [of "latest_step e m"] Max_insert_max [of "Timestamp ` {x \<in> set es. Topic x = t}"]
    by (simp only: fold_simps comp_apply) (simp split: if_split)
qed simp

lemma topics_fold:
  "go_lookup 0 (fold topics_step es m) t = go_lookup 0 m t + int (length (filter (\<lambda>e. Topic e = t) es))"
  by (induction es arbitrary: m) (auto simp: topics_step_def go_lookup_def)

interpretation demos: envelope_env mem_ops map_of demo_crypto
  by (intro envelope_env.intro mem.leveldb_axioms democ.crypto_axioms)

definition demo_signed :: envelope where
  "demo_signed = Sign demo_crypto demo_env CHR ''k''"

definition demo_durable :: envelope where
  "demo_durable = Sign demo_crypto (demo_env\<lparr>Topic := ''a:b'', Durable := True\<rparr>) CHR ''k''"

lemma demo_signed_valid: "Validate demo_crypto demo_signed = Inr ()" "Validate demo_crypto demo_durable = Inr ()"
  unfolding demo_signed_def demo_durable_def
  by (rule democ.Sign_validates; simp add: demo_env_def)+

lemma demo_signed_simps [simp]:
  "Topic demo_signed = ''t''" "TTL demo_signed = 60" "\<not> Durable demo_signed" "Timestamp demo_signed = 7"
  "Topic demo_durable = ''a:b''" "Durable demo_durable" "Payload demo_durable = ''p''"
  by (simp_all add: demo_signed_def demo_durable_def Sign_def demo_env_def)

lemma demo_ingests:
  "\<exists>s. Ingest mem_ops demo_crypto now (NewEnvelopeStore [] 3600 65536) demo_signed = Inr s"
  "\<exists>s. Ingest mem_ops demo_crypto now (NewEnvelopeStore [] 3600 65536) demo_durable = Inr s"
  using demo_signed_valid democ.Validate_key(2) [OF demo_signed_valid(1)] democ.Validate_key(2) [OF demo_signed_valid(2)]
  by (auto simp: Ingest_def storeEphemeral_def storeDurable_def NewEnvelopeStore_def Let_def mem_ops_def)

section \<open>Properties\<close>

text \<open>
  Every envelope a store holds is authentic. After any sequence of ingests, deletions and expiry
  sweeps that started from an empty database, every stored envelope passes \<^verbatim>\<open>Validate\<close>, is filed
  under its own key in the part of the store that its \<^verbatim>\<open>Durable\<close> flag selects, and respects the
  limits on TTL and payload size.
\<close>

theorem store_holds_only_valid:
  assumes "envelope_env ops contents c" and "contents db0 = Map.empty" and "envelope_history ops c db0 s"
  shows "store_ok c contents s"
  using assms by (rule envelope_env.history_ok)

theorem store_holds_only_valid_witness:
  "\<exists>s. Ingest mem_ops demo_crypto 5 (NewEnvelopeStore [] 3600 65536) demo_signed = Inr s
     \<and> store_ok demo_crypto map_of s"
proof -
  obtain s where s: "Ingest mem_ops demo_crypto 5 (NewEnvelopeStore [] 3600 65536) demo_signed = Inr s"
    using demo_ingests by blast
  have "envelope_history mem_ops demo_crypto [] s"
    using envelope_history.new s by (rule envelope_history.ingest)
  with store_holds_only_valid [OF demos.envelope_env_axioms _ this] s show ?thesis by auto
qed

text \<open>
  an ingested envelope is served until it expires. A query for its topic returns it: a durable
  envelope always, an ephemeral one at every moment before its TTL has passed.
\<close>

theorem Ingest_then_Query:
  assumes env: "envelope_env ops contents c" and i: "Ingest ops c now s env = Inr s'"
    and live: "Durable env \<or> \<not> IsExpired later (env\<lparr>ReceivedAt := Some now\<rparr>)"
  shows "\<exists>rs. QueryByTopic ops later s' (Topic env) 0 = Inr rs
    \<and> env\<lparr>ReceivedAt := (if Durable env then None else Some now)\<rparr> \<in> set rs"
  using envelope_env.query_total [OF env, of later s' "Topic env" 0] envelope_env.Ingest_query [OF env i live]
  by blast

theorem Ingest_then_Query_witness:
  "\<exists>s rs. Ingest mem_ops demo_crypto 5 (NewEnvelopeStore [] 3600 65536) demo_signed = Inr s
     \<and> QueryByTopic mem_ops 60000000005 s ''t'' 0 = Inr rs \<and> demo_signed\<lparr>ReceivedAt := Some 5\<rparr> \<in> set rs"
proof -
  obtain s where s: "Ingest mem_ops demo_crypto 5 (NewEnvelopeStore [] 3600 65536) demo_signed = Inr s"
    using demo_ingests by blast
  have "\<not> IsExpired 60000000005 (demo_signed\<lparr>ReceivedAt := Some 5\<rparr>)"
    by (simp add: IsExpired_def wrap64_def)
  with Ingest_then_Query [OF demos.envelope_env_axioms s, of 60000000005] s show ?thesis by auto
qed

text \<open>
  a query returns the newest matching envelopes. The answer for a topic is sorted by descending
  timestamp; with a positive limit it has at most that many entries, and every live envelope of
  the topic that is left out is no newer than any that is returned.
\<close>

theorem Query_newest_first:
  assumes env: "envelope_env ops contents c" and q: "QueryByTopic ops now s topic limit = Inr rs"
    and all: "QueryByTopic ops now s topic 0 = Inr all"
  shows "sorted_wrt (\<lambda>x y. Timestamp y \<le> Timestamp x) rs \<and> set rs \<subseteq> set all
    \<and> (0 < limit \<longrightarrow> int (length rs) \<le> limit) \<and> (limit \<le> 0 \<longrightarrow> rs = all)
    \<and> (\<forall>x \<in> set all - set rs. \<forall>y \<in> set rs. Timestamp x \<le> Timestamp y)"
proof -
  have rs: "rs = (if 0 < limit \<and> int (length all) > limit then take (nat limit) all else all)"
    using envelope_env.query_unlimited [OF env q] all by simp
  have "sorted_wrt (\<lambda>x y. Timestamp y \<le> Timestamp x) all"
    using envelope_env.query_sorted [OF env all] .
  then have "sorted_wrt (\<lambda>x y. Timestamp y \<le> Timestamp x) (take n all @ drop n all)" for n by simp
  then have cut: "Timestamp x \<le> Timestamp y" if "x \<in> set all - set (take n all)" "y \<in> set (take n all)" for n x y
    using that by (metis Diff_iff Un_iff append_take_drop_id set_append sorted_wrt_append)
  have "\<forall>x \<in> set all - set rs. \<forall>y \<in> set rs. Timestamp x \<le> Timestamp y"
    using cut [of _ "nat limit"] by (simp add: rs)
  then show ?thesis
    using rs envelope_env.query_sorted [OF env q] by (auto dest: in_set_takeD)
qed

theorem Query_newest_first_witness:
  "\<exists>s rs. Ingest mem_ops demo_crypto 5 (NewEnvelopeStore [] 3600 65536) demo_signed = Inr s
     \<and> QueryByTopic mem_ops 6 s ''t'' 1 = Inr rs \<and> length rs \<le> 1"
proof -
  obtain s where s: "Ingest mem_ops demo_crypto 5 (NewEnvelopeStore [] 3600 65536) demo_signed = Inr s"
    using demo_ingests by blast
  obtain rs all where "QueryByTopic mem_ops 6 s ''t'' 1 = Inr rs" "QueryByTopic mem_ops 6 s ''t'' 0 = Inr all"
    using demos.query_total by blast
  with Query_newest_first [OF demos.envelope_env_axioms this] s show ?thesis by auto
qed

text \<open>
  a topic query for durable envelopes also returns other topics. The database is searched by the
  prefix \<^verbatim>\<open>d:<topic>:\<close>, so a durable envelope of topic \<open>t:u\<close> is in the answer for topic \<open>t\<close>, for every
  \<open>u\<close>; the ephemeral part of the same query compares topics exactly.
\<close>

theorem Query_leaks_subtopics:
  assumes env: "envelope_env ops contents c" and i: "Ingest ops c now s env = Inr s'" and "Durable env"
    and topic: "Topic env = t @ '':'' @ u"
  shows "\<exists>rs. QueryByTopic ops later s' t 0 = Inr rs \<and> env\<lparr>ReceivedAt := None\<rparr> \<in> set rs"
proof -
  obtain rs where rs: "QueryByTopic ops later s' t 0 = Inr rs" using envelope_env.query_total [OF env] by blast
  obtain k db where "db_put ops (es_db s) (prefixDurable @ Topic env @ '':'' @ k)
      (Marshal (env\<lparr>ReceivedAt := Some now\<rparr>)) = Inr db" and s': "es_db s' = db"
    using assms(2,3) by (auto simp: Ingest_def storeDurable_def Let_def split: if_splits option.splits sum.splits)
  then have "contents (es_db s') (prefixDurable @ Topic env @ '':'' @ k) = Some (Json (env\<lparr>ReceivedAt := None\<rparr>))"
    using leveldb.put_spec [OF envelope_env.axioms(1) [OF env]] by (fastforce simp: Marshal_def)
  moreover have "prefix (prefixDurable @ t @ '':'') (prefixDurable @ Topic env @ '':'' @ k)"
    by (simp add: topic prefix_def)
  ultimately show ?thesis using envelope_env.query_mem [OF env rs] rs by blast
qed

theorem Query_leaks_subtopics_witness:
  "\<exists>s rs e. Ingest mem_ops demo_crypto 5 (NewEnvelopeStore [] 3600 65536) demo_durable = Inr s
     \<and> QueryByTopic mem_ops 6 s ''a'' 0 = Inr rs \<and> e \<in> set rs \<and> Topic e = ''a:b''"
proof -
  obtain s where s: "Ingest mem_ops demo_crypto 5 (NewEnvelopeStore [] 3600 65536) demo_durable = Inr s"
    using demo_ingests by blast
  from Query_leaks_subtopics [OF demos.envelope_env_axioms s, of "''a''" "''b''" 6]
  obtain rs where "QueryByTopic mem_ops 6 s ''a'' 0 = Inr rs" "demo_durable\<lparr>ReceivedAt := None\<rparr> \<in> set rs" by auto
  with s show ?thesis by (intro exI conjI) auto
qed

text \<open>
  the topic summaries agree with the live envelopes. \<^verbatim>\<open>Topics\<close> counts the live envelopes of each
  topic and \<^verbatim>\<open>LatestByTopic\<close> gives their largest timestamp (0 when none is positive).
\<close>

theorem topic_summaries_exact:
  "go_lookup 0 (Topics ops now s) t = int (length (filter (\<lambda>e. Topic e = t) (live_envelopes ops now s)))
   \<and> go_lookup 0 (LatestByTopic ops now s) t
     = Max (insert 0 (Timestamp ` {e \<in> set (live_envelopes ops now s). Topic e = t}))"
  by (simp add: Topics_def LatestByTopic_def topics_fold latest_fold) (simp add: go_lookup_def)

text \<open>
  expiry removes exactly the expired envelopes. \<^verbatim>\<open>ExpireEphemeral\<close> drops an ephemeral envelope if and
  only if its TTL has passed, returns how many it dropped, and changes no query made at that time.
\<close>

theorem ExpireEphemeral_exact:
  "fst (ExpireEphemeral now s) + CountEphemeral (snd (ExpireEphemeral now s)) = CountEphemeral s
   \<and> ((k, e) \<in> set (ephemeral (snd (ExpireEphemeral now s))) \<longleftrightarrow> (k, e) \<in> set (ephemeral s) \<and> \<not> IsExpired now e)
   \<and> QueryByTopic ops now (snd (ExpireEphemeral now s)) topic limit = QueryByTopic ops now s topic limit"
proof -
  have "filter (\<lambda>env. Topic env = topic \<and> \<not> IsExpired now env) (map snd (filter (\<lambda>(k, env). \<not> IsExpired now env) kvs))
      = filter (\<lambda>env. Topic env = topic \<and> \<not> IsExpired now env) (map snd kvs)" for kvs :: "(string \<times> envelope) list"
    by (induction kvs) auto
  then show ?thesis
    using sum_length_filter_compl [of "\<lambda>(k, env). IsExpired now env" "ephemeral s"]
    by (simp add: ExpireEphemeral_def CountEphemeral_def QueryByTopic_def case_prod_unfold)
qed

end
