(* ===== verification/Directory.thy ===== *)
theory Directory
  imports Envelope Leveldb
begin

text \<open>
  \<^verbatim>\<open>internal/overlay/directory.go\<close>: the directory of SHIP peers and SLAP providers. One LevelDB holds
  both kinds of entries (and the data of the overlay engine), told apart by key prefix; a value is
  the JSON document it decodes to. The validation of a token script (\<^verbatim>\<open>brc.ValidateSHIPToken\<close>) works
  on go-sdk scripts and keys: what it returns for a script is the parameter \<open>validToken\<close>. Times are
  nanoseconds, the zero time is \<^const>\<open>None\<close>.

  The locale \<open>overlay_directory\<close> is the Go interface \<^verbatim>\<open>gossip.OverlayDirectory\<close> with the laws that
  slash enforcement and SHIP gossip rely on; the directory implements it.
\<close>

record PeerEntry =
  pe_IdentityPub :: string
  pe_Domain :: string
  pe_NodeName :: string
  pe_Version :: string
  pe_Topic :: string
  pe_TxID :: string
  pe_OutputIndex :: int
  pe_DiscoveredAt :: "int option"
  pe_LastSeen :: "int option"

record ProviderEntry =
  pr_IdentityPub :: string
  pr_Domain :: string
  pr_Provider :: string
  pr_TxID :: string
  pr_OutputIndex :: int
  pr_DiscoveredAt :: "int option"

datatype dir_value = PeerV PeerEntry | ProviderV ProviderEntry | OtherV bytes

fun as_peer :: "dir_value \<Rightarrow> PeerEntry option" where
  "as_peer (PeerV e) = Some e"
| "as_peer _ = None"

fun as_provider :: "dir_value \<Rightarrow> ProviderEntry option" where
  "as_provider (ProviderV e) = Some e"
| "as_provider _ = None"

record 'db directory =
  dir_db :: 'db
  ttl :: int

datatype dir_err = ErrInvalidToken string | ErrDirDB dberr

definition prefixSHIP :: bytes where "prefixSHIP = ''ship:''"
definition prefixSLAP :: bytes where "prefixSLAP = ''slap:''"

definition DefaultSHIPTTL :: int where
  "DefaultSHIPTTL = 6 * 3600 * 1000000000"

section \<open>Operations\<close>

definition NewDirectory :: "'db \<Rightarrow> 'db directory" where
  "NewDirectory db = \<lparr>dir_db = db, ttl = DefaultSHIPTTL\<rparr>"

definition shipKey :: "string \<Rightarrow> string \<Rightarrow> bytes" where
  "shipKey topic identityPub = prefixSHIP @ topic @ '':'' @ take 16 identityPub"

definition slapKey :: "string \<Rightarrow> string \<Rightarrow> bytes" where
  "slapKey domain identityPub = prefixSLAP @ domain @ '':'' @ take 16 identityPub"

text \<open>The SHIP entries below a key prefix that satisfy a condition, with their keys, in key order.\<close>

definition ship_entries :: "('db, dir_value) leveldb_ops \<Rightarrow> 'db \<Rightarrow> bytes \<Rightarrow> (bytes \<times> PeerEntry) list" where
  "ship_entries ops db p =
     List.map_filter (\<lambda>(k, v). map_option (Pair k) (as_peer v)) (fst (db_iter ops db p))"

definition removeStaleDomainLocked :: "('db, dir_value) leveldb_ops \<Rightarrow> 'db \<Rightarrow> string \<Rightarrow> string \<Rightarrow> string \<Rightarrow> 'db" where
  "removeStaleDomainLocked ops db topic domain currentIdentity =
     delete_keys ops db
       (map fst (filter (\<lambda>(k, e). pe_Domain e = domain \<and> pe_IdentityPub e \<noteq> currentIdentity)
          (ship_entries ops db (prefixSHIP @ topic @ '':''))))"

definition AddSHIPPeer :: "('db, dir_value) leveldb_ops \<Rightarrow> (bytes \<Rightarrow> string + 'tok) \<Rightarrow> int \<Rightarrow> 'db directory
    \<Rightarrow> PeerEntry \<Rightarrow> bytes \<Rightarrow> dir_err + 'db directory" where
  "AddSHIPPeer ops validToken now d entry script =
     (case validToken script of
        Inl e \<Rightarrow> Inl (ErrInvalidToken e)
      | Inr _ \<Rightarrow>
         (let entry' = entry\<lparr>pe_LastSeen := Some now\<rparr>;
              db = removeStaleDomainLocked ops (dir_db d) (pe_Topic entry') (pe_Domain entry') (pe_IdentityPub entry')
          in case db_put ops db (shipKey (pe_Topic entry') (pe_IdentityPub entry')) (PeerV entry') of
               Inl e \<Rightarrow> Inl (ErrDirDB e)
             | Inr db' \<Rightarrow> Inr (d\<lparr>dir_db := db'\<rparr>)))"

definition AddSLAPProvider :: "('db, dir_value) leveldb_ops \<Rightarrow> (bytes \<Rightarrow> string + 'tok) \<Rightarrow> 'db directory
    \<Rightarrow> ProviderEntry \<Rightarrow> bytes \<Rightarrow> dir_err + 'db directory" where
  "AddSLAPProvider ops validToken d entry script =
     (case validToken script of
        Inl e \<Rightarrow> Inl (ErrInvalidToken e)
      | Inr _ \<Rightarrow>
         (case db_put ops (dir_db d) (slapKey (pr_Domain entry) (pr_IdentityPub entry)) (ProviderV entry) of
            Inl e \<Rightarrow> Inl (ErrDirDB e)
          | Inr db' \<Rightarrow> Inr (d\<lparr>dir_db := db'\<rparr>)))"

definition LookupSHIPByTopic :: "('db, dir_value) leveldb_ops \<Rightarrow> 'db directory \<Rightarrow> string
    \<Rightarrow> PeerEntry list \<times> dberr option" where
  "LookupSHIPByTopic ops d topic =
     (let p = prefixSHIP @ topic @ '':''
      in (map snd (ship_entries ops (dir_db d) p), snd (db_iter ops (dir_db d) p)))"

definition LookupSLAPByDomain :: "('db, dir_value) leveldb_ops \<Rightarrow> 'db directory \<Rightarrow> string
    \<Rightarrow> ProviderEntry list \<times> dberr option" where
  "LookupSLAPByDomain ops d domain =
     (let it = db_iter ops (dir_db d) (prefixSLAP @ domain @ '':'')
      in (List.map_filter (\<lambda>(k, v). as_provider v) (fst it), snd it))"

definition RemoveSHIPPeer :: "('db, dir_value) leveldb_ops \<Rightarrow> 'db directory \<Rightarrow> string \<Rightarrow> string
    \<Rightarrow> dir_err + 'db directory" where
  "RemoveSHIPPeer ops d topic identityPub =
     (case db_delete ops (dir_db d) (shipKey topic identityPub) of
        Inl e \<Rightarrow> Inl (ErrDirDB e)
      | Inr db \<Rightarrow> Inr (d\<lparr>dir_db := db\<rparr>))"

definition CountSHIP :: "('db, dir_value) leveldb_ops \<Rightarrow> 'db directory \<Rightarrow> nat" where
  "CountSHIP ops d = length (fst (db_iter ops (dir_db d) prefixSHIP))"

type_synonym ship_row = "string \<times> string \<times> string \<times> string \<times> string"

definition ForEachSHIP :: "('db, dir_value) leveldb_ops \<Rightarrow> 'db directory \<Rightarrow> ship_row list" where
  \<comment> \<open>the arguments of the calls of \<^verbatim>\<open>fn\<close>, for a callback that never stops the iteration\<close>
  "ForEachSHIP ops d =
     map (\<lambda>(k, e). (pe_IdentityPub e, pe_Domain e, pe_NodeName e, pe_Version e, pe_Topic e))
       (ship_entries ops (dir_db d) prefixSHIP)"

definition AddSHIPPeerFromGossip :: "('db, dir_value) leveldb_ops \<Rightarrow> int \<Rightarrow> 'db directory
    \<Rightarrow> string \<Rightarrow> string \<Rightarrow> string \<Rightarrow> string \<Rightarrow> string \<Rightarrow> dir_err + 'db directory" where
  "AddSHIPPeerFromGossip ops now d identity domain nodeName version topic =
     (let entry = \<lparr>pe_IdentityPub = identity, pe_Domain = domain, pe_NodeName = nodeName,
            pe_Version = version, pe_Topic = topic, pe_TxID = ''gossip'', pe_OutputIndex = 0,
            pe_DiscoveredAt = Some now, pe_LastSeen = Some now\<rparr>;
          db = removeStaleDomainLocked ops (dir_db d) topic domain identity
      in case db_put ops db (shipKey topic identity) (PeerV entry) of
           Inl e \<Rightarrow> Inl (ErrDirDB e)
         | Inr db' \<Rightarrow> Inr (d\<lparr>dir_db := db'\<rparr>))"

text \<open>\<^verbatim>\<open>seen.Before(cutoff)\<close>: the zero time lies before every cutoff.\<close>

definition stale :: "int \<Rightarrow> PeerEntry \<Rightarrow> bool" where
  "stale cutoff e =
     (case (case pe_LastSeen e of None \<Rightarrow> pe_DiscoveredAt e | Some t \<Rightarrow> Some t) of
        None \<Rightarrow> True
      | Some t \<Rightarrow> t < cutoff)"

definition SweepExpired :: "('db, dir_value) leveldb_ops \<Rightarrow> int \<Rightarrow> 'db directory \<Rightarrow> nat \<times> 'db directory" where
  "SweepExpired ops now d =
     (let cutoff = now - ttl d;
          toDelete = map fst (filter (\<lambda>(k, e). stale cutoff e) (ship_entries ops (dir_db d) prefixSHIP))
      in (length toDelete, d\<lparr>dir_db := delete_keys ops (dir_db d) toDelete\<rparr>))"

definition CleanupOnBoot :: "('db, dir_value) leveldb_ops \<Rightarrow> int \<Rightarrow> 'db directory \<Rightarrow> (string \<rightharpoonup> string)
    \<Rightarrow> nat \<times> 'db directory" where
  "CleanupOnBoot ops now d localDomains =
     (let cutoff = now - ttl d;
          shouldDelete = (\<lambda>e. stale cutoff e \<or> (case localDomains (pe_Domain e) of
             None \<Rightarrow> False | Some currentID \<Rightarrow> pe_IdentityPub e \<noteq> currentID));
          toDelete = map fst (filter (\<lambda>(k, e). shouldDelete e) (ship_entries ops (dir_db d) prefixSHIP))
      in (length toDelete, d\<lparr>dir_db := delete_keys ops (dir_db d) toDelete\<rparr>))"

definition RemoveSHIPPeerByIdentity :: "('db, dir_value) leveldb_ops \<Rightarrow> 'db directory \<Rightarrow> string \<Rightarrow> 'db directory" where
  "RemoveSHIPPeerByIdentity ops d identity =
     d\<lparr>dir_db := delete_keys ops (dir_db d)
        (map fst (filter (\<lambda>(k, e). pe_IdentityPub e = identity) (ship_entries ops (dir_db d) prefixSHIP)))\<rparr>"

definition truncID :: "string \<Rightarrow> string" where
  "truncID s = take 16 s"

section \<open>The interface to gossip\<close>

locale overlay_directory =
  fixes rows :: "'d \<Rightarrow> ship_row list"
    and add :: "'d \<Rightarrow> string \<Rightarrow> string \<Rightarrow> string \<Rightarrow> string \<Rightarrow> string \<Rightarrow> dir_err + 'd"
    and remove :: "'d \<Rightarrow> string \<Rightarrow> 'd"
  assumes add_present: "add d identity domain name version topic = Inr d' \<Longrightarrow>
      (identity, domain, name, version, topic) \<in> set (rows d')"
    and add_frame: "add d identity domain name version topic = Inr d' \<Longrightarrow> r \<in> set (rows d') \<Longrightarrow>
      r = (identity, domain, name, version, topic) \<or> r \<in> set (rows d)"
    and remove_exact: "set (rows (remove d identity)) = {r \<in> set (rows d). fst r \<noteq> identity}"

definition ship_at :: "(bytes \<rightharpoonup> dir_value) \<Rightarrow> bytes \<Rightarrow> bytes \<Rightarrow> PeerEntry \<Rightarrow> bool" where
  "ship_at m p k e \<longleftrightarrow> m k = Some (PeerV e) \<and> prefix p k"

lemma as_peer_Some [simp]: "as_peer v = Some e \<longleftrightarrow> v = PeerV e"
  by (cases v) auto

locale directory_db = leveldb ops contents
  for ops :: "('db, dir_value) leveldb_ops" and contents :: "'db \<Rightarrow> (bytes \<rightharpoonup> dir_value)" +
  assumes rel: "reliable ops"
begin

lemma ship_entries_mem: "(k, e) \<in> set (ship_entries ops db p) \<longleftrightarrow> ship_at (contents db) p k e"
  by (auto simp: ship_entries_def set_map_filter ship_at_def iter_set)

lemma delete_matching:
  "contents (delete_keys ops db (map fst (filter (\<lambda>(k, e). P e) (ship_entries ops db p)))) k
   = (if \<exists>e. ship_at (contents db) p k e \<and> P e then None else contents db k)"
proof -
  have "k \<in> fst ` {x \<in> set (ship_entries ops db p). P (snd x)} \<longleftrightarrow> (\<exists>e. ship_at (contents db) p k e \<and> P e)"
    using ship_entries_mem [of k _ db p] by force
  then show ?thesis by (simp add: delete_keys_contents [OF rel] case_prod_unfold)
qed

lemma ship_at_delete:
  "ship_at (contents (delete_keys ops db (map fst (filter (\<lambda>(k, e). P e) (ship_entries ops db p))))) p k e
   \<longleftrightarrow> ship_at (contents db) p k e \<and> \<not> P e"
  unfolding ship_at_def delete_matching by (auto simp: ship_at_def)

lemma rows_mem: "r \<in> set (ForEachSHIP ops d) \<longleftrightarrow> (\<exists>k e. ship_at (contents (dir_db d)) prefixSHIP k e
    \<and> r = (pe_IdentityPub e, pe_Domain e, pe_NodeName e, pe_Version e, pe_Topic e))"
  by (simp add: ForEachSHIP_def image_iff Bex_def split_paired_Ex ship_entries_mem)

lemma stale_removed:
  "contents (removeStaleDomainLocked ops db topic domain i) k
   = (if \<exists>e. ship_at (contents db) (prefixSHIP @ topic @ '':'') k e \<and> pe_Domain e = domain \<and> pe_IdentityPub e \<noteq> i
      then None else contents db k)"
  unfolding removeStaleDomainLocked_def by (rule delete_matching)

lemma AddSHIPPeerFromGossip_contents:
  assumes "AddSHIPPeerFromGossip ops now d identity domain name version topic = Inr d'"
  shows "contents (dir_db d') = (contents (removeStaleDomainLocked ops (dir_db d) topic domain identity))
    (shipKey topic identity \<mapsto> PeerV \<lparr>pe_IdentityPub = identity, pe_Domain = domain, pe_NodeName = name,
      pe_Version = version, pe_Topic = topic, pe_TxID = ''gossip'', pe_OutputIndex = 0,
      pe_DiscoveredAt = Some now, pe_LastSeen = Some now\<rparr>)"
  using assms by (auto simp: AddSHIPPeerFromGossip_def Let_def dest: put_spec split: sum.splits)

lemma shipKey_prefix [simp]: "prefix prefixSHIP (shipKey t i)" "prefix (prefixSHIP @ t @ '':'') (shipKey t i)"
  by (simp_all add: shipKey_def prefix_def)

end

sublocale directory_db \<subseteq> od: overlay_directory "ForEachSHIP ops" "AddSHIPPeerFromGossip ops now"
    "RemoveSHIPPeerByIdentity ops" for now
proof
  fix d d' :: "'db directory" and identity domain name version topic and r :: ship_row
  assume a: "AddSHIPPeerFromGossip ops now d identity domain name version topic = Inr d'"
  show "(identity, domain, name, version, topic) \<in> set (ForEachSHIP ops d')"
    unfolding rows_mem ship_at_def AddSHIPPeerFromGossip_contents [OF a]
    by (intro exI [of _ "shipKey topic identity"]) simp
  assume "r \<in> set (ForEachSHIP ops d')"
  then show "r = (identity, domain, name, version, topic) \<or> r \<in> set (ForEachSHIP ops d)"
    unfolding rows_mem ship_at_def AddSHIPPeerFromGossip_contents [OF a]
    by (auto simp: stale_removed split: if_splits)
next
  fix d :: "'db directory" and identity
  have "r \<in> set (ForEachSHIP ops (RemoveSHIPPeerByIdentity ops d identity))
      \<longleftrightarrow> r \<in> set (ForEachSHIP ops d) \<and> fst r \<noteq> identity" for r
    unfolding rows_mem RemoveSHIPPeerByIdentity_def by (fastforce simp: ship_at_delete)
  then show "set (ForEachSHIP ops (RemoveSHIPPeerByIdentity ops d identity))
      = {r \<in> set (ForEachSHIP ops d). fst r \<noteq> identity}" by auto
qed

context directory_db
begin

lemma gossip_add_present:
  "AddSHIPPeerFromGossip ops now d identity domain name version topic = Inr d' \<Longrightarrow>
   (identity, domain, name, version, topic) \<in> set (ForEachSHIP ops d')"
  by (rule od.add_present)

end

interpretation demod: directory_db mem_ops map_of
  by (intro directory_db.intro mem.leveldb_axioms directory_db_axioms.intro mem_reliable)

section \<open>Properties\<close>

text \<open>
  One identity per domain and topic. After a SHIP registration from gossip, the new entry is in
  the directory under its key, no entry in the key range of the topic has the same domain and
  another identity, and every entry outside that range is as before.
\<close>

theorem gossip_registration_replaces_domain:
  assumes db: "directory_db ops contents"
    and add: "AddSHIPPeerFromGossip ops now d identity domain name version topic = Inr d'"
  shows "(identity, domain, name, version, topic) \<in> set (ForEachSHIP ops d')
    \<and> (\<forall>k e. ship_at (contents (dir_db d')) (prefixSHIP @ topic @ '':'') k e \<and> pe_Domain e = domain
         \<longrightarrow> pe_IdentityPub e = identity)
    \<and> (\<forall>k. \<not> prefix (prefixSHIP @ topic @ '':'') k \<longrightarrow> contents (dir_db d') k = contents (dir_db d) k)"
proof (intro conjI allI impI)
  note c = directory_db.AddSHIPPeerFromGossip_contents [OF db add] directory_db.stale_removed [OF db]
  show "(identity, domain, name, version, topic) \<in> set (ForEachSHIP ops d')"
    using directory_db.gossip_add_present [OF db add] .
  fix k
  show "contents (dir_db d') k = contents (dir_db d) k" if "\<not> prefix (prefixSHIP @ topic @ '':'') k"
  proof -
    have "k \<noteq> shipKey topic identity" using that directory_db.shipKey_prefix(2) [OF db] by blast
    then show ?thesis using that by (simp add: c ship_at_def)
  qed
  fix e
  assume e: "ship_at (contents (dir_db d')) (prefixSHIP @ topic @ '':'') k e \<and> pe_Domain e = domain"
  show "pe_IdentityPub e = identity"
  proof (cases "k = shipKey topic identity")
    case True
    with e show ?thesis by (auto simp: ship_at_def c)
  next
    case False
    with e show ?thesis by (auto simp: ship_at_def c split: if_splits)
  qed
qed

lemma demo_gossip_add: "\<exists>d'. AddSHIPPeerFromGossip mem_ops now d i host n v t = Inr d'"
  by (simp add: AddSHIPPeerFromGossip_def Let_def mem_ops_def)

theorem gossip_registration_replaces_domain_witness:
  "\<exists>d'. AddSHIPPeerFromGossip mem_ops 5 (NewDirectory []) ''02ab'' ''relay:8333'' ''n'' ''1'' ''anvil:mainnet'' = Inr d'
     \<and> (''02ab'', ''relay:8333'', ''n'', ''1'', ''anvil:mainnet'') \<in> set (ForEachSHIP mem_ops d')"
proof -
  obtain d' where d': "AddSHIPPeerFromGossip mem_ops 5 (NewDirectory []) ''02ab'' ''relay:8333'' ''n'' ''1'' ''anvil:mainnet'' = Inr d'"
    using demo_gossip_add by blast
  from gossip_registration_replaces_domain [OF demod.directory_db_axioms d'] d' show ?thesis by blast
qed

text \<open>
  sweeping removes exactly the expired registrations. On a database that does not fail,
  \<^verbatim>\<open>SweepExpired\<close> deletes a SHIP entry if and only if its last sighting (or, without one, its
  discovery) lies before \<open>now - ttl\<close>, leaves every other key alone, and a second sweep at the same
  time deletes nothing.
\<close>

theorem SweepExpired_exact:
  assumes db: "directory_db ops contents" and sw: "SweepExpired ops now d = (n, d')"
  shows "(\<forall>k. contents (dir_db d') k = (if \<exists>e. ship_at (contents (dir_db d)) prefixSHIP k e \<and> stale (now - ttl d) e
            then None else contents (dir_db d) k))
    \<and> fst (SweepExpired ops now d') = 0"
proof -
  have d': "d' = d\<lparr>dir_db := delete_keys ops (dir_db d) (map fst (filter (\<lambda>(k, e). stale (now - ttl d) e)
      (ship_entries ops (dir_db d) prefixSHIP)))\<rparr>"
    using sw by (simp add: SweepExpired_def Let_def)
  have "\<forall>x \<in> set (ship_entries ops (dir_db d') prefixSHIP). \<not> (case x of (k, e) \<Rightarrow> stale (now - ttl d) e)"
    by (auto simp: d' directory_db.ship_entries_mem [OF db] directory_db.ship_at_delete [OF db])
  moreover have "ttl d' = ttl d" by (simp add: d')
  ultimately have "fst (SweepExpired ops now d') = 0" by (simp add: SweepExpired_def Let_def filter_empty_conv)
  then show ?thesis by (simp add: d' directory_db.delete_matching [OF db])
qed

theorem SweepExpired_exact_witness:
  "\<exists>d n d'. AddSHIPPeerFromGossip mem_ops 5 (NewDirectory []) ''02ab'' ''relay:8333'' ''n'' ''1'' ''t'' = Inr d
     \<and> SweepExpired mem_ops 100000000000000 d = (n, d') \<and> fst (SweepExpired mem_ops 100000000000000 d') = 0"
proof -
  obtain d where d: "AddSHIPPeerFromGossip mem_ops 5 (NewDirectory []) ''02ab'' ''relay:8333'' ''n'' ''1'' ''t'' = Inr d"
    using demo_gossip_add by blast
  obtain n d' where s: "SweepExpired mem_ops 100000000000000 d = (n, d')" by (metis surj_pair)
  from SweepExpired_exact [OF demod.directory_db_axioms s] d s show ?thesis by blast
qed

text \<open>
  \<^verbatim>\<open>AddSHIPPeer\<close> does not tie the entry to the token. For every script that is a valid SHIP token,
  every entry whatsoever is accepted with it: identity, domain and topic of the entry are not
  compared with those of the token.
\<close>

theorem AddSHIPPeer_ignores_token_fields:
  assumes db: "directory_db ops contents" and tok: "validToken script = Inr tok"
  shows "\<exists>d'. AddSHIPPeer ops validToken now d entry script = Inr d'
    \<and> (pe_IdentityPub entry, pe_Domain entry, pe_NodeName entry, pe_Version entry, pe_Topic entry)
        \<in> set (ForEachSHIP ops d')"
proof -
  let ?e = "entry\<lparr>pe_LastSeen := Some now\<rparr>"
  let ?db = "removeStaleDomainLocked ops (dir_db d) (pe_Topic entry) (pe_Domain entry) (pe_IdentityPub entry)"
  let ?k = "shipKey (pe_Topic entry) (pe_IdentityPub entry)"
  obtain db' where put: "db_put ops ?db ?k (PeerV ?e) = Inr db'"
    using reliable_put [OF directory_db.axioms(2) [OF db, unfolded directory_db_axioms_def]] by blast
  have add: "AddSHIPPeer ops validToken now d entry script = Inr (d\<lparr>dir_db := db'\<rparr>)"
    using put by (simp add: AddSHIPPeer_def tok Let_def)
  have "contents db' = (contents ?db)(?k \<mapsto> PeerV ?e)"
    using leveldb.put_spec [OF directory_db.axioms(1) [OF db] put] .
  then have "ship_at (contents db') prefixSHIP ?k ?e"
    using directory_db.shipKey_prefix(1) [OF db] by (simp add: ship_at_def)
  with add show ?thesis by (auto simp: directory_db.rows_mem [OF db] intro!: exI [of _ ?e])
qed

definition demo_entry :: PeerEntry where
  "demo_entry = \<lparr>pe_IdentityPub = ''02mallory'', pe_Domain = ''bank:8333'', pe_NodeName = [], pe_Version = [],
     pe_Topic = ''t'', pe_TxID = [], pe_OutputIndex = 0, pe_DiscoveredAt = None, pe_LastSeen = None\<rparr>"

theorem AddSHIPPeer_ignores_token_fields_witness:
  "\<exists>d'. AddSHIPPeer mem_ops (\<lambda>s. if s = ''tok'' then Inr ''02alice'' else Inl ''bad'') 5 (NewDirectory []) demo_entry ''tok'' = Inr d'
     \<and> (''02mallory'', ''bank:8333'', [], [], ''t'') \<in> set (ForEachSHIP mem_ops d')"
  using AddSHIPPeer_ignores_token_fields [OF demod.directory_db_axioms,
    of "\<lambda>s. if s = ''tok'' then Inr ''02alice'' else Inl ''bad''" "''tok''" "''02alice''" 5 "NewDirectory []" demo_entry]
  by (simp add: demo_entry_def)

end
