(* ===== verification/Http.thy ===== *)
theory Http
  imports Anvil_Prelude
begin

text \<open>
  What the HTTP layer of \<^verbatim>\<open>internal/api\<close> uses of Go's standard library: requests with their headers,
  URL query parameters (\<^verbatim>\<open>net/url\<close>), base64 in the three variants the payment headers use, and
  \<^verbatim>\<open>fmt.Sscanf\<close> with \<^verbatim>\<open>%d\<close>.

  A header map is a function on canonical names, empty where a header is absent. Reading a body does
  not fail; \<open>limit_reader\<close> is \<^verbatim>\<open>io.LimitReader\<close>, which cuts the body off silently.
\<close>

record http_request =
  Method :: string
  Header :: "string \<Rightarrow> string"
  RemoteAddr :: string
  Host :: string
  URLPath :: string
  RawQuery :: string
  Body :: bytes

abbreviation set_header :: "string \<Rightarrow> string \<Rightarrow> http_request \<Rightarrow> http_request" where
  "set_header k v r \<equiv> r\<lparr>Header := (Header r)(k := v)\<rparr>"

text \<open>
  The answer of a handler: a status with a body, an error message as JSON, a redirect, or a panic
  (which \<^verbatim>\<open>net/http\<close> turns into a closed connection).
\<close>

datatype 'a reply = Reply nat 'a | ReplyError nat string | Redirect nat string | ReplyPanic

definition limit_reader :: "nat \<Rightarrow> bytes \<Rightarrow> bytes" where
  "limit_reader n b = take n b"

definition trim_space :: "string \<Rightarrow> string" where
  \<comment> \<open>\<^verbatim>\<open>strings.TrimSpace\<close> on ASCII white space\<close>
  "trim_space s = (let ws = (\<lambda>c. c \<in> {CHR '' '', CHR 0x09, CHR 0x0A, CHR 0x0B, CHR 0x0C, CHR 0x0D})
     in rev (dropWhile ws (rev (dropWhile ws s))))"

section \<open>Query parameters\<close>

fun split_on :: "char \<Rightarrow> string \<Rightarrow> string list" where
  "split_on c [] = [[]]"
| "split_on c (x # xs) = (if x = c then [] # split_on c xs
     else case split_on c xs of [] \<Rightarrow> [[x]] | y # ys \<Rightarrow> (x # y) # ys)"

definition cut :: "char \<Rightarrow> string \<Rightarrow> string \<times> string" where
  \<comment> \<open>\<^verbatim>\<open>strings.Cut\<close>: before and after the first occurrence\<close>
  "cut c s = (takeWhile (\<lambda>x. x \<noteq> c) s, drop 1 (dropWhile (\<lambda>x. x \<noteq> c) s))"

fun query_unescape :: "string \<Rightarrow> string option" where
  "query_unescape [] = Some []"
| "query_unescape (c # cs) =
     (if c = CHR ''%'' then
        (case cs of
           h # l # rest \<Rightarrow>
             (case (unhex h, unhex l) of
                (Some a, Some b) \<Rightarrow> map_option (\<lambda>r. char_of (16 * a + b) # r) (query_unescape rest)
              | _ \<Rightarrow> None)
         | _ \<Rightarrow> None)
      else if c = CHR ''+'' then map_option (\<lambda>r. CHR '' '' # r) (query_unescape cs)
      else map_option (\<lambda>r. c # r) (query_unescape cs))"

definition query_pair :: "string \<Rightarrow> (string \<times> string) option" where
  "query_pair seg =
     (if seg = [] \<or> CHR '';'' \<in> set seg then None
      else case cut (CHR ''='') seg of
        (k, v) \<Rightarrow> (case (query_unescape k, query_unescape v) of (Some k', Some v') \<Rightarrow> Some (k', v') | _ \<Rightarrow> None))"

definition query_get :: "string \<Rightarrow> string \<Rightarrow> string" where
  \<comment> \<open>\<^verbatim>\<open>r.URL.Query().Get(key)\<close>: the first value of the key, empty if there is none\<close>
  "query_get raw key =
     (case map_of (List.map_filter query_pair (split_on (CHR ''&'') raw)) key of None \<Rightarrow> [] | Some v \<Rightarrow> v)"

lemma split_on_free: "c \<notin> set s \<Longrightarrow> split_on c s = [s]"
  by (induction s) auto

section \<open>Base64\<close>

datatype b64 = Std | RawStd | RawURL

definition b64_char :: "b64 \<Rightarrow> nat \<Rightarrow> char" where
  "b64_char enc n =
     (if n < 26 then char_of (65 + n) else if n < 52 then char_of (97 + (n - 26))
      else if n < 62 then char_of (48 + (n - 52))
      else if n = 62 then (if enc = RawURL then CHR ''-'' else CHR ''+'')
      else (if enc = RawURL then CHR ''_'' else CHR ''/''))"

definition b64_val :: "b64 \<Rightarrow> char \<Rightarrow> nat option" where
  "b64_val enc c =
     (let n = of_char c in
      if 65 \<le> n \<and> n \<le> 90 then Some (n - 65)
      else if 97 \<le> n \<and> n \<le> 122 then Some (n - 97 + 26)
      else if 48 \<le> n \<and> n \<le> 57 then Some (n - 48 + 52)
      else if c = (if enc = RawURL then CHR ''-'' else CHR ''+'') then Some 62
      else if c = (if enc = RawURL then CHR ''_'' else CHR ''/'') then Some 63
      else None)"

fun b64_quanta :: "nat list \<Rightarrow> bytes option" where
  "b64_quanta [] = Some []"
| "b64_quanta [a] = None"
| "b64_quanta [a, b] = Some [char_of ((64 * a + b) div 16)]"
| "b64_quanta [a, b, c] = Some [char_of ((64 * a + b) div 16), char_of (((64 * (64 * a + b) + c) div 4) mod 256)]"
| "b64_quanta (a # b # c # d # rest) =
     map_option (\<lambda>r. char_of ((64 * a + b) div 16) # char_of (((64 * (64 * a + b) + c) div 4) mod 256)
       # char_of ((64 * (64 * (64 * a + b) + c) + d) mod 256) # r) (b64_quanta rest)"

definition strip_padding :: "string \<Rightarrow> string option" where
  \<comment> \<open>the digits of a padded text: its length is a multiple of four, with at most two \<^verbatim>\<open>=\<close> at the end\<close>
  "strip_padding s =
     (if length s mod 4 \<noteq> 0 then None
      else if s \<noteq> [] \<and> last s = CHR ''='' then
        (if length s \<ge> 2 \<and> s ! (length s - 2) = CHR ''='' then Some (take (length s - 2) s)
         else Some (take (length s - 1) s))
      else Some s)"

definition b64_decode :: "b64 \<Rightarrow> string \<Rightarrow> bytes option" where
  \<comment> \<open>\<^verbatim>\<open>DecodeString\<close>: line breaks are skipped, the unused low bits of the last digit are ignored\<close>
  "b64_decode enc s =
     (let t = filter (\<lambda>c. c \<noteq> CHR 0x0A \<and> c \<noteq> CHR 0x0D) s in
      case (if enc = Std then strip_padding t else Some t) of
        None \<Rightarrow> None
      | Some ds \<Rightarrow> Option.bind (those (map (b64_val enc) ds)) b64_quanta)"

fun b64_digits :: "bytes \<Rightarrow> nat list" where
  "b64_digits [] = []"
| "b64_digits [x] = [of_char x div 4, (of_char x mod 4) * 16]"
| "b64_digits [x, y] = [of_char x div 4, (of_char x mod 4) * 16 + of_char y div 16, (of_char y mod 16) * 4]"
| "b64_digits (x # y # z # rest) = of_char x div 4 # ((of_char x mod 4) * 16 + of_char y div 16)
     # ((of_char y mod 16) * 4 + of_char z div 64) # of_char z mod 64 # b64_digits rest"

definition b64_encode :: "b64 \<Rightarrow> bytes \<Rightarrow> string" where
  "b64_encode enc b = map (b64_char enc) (b64_digits b)
     @ (if enc = Std then replicate ((3 - length b mod 3) mod 3) (CHR ''='') else [])"

lemma b64_val_char: "n < 64 \<Longrightarrow> b64_val enc (b64_char enc n) = Some n"
proof -
  assume "n < 64"
  then consider "n < 26" | "26 \<le> n" "n < 52" | "52 \<le> n" "n < 62" | "n = 62" | "n = 63" by linarith
  then show ?thesis by cases (simp_all add: b64_val_def b64_char_def Let_def, linarith)
qed

lemma b64_char_plain: "n < 64 \<Longrightarrow> b64_char enc n \<noteq> CHR 0x0A \<and> b64_char enc n \<noteq> CHR 0x0D"
proof -
  assume "n < 64"
  then have "b64_val enc (b64_char enc n) \<noteq> None" by (simp add: b64_val_char)
  then show ?thesis by (auto simp: b64_val_def split: if_splits)
qed

lemma b64_decode_digits:
  assumes "enc \<noteq> Std" "list_all (\<lambda>n. n < 64) ns"
  shows "b64_decode enc (map (b64_char enc) ns) = b64_quanta ns"
proof -
  have 1: "filter (\<lambda>c. c \<noteq> CHR 0x0A \<and> c \<noteq> CHR 0x0D) (map (b64_char enc) ns) = map (b64_char enc) ns"
    using assms(2) b64_char_plain by (auto simp: list_all_iff filter_id_conv)
  have "those (map (b64_val enc) (map (b64_char enc) ns)) = Some ns"
    using assms(2) by (induction ns) (simp_all add: b64_val_char)
  then show ?thesis using assms(1) by (simp only: b64_decode_def 1 Let_def if_False option.case Option.bind.bind_lunit)
qed

lemma of_char_lt [simp]: "(of_char c :: nat) < 256"
  by (rule of_char_bound)

lemma b64_digits_range: "list_all (\<lambda>n. n < 64) (b64_digits b)"
proof -
  have m: "n div 4 < 64" "n mod 4 * 16 < 64" "n mod 16 * 4 < 64" "n mod 4 * 16 + k div 16 < 64"
      "n mod 16 * 4 + k div 64 < 64" if "n < 256" "k < 256" for n k :: nat
  proof -
    have "n mod 4 < 4" "n mod 16 < 16" "k div 16 < 16" "k div 64 < 4" using that by simp_all
    then show "n div 4 < 64" "n mod 4 * 16 < 64" "n mod 16 * 4 < 64" "n mod 4 * 16 + k div 16 < 64"
      "n mod 16 * 4 + k div 64 < 64" using that by linarith+
  qed
  show ?thesis by (induction b rule: b64_digits.induct) (simp_all add: m [OF of_char_lt of_char_lt])
qed

lemma b64_group:
  fixes x y z :: nat
  assumes "x < 256" "y < 256" "z < 256"
  shows "(64 * (x div 4) + ((x mod 4) * 16 + y div 16)) div 16 = x"
    "((64 * (64 * (x div 4) + ((x mod 4) * 16 + y div 16)) + ((y mod 16) * 4 + z div 64)) div 4) mod 256 = y"
    "(64 * (64 * (64 * (x div 4) + ((x mod 4) * 16 + y div 16)) + ((y mod 16) * 4 + z div 64)) + z mod 64) mod 256 = z"
proof -
  define xd xm yd ym zd zm where "xd = x div 4" "xm = x mod 4" "yd = y div 16" "ym = y mod 16" "zd = z div 64" "zm = z mod 64"
  then have x: "x = 4 * xd + xm" and y: "y = 16 * yd + ym" and z: "z = 64 * zd + zm" by simp_all
  have "yd < 16" "zd < 4" using assms y z by linarith+
  have a: "64 * xd + (xm * 16 + yd) = 16 * x + yd" unfolding x by simp
  have b: "64 * (16 * x + yd) + (ym * 4 + zd) = 4 * (256 * x + y) + zd" unfolding y by simp
  have b4: "(4 * (256 * x + y) + zd) div 4 = 256 * x + y"
    using \<open>zd < 4\<close> by (subst div_mult_self4) simp_all
  have c: "64 * (4 * (256 * x + y) + zd) + zm = 256 * (256 * x + y) + z" unfolding z by simp
  show "(64 * (x div 4) + ((x mod 4) * 16 + y div 16)) div 16 = x"
    using \<open>yd < 16\<close> by (simp add: a flip: xd_xm_yd_ym_zd_zm_def)
  show "((64 * (64 * (x div 4) + ((x mod 4) * 16 + y div 16)) + ((y mod 16) * 4 + z div 64)) div 4) mod 256 = y"
    using assms(2) by (simp only: a b b4 flip: xd_xm_yd_ym_zd_zm_def) simp
  show "(64 * (64 * (64 * (x div 4) + ((x mod 4) * 16 + y div 16)) + ((y mod 16) * 4 + z div 64)) + z mod 64) mod 256 = z"
    using assms(3) by (simp only: a b c mod_mult_self4 mod_less flip: xd_xm_yd_ym_zd_zm_def)
qed

lemma b64_quanta_digits: "b64_quanta (b64_digits b) = Some b"
proof (induction b rule: b64_digits.induct)
  case (2 x)
  then show ?case using b64_group(1) [of "of_char x" 0 0] by simp
next
  case (3 x y)
  then show ?case using b64_group(1,2) [of "of_char x" "of_char y" 0] by simp
next
  case (4 x y z rest)
  then show ?case using b64_group [of "of_char x" "of_char y" "of_char z"] by simp
qed simp

lemma b64_decode_encode: "enc \<noteq> Std \<Longrightarrow> b64_decode enc (b64_encode enc b) = Some b"
  by (simp add: b64_encode_def b64_decode_digits b64_digits_range b64_quanta_digits)

section \<open>Scanning integers\<close>

text \<open>
  \<^verbatim>\<open>fmt.Sscanf(s, "%d", &n)\<close>: leading blanks are skipped, then a sign and decimal digits are read and
  the rest is ignored. There is no result if there is no digit or the number does not fit in 64 bits;
  the target then keeps its old value.
\<close>

definition dec_val :: "char \<Rightarrow> nat option" where
  "dec_val c = (let n = of_char c in if 48 \<le> n \<and> n \<le> 57 then Some (n - 48) else None)"

definition sscanf_d :: "string \<Rightarrow> int option" where
  "sscanf_d s =
     (let t = dropWhile (\<lambda>c. c = CHR '' '' \<or> c = CHR 0x09) s;
          neg = (case t of c # _ \<Rightarrow> c = CHR ''-'' | [] \<Rightarrow> False);
          u = (case t of c # cs \<Rightarrow> if c = CHR ''-'' \<or> c = CHR ''+'' then cs else t | [] \<Rightarrow> []);
          ds = takeWhile (\<lambda>c. dec_val c \<noteq> None) u;
          n = foldl (\<lambda>a c. 10 * a + (case dec_val c of None \<Rightarrow> 0 | Some d \<Rightarrow> int d)) 0 ds;
          v = (if neg then - n else n)
      in if ds = [] \<or> v < - (2 ^ 63) \<or> v \<ge> 2 ^ 63 then None else Some v)"

lemma sscanf_d_range: "sscanf_d s = Some v \<Longrightarrow> - (2 ^ 63) \<le> v \<and> v < 2 ^ 63"
  by (auto simp: sscanf_d_def Let_def split: if_splits)

end
