(* ===== verification/Rate_Limit.thy ===== *)
theory Rate_Limit
  imports Complex_Main Http
begin

text \<open>
  The two token buckets of the node and the operator authentication: \<^verbatim>\<open>internal/api/auth.go\<close>
  (\<^verbatim>\<open>RateLimiter\<close>, \<^verbatim>\<open>requireAuth\<close>, \<^verbatim>\<open>clientIP\<close>) and \<^verbatim>\<open>allowPeerMessage\<close> of
  \<^verbatim>\<open>internal/gossip/manager_seed.go\<close>. Times are nanoseconds of the monotonic clock. The \<^verbatim>\<open>float64\<close>
  token counts are rational numbers here: rounding of the refill is not modelled.

  The locale \<open>token_bucket\<close> states what a bucket has to satisfy and proves the bound on the
  requests it admits once; both limiters are interpretations of it.
\<close>

section \<open>The HTTP rate limiter\<close>

record bucket =
  tokens :: rat
  lastSeen :: int

record rate_limiter =
  buckets :: "(string \<times> bucket) list"
  rate :: int
  burst :: int
  cleanup :: int
  trustProxy :: bool

definition second :: int where "second = 1000000000"

definition NewRateLimiter :: "int \<Rightarrow> bool \<Rightarrow> rate_limiter" where
  "NewRateLimiter r proxy =
     (let r' = (if r \<le> 0 then 100 else r);
          b = (if r' < 10 then 10 else r')
      in \<lparr>buckets = [], rate = r', burst = b, cleanup = 5 * 60 * second, trustProxy = proxy\<rparr>)"

definition refill :: "rat \<Rightarrow> rat \<Rightarrow> int \<Rightarrow> rat \<Rightarrow> int \<Rightarrow> rat" where
  \<comment> \<open>\<^verbatim>\<open>tokens += elapsed * rate\<close>, capped at \<^verbatim>\<open>burst\<close>\<close>
  "refill r b now tok seen =
     (let t = tok + of_int (now - seen) / of_int second * r in if t > b then b else t)"

definition Allow :: "int \<Rightarrow> rate_limiter \<Rightarrow> string \<Rightarrow> bool \<times> rate_limiter" where
  "Allow now rl key =
     (case map_of (buckets rl) key of
        None \<Rightarrow>
          (True, rl\<lparr>buckets := AList.update key \<lparr>tokens = of_int (burst rl) - 1, lastSeen = now\<rparr> (buckets rl)\<rparr>)
      | Some b \<Rightarrow>
          (let t = refill (of_int (rate rl)) (of_int (burst rl)) now (tokens b) (lastSeen b) in
           if t < 1
           then (False, rl\<lparr>buckets := AList.update key \<lparr>tokens = t, lastSeen = now\<rparr> (buckets rl)\<rparr>)
           else (True, rl\<lparr>buckets := AList.update key \<lparr>tokens = t - 1, lastSeen = now\<rparr> (buckets rl)\<rparr>)))"

definition evict :: "int \<Rightarrow> rate_limiter \<Rightarrow> rate_limiter" where
  \<comment> \<open>one round of \<^verbatim>\<open>evictLoop\<close>\<close>
  "evict now rl = rl\<lparr>buckets := filter (\<lambda>(k, b). \<not> lastSeen b < now - cleanup rl) (buckets rl)\<rparr>"

text \<open>The header part up to the first comma; the address up to its last colon.\<close>

definition clientIP :: "http_request \<Rightarrow> bool \<Rightarrow> string" where
  "clientIP r proxy =
     (let xff = Header r ''X-Forwarded-For'' in
      if proxy \<and> xff \<noteq> [] then takeWhile (\<lambda>c. c \<noteq> CHR '','') xff
      else let addr = RemoteAddr r in
        if CHR '':'' \<in> set addr then rev (tl (dropWhile (\<lambda>c. c \<noteq> CHR '':'') (rev addr))) else addr)"

datatype gate = Preflight | Denied nat string | Next

definition Middleware :: "int \<Rightarrow> rate_limiter \<Rightarrow> http_request \<Rightarrow> gate \<times> rate_limiter" where
  "Middleware now rl r =
     (case Allow now rl (clientIP r (trustProxy rl)) of
        (False, rl') \<Rightarrow> (Denied 429 ''rate limit exceeded'', rl')
      | (True, rl') \<Rightarrow> (Next, rl'))"

definition requireAuth :: "string \<Rightarrow> http_request \<Rightarrow> gate" where
  "requireAuth authToken r =
     (if Method r = ''OPTIONS'' then Preflight
      else if authToken = [] then Denied 403 ''no auth token configured''
      else let anvil = Header r ''X-Anvil-Auth'';
               auth = Header r ''Authorization'';
               token = (if anvil \<noteq> [] then anvil
                        else if length auth > 7 \<and> take 7 auth = ''Bearer '' then drop 7 auth else [])
           in if token \<noteq> authToken then Denied 401 ''unauthorized'' else Next)"

section \<open>The gossip rate limiter\<close>

record peer_rate =
  pr_tokens :: rat
  pr_lastSeen :: int
  dropCount :: int
  lastWarnAt :: "int option"

text \<open>
  The result says whether the message is allowed and whether a spam warning is broadcast. A zero
  \<^verbatim>\<open>lastWarnAt\<close> is more than ten minutes ago.
\<close>

definition allowPeerMessage :: "int \<Rightarrow> rat \<Rightarrow> int \<Rightarrow> (string \<times> peer_rate) list \<Rightarrow> string
    \<Rightarrow> bool \<times> bool \<times> (string \<times> peer_rate) list" where
  "allowPeerMessage now ratePerSec rateBurst rates peerPK =
     (case map_of rates peerPK of
        None \<Rightarrow> (True, False, AList.update peerPK \<lparr>pr_tokens = of_int rateBurst - 1, pr_lastSeen = now,
                   dropCount = 0, lastWarnAt = None\<rparr> rates)
      | Some pr \<Rightarrow>
          (let t = refill ratePerSec (of_int rateBurst) now (pr_tokens pr) (pr_lastSeen pr);
               pr1 = pr\<lparr>pr_tokens := t, pr_lastSeen := now\<rparr>
           in if t < 1
              then let pr2 = pr1\<lparr>dropCount := dropCount pr1 + 1\<rparr>;
                       overdue = (case lastWarnAt pr2 of None \<Rightarrow> True | Some w \<Rightarrow> now - w > 10 * 60 * second)
                   in if dropCount pr2 \<ge> 200 \<and> overdue
                      then (False, True, AList.update peerPK (pr2\<lparr>dropCount := 0, lastWarnAt := Some now\<rparr>) rates)
                      else (False, False, AList.update peerPK pr2 rates)
              else (True, False, AList.update peerPK (pr1\<lparr>pr_tokens := t - 1\<rparr>) rates)))"

section \<open>Token buckets\<close>

text \<open>
  \<open>step e now s\<close> is one event at time \<open>now\<close>: the flag tells whether it was admitted, \<open>mine e\<close> whether
  it counts. \<open>level s now\<close> is the number of tokens available at that time.
\<close>

fun admitted :: "('e \<Rightarrow> int \<Rightarrow> 's \<Rightarrow> bool \<times> 's) \<Rightarrow> ('e \<Rightarrow> bool) \<Rightarrow> ('e \<times> int) list \<Rightarrow> 's \<Rightarrow> nat" where
  \<comment> \<open>how many of the events that count are admitted\<close>
  "admitted step mine [] s = 0"
| "admitted step mine ((e, t) # es) s =
     (case step e t s of (ok, s') \<Rightarrow> (if mine e \<and> ok then 1 else 0) + admitted step mine es s')"

locale token_bucket =
  fixes step :: "'e \<Rightarrow> int \<Rightarrow> 's \<Rightarrow> bool \<times> 's"
    and mine :: "'e \<Rightarrow> bool"
    and inv :: "'s \<Rightarrow> int \<Rightarrow> bool"
    and level :: "'s \<Rightarrow> int \<Rightarrow> rat"
    and r :: rat and b :: rat
  assumes level_cap: "inv s t \<Longrightarrow> level s t \<le> b"
    and level_nonneg: "inv s t \<Longrightarrow> 0 \<le> level s t"
    and level_time: "inv s t \<Longrightarrow> t \<le> t' \<Longrightarrow> level s t' \<le> level s t + of_int (t' - t) / of_int second * r"
    and inv_time: "inv s t \<Longrightarrow> t \<le> t' \<Longrightarrow> inv s t'"
    and inv_step: "inv s t \<Longrightarrow> inv (snd (step e t s)) t"
    and spend: "inv s t \<Longrightarrow> level (snd (step e t s)) t \<le> level s t - (if mine e \<and> fst (step e t s) then 1 else 0)"
begin

lemma admitted_potential:
  assumes "inv s t0" and "sorted (t0 # map snd es)"
  shows "of_nat (admitted step mine es s) \<le> level s t0 + of_int (last (t0 # map snd es) - t0) / of_int second * r"
  using assms
proof (induction es arbitrary: s t0)
  case Nil
  then show ?case by (simp add: level_nonneg)
next
  case (Cons x es)
  obtain e t where x: "x = (e, t)" by (cases x)
  obtain ok s' where st: "step e t s = (ok, s')" by (cases "step e t s")
  let ?d = "\<lambda>a c :: int. of_int (a - c) / of_int second * r"
  let ?n = "(if mine e \<and> ok then 1 else 0) :: rat"
  from Cons.prems x have le: "t0 \<le> t" and srt: "sorted (t # map snd es)" by auto
  have it: "inv s t" using inv_time [OF Cons.prems(1) le] .
  have "inv s' t" using inv_step [OF it, of e] st by simp
  from Cons.IH [OF this srt] have IH: "of_nat (admitted step mine es s') \<le> level s' t + ?d (last (t # map snd es)) t" .
  have "level s' t \<le> level s t - ?n" using spend [OF it, of e] st by (simp split: if_splits)
  moreover have "level s t \<le> level s t0 + ?d t t0" using level_time [OF Cons.prems(1) le] .
  moreover have "?d (last (t # map snd es)) t + ?d t t0 = ?d (last (t0 # map snd (x # es))) t0"
    by (simp add: x add_divide_distrib [symmetric] distrib_right [symmetric] del: last.simps)
       (simp add: x)
  moreover have "of_nat (admitted step mine (x # es) s) = ?n + of_nat (admitted step mine es s')" by (simp add: x st)
  ultimately show ?case using IH by linarith
qed

lemma admitted_bound:
  assumes "inv s t0" and "sorted (t0 # map snd es)"
  shows "of_nat (admitted step mine es s) \<le> b + of_int (last (t0 # map snd es) - t0) / of_int second * r"
  using admitted_potential [OF assms] level_cap [OF assms(1)] by linarith

end

section \<open>Both limiters are token buckets\<close>

lemma refill_min: "refill r b now tok seen = min b (tok + of_int (now - seen) / of_int second * r)"
  by (simp add: refill_def Let_def min_def)

lemma refill_le: "refill r b now tok seen \<le> b"
  by (simp add: refill_min)

lemma refill_same: "tok \<le> b \<Longrightarrow> refill r b t tok t = tok"
  by (simp add: refill_min)

lemma second_pos: "(0 :: rat) < of_int second"
  by (simp add: second_def)

lemma elapsed_nonneg: "seen \<le> now \<Longrightarrow> 0 \<le> r \<Longrightarrow> (0 :: rat) \<le> of_int (now - seen) / of_int second * r"
  using second_pos by (intro mult_nonneg_nonneg divide_nonneg_pos) simp_all

lemma refill_nonneg: "0 \<le> tok \<Longrightarrow> seen \<le> now \<Longrightarrow> 0 \<le> r \<Longrightarrow> 0 \<le> b \<Longrightarrow> 0 \<le> refill r b now tok seen"
  using elapsed_nonneg [of seen now r] by (simp add: refill_min)

lemma min_shift: "c = a + d \<Longrightarrow> 0 \<le> d \<Longrightarrow> min b (tok + c) \<le> min b (tok + a) + d" for a b c d :: rat
  by (auto simp: min_def)

lemma refill_time:
  assumes "t \<le> t'" and "0 \<le> r"
  shows "refill r b t' tok seen \<le> refill r b t tok seen + of_int (t' - t) / of_int second * r"
proof -
  let ?d = "\<lambda>x y :: int. of_int (x - y) / of_int second * r :: rat"
  have "?d t' seen = ?d t seen + ?d t' t"
    by (simp add: add_divide_distrib [symmetric] distrib_right [symmetric])
  moreover have "0 \<le> ?d t' t" using assms by (rule elapsed_nonneg)
  ultimately show ?thesis unfolding refill_min by (rule min_shift)
qed

lemma refill_full:
  assumes "0 \<le> tok" and "b * of_int second \<le> of_int (now - seen) * r"
  shows "refill r b now tok seen = b"
proof -
  have "b \<le> of_int (now - seen) * r / of_int second" using assms(2) second_pos by (simp add: pos_le_divide_eq)
  also have "\<dots> = of_int (now - seen) / of_int second * r" by simp
  finally show ?thesis unfolding refill_min using assms(1) by linarith
qed

subsection \<open>HTTP\<close>

datatype rl_event = Request string | Evict

fun rl_step :: "rl_event \<Rightarrow> int \<Rightarrow> rate_limiter \<Rightarrow> bool \<times> rate_limiter" where
  "rl_step (Request key) now rl = Allow now rl key"
| "rl_step Evict now rl = (False, evict now rl)"

definition bucket_ok :: "int \<Rightarrow> int \<Rightarrow> bucket \<Rightarrow> bool" where
  "bucket_ok bst now bk \<longleftrightarrow> 0 \<le> tokens bk \<and> tokens bk \<le> of_int bst \<and> lastSeen bk \<le> now"

definition rl_inv :: "int \<Rightarrow> int \<Rightarrow> rate_limiter \<Rightarrow> int \<Rightarrow> bool" where
  "rl_inv r b rl now \<longleftrightarrow> rate rl = r \<and> burst rl = b \<and> 0 < r \<and> 0 < b \<and> b * second \<le> r * cleanup rl
     \<and> distinct (map fst (buckets rl)) \<and> (\<forall>k bk. map_of (buckets rl) k = Some bk \<longrightarrow> bucket_ok b now bk)"

definition rl_level :: "string \<Rightarrow> rate_limiter \<Rightarrow> int \<Rightarrow> rat" where
  "rl_level key rl now = (case map_of (buckets rl) key of
     None \<Rightarrow> of_int (burst rl)
   | Some bk \<Rightarrow> refill (of_int (rate rl)) (of_int (burst rl)) now (tokens bk) (lastSeen bk))"

lemma Allow_fields [simp]: "rate (snd (Allow now rl key)) = rate rl" "burst (snd (Allow now rl key)) = burst rl"
  "cleanup (snd (Allow now rl key)) = cleanup rl"
  by (simp_all add: Allow_def Let_def split: option.split)

lemma Allow_map:
  "map_of (buckets (snd (Allow now rl key))) = (map_of (buckets rl))(key \<mapsto>
     \<lparr>tokens = rl_level key rl now - (if fst (Allow now rl key) then 1 else 0), lastSeen = now\<rparr>)"
  by (simp add: Allow_def rl_level_def Let_def update_conv' split: option.split)

lemma Allow_admits: "fst (Allow now rl key) \<Longrightarrow> 0 < burst rl \<Longrightarrow> 1 \<le> rl_level key rl now"
  by (auto simp: Allow_def rl_level_def Let_def split: option.splits if_splits)

lemma Allow_distinct: "distinct (map fst (buckets rl)) \<Longrightarrow> distinct (map fst (buckets (snd (Allow now rl key))))"
  by (simp add: Allow_def Let_def distinct_update split: option.split)

lemma rl_level_bounds: "rl_inv r b rl now \<Longrightarrow> 0 \<le> rl_level key rl now \<and> rl_level key rl now \<le> of_int b"
  by (auto simp: rl_inv_def rl_level_def bucket_ok_def refill_le intro: refill_nonneg split: option.splits)

lemma Allow_inv:
  assumes "rl_inv r b rl now"
  shows "rl_inv r b (snd (Allow now rl key)) now"
proof -
  have lv: "0 \<le> rl_level key rl now" "rl_level key rl now \<le> of_int b" using rl_level_bounds [OF assms] by auto
  have "bucket_ok b now \<lparr>tokens = rl_level key rl now - (if fst (Allow now rl key) then 1 else 0), lastSeen = now\<rparr>"
    using lv Allow_admits [of now rl key] assms by (auto simp: bucket_ok_def rl_inv_def)
  then show ?thesis using assms unfolding rl_inv_def Allow_map by (auto simp: Allow_distinct)
qed

lemma evict_map:
  "distinct (map fst (buckets rl)) \<Longrightarrow> map_of (buckets (evict now rl)) k =
     (case map_of (buckets rl) k of None \<Rightarrow> None
      | Some bk \<Rightarrow> if lastSeen bk < now - cleanup rl then None else Some bk)"
  by (simp add: evict_def map_of_filter_distinct split: option.split)

lemma evict_fields [simp]: "rate (evict now rl) = rate rl" "burst (evict now rl) = burst rl"
  "cleanup (evict now rl) = cleanup rl"
  by (simp_all add: evict_def)

lemma evict_level:
  assumes inv: "rl_inv r b rl now"
  shows "rl_level key (evict now rl) now = rl_level key rl now"
proof (cases "map_of (buckets rl) key")
  case None
  with inv show ?thesis by (simp add: rl_level_def evict_map rl_inv_def)
next
  case (Some bk)
  have ok: "0 \<le> tokens bk" using inv Some by (auto simp: rl_inv_def bucket_ok_def)
  have "refill (of_int r) (of_int b) now (tokens bk) (lastSeen bk) = of_int b" if "lastSeen bk < now - cleanup rl"
  proof (rule refill_full [OF ok])
    have "b * second \<le> (now - lastSeen bk) * r"
    proof -
      have "r * cleanup rl \<le> r * (now - lastSeen bk)"
        using inv that by (intro mult_left_mono) (simp_all add: rl_inv_def)
      moreover have "b * second \<le> r * cleanup rl" using inv by (simp add: rl_inv_def)
      ultimately show ?thesis by (simp only: mult.commute [of r "now - lastSeen bk"])
    qed
    then show "(of_int b :: rat) * of_int second \<le> of_int (now - lastSeen bk) * of_int r"
      by (simp only: of_int_mult [symmetric] of_int_le_iff)
  qed
  with inv Some show ?thesis by (simp add: rl_level_def evict_map rl_inv_def)
qed

interpretation api_bucket: token_bucket rl_step "(=) (Request key)" "rl_inv r b" "rl_level key" "of_int r" "of_int b"
  for key r b
proof
  fix rl :: rate_limiter and t t' and e
  assume inv: "rl_inv r b rl t"
  show "rl_level key rl t \<le> of_int b" "0 \<le> rl_level key rl t" using rl_level_bounds [OF inv] by auto
  show "rl_inv r b (snd (rl_step e t rl)) t"
    using Allow_inv [OF inv] inv
    by (cases e) (auto simp: rl_inv_def evict_map distinct_map_fst_filter evict_def split: option.splits if_splits)
  show "rl_level key (snd (rl_step e t rl)) t \<le> rl_level key rl t - (if Request key = e \<and> fst (rl_step e t rl) then 1 else 0)"
  proof (cases e)
    case Evict
    then show ?thesis using evict_level [OF inv] by simp
  next
    case (Request k)
    show ?thesis
    proof (cases "k = key")
      case True
      have "rl_level key (snd (Allow t rl key)) t \<le> rl_level key rl t - (if fst (Allow t rl key) then 1 else 0)"
        using rl_level_bounds [OF inv, of key] by (subst rl_level_def) (simp add: Allow_map refill_min)
      then show ?thesis by (simp add: Request True)
    next
      case False
      then show ?thesis by (simp add: Request rl_level_def Allow_map cong: option.case_cong)
    qed
  qed
  assume "t \<le> t'"
  then show "rl_inv r b rl t'" using inv by (fastforce simp: rl_inv_def bucket_ok_def)
  show "rl_level key rl t' \<le> rl_level key rl t + of_int (t' - t) / of_int second * of_int r"
    using \<open>t \<le> t'\<close> inv refill_time [OF \<open>t \<le> t'\<close>, of "of_int r"] elapsed_nonneg [OF \<open>t \<le> t'\<close>, of "of_int r"]
    by (auto simp: rl_level_def rl_inv_def split: option.split)
qed

subsection \<open>Gossip\<close>

definition peer_step :: "rat \<Rightarrow> int \<Rightarrow> string \<Rightarrow> int \<Rightarrow> (string \<times> peer_rate) list \<Rightarrow> bool \<times> (string \<times> peer_rate) list" where
  "peer_step r b pk now rates = (case allowPeerMessage now r b rates pk of (ok, _, rates') \<Rightarrow> (ok, rates'))"

definition peer_inv :: "rat \<Rightarrow> int \<Rightarrow> (string \<times> peer_rate) list \<Rightarrow> int \<Rightarrow> bool" where
  "peer_inv r b rates now \<longleftrightarrow> 0 \<le> r \<and> 0 < b \<and> (\<forall>k pr. map_of rates k = Some pr \<longrightarrow>
     0 \<le> pr_tokens pr \<and> pr_tokens pr \<le> of_int b \<and> pr_lastSeen pr \<le> now)"

definition peer_level :: "rat \<Rightarrow> int \<Rightarrow> string \<Rightarrow> (string \<times> peer_rate) list \<Rightarrow> int \<Rightarrow> rat" where
  "peer_level r b pk rates now = (case map_of rates pk of
     None \<Rightarrow> of_int b | Some pr \<Rightarrow> refill r (of_int b) now (pr_tokens pr) (pr_lastSeen pr))"

lemma peer_level_bounds: "peer_inv r b rates now \<Longrightarrow> 0 \<le> peer_level r b pk rates now \<and> peer_level r b pk rates now \<le> of_int b"
  by (auto simp: peer_inv_def peer_level_def refill_le intro: refill_nonneg split: option.splits)

lemma peer_step_known:
  assumes "map_of rates pk = Some q" and "t = refill r (of_int b) now (pr_tokens q) (pr_lastSeen q)"
  shows "fst (peer_step r b pk now rates) \<longleftrightarrow> \<not> t < 1"
    and "\<exists>pr. snd (peer_step r b pk now rates) = AList.update pk pr rates
      \<and> pr_tokens pr = (if t < 1 then t else t - 1) \<and> pr_lastSeen pr = now"
  using assms by (simp_all add: peer_step_def allowPeerMessage_def Let_def) auto

lemma peer_step_map:
  obtains pr where "map_of (snd (peer_step r b pk now rates)) = (map_of rates)(pk \<mapsto> pr)"
    and "pr_tokens pr = peer_level r b pk rates now - (if fst (peer_step r b pk now rates) then 1 else 0)"
    and "pr_lastSeen pr = now"
proof (cases "map_of rates pk")
  case None
  then show ?thesis using that by (simp add: peer_step_def allowPeerMessage_def peer_level_def update_conv')
next
  case (Some q)
  define t where "t = refill r (of_int b) now (pr_tokens q) (pr_lastSeen q)"
  obtain pr where "snd (peer_step r b pk now rates) = AList.update pk pr rates"
    "pr_tokens pr = (if t < 1 then t else t - 1)" "pr_lastSeen pr = now"
    using peer_step_known(2) [OF Some t_def] by blast
  then show ?thesis
    using that [of pr] peer_step_known(1) [OF Some t_def] Some by (simp add: peer_level_def t_def update_conv')
qed

lemma peer_step_admits: "0 < b \<Longrightarrow> fst (peer_step r b pk now rates) \<Longrightarrow> 1 \<le> peer_level r b pk rates now"
  by (auto simp: peer_step_def allowPeerMessage_def peer_level_def Let_def split: option.splits if_splits)

interpretation gossip_bucket: token_bucket "peer_step r b" "(=) pk" "peer_inv r b" "peer_level r b pk" r "of_int b"
  for pk r b
proof
  fix rates :: "(string \<times> peer_rate) list" and t t' and e
  assume inv: "peer_inv r b rates t"
  show "peer_level r b pk rates t \<le> of_int b" "0 \<le> peer_level r b pk rates t" using peer_level_bounds [OF inv] by auto
  obtain pr where pr: "map_of (snd (peer_step r b e t rates)) = (map_of rates)(e \<mapsto> pr)" "pr_lastSeen pr = t"
    "pr_tokens pr = peer_level r b e rates t - (if fst (peer_step r b e t rates) then 1 else 0)"
    by (rule peer_step_map)
  have tok: "0 \<le> pr_tokens pr \<and> pr_tokens pr \<le> of_int b"
    using pr(3) peer_level_bounds [OF inv, of e] peer_step_admits [of b r e t rates] inv by (auto simp: peer_inv_def)
  then show "peer_inv r b (snd (peer_step r b e t rates)) t"
    using inv pr(2) unfolding peer_inv_def pr(1) by auto
  show "peer_level r b pk (snd (peer_step r b e t rates)) t
      \<le> peer_level r b pk rates t - (if pk = e \<and> fst (peer_step r b e t rates) then 1 else 0)"
  proof (cases "pk = e")
    case True
    have "peer_level r b pk (snd (peer_step r b e t rates)) t = pr_tokens pr"
      using tok by (simp add: peer_level_def pr(1,2) True refill_same)
    then show ?thesis using pr(3) True by simp
  qed (simp add: peer_level_def pr(1))
  assume le: "t \<le> t'"
  then show "peer_inv r b rates t'" using inv by (fastforce simp: peer_inv_def)
  show "peer_level r b pk rates t' \<le> peer_level r b pk rates t + of_int (t' - t) / of_int second * r"
    using inv refill_time [OF le, of r] elapsed_nonneg [OF le, of r]
    by (auto simp: peer_level_def peer_inv_def split: option.split)
qed

section \<open>Properties\<close>

lemma NewRateLimiter_inv: "rl_inv (rate (NewRateLimiter q p)) (burst (NewRateLimiter q p)) (NewRateLimiter q p) t"
  by (simp add: NewRateLimiter_def rl_inv_def Let_def second_def)



text \<open>
  the gossip rate limit holds. Among any sequence of messages of any peers at non-decreasing
  times, a peer that starts with no bucket gets at most \<^verbatim>\<open>rateBurst\<close> plus \<^verbatim>\<open>ratePerSec\<close> times the elapsed
  seconds of its messages through \<^verbatim>\<open>allowPeerMessage\<close>.
\<close>

theorem allowPeerMessage_bound:
  assumes "sorted (t0 # map snd es)" and "0 \<le> r" and "0 < b"
  shows "of_nat (admitted (peer_step r b) ((=) pk) es [])
    \<le> of_int b + of_int (last (t0 # map snd es) - t0) / of_int second * r"
proof (rule gossip_bucket.admitted_bound)
  show "peer_inv r b [] t0" using assms by (simp add: peer_inv_def)
qed (rule assms)

theorem allowPeerMessage_bound_witness:
  "of_nat (admitted (peer_step 30 100) ((=) ''p'') [(''p'', 0), (''q'', 5)] []) \<le> (101 :: rat)"
  using allowPeerMessage_bound [of 0 "[(''p'', 0), (''q'', 5)]" 30 100 "''p''"] by (simp add: second_def)

text \<open>
  write endpoints are closed by default and opened only by the token. \<^verbatim>\<open>requireAuth\<close> passes a
  request on only if a token is configured and the request presents exactly it, in \<^verbatim>\<open>X-Anvil-Auth\<close> or,
  when that header is empty, as a bearer token.
\<close>

theorem requireAuth_sound:
  "requireAuth authToken req = Next \<longleftrightarrow> Method req \<noteq> ''OPTIONS'' \<and> authToken \<noteq> []
     \<and> (Header req ''X-Anvil-Auth'' = authToken
        \<or> Header req ''X-Anvil-Auth'' = [] \<and> Header req ''Authorization'' = ''Bearer '' @ authToken)"
proof -
  define B where "B = ''Bearer ''"
  have B: "length B = 7" by (simp add: B_def)
  have bearer: "(7 < length a \<and> take 7 a = B \<and> drop 7 a = authToken) \<longleftrightarrow> a = B @ authToken"
    if "authToken \<noteq> []" for a :: string
  proof
    assume "a = B @ authToken"
    then show "7 < length a \<and> take 7 a = B \<and> drop 7 a = authToken" using that B by simp
  qed (metis append_take_drop_id)
  show ?thesis
    unfolding requireAuth_def Let_def B_def [symmetric]
    using bearer [of "Header req ''Authorization''"] by auto
qed

end
