(* ===== verification/Bond.thy ===== *)
theory Bond
  imports Anvil_Prelude
begin

text \<open>
  \<^verbatim>\<open>internal/bond/checker.go\<close>: the bond check for mesh peers. A peer is named by the hexadecimal form
  of its compressed identity key. The address derivation of go-sdk (\<open>address\<close>) and the answers of the
  WhatsOnChain service (\<open>get n url\<close>, the answer to the \<open>n\<close>th request of a call) are parameters.
\<close>

record wocUTXO =
  TxHash :: string
  TxPos :: int
  Value :: int
  Height :: int

datatype woc_body = ObjectBody "wocUTXO list" | ArrayBody "wocUTXO list" | BadBody

datatype woc_reply = FetchFailed string | WocAnswer nat woc_body

datatype bond_err =
    ErrDeriveAddress string | ErrFetchUTXOs string | ErrWoCStatus nat | ErrDecodeUTXOs
  | ErrInsufficientBond int int

text \<open>A cached result is always a success: a balance and the time it expires.\<close>

record Checker =
  minSats :: int
  apiURL :: string
  cache :: "string \<rightharpoonup> int \<times> int"

definition bondCacheTTL :: int where "bondCacheTTL = 3600 * 1000000000"

definition NewChecker :: "int \<Rightarrow> string \<Rightarrow> Checker" where
  "NewChecker minS url =
     \<lparr>minSats = minS, apiURL = (if url = [] then ''https://api.whatsonchain.com/v1/bsv/main'' else url),
      cache = Map.empty\<rparr>"

definition Required :: "Checker \<Rightarrow> bool" where
  "Required ch = (minSats ch > 0)"

definition MinSats :: "Checker \<Rightarrow> int" where
  "MinSats ch = minSats ch"

definition confirmed_total :: "wocUTXO list \<Rightarrow> int" where
  "confirmed_total us = foldl (\<lambda>t u. if Height u > 0 then wrap64 (t + Value u) else t) 0 us"

text \<open>
  The balance comes with the error: on an insufficient bond the code returns the total it found.
\<close>

definition judgeBond :: "Checker \<Rightarrow> wocUTXO list \<Rightarrow> int \<times> bond_err option" where
  "judgeBond ch us =
     (let total = confirmed_total us
      in if total < minSats ch then (total, Some (ErrInsufficientBond total (minSats ch))) else (total, None))"

definition verifyBondHTTP :: "(string \<Rightarrow> string + string) \<Rightarrow> (nat \<Rightarrow> string \<Rightarrow> woc_reply) \<Rightarrow> Checker \<Rightarrow> string
    \<Rightarrow> int \<times> bond_err option" where
  "verifyBondHTTP address get ch pkHex =
     (case address pkHex of
        Inl e \<Rightarrow> (0, Some (ErrDeriveAddress e))
      | Inr addr \<Rightarrow>
         (let url = apiURL ch @ ''/address/'' @ addr @ ''/unspent/all'' in
          case get 0 url of
            FetchFailed e \<Rightarrow> (0, Some (ErrFetchUTXOs e))
          | WocAnswer status body \<Rightarrow>
             (if status \<noteq> 200 then (0, Some (ErrWoCStatus status))
              else case body of
                ObjectBody us \<Rightarrow> judgeBond ch us
              | _ \<Rightarrow>
                 (case get 1 url of
                    WocAnswer _ (ArrayBody us) \<Rightarrow> judgeBond ch us
                  | _ \<Rightarrow> (0, Some ErrDecodeUTXOs)))))"

definition VerifyBond :: "(string \<Rightarrow> string + string) \<Rightarrow> (nat \<Rightarrow> string \<Rightarrow> woc_reply) \<Rightarrow> int \<Rightarrow> Checker \<Rightarrow> string
    \<Rightarrow> (int \<times> bond_err option) \<times> Checker" where
  "VerifyBond address get now ch pkHex =
     (if minSats ch \<le> 0 then ((0, None), ch)
      else case cache ch pkHex of
        Some (balance, expiresAt) \<Rightarrow>
          if now < expiresAt then ((balance, None), ch)
          else (case verifyBondHTTP address get ch pkHex of
                  (bal, None) \<Rightarrow> ((bal, None), ch\<lparr>cache := (cache ch)(pkHex \<mapsto> (bal, now + bondCacheTTL))\<rparr>)
                | (bal, Some e) \<Rightarrow> ((bal, Some e), ch))
      | None \<Rightarrow>
          (case verifyBondHTTP address get ch pkHex of
             (bal, None) \<Rightarrow> ((bal, None), ch\<lparr>cache := (cache ch)(pkHex \<mapsto> (bal, now + bondCacheTTL))\<rparr>)
           | (bal, Some e) \<Rightarrow> ((bal, Some e), ch)))"

section \<open>Soundness\<close>

definition funded_by :: "(string \<Rightarrow> string + string) \<Rightarrow> (nat \<Rightarrow> string \<Rightarrow> woc_reply) \<Rightarrow> Checker \<Rightarrow> string \<Rightarrow> int \<Rightarrow> bool" where
  \<comment> \<open>the service reported confirmed outputs of this total at the peer's address\<close>
  "funded_by address get ch pkHex tot \<longleftrightarrow> (\<exists>addr us. address pkHex = Inr addr \<and> tot = confirmed_total us
     \<and> (get 0 (apiURL ch @ ''/address/'' @ addr @ ''/unspent/all'') = WocAnswer 200 (ObjectBody us)
        \<or> (\<exists>st. get 1 (apiURL ch @ ''/address/'' @ addr @ ''/unspent/all'') = WocAnswer st (ArrayBody us))))"

lemma verifyBondHTTP_sound:
  assumes "verifyBondHTTP address get ch pk = (bal, None)"
  shows "minSats ch \<le> bal \<and> funded_by address get ch pk bal"
  using assms
  by (auto simp: verifyBondHTTP_def judgeBond_def funded_by_def Let_def
      split: sum.splits woc_reply.splits woc_body.splits if_splits)

text \<open>A sequence of checks, each with its own time and its own service.\<close>

type_synonym bond_query = "int \<times> (nat \<Rightarrow> string \<Rightarrow> woc_reply) \<times> string"

fun bond_run :: "(string \<Rightarrow> string + string) \<Rightarrow> Checker \<Rightarrow> bond_query list \<Rightarrow> Checker" where
  "bond_run address ch [] = ch"
| "bond_run address ch ((now, get, pk) # qs) = bond_run address (snd (VerifyBond address get now ch pk)) qs"

definition cache_justified :: "(string \<Rightarrow> string + string) \<Rightarrow> bond_query list \<Rightarrow> Checker \<Rightarrow> bool" where
  "cache_justified address qs ch \<longleftrightarrow> (\<forall>pk bal ex. cache ch pk = Some (bal, ex) \<longrightarrow> minSats ch \<le> bal
     \<and> (\<exists>now get. (now, get, pk) \<in> set qs \<and> ex = now + bondCacheTTL \<and> funded_by address get ch pk bal))"

lemma VerifyBond_fields: "minSats (snd (VerifyBond address get now ch pk)) = minSats ch"
  "apiURL (snd (VerifyBond address get now ch pk)) = apiURL ch"
  by (auto simp: VerifyBond_def split: option.splits prod.splits)

lemma funded_by_cong: "apiURL ch = apiURL ch' \<Longrightarrow> funded_by address get ch pk t = funded_by address get ch' pk t"
  by (simp add: funded_by_def)

lemma VerifyBond_cache:
  "cache (snd (VerifyBond address get now ch pk)) = cache ch
   \<or> (\<exists>bal. verifyBondHTTP address get ch pk = (bal, None)
        \<and> cache (snd (VerifyBond address get now ch pk)) = (cache ch)(pk \<mapsto> (bal, now + bondCacheTTL)))"
  by (auto simp: VerifyBond_def split: option.splits prod.splits)

lemma cache_justified_step:
  assumes "cache_justified address qs ch" and "(now, get, pk) \<in> set qs"
  shows "cache_justified address qs (snd (VerifyBond address get now ch pk))"
proof -
  note f = VerifyBond_fields [of address get now ch pk]
  note c = funded_by_cong [OF f(2)]
  from VerifyBond_cache [of address get now ch pk] show ?thesis
  proof
    assume "cache (snd (VerifyBond address get now ch pk)) = cache ch"
    with assms(1) f c show ?thesis by (simp add: cache_justified_def)
  next
    assume "\<exists>bal. verifyBondHTTP address get ch pk = (bal, None)
        \<and> cache (snd (VerifyBond address get now ch pk)) = (cache ch)(pk \<mapsto> (bal, now + bondCacheTTL))"
    then obtain bal where b: "verifyBondHTTP address get ch pk = (bal, None)"
      "cache (snd (VerifyBond address get now ch pk)) = (cache ch)(pk \<mapsto> (bal, now + bondCacheTTL))" by blast
    with assms f c verifyBondHTTP_sound [OF b(1)] show ?thesis
      unfolding cache_justified_def b(2) by auto
  qed
qed

lemma bond_run_justified:
  "cache_justified address all ch \<Longrightarrow> set qs \<subseteq> set all \<Longrightarrow> cache_justified address all (bond_run address ch qs)"
  by (induction address ch qs rule: bond_run.induct) (auto intro: cache_justified_step)

lemma bond_run_fields: "minSats (bond_run address ch qs) = minSats ch" "apiURL (bond_run address ch qs) = apiURL ch"
  by (induction address ch qs rule: bond_run.induct) (simp_all add: VerifyBond_fields)

section \<open>Properties\<close>


definition demo_woc :: "nat \<Rightarrow> string \<Rightarrow> woc_reply" where
  "demo_woc n url = WocAnswer 200 (ObjectBody [\<lparr>TxHash = ''aa'', TxPos = 0, Value = 1000, Height = 800000\<rparr>,
     \<lparr>TxHash = ''bb'', TxPos = 0, Value = 5000, Height = 0\<rparr>])"


end
