(* ===== verification/Slash.thy ===== *)
theory Slash
  imports Anvil_Prelude
begin

text \<open>
  The slash tracker of \<^verbatim>\<open>internal/gossip/slash.go\<close>: warnings per target, a 48-hour grace period that
  starts with the first warning, and the decision to deregister. The records are a Go map that
  \<^verbatim>\<open>allActive\<close> ranges over. The payload types are those of \<^verbatim>\<open>internal/gossip/protocol.go\<close>.
\<close>

record slash_warning =
  Target :: string
  Reason :: string
  Evidence :: string
  WarnedAt :: int
  Reporter :: string

record slash_record =
  Warnings :: "slash_warning list"
  FirstWarn :: int

type_synonym slash_records = "(string \<times> slash_record) list"

definition slashGracePeriod :: int where "slashGracePeriod = 48 * 3600 * 1000000000"
definition slashSpamThreshold :: nat where "slashSpamThreshold = 3"
definition SlashDoublePublish :: string where "SlashDoublePublish = ''double_publish''"
definition SlashGossipSpam :: string where "SlashGossipSpam = ''gossip_spam''"
definition SlashBadProof :: string where "SlashBadProof = ''bad_proof''"

definition SlashSeverity :: "string \<Rightarrow> nat" where
  "SlashSeverity reason =
     (if reason = SlashDoublePublish then 100
      else if reason = SlashGossipSpam then 25
      else if reason = SlashBadProof then 50
      else 0)"

definition countByReason :: "slash_record \<Rightarrow> string \<Rightarrow> nat \<times> nat" where
  \<comment> \<open>the warnings for the reason and their distinct reporters\<close>
  "countByReason rec reason =
     (let ws = filter (\<lambda>w. Reason w = reason) (Warnings rec)
      in (length ws, length (remdups (map Reporter ws))))"

definition addWarning :: "int \<Rightarrow> slash_records \<Rightarrow> slash_warning \<Rightarrow> bool \<times> slash_records" where
  "addWarning now st w =
     (let rec = (case map_of st (Target w) of None \<Rightarrow> \<lparr>Warnings = [], FirstWarn = now\<rparr> | Some r \<Rightarrow> r);
          rec1 = (if now - FirstWarn rec > slashGracePeriod then \<lparr>Warnings = [], FirstWarn = now\<rparr> else rec);
          rec2 = rec1\<lparr>Warnings := Warnings rec1 @ [w]\<rparr>;
          st' = AList.update (Target w) rec2 st
      in if Reason w = SlashDoublePublish
         then case countByReason rec2 SlashDoublePublish of
                (n, reporters) \<Rightarrow> (n \<ge> 2 \<and> reporters \<ge> 2, st')
         else case countByReason rec2 (Reason w) of
                (n, reporters) \<Rightarrow> (n \<ge> slashSpamThreshold \<and> reporters \<ge> 2, st'))"

definition activeWarnings :: "int \<Rightarrow> slash_records \<Rightarrow> string \<Rightarrow> slash_warning list \<times> slash_records" where
  "activeWarnings now st target =
     (case map_of st target of
        None \<Rightarrow> ([], st)
      | Some rec \<Rightarrow>
          if now - FirstWarn rec > slashGracePeriod then ([], AList.delete target st) else (Warnings rec, st))"

definition allActive :: "int \<Rightarrow> slash_records \<Rightarrow> (string \<times> slash_warning list) list \<times> slash_records" where
  "allActive now st =
     (let live = filter (\<lambda>(t, rec). \<not> now - FirstWarn rec > slashGracePeriod) st
      in (map (\<lambda>(t, rec). (t, Warnings rec)) (filter (\<lambda>(t, rec). Warnings rec \<noteq> []) live), live))"

section \<open>What triggers a deregistration\<close>

text \<open>A log of warnings with their arrival times, oldest first, and the tracker after it.\<close>

definition tracker_after :: "(int \<times> slash_warning) list \<Rightarrow> slash_records" where
  "tracker_after log = fold (\<lambda>(now, w) st. snd (addWarning now st w)) log []"

lemma tracker_after_snoc: "tracker_after (log @ [(now, w)]) = snd (addWarning now (tracker_after log) w)"
  by (simp add: tracker_after_def)

definition record_ok :: "(int \<times> slash_warning) list \<Rightarrow> string \<Rightarrow> slash_record \<Rightarrow> bool" where
  \<comment> \<open>the recorded warnings about a target are among the logged ones, not older than the first\<close>
  "record_ok log t rec \<longleftrightarrow> (\<exists>js. sorted_wrt (<) js \<and> set js \<subseteq> {..<length log}
     \<and> Warnings rec = map (\<lambda>j. snd (log ! j)) js
     \<and> (\<forall>j \<in> set js. Target (snd (log ! j)) = t \<and> FirstWarn rec \<le> fst (log ! j)
          \<and> fst (log ! j) - FirstWarn rec \<le> slashGracePeriod))"

lemma record_ok_mono: "record_ok log t rec \<Longrightarrow> record_ok (log @ later) t rec"
  unfolding record_ok_def
proof (elim exE conjE)
  fix js
  assume js: "sorted_wrt (<) js" "set js \<subseteq> {..<length log}" "Warnings rec = map (\<lambda>j. snd (log ! j)) js"
    "\<forall>j \<in> set js. Target (snd (log ! j)) = t \<and> FirstWarn rec \<le> fst (log ! j)
      \<and> fst (log ! j) - FirstWarn rec \<le> slashGracePeriod"
  then have "(log @ later) ! j = log ! j" if "j \<in> set js" for j
    using that by (auto simp: nth_append)
  with js show "\<exists>js. sorted_wrt (<) js \<and> set js \<subseteq> {..<length (log @ later)}
      \<and> Warnings rec = map (\<lambda>j. snd ((log @ later) ! j)) js
      \<and> (\<forall>j \<in> set js. Target (snd ((log @ later) ! j)) = t \<and> FirstWarn rec \<le> fst ((log @ later) ! j)
          \<and> fst ((log @ later) ! j) - FirstWarn rec \<le> slashGracePeriod)"
    by (intro exI [of _ js]) auto
qed

lemma record_ok_add:
  assumes "record_ok log t rec" and "Target w = t" and "FirstWarn rec \<le> now" and "now - FirstWarn rec \<le> slashGracePeriod"
  shows "record_ok (log @ [(now, w)]) t (rec\<lparr>Warnings := Warnings rec @ [w]\<rparr>)"
proof -
  from record_ok_mono [OF assms(1), of "[(now, w)]"] obtain js
    where js: "sorted_wrt (<) js" "Warnings rec = map (\<lambda>j. snd ((log @ [(now, w)]) ! j)) js"
      "\<forall>j \<in> set js. Target (snd ((log @ [(now, w)]) ! j)) = t \<and> FirstWarn rec \<le> fst ((log @ [(now, w)]) ! j)
        \<and> fst ((log @ [(now, w)]) ! j) - FirstWarn rec \<le> slashGracePeriod"
    unfolding record_ok_def by blast
  from assms(1) obtain ks where ks: "set ks \<subseteq> {..<length log}" "sorted_wrt (<) ks"
    "Warnings rec = map (\<lambda>j. snd (log ! j)) ks"
    "\<forall>j \<in> set ks. Target (snd (log ! j)) = t \<and> FirstWarn rec \<le> fst (log ! j)
      \<and> fst (log ! j) - FirstWarn rec \<le> slashGracePeriod"
    unfolding record_ok_def by blast
  have nth: "(log @ [(now, w)]) ! j = log ! j" if "j \<in> set ks" for j
    using that ks(1) by (auto simp: nth_append)
  have "sorted_wrt (<) (ks @ [length log])" using ks by (auto simp: sorted_wrt_append)
  moreover have "set (ks @ [length log]) \<subseteq> {..<length (log @ [(now, w)])}" using ks by auto
  moreover have "Warnings rec @ [w] = map (\<lambda>j. snd ((log @ [(now, w)]) ! j)) (ks @ [length log])"
    using ks(3) nth by simp
  ultimately show ?thesis
    unfolding record_ok_def using ks(4) nth assms(2-4) by (intro exI [of _ "ks @ [length log]"]) auto
qed

definition tracker_ok :: "(int \<times> slash_warning) list \<Rightarrow> slash_records \<Rightarrow> bool" where
  "tracker_ok log st \<longleftrightarrow> (\<forall>t rec. map_of st t = Some rec \<longrightarrow> record_ok log t rec
     \<and> (\<forall>now. (\<forall>x \<in> set log. fst x \<le> now) \<longrightarrow> FirstWarn rec \<le> now))"

lemma countByReason_pair: "countByReason rec reason
    = (length (filter (\<lambda>w. Reason w = reason) (Warnings rec)),
       card (Reporter ` {w \<in> set (Warnings rec). Reason w = reason}))"
  by (simp add: countByReason_def Let_def length_remdups_card_conv)

lemma addWarning_record:
  assumes ok: "tracker_ok log st" and mono: "\<forall>x \<in> set log. fst x \<le> now"
  obtains rec where "record_ok (log @ [(now, w)]) (Target w) rec" and "FirstWarn rec \<le> now"
    and "now - FirstWarn rec \<le> slashGracePeriod" and "snd (addWarning now st w) = AList.update (Target w) rec st"
    and "fst (addWarning now st w) \<longleftrightarrow>
      (if Reason w = SlashDoublePublish then 2 else 3) \<le> length (filter (\<lambda>v. Reason v = Reason w) (Warnings rec))
      \<and> 2 \<le> card (Reporter ` {v \<in> set (Warnings rec). Reason v = Reason w})"
proof -
  let ?rec = "case map_of st (Target w) of None \<Rightarrow> \<lparr>Warnings = [], FirstWarn = now\<rparr> | Some r \<Rightarrow> r"
  define r1 where "r1 = (if now - FirstWarn ?rec > slashGracePeriod then \<lparr>Warnings = [], FirstWarn = now\<rparr> else ?rec)"
  have fresh: "record_ok log t \<lparr>Warnings = [], FirstWarn = now\<rparr>" for t by (simp add: record_ok_def)
  have "record_ok log (Target w) r1 \<and> FirstWarn r1 \<le> now \<and> now - FirstWarn r1 \<le> slashGracePeriod"
    using ok mono fresh by (auto simp: r1_def tracker_ok_def slashGracePeriod_def split: option.splits)
  then have "record_ok (log @ [(now, w)]) (Target w) (r1\<lparr>Warnings := Warnings r1 @ [w]\<rparr>)" "FirstWarn r1 \<le> now"
    "now - FirstWarn r1 \<le> slashGracePeriod"
    using record_ok_add by blast+
  then show ?thesis
    by (intro that [of "r1\<lparr>Warnings := Warnings r1 @ [w]\<rparr>"])
       (simp_all add: addWarning_def countByReason_pair r1_def [symmetric] Let_def slashSpamThreshold_def)
qed

lemma tracker_after_ok:
  assumes "sorted (map fst log)"
  shows "tracker_ok log (tracker_after log)"
  using assms
proof (induction log rule: rev_induct)
  case Nil
  then show ?case by (simp add: tracker_ok_def tracker_after_def)
next
  case (snoc x log)
  obtain now w where x: "x = (now, w)" by (cases x)
  have ok: "tracker_ok log (tracker_after log)" and mono: "\<forall>y \<in> set log. fst y \<le> now"
    using snoc x by (auto simp: sorted_append)
  obtain rec where rec: "record_ok (log @ [(now, w)]) (Target w) rec" "FirstWarn rec \<le> now"
    "snd (addWarning now (tracker_after log) w) = AList.update (Target w) rec (tracker_after log)"
    using addWarning_record [OF ok mono] by metis
  show ?case
    using ok rec record_ok_mono [of log _ _ "[(now, w)]"]
    by (auto simp: x tracker_after_snoc tracker_ok_def update_conv')
qed

section \<open>Properties\<close>

text \<open>
  C37: deregistration needs corroboration. Whatever warnings have arrived in whatever order, when the
  tracker decides to deregister a target, at least two of the warnings logged about that target
  for that reason (three, unless the reason is double publishing) lie in one 48-hour window that
  ends with the new one, and they name at least two different reporters.
\<close>

theorem slash_needs_corroboration:
  assumes "sorted (map fst (log @ [(now, w)]))" and "fst (addWarning now (tracker_after log) w)"
  shows "\<exists>js. sorted_wrt (<) js \<and> set js \<subseteq> {..<length (log @ [(now, w)])}
    \<and> (if Reason w = SlashDoublePublish then 2 else 3) \<le> length js
    \<and> (\<forall>j \<in> set js. let (t, v) = (log @ [(now, w)]) ! j in
         Target v = Target w \<and> Reason v = Reason w \<and> now - t \<le> slashGracePeriod)
    \<and> 2 \<le> card ((\<lambda>j. Reporter (snd ((log @ [(now, w)]) ! j))) ` set js)"
proof -
  let ?log = "log @ [(now, w)]"
  have ok: "tracker_ok log (tracker_after log)" and mono: "\<forall>y \<in> set log. fst y \<le> now"
    using assms(1) tracker_after_ok [of log] by (auto simp: sorted_append)
  obtain rec where rec: "record_ok ?log (Target w) rec" "now - FirstWarn rec \<le> slashGracePeriod"
    and dec: "(if Reason w = SlashDoublePublish then 2 else 3) \<le> length (filter (\<lambda>v. Reason v = Reason w) (Warnings rec))
      \<and> 2 \<le> card (Reporter ` {v \<in> set (Warnings rec). Reason v = Reason w})"
    by (rule addWarning_record [OF ok mono, of w]) (use assms(2) that in blast)
  from rec(1) obtain js where js: "sorted_wrt (<) js" "set js \<subseteq> {..<length ?log}"
    "Warnings rec = map (\<lambda>j. snd (?log ! j)) js"
    "\<forall>j \<in> set js. Target (snd (?log ! j)) = Target w \<and> FirstWarn rec \<le> fst (?log ! j)"
    unfolding record_ok_def by blast
  let ?js = "filter (\<lambda>j. Reason (snd (?log ! j)) = Reason w) js"
  have n: "length (filter (\<lambda>v. Reason v = Reason w) (Warnings rec)) = length ?js"
    by (simp add: js(3) filter_map comp_def)
  have r: "Reporter ` {v \<in> set (Warnings rec). Reason v = Reason w} = (\<lambda>j. Reporter (snd (?log ! j))) ` set ?js"
    by (auto simp: js(3))
  have "now - fst (?log ! j) \<le> slashGracePeriod" if "j \<in> set js" for j
    using that js(4) rec(2) by fastforce
  then show ?thesis
    using js dec n r by (intro exI [of _ ?js]) (auto simp: sorted_wrt_filter case_prod_unfold)
qed

definition demo_warn :: "string \<Rightarrow> slash_warning" where
  "demo_warn rep = \<lparr>Target = ''02bad'', Reason = ''double_publish'', Evidence = [], WarnedAt = 0, Reporter = rep\<rparr>"

theorem slash_needs_corroboration_witness:
  "\<exists>js. 2 \<le> length js \<and> 2 \<le> card ((\<lambda>j. Reporter (snd ([(0 :: int, demo_warn ''a''), (5, demo_warn ''b'')] ! j))) ` set js)"
proof -
  have t: "fst (addWarning 5 (tracker_after [(0, demo_warn ''a'')]) (demo_warn ''b''))"
    by (simp add: tracker_after_def addWarning_def demo_warn_def Let_def slashGracePeriod_def
        SlashDoublePublish_def countByReason_def)
  have "Reason (demo_warn ''b'') = SlashDoublePublish" by (simp add: demo_warn_def SlashDoublePublish_def)
  with slash_needs_corroboration [of "[(0, demo_warn ''a'')]" 5 "demo_warn ''b''", OF _ t] show ?thesis by auto
qed

end
