(* ===== verification/Gossip.thy ===== *)
theory Gossip
  imports Envelope_Store Directory Rate_Limit Slash Bond
begin

text \<open>
  \<^verbatim>\<open>internal/gossip\<close>: the mesh manager (\<^verbatim>\<open>manager.go\<close>, \<^verbatim>\<open>manager_seed.go\<close>), its message handlers
  (\<^verbatim>\<open>handlers.go\<close>, the manager part of \<^verbatim>\<open>slash.go\<close>), the wire messages (\<^verbatim>\<open>protocol.go\<close>), the connection
  log (\<^verbatim>\<open>connection_log.go\<close>) and the status exports (\<^verbatim>\<open>status.go\<close>).

  The state is one record. Authenticated sessions are go-sdk's: a peer is an entry of \<open>peers\<close>, the
  messages written to sessions (\<^verbatim>\<open>auth.Peer.ToPeer\<close>, whose errors the handlers drop) are collected in
  \<open>outbox\<close> with the peer's key, the calls of the \<^verbatim>\<open>onEnvelope\<close> hook in \<open>delivered\<close>, and the sessions that
  were stopped in \<open>stopped\<close>. Each handler is one step: the locks it takes are released in between only
  where noted. A peer identity is the hexadecimal form of the compressed key. JSON bodies are kept
  decoded. The environment record holds the parameters: the database operations, the cryptography,
  the overlay directory behind its interface, the bond service, and the order in which the Go
  runtime ranges over the \<^verbatim>\<open>seen\<close> map when entries are evicted (\<open>evictSeen\<close>).
\<close>

section \<open>Messages and state\<close>

record DataRequestPayload =
  dr_Topic :: string
  dr_Since :: int
  dr_Limit :: int

record DataResponsePayload =
  dp_Topic :: string
  dp_Envelopes :: "envelope list"
  dp_HasMore :: bool

datatype mesh_msg =
    MsgData "envelope json"
  | MsgTopics "string list json"
  | MsgDataRequest "DataRequestPayload json"
  | MsgDataResponse "DataResponsePayload json"
  | MsgSHIPSync "ship_row list json"
  | MsgSlashWarning "slash_warning json"
  | MsgUnknown string
  | MsgInvalid

record mesh_peer =
  hasPeer :: bool
  IdentityPK :: "string option"
  Endpoint :: string
  Direction :: string
  BondSats :: int
  PeerVersion :: string
  ConnectedAt :: "int option"
  origKey :: string

record ConnectionEvent =
  ev_Timestamp :: int
  ev_Direction :: string
  ev_Event :: string
  ev_Endpoint :: string
  ev_Identity :: string
  ev_BondSats :: int
  ev_PeerCount :: int
  ev_ConnectedAt :: "int option"
  ev_DurationSecs :: int
  ev_Reason :: string

record ConnectionLog =
  maxRecent :: nat
  recent :: "ConnectionEvent list"
  logFile :: "ConnectionEvent list"

record ('db, 'd) manager =
  selfPK :: string
  g_store :: "'db envelope_store option"
  peers :: "(string \<times> mesh_peer) list"
  interests :: "string \<rightharpoonup> string list"
  localInterests :: "string list"
  seen :: "string list"
  maxSeen :: int
  hasHook :: bool
  overlayDir :: "'d option"
  bondChecker :: "Checker option"
  peerRates :: "(string \<times> peer_rate) list"
  ratePerSec :: rat
  rateBurst :: int
  dupCounts :: "string \<rightharpoonup> int"
  dupReported :: "string list"
  slashTracker :: slash_records
  catchUpTopics :: "string list"
  localPubkeys :: "string list"
  connLog :: "ConnectionLog option"
  envsReceived :: int
  envsSent :: int
  outbox :: "(string \<times> mesh_msg) list"
  delivered :: "envelope list"
  stopped :: "string list"

record ('db, 'd, 'sk, 'pk, 'sig) gossip_env =
  ge_ops :: "('db, envelope json) leveldb_ops"
  ge_crypto :: "('sk, 'pk, 'sig) crypto"
  ge_rows :: "'d \<Rightarrow> ship_row list"
  ge_add :: "int \<Rightarrow> 'd \<Rightarrow> string \<Rightarrow> string \<Rightarrow> string \<Rightarrow> string \<Rightarrow> string \<Rightarrow> dir_err + 'd"
  ge_remove :: "'d \<Rightarrow> string \<Rightarrow> 'd"
  ge_address :: "string \<Rightarrow> string + string"
  ge_get :: "nat \<Rightarrow> string \<Rightarrow> woc_reply"
  evictSeen :: "nat \<Rightarrow> string list \<Rightarrow> string list"

section \<open>Connection log\<close>

definition NewConnectionLog :: "int \<Rightarrow> ConnectionLog" where
  "NewConnectionLog n = \<lparr>maxRecent = nat (if n \<le> 0 then 50 else n), recent = [], logFile = []\<rparr>"

definition RecordEvent :: "ConnectionLog \<Rightarrow> ConnectionEvent \<Rightarrow> ConnectionLog" where
  "RecordEvent l event =
     (let r = recent l @ [event]
      in l\<lparr>logFile := logFile l @ [event],
           recent := (if length r > maxRecent l then drop (length r - maxRecent l) r else r)\<rparr>)"

definition Recent :: "ConnectionLog \<Rightarrow> int \<Rightarrow> ConnectionEvent list" where
  "Recent l limit =
     (let n = (if limit \<le> 0 \<or> limit > int (length (recent l)) then length (recent l) else nat limit)
      in drop (length (recent l) - n) (recent l))"

definition recordConnectionEvent :: "ConnectionEvent \<Rightarrow> ('db, 'd) manager \<Rightarrow> ('db, 'd) manager" where
  "recordConnectionEvent event m =
     (case connLog m of
        None \<Rightarrow> m
      | Some l \<Rightarrow> if ev_Event event = [] then m else m\<lparr>connLog := Some (RecordEvent l event)\<rparr>)"

definition RecentConnections :: "('db, 'd) manager \<Rightarrow> int \<Rightarrow> ConnectionEvent list" where
  "RecentConnections m limit = (case connLog m of None \<Rightarrow> [] | Some l \<Rightarrow> Recent l limit)"

definition notePeerIdentity :: "int \<Rightarrow> string \<Rightarrow> ('db, 'd) manager \<Rightarrow> ('db, 'd) manager" where
  "notePeerIdentity now identity m =
     (case map_of (peers m) identity of
        None \<Rightarrow> m
      | Some p \<Rightarrow> recordConnectionEvent
          \<lparr>ev_Timestamp = now, ev_Direction = Direction p, ev_Event = ''identified'', ev_Endpoint = Endpoint p,
           ev_Identity = identity, ev_BondSats = BondSats p, ev_PeerCount = int (length (peers m)),
           ev_ConnectedAt = ConnectedAt p, ev_DurationSecs = 0, ev_Reason = []\<rparr> m)"

definition disconnectEventForPeer :: "int \<Rightarrow> mesh_peer \<Rightarrow> string \<Rightarrow> int \<Rightarrow> ConnectionEvent" where
  "disconnectEventForPeer now p reason peerCount =
     \<lparr>ev_Timestamp = now, ev_Direction = Direction p, ev_Event = ''disconnected'', ev_Endpoint = Endpoint p,
      ev_Identity = (case IdentityPK p of None \<Rightarrow> [] | Some i \<Rightarrow> i),
      ev_BondSats = (if BondSats p > 0 then BondSats p else 0), ev_PeerCount = peerCount,
      ev_ConnectedAt = ConnectedAt p,
      ev_DurationSecs = (case ConnectedAt p of None \<Rightarrow> 0 | Some t \<Rightarrow> (now - t) div second), ev_Reason = reason\<rparr>"

section \<open>Removing peers and sending\<close>

definition dropPeer :: "int \<Rightarrow> string \<Rightarrow> mesh_peer \<Rightarrow> string \<Rightarrow> ('db, 'd) manager \<Rightarrow> ('db, 'd) manager" where
  "dropPeer now key p reason m =
     recordConnectionEvent (disconnectEventForPeer now p reason (int (length (peers m)) - 1))
       (m\<lparr>peers := AList.delete key (peers m), interests := (interests m)(key := None),
          stopped := stopped m @ [origKey p]\<rparr>)"

definition removePeerWithReason :: "int \<Rightarrow> string \<Rightarrow> string \<Rightarrow> ('db, 'd) manager \<Rightarrow> ('db, 'd) manager" where
  "removePeerWithReason now key reason m =
     (case map_of (peers m) key of
        Some p \<Rightarrow> dropPeer now key p reason m
      | None \<Rightarrow>
         (case filter (\<lambda>(k, p). origKey p = key) (peers m) of
            [] \<Rightarrow> m
          | (k, p) # _ \<Rightarrow> dropPeer now k p reason m))"

definition removePeer :: "int \<Rightarrow> string \<Rightarrow> ('db, 'd) manager \<Rightarrow> ('db, 'd) manager" where
  "removePeer now key m = removePeerWithReason now key [] m"

definition sendTo :: "string \<Rightarrow> mesh_msg \<Rightarrow> ('db, 'd) manager \<Rightarrow> ('db, 'd) manager" where
  "sendTo key msg m = m\<lparr>outbox := outbox m @ [(key, msg)]\<rparr>"

definition sendToAllExcept :: "string \<Rightarrow> mesh_msg \<Rightarrow> ('db, 'd) manager \<Rightarrow> ('db, 'd) manager" where
  \<comment> \<open>\<^verbatim>\<open>for pkHex, peer := range m.peers { if pkHex == senderPK continue; ... ToPeer }\<close>\<close>
  "sendToAllExcept sender msg m =
     m\<lparr>outbox := outbox m @ map (\<lambda>(k, p). (k, msg)) (filter (\<lambda>(k, p). k \<noteq> sender \<and> hasPeer p) (peers m))\<rparr>"

definition sendToAll :: "mesh_msg \<Rightarrow> ('db, 'd) manager \<Rightarrow> ('db, 'd) manager" where
  "sendToAll msg m = m\<lparr>outbox := outbox m @ map (\<lambda>(k, p). (k, msg)) (filter (\<lambda>(k, p). hasPeer p) (peers m))\<rparr>"

definition addSeen :: "string \<Rightarrow> ('db, 'd) manager \<Rightarrow> ('db, 'd) manager" where
  "addSeen h m = m\<lparr>seen := (if h \<in> set (seen m) then seen m else seen m @ [h])\<rparr>"

definition removeSHIP :: "('db, 'd, 'sk, 'pk, 'sig) gossip_env \<Rightarrow> string \<Rightarrow> ('db, 'd) manager \<Rightarrow> ('db, 'd) manager" where
  "removeSHIP E target m = m\<lparr>overlayDir := map_option (\<lambda>d. ge_remove E d target) (overlayDir m)\<rparr>"

section \<open>Slash warnings\<close>

definition selfIdentity :: "('db, 'd) manager \<Rightarrow> string" where
  \<comment> \<open>the wallet's identity key, empty without a wallet\<close>
  "selfIdentity m = selfPK m"

definition forwardSlashWarning :: "string \<Rightarrow> slash_warning json \<Rightarrow> ('db, 'd) manager \<Rightarrow> ('db, 'd) manager" where
  "forwardSlashWarning senderPK raw m = sendToAllExcept senderPK (MsgSlashWarning raw) m"

text \<open>
  The deregistration of a self-detected offender runs in a goroutine of its own, after the sends
  have released the lock; here it follows them.
\<close>

definition broadcastSlashWarning :: "('db, 'd, 'sk, 'pk, 'sig) gossip_env \<Rightarrow> int \<Rightarrow> string \<Rightarrow> string \<Rightarrow> string
    \<Rightarrow> ('db, 'd) manager \<Rightarrow> ('db, 'd) manager" where
  "broadcastSlashWarning E now target reason evidence m =
     (if selfIdentity m = [] then m
      else let w = \<lparr>Target = target, Reason = reason, Evidence = evidence, WarnedAt = now div second,
                    Reporter = selfIdentity m\<rparr>;
               (dereg, st) = addWarning now (slashTracker m) w;
               m1 = sendToAll (MsgSlashWarning (Json w)) (m\<lparr>slashTracker := st\<rparr>)
           in if dereg then removeSHIP E target (removePeer now target m1) else m1)"

definition warnHash :: "slash_warning \<Rightarrow> string" where
  "warnHash w = ''slash:'' @ Target w @ '':'' @ Reporter w @ '':'' @ Reason w @ '':'' @ itoa (WarnedAt w)"

definition onSlashWarning :: "('db, 'd, 'sk, 'pk, 'sig) gossip_env \<Rightarrow> int \<Rightarrow> string \<Rightarrow> slash_warning json
    \<Rightarrow> ('db, 'd) manager \<Rightarrow> ('db, 'd) manager" where
  "onSlashWarning E now senderPK raw m =
     (case unjson raw of
        None \<Rightarrow> m
      | Some w \<Rightarrow>
         (if Target w = [] \<or> Reporter w = [] \<or> Target w = senderPK then m
          else if warnHash w \<in> set (seen m) then m
          else let m1 = addSeen (warnHash w) m;
                   (dereg, st) = addWarning now (slashTracker m1) w;
                   m2 = m1\<lparr>slashTracker := st\<rparr>;
                   m3 = (if dereg then removeSHIP E (Target w) (removePeer now (Target w) m2) else m2)
               in forwardSlashWarning senderPK raw m3))"

definition SlashWarnings :: "int \<Rightarrow> ('db, 'd) manager \<Rightarrow> (string \<times> slash_warning list) list \<times> ('db, 'd) manager" where
  "SlashWarnings now m = (case allActive now (slashTracker m) of (r, st) \<Rightarrow> (r, m\<lparr>slashTracker := st\<rparr>))"

section \<open>Announcements\<close>

definition requestCatchUp :: "string \<Rightarrow> ('db, 'd) manager \<Rightarrow> ('db, 'd) manager" where
  "requestCatchUp key m = fold (\<lambda>topic. sendTo key (MsgDataRequest (Json
     \<lparr>dr_Topic = topic, dr_Since = 0, dr_Limit = 50\<rparr>))) (catchUpTopics m) m"

definition announceInterests :: "string \<Rightarrow> ('db, 'd) manager \<Rightarrow> ('db, 'd) manager" where
  "announceInterests key m = sendTo key (MsgTopics (Json (localInterests m))) m"

definition announceSHIP :: "('db, 'd, 'sk, 'pk, 'sig) gossip_env \<Rightarrow> string \<Rightarrow> ('db, 'd) manager \<Rightarrow> ('db, 'd) manager" where
  "announceSHIP E key m =
     (case overlayDir m of
        None \<Rightarrow> m
      | Some d \<Rightarrow> if ge_rows E d = [] then m else sendTo key (MsgSHIPSync (Json (ge_rows E d))) m)"

definition ReannounceToAll :: "('db, 'd, 'sk, 'pk, 'sig) gossip_env \<Rightarrow> ('db, 'd) manager \<Rightarrow> ('db, 'd) manager" where
  "ReannounceToAll E m =
     (case overlayDir m of
        None \<Rightarrow> m
      | Some d \<Rightarrow>
         (let own = filter (\<lambda>r. fst r \<in> set (localPubkeys m)) (ge_rows E d)
          in if own = [] then m else sendToAll (MsgSHIPSync (Json own)) m))"

section \<open>Handlers\<close>

definition setPeerVersion :: "string \<Rightarrow> string \<Rightarrow> ('db, 'd) manager \<Rightarrow> ('db, 'd) manager" where
  "setPeerVersion identity version m =
     (case map_of (peers m) identity of
        None \<Rightarrow> m
      | Some p \<Rightarrow> m\<lparr>peers := AList.update identity (p\<lparr>PeerVersion := version\<rparr>) (peers m)\<rparr>)"

fun shipSyncLoop :: "('db, 'd, 'sk, 'pk, 'sig) gossip_env \<Rightarrow> int \<Rightarrow> ship_row list \<Rightarrow> nat \<Rightarrow> ('db, 'd) manager
    \<Rightarrow> nat \<times> ('db, 'd) manager" where
  "shipSyncLoop E now [] added m = (added, m)"
| "shipSyncLoop E now ((identity, domain, nodeName, version, topic) # ps) added m =
     (if identity = [] \<or> domain = [] \<or> topic = [] then shipSyncLoop E now ps added m
      else let (added', m1) = (case overlayDir m of
                 None \<Rightarrow> (added, m)
               | Some d \<Rightarrow> (case ge_add E now d identity domain nodeName version topic of
                    Inl _ \<Rightarrow> (added, m)
                  | Inr d' \<Rightarrow> (added + 1, m\<lparr>overlayDir := Some d'\<rparr>)));
               m2 = (if version \<noteq> [] then setPeerVersion identity version m1 else m1)
           in shipSyncLoop E now ps added' m2)"

definition onSHIPSync :: "('db, 'd, 'sk, 'pk, 'sig) gossip_env \<Rightarrow> int \<Rightarrow> string \<Rightarrow> ship_row list json
    \<Rightarrow> ('db, 'd) manager \<Rightarrow> ('db, 'd) manager" where
  "onSHIPSync E now senderPK raw m =
     (if overlayDir m = None then m
      else case unjson raw of
        None \<Rightarrow> m
      | Some ps \<Rightarrow>
         (case shipSyncLoop E now ps 0 m of
            (added, m') \<Rightarrow> if added > 0 then sendToAllExcept senderPK (MsgSHIPSync raw) m' else m'))"

definition interested :: "('db, 'd) manager \<Rightarrow> string \<Rightarrow> string \<Rightarrow> bool" where
  "interested m key topic = (case interests m key of None \<Rightarrow> False | Some ps \<Rightarrow> list_ex (\<lambda>p. prefix p topic) ps)"

definition forwardToInterested :: "string \<Rightarrow> string \<Rightarrow> envelope json \<Rightarrow> ('db, 'd) manager \<Rightarrow> ('db, 'd) manager" where
  "forwardToInterested senderPK topic raw m =
     (let targets = filter (\<lambda>(k, p). k \<noteq> senderPK \<and> interested m k topic \<and> hasPeer p) (peers m)
      in m\<lparr>outbox := outbox m @ map (\<lambda>(k, p). (k, MsgData raw)) targets,
           envsSent := wrap64 (envsSent m + int (length targets))\<rparr>)"

definition BroadcastEnvelope :: "('db, 'd, 'sk, 'pk, 'sig) gossip_env \<Rightarrow> envelope \<Rightarrow> ('db, 'd) manager \<Rightarrow> ('db, 'd) manager" where
  "BroadcastEnvelope E env m =
     (if NoGossip env then m
      else forwardToInterested [] (Topic env) (Marshal env)
             (addSeen (HashEnvelope (ge_crypto E) (Topic env) (Pubkey env) (Payload env) (Timestamp env)) m))"

text \<open>
  The part of \<^verbatim>\<open>onData\<close> under \<^verbatim>\<open>seenMu\<close> that records the two hashes, with the eviction of half of the
  map (at least one entry: the count is tested after the deletion) when it is full.
\<close>

definition markSeen :: "('db, 'd, 'sk, 'pk, 'sig) gossip_env \<Rightarrow> string \<Rightarrow> string \<Rightarrow> ('db, 'd) manager \<Rightarrow> ('db, 'd) manager" where
  "markSeen E identityHash hash m =
     (let m1 = addSeen identityHash m;
          m2 = (if int (length (seen m1)) \<ge> maxSeen m1
                then m1\<lparr>seen := evictSeen E (max 1 (nat (maxSeen m1 div 2))) (seen m1)\<rparr> else m1)
      in addSeen hash m2)"

definition acceptData :: "('db, 'd, 'sk, 'pk, 'sig) gossip_env \<Rightarrow> int \<Rightarrow> string \<Rightarrow> envelope json \<Rightarrow> envelope
    \<Rightarrow> ('db, 'd) manager \<Rightarrow> ('db, 'd) manager" where
  \<comment> \<open>the rest of \<^verbatim>\<open>onData\<close>: validate, ingest, call the hook, forward\<close>
  "acceptData E now senderPK raw env m =
     (case Validate (ge_crypto E) env of
        Inl _ \<Rightarrow> m
      | Inr _ \<Rightarrow>
         (let env' = (if g_store m = None then env else env\<lparr>ReceivedAt := Some now\<rparr>);
              m1 = m\<lparr>g_store := map_option (\<lambda>s. case Ingest (ge_ops E) (ge_crypto E) now s env of
                                                  Inl _ \<Rightarrow> s | Inr s' \<Rightarrow> s') (g_store m),
                     envsReceived := wrap64 (envsReceived m + 1)\<rparr>;
              m2 = (if hasHook m1 then m1\<lparr>delivered := delivered m1 @ [env']\<rparr> else m1)
          in if NoGossip env then m2 else forwardToInterested senderPK (Topic env) raw m2))"

definition onData :: "('db, 'd, 'sk, 'pk, 'sig) gossip_env \<Rightarrow> int \<Rightarrow> string \<Rightarrow> envelope json
    \<Rightarrow> ('db, 'd) manager \<Rightarrow> ('db, 'd) manager" where
  "onData E now senderPK raw m0 =
     (let (allowed, spam, rates) = allowPeerMessage now (ratePerSec m0) (rateBurst m0) (peerRates m0) senderPK;
          m1 = m0\<lparr>peerRates := rates\<rparr>;
          m = (if spam then broadcastSlashWarning E now senderPK SlashGossipSpam
                 ''sustained rate limit violation (200+ drops)'' m1 else m1)
      in if \<not> allowed then m
         else case UnmarshalEnvelope raw of
           None \<Rightarrow> m
         | Some env \<Rightarrow>
            (let pubkey = to_lower (Pubkey env);
                 hash = HashEnvelope (ge_crypto E) (Topic env) pubkey (Payload env) (Timestamp env);
                 isLocal = pubkey \<in> set (localPubkeys m);
                 identityHash = HashEnvelope (ge_crypto E) (Topic env) pubkey [] (Timestamp env)
             in if hash \<in> set (seen m) then m
                else if \<not> isLocal \<and> identityHash \<in> set (seen m) then
                  (let n = wrap64 (go_lookup 0 (dupCounts m) identityHash + 1);
                       report = (n \<ge> 2 \<and> identityHash \<notin> set (dupReported m));
                       m2 = m\<lparr>dupCounts := (dupCounts m)(identityHash \<mapsto> n),
                              dupReported := (if report then dupReported m @ [identityHash] else dupReported m)\<rparr>
                   in if report
                      then broadcastSlashWarning E now pubkey SlashDoublePublish
                             ''3+ different payloads for same topic+pubkey+timestamp'' m2
                      else acceptData E now senderPK raw env (markSeen E identityHash hash m2))
                else acceptData E now senderPK raw env (markSeen E identityHash hash m)))"

definition onTopics :: "string \<Rightarrow> string list json \<Rightarrow> ('db, 'd) manager \<Rightarrow> ('db, 'd) manager" where
  "onTopics senderPK raw m =
     (case unjson raw of None \<Rightarrow> m | Some ps \<Rightarrow> m\<lparr>interests := (interests m)(senderPK \<mapsto> ps)\<rparr>)"

definition onDataRequest :: "('db, 'd, 'sk, 'pk, 'sig) gossip_env \<Rightarrow> int \<Rightarrow> string \<Rightarrow> DataRequestPayload json
    \<Rightarrow> ('db, 'd) manager \<Rightarrow> ('db, 'd) manager" where
  "onDataRequest E now senderPK raw m =
     (case unjson raw of
        None \<Rightarrow> m
      | Some req \<Rightarrow>
         (case g_store m of
            None \<Rightarrow> m
          | Some s \<Rightarrow>
             (let limit = (if dr_Limit req \<le> 0 then 100 else dr_Limit req);
                  results = (case QueryByTopic (ge_ops E) now s (dr_Topic req) limit of
                               Inl _ \<Rightarrow> [] | Inr rs \<Rightarrow> rs);
                  resp = MsgDataResponse (Json \<lparr>dp_Topic = dr_Topic req,
                           dp_Envelopes = map (\<lambda>e. e\<lparr>ReceivedAt := None\<rparr>) results, dp_HasMore = False\<rparr>)
              in case map_of (peers m) senderPK of
                   None \<Rightarrow> m
                 | Some p \<Rightarrow> if hasPeer p then sendTo senderPK resp m else m)))"

definition ingestQuietly :: "('db, 'd, 'sk, 'pk, 'sig) gossip_env \<Rightarrow> int \<Rightarrow> envelope \<Rightarrow> ('db, 'd) manager \<Rightarrow> ('db, 'd) manager" where
  "ingestQuietly E now env m =
     (case Validate (ge_crypto E) env of
        Inl _ \<Rightarrow> m
      | Inr _ \<Rightarrow> m\<lparr>g_store := map_option (\<lambda>s. case Ingest (ge_ops E) (ge_crypto E) now s env of
                                                Inl _ \<Rightarrow> s | Inr s' \<Rightarrow> s') (g_store m)\<rparr>)"

definition onDataResponse :: "('db, 'd, 'sk, 'pk, 'sig) gossip_env \<Rightarrow> int \<Rightarrow> DataResponsePayload json
    \<Rightarrow> ('db, 'd) manager \<Rightarrow> ('db, 'd) manager" where
  "onDataResponse E now raw m =
     (case unjson raw of None \<Rightarrow> m | Some resp \<Rightarrow> fold (ingestQuietly E now) (dp_Envelopes resp) m)"

definition handleMessage :: "('db, 'd, 'sk, 'pk, 'sig) gossip_env \<Rightarrow> int \<Rightarrow> string \<Rightarrow> mesh_msg
    \<Rightarrow> ('db, 'd) manager \<Rightarrow> ('db, 'd) manager" where
  "handleMessage E now senderPK msg m =
     (case msg of
        MsgInvalid \<Rightarrow> m
      | MsgData raw \<Rightarrow> onData E now senderPK raw m
      | MsgTopics raw \<Rightarrow> onTopics senderPK raw m
      | MsgDataRequest raw \<Rightarrow> onDataRequest E now senderPK raw m
      | MsgDataResponse raw \<Rightarrow> onDataResponse E now raw m
      | MsgSHIPSync raw \<Rightarrow> onSHIPSync E now senderPK raw m
      | MsgSlashWarning raw \<Rightarrow> onSlashWarning E now senderPK raw m
      | MsgUnknown _ \<Rightarrow> m)"

section \<open>Sessions\<close>

record ('db, 'd) manager_config =
  cfg_self :: string
  cfg_store :: "'db envelope_store option"
  cfg_localInterests :: "string list"
  cfg_maxSeen :: int
  cfg_hasHook :: bool
  cfg_overlayDir :: "'d option"
  cfg_bondChecker :: "Checker option"
  cfg_catchUpTopics :: "string list"
  cfg_localPubkeys :: "string list"
  cfg_connLog :: "ConnectionLog option"

definition NewManager :: "('db, 'd) manager_config \<Rightarrow> ('db, 'd) manager" where
  "NewManager cfg =
     \<lparr>selfPK = cfg_self cfg, g_store = cfg_store cfg, peers = [], interests = Map.empty,
      localInterests = cfg_localInterests cfg, seen = [],
      maxSeen = (if cfg_maxSeen cfg \<le> 0 then 10000 else cfg_maxSeen cfg), hasHook = cfg_hasHook cfg,
      overlayDir = cfg_overlayDir cfg, bondChecker = cfg_bondChecker cfg, peerRates = [],
      ratePerSec = 30, rateBurst = 100, dupCounts = Map.empty, dupReported = [], slashTracker = [],
      catchUpTopics = cfg_catchUpTopics cfg,
      localPubkeys = filter (\<lambda>pk. pk \<noteq> []) (map (to_lower \<circ> trim_space) (cfg_localPubkeys cfg)),
      connLog = cfg_connLog cfg, envsReceived = 0, envsSent = 0, outbox = [], delivered = [], stopped = []\<rparr>"

text \<open>
  The message callback registered for a session. On the first message the entry moves from its
  temporary key to the identity key (replacing an entry that is already there) and the bond is
  checked; later messages go straight to \<^verbatim>\<open>handleMessage\<close>. The three places that register it
  (\<^verbatim>\<open>ConnectPeer\<close>, \<^verbatim>\<open>AcceptPeer\<close>, \<^verbatim>\<open>ConnectSeedWithReconnect\<close>) differ in the direction they log. The
  text of the bond error in the logged event is abbreviated; the error value itself is returned.
\<close>

definition rekey :: "string \<Rightarrow> string \<Rightarrow> ('db, 'd) manager \<Rightarrow> bool \<times> ('db, 'd) manager" where
  "rekey tempKey pkHex m =
     (case map_of (peers m) tempKey of
        None \<Rightarrow> (False, m)
      | Some mp \<Rightarrow>
          if IdentityPK mp = None
          then (True, m\<lparr>peers := AList.delete tempKey (AList.update pkHex (mp\<lparr>IdentityPK := Some pkHex\<rparr>) (peers m))\<rparr>)
          else (False, m))"

definition setBond :: "string \<Rightarrow> int \<Rightarrow> ('db, 'd) manager \<Rightarrow> ('db, 'd) manager" where
  "setBond pkHex balance m =
     (case map_of (peers m) pkHex of
        None \<Rightarrow> m
      | Some mp \<Rightarrow> m\<lparr>peers := AList.update pkHex (mp\<lparr>BondSats := balance\<rparr>) (peers m)\<rparr>)"

definition onGeneralMessage :: "('db, 'd, 'sk, 'pk, 'sig) gossip_env \<Rightarrow> int \<Rightarrow> string \<Rightarrow> string \<Rightarrow> string \<Rightarrow> string
    \<Rightarrow> mesh_msg \<Rightarrow> ('db, 'd) manager \<Rightarrow> (bond_err + unit) \<times> ('db, 'd) manager" where
  "onGeneralMessage E now direction endpoint tempKey pkHex msg m0 =
     (let (needsBondCheck, m) = rekey tempKey pkHex m0;
          proceed = (\<lambda>m. (Inr (), handleMessage E now pkHex msg
                            (if needsBondCheck then notePeerIdentity now pkHex m else m)))
      in case bondChecker m of
           None \<Rightarrow> proceed m
         | Some ch \<Rightarrow>
             if needsBondCheck \<and> Required ch
             then (case VerifyBond (ge_address E) (ge_get E) now ch pkHex of
                     ((balance, Some err), ch') \<Rightarrow>
                       (let m1 = recordConnectionEvent
                              \<lparr>ev_Timestamp = now, ev_Direction = direction, ev_Event = ''rejected'',
                               ev_Endpoint = endpoint, ev_Identity = pkHex, ev_BondSats = 0, ev_PeerCount = 0,
                               ev_ConnectedAt = None, ev_DurationSecs = 0, ev_Reason = ''bond''\<rparr>
                              (m\<lparr>bondChecker := Some ch'\<rparr>)
                        in (Inl err, removePeerWithReason now pkHex ''bond_rejected'' m1))
                   | ((balance, None), ch') \<Rightarrow> proceed (setBond pkHex balance (m\<lparr>bondChecker := Some ch'\<rparr>)))
             else proceed m)"

definition registerPeer :: "('db, 'd, 'sk, 'pk, 'sig) gossip_env \<Rightarrow> int \<Rightarrow> string \<Rightarrow> string \<Rightarrow> string
    \<Rightarrow> ('db, 'd) manager \<Rightarrow> ('db, 'd) manager" where
  "registerPeer E now direction endpoint key m =
     (let mp = \<lparr>hasPeer = True, IdentityPK = None, Endpoint = endpoint, Direction = direction, BondSats = 0,
                PeerVersion = [], ConnectedAt = Some now, origKey = key\<rparr>;
          m1 = m\<lparr>peers := AList.update key mp (peers m)\<rparr>;
          m2 = recordConnectionEvent
                 \<lparr>ev_Timestamp = now, ev_Direction = direction, ev_Event = ''connected'', ev_Endpoint = endpoint,
                  ev_Identity = [], ev_BondSats = 0, ev_PeerCount = int (length (peers m1)),
                  ev_ConnectedAt = None, ev_DurationSecs = 0, ev_Reason = []\<rparr> m1
      in requestCatchUp key (announceSHIP E key (announceInterests key m2)))"

datatype connect_err = ErrNoWallet | ErrTransport string | ErrPeerStart string

text \<open>
  \<open>transport\<close> and \<open>start\<close> are the outcomes of opening the WebSocket and of \<^verbatim>\<open>auth.Peer.Start\<close>; the
  announcements are written to a session that has just started.
\<close>

definition ConnectPeer :: "('db, 'd, 'sk, 'pk, 'sig) gossip_env \<Rightarrow> int \<Rightarrow> (string + unit) \<Rightarrow> (string + unit) \<Rightarrow> string
    \<Rightarrow> ('db, 'd) manager \<Rightarrow> (connect_err + unit) \<times> ('db, 'd) manager" where
  "ConnectPeer E now transport start endpoint m =
     (if selfPK m = [] then (Inl ErrNoWallet, m)
      else case transport of
        Inl e \<Rightarrow> (Inl (ErrTransport e), m)
      | Inr _ \<Rightarrow>
         (case start of
            Inl e \<Rightarrow> (Inl (ErrPeerStart e), m)
          | Inr _ \<Rightarrow> (Inr (), registerPeer E now ''outbound'' endpoint endpoint m)))"

definition ConnectPeer_listener :: "('db, 'd, 'sk, 'pk, 'sig) gossip_env \<Rightarrow> int \<Rightarrow> string \<Rightarrow> string
    \<Rightarrow> mesh_msg \<Rightarrow> ('db, 'd) manager \<Rightarrow> (bond_err + unit) \<times> ('db, 'd) manager" where
  "ConnectPeer_listener E now endpoint pkHex msg m = onGeneralMessage E now ''outbound'' endpoint endpoint pkHex msg m"

definition AcceptPeer :: "('db, 'd, 'sk, 'pk, 'sig) gossip_env \<Rightarrow> int \<Rightarrow> (string + unit) \<Rightarrow> string \<Rightarrow> string
    \<Rightarrow> ('db, 'd) manager \<Rightarrow> (connect_err + string) \<times> ('db, 'd) manager" where
  "AcceptPeer E now start remoteAddr tempKey m =
     (case start of
        Inl e \<Rightarrow> (Inl (ErrPeerStart e), m)
      | Inr _ \<Rightarrow> (Inr tempKey, registerPeer E now ''inbound'' remoteAddr tempKey m))"

definition AcceptPeer_listener :: "('db, 'd, 'sk, 'pk, 'sig) gossip_env \<Rightarrow> int \<Rightarrow> string \<Rightarrow> string \<Rightarrow> string
    \<Rightarrow> mesh_msg \<Rightarrow> ('db, 'd) manager \<Rightarrow> (bond_err + unit) \<times> ('db, 'd) manager" where
  "AcceptPeer_listener E now remoteAddr tempKey pkHex msg m =
     onGeneralMessage E now ''inbound'' remoteAddr tempKey pkHex msg m"

definition MeshHandler_close :: "int \<Rightarrow> string \<Rightarrow> ('db, 'd) manager \<Rightarrow> ('db, 'd) manager" where
  \<comment> \<open>the clean-up when an inbound connection ends\<close>
  "MeshHandler_close now peerKey m = removePeerWithReason now peerKey ''transport_closed'' m"

text \<open>
  One round of \<^verbatim>\<open>ConnectSeedWithReconnect\<close>: opening the transport and the session may fail (then the
  loop waits and tries again), otherwise the peer is registered; when the transport closes the
  peer is removed again.
\<close>

definition seedConnect :: "('db, 'd, 'sk, 'pk, 'sig) gossip_env \<Rightarrow> int \<Rightarrow> (string + unit) \<Rightarrow> (string + unit) \<Rightarrow> string
    \<Rightarrow> ('db, 'd) manager \<Rightarrow> bool \<times> ('db, 'd) manager" where
  "seedConnect E now transport start endpoint m =
     (case transport of
        Inl _ \<Rightarrow> (False, m)
      | Inr _ \<Rightarrow>
         (case start of
            Inl _ \<Rightarrow> (False, m)
          | Inr _ \<Rightarrow> (True, registerPeer E now ''outbound'' endpoint endpoint m)))"

definition seed_listener :: "('db, 'd, 'sk, 'pk, 'sig) gossip_env \<Rightarrow> int \<Rightarrow> string \<Rightarrow> string
    \<Rightarrow> mesh_msg \<Rightarrow> ('db, 'd) manager \<Rightarrow> (bond_err + unit) \<times> ('db, 'd) manager" where
  "seed_listener E now endpoint pkHex msg m = onGeneralMessage E now ''outbound'' endpoint endpoint pkHex msg m"

definition seedDisconnect :: "int \<Rightarrow> bool \<Rightarrow> string \<Rightarrow> ('db, 'd) manager \<Rightarrow> ('db, 'd) manager" where
  "seedDisconnect now cancelled endpoint m =
     removePeerWithReason now endpoint (if cancelled then ''context_cancelled'' else ''transport_closed'') m"

definition StopManager :: "int \<Rightarrow> ('db, 'd) manager \<Rightarrow> ('db, 'd) manager" where
  "StopManager now m =
     (let events = map (\<lambda>(k, p). disconnectEventForPeer now p ''shutdown'' (int (length (peers m)) - 1)) (peers m)
      in fold recordConnectionEvent events
           (m\<lparr>stopped := stopped m @ map (\<lambda>(k, p). origKey p) (peers m), peers := []\<rparr>))"

section \<open>Status\<close>

definition PeerCount :: "('db, 'd) manager \<Rightarrow> nat" where
  "PeerCount m = length (peers m)"

record PeerInfo =
  pi_Identity :: string
  pi_Endpoint :: string
  pi_BondSats :: int
  pi_Version :: string
  pi_ConnectedAt :: "int option"
  pi_UptimeSecs :: int

definition PeerList :: "int \<Rightarrow> ('db, 'd) manager \<Rightarrow> PeerInfo list" where
  "PeerList now m = map (\<lambda>(k, p).
     \<lparr>pi_Identity = (case IdentityPK p of None \<Rightarrow> [] | Some i \<Rightarrow> i), pi_Endpoint = Endpoint p,
      pi_BondSats = BondSats p, pi_Version = PeerVersion p, pi_ConnectedAt = ConnectedAt p,
      pi_UptimeSecs = (case ConnectedAt p of None \<Rightarrow> 0 | Some t \<Rightarrow> (now - t) div second)\<rparr>) (peers m)"

definition Activity :: "('db, 'd) manager \<Rightarrow> int \<times> int" where
  "Activity m = (envsReceived m, envsSent m)"

definition Interests :: "('db, 'd) manager \<Rightarrow> (string \<rightharpoonup> string list)" where
  "Interests m = interests m"

definition truncate_id :: "string \<Rightarrow> string" where
  "truncate_id s = (if length s > 16 then take 16 s @ ''...'' else s)"

end
