(* ===== verification/Gossip_Safety.thy ===== *)
theory Gossip_Safety
  imports Gossip
begin

text \<open>
  What the mesh manager guarantees: which envelopes it forwards and to whom, that it delivers an
  envelope once, that its dedup map stays bounded, that the envelope store behind it only holds
  authentic envelopes, who can be deregistered, and that a peer without a bond is not listened to.
\<close>

section \<open>Frames\<close>

definition data_out :: "('db, 'd) manager \<Rightarrow> (string \<times> envelope json) list" where
  \<comment> \<open>the data messages written so far, with their recipients\<close>
  "data_out m = List.map_filter (\<lambda>(k, msg). case msg of MsgData raw \<Rightarrow> Some (k, raw) | _ \<Rightarrow> None) (outbox m)"

definition same_core :: "('db, 'd) manager \<Rightarrow> ('db, 'd) manager \<Rightarrow> bool" where
  \<comment> \<open>the two states agree in everything that slash handling and logging do not touch\<close>
  "same_core m m' \<longleftrightarrow> g_store m' = g_store m \<and> seen m' = seen m \<and> maxSeen m' = maxSeen m
     \<and> hasHook m' = hasHook m \<and> delivered m' = delivered m \<and> data_out m' = data_out m
     \<and> localPubkeys m' = localPubkeys m"

lemma same_core_refl [simp]: "same_core m m"
  by (simp add: same_core_def)

lemma same_core_trans: "same_core a b \<Longrightarrow> same_core b d \<Longrightarrow> same_core a d"
  by (simp add: same_core_def)

lemma map_filter_append: "List.map_filter f (xs @ ys) = List.map_filter f xs @ List.map_filter f ys"
  by (simp add: List.map_filter_def)

lemma recordConnectionEvent_fields [simp]:
  "peers (recordConnectionEvent e m) = peers m" "interests (recordConnectionEvent e m) = interests m"
  "outbox (recordConnectionEvent e m) = outbox m" "overlayDir (recordConnectionEvent e m) = overlayDir m"
  "slashTracker (recordConnectionEvent e m) = slashTracker m" "delivered (recordConnectionEvent e m) = delivered m"
  "g_store (recordConnectionEvent e m) = g_store m" "seen (recordConnectionEvent e m) = seen m"
  "maxSeen (recordConnectionEvent e m) = maxSeen m" "hasHook (recordConnectionEvent e m) = hasHook m"
  "localPubkeys (recordConnectionEvent e m) = localPubkeys m" "selfPK (recordConnectionEvent e m) = selfPK m"
  by (simp_all add: recordConnectionEvent_def split: option.split)

lemma removePeerWithReason_core [simp]: "same_core m (removePeerWithReason now k r m)"
  by (auto simp: removePeerWithReason_def dropPeer_def same_core_def data_out_def split: option.split list.split)

lemma removePeerWithReason_overlayDir [simp]: "overlayDir (removePeerWithReason now k r m) = overlayDir m"
  by (auto simp: removePeerWithReason_def dropPeer_def split: option.split list.split)

lemma removePeer_core [simp]: "same_core m (removePeer now k m)"
  by (simp add: removePeer_def)

lemma removeSHIP_core [simp]: "same_core m (removeSHIP E t m)"
  by (simp add: removeSHIP_def same_core_def data_out_def)

lemma no_data: "List.map_filter (\<lambda>(k, msg). case msg of MsgData raw \<Rightarrow> Some (k, raw) | _ \<Rightarrow> None)
    (map (\<lambda>(k, p). (k, MsgSlashWarning w)) ps) = []"
  by (induction ps) (auto simp: List.map_filter_simps)

lemma sendToAll_slash_core [simp]: "same_core m (sendToAll (MsgSlashWarning w) m)"
  by (simp add: sendToAll_def same_core_def data_out_def map_filter_append no_data)

lemma sendToAllExcept_slash_core [simp]: "same_core m (sendToAllExcept k (MsgSlashWarning w) m)"
  by (simp add: sendToAllExcept_def same_core_def data_out_def map_filter_append no_data)

lemma broadcastSlashWarning_core: "same_core m (broadcastSlashWarning E now t reason ev m)"
proof -
  have st: "same_core m (m\<lparr>slashTracker := st\<rparr>)" for st by (simp add: same_core_def data_out_def)
  let ?w = "\<lparr>Target = t, Reason = reason, Evidence = ev, WarnedAt = now div second, Reporter = selfIdentity m\<rparr>"
  obtain dereg trk where w: "addWarning now (slashTracker m) ?w = (dereg, trk)" by (metis surj_pair)
  let ?m1 = "sendToAll (MsgSlashWarning (Json ?w)) (m\<lparr>slashTracker := trk\<rparr>)"
  have m1: "same_core m ?m1" using st sendToAll_slash_core by (rule same_core_trans)
  have m2: "same_core m (removeSHIP E t (removePeer now t ?m1))"
    using same_core_trans [OF m1 removePeer_core] removeSHIP_core by (rule same_core_trans)
  have "broadcastSlashWarning E now t reason ev m = (if selfIdentity m = [] then m
      else if dereg then removeSHIP E t (removePeer now t ?m1) else ?m1)"
    by (simp add: broadcastSlashWarning_def w)
  with m1 m2 show ?thesis by simp
qed

lemma addSeen_fields [simp]: "g_store (addSeen h m) = g_store m" "delivered (addSeen h m) = delivered m"
  "data_out (addSeen h m) = data_out m" "peers (addSeen h m) = peers m" "interests (addSeen h m) = interests m"
  "outbox (addSeen h m) = outbox m" "maxSeen (addSeen h m) = maxSeen m" "hasHook (addSeen h m) = hasHook m"
  "set (seen (addSeen h m)) = insert h (set (seen m))"
  by (auto simp: addSeen_def data_out_def)

lemma markSeen_fields [simp]: "g_store (markSeen E i h m) = g_store m" "delivered (markSeen E i h m) = delivered m"
  "data_out (markSeen E i h m) = data_out m" "peers (markSeen E i h m) = peers m"
  "interests (markSeen E i h m) = interests m" "maxSeen (markSeen E i h m) = maxSeen m"
  "hasHook (markSeen E i h m) = hasHook m" "h \<in> set (seen (markSeen E i h m))"
  by (simp_all add: markSeen_def Let_def data_out_def)

section \<open>Anatomy of onData\<close>

definition envHash :: "('db, 'd, 'sk, 'pk, 'sig) gossip_env \<Rightarrow> envelope \<Rightarrow> string" where
  "envHash E env = HashEnvelope (ge_crypto E) (Topic env) (to_lower (Pubkey env)) (Payload env) (Timestamp env)"

definition idHash :: "('db, 'd, 'sk, 'pk, 'sig) gossip_env \<Rightarrow> envelope \<Rightarrow> string" where
  "idHash E env = HashEnvelope (ge_crypto E) (Topic env) (to_lower (Pubkey env)) [] (Timestamp env)"

lemma allow_no_spam: "allowPeerMessage now r b rates k = (True, spam, rates') \<Longrightarrow> \<not> spam"
  by (auto simp: allowPeerMessage_def Let_def split: option.splits if_splits)

text \<open>
  Either the message changes nothing but rates, slash tracking and peers, or it is a fresh envelope
  that is marked as seen and handed to \<open>acceptData\<close>.
\<close>

lemma onData_refused:
  assumes "allowPeerMessage now (ratePerSec m) (rateBurst m) (peerRates m) sender = (False, spam, rates)"
  shows "same_core m (onData E now sender raw m)"
proof -
  have "same_core m (m\<lparr>peerRates := rates\<rparr>)" by (simp add: same_core_def data_out_def)
  then show ?thesis using assms by (simp add: onData_def Let_def same_core_trans [OF _ broadcastSlashWarning_core])
qed

lemma onData_malformed:
  assumes "allowPeerMessage now (ratePerSec m) (rateBurst m) (peerRates m) sender = (True, spam, rates)"
  shows "same_core m (onData E now sender (Malformed b) m)"
  using assms allow_no_spam [of now "ratePerSec m" "rateBurst m" "peerRates m" sender spam rates]
  by (simp add: onData_def same_core_def data_out_def)

lemma onData_admitted:
  assumes "allowPeerMessage now (ratePerSec m) (rateBurst m) (peerRates m) sender = (True, spam, rates)"
    and "n = wrap64 (go_lookup 0 (dupCounts m) (idHash E env) + 1)"
    and "m1 = m\<lparr>peerRates := rates\<rparr>" and "m2 = m1\<lparr>dupCounts := (dupCounts m)(idHash E env \<mapsto> n)\<rparr>"
  shows "onData E now sender (Json env) m =
    (if envHash E env \<in> set (seen m) then m1
     else if to_lower (Pubkey env) \<notin> set (localPubkeys m) \<and> idHash E env \<in> set (seen m) then
       (if n \<ge> 2 \<and> idHash E env \<notin> set (dupReported m)
        then broadcastSlashWarning E now (to_lower (Pubkey env)) SlashDoublePublish
               ''3+ different payloads for same topic+pubkey+timestamp'' (m2\<lparr>dupReported := dupReported m @ [idHash E env]\<rparr>)
        else acceptData E now sender (Json env) env (markSeen E (idHash E env) (envHash E env) m2))
     else acceptData E now sender (Json env) env (markSeen E (idHash E env) (envHash E env) m1))"
proof -
  have "\<not> spam" using assms(1) by (intro allow_no_spam [where rates' = rates]) simp
  with assms show ?thesis by (simp add: onData_def envHash_def idHash_def Let_def)
qed

lemma onData_cases:
  obtains (quiet) "same_core m (onData E now sender raw m)"
  | (accept) env m1 where "raw = Json env" and "envHash E env \<notin> set (seen m)" and "same_core m m1"
      and "peers m1 = peers m" and "interests m1 = interests m"
      and "fst (allowPeerMessage now (ratePerSec m) (rateBurst m) (peerRates m) sender)"
      and "onData E now sender raw m = acceptData E now sender raw env (markSeen E (idHash E env) (envHash E env) m1)"
proof -
  obtain ok spam rates where r: "allowPeerMessage now (ratePerSec m) (rateBurst m) (peerRates m) sender = (ok, spam, rates)"
    by (metis prod_cases3)
  show ?thesis
  proof (cases "ok \<and> (\<exists>env. raw = Json env)")
    case False
    with r have "same_core m (onData E now sender raw m)"
      by (cases ok; cases raw) (auto intro: onData_refused onData_malformed)
    then show ?thesis by (rule quiet)
  next
    case True
    then obtain env where ok: "allowPeerMessage now (ratePerSec m) (rateBurst m) (peerRates m) sender = (True, spam, rates)"
      and raw: "raw = Json env" using r by auto
    let ?h = "envHash E env" and ?i = "idHash E env"
    define n where "n = wrap64 (go_lookup 0 (dupCounts m) ?i + 1)"
    define m1 where "m1 = m\<lparr>peerRates := rates\<rparr>"
    define m2 where "m2 = m1\<lparr>dupCounts := (dupCounts m)(?i \<mapsto> n)\<rparr>"
    note body = onData_admitted [OF ok n_def m1_def m2_def, folded raw]
    have c: "same_core m m1" "same_core m m2" "same_core m (m2\<lparr>dupReported := ds\<rparr>)"
      "peers m1 = peers m" "interests m1 = interests m" "peers m2 = peers m" "interests m2 = interests m" for ds
      by (simp_all add: m1_def m2_def same_core_def data_out_def)
    consider (seen) "?h \<in> set (seen m)"
      | (reported) "onData E now sender raw m = broadcastSlashWarning E now (to_lower (Pubkey env)) SlashDoublePublish
          ''3+ different payloads for same topic+pubkey+timestamp'' (m2\<lparr>dupReported := dupReported m @ [?i]\<rparr>)"
      | (accepted) m' where "?h \<notin> set (seen m)" "m' = m1 \<or> m' = m2" "onData E now sender raw m = acceptData E now sender raw env (markSeen E ?i ?h m')"
      using body by metis
    then show ?thesis
    proof cases
      case accepted
      then show ?thesis using accept [OF raw accepted(1), of m'] c ok by auto
    next
      case seen
      then show ?thesis using quiet body c(1) by simp
    next
      case reported
      then show ?thesis using quiet same_core_trans [OF c(3) broadcastSlashWarning_core] by metis
    qed
  qed
qed

section \<open>Forwarding and delivery\<close>

lemma data_new: "List.map_filter (\<lambda>(k, msg). case msg of MsgData raw \<Rightarrow> Some (k, raw) | _ \<Rightarrow> None)
    (map (\<lambda>(k, p). (k, MsgData raw)) ps) = map (\<lambda>k. (k, raw)) (map fst ps)"
  by (induction ps) (auto simp: List.map_filter_simps)

lemma data_out_upd [simp]:
  "data_out (m\<lparr>g_store := st, envsReceived := n\<rparr>) = data_out m"
  "data_out (m\<lparr>g_store := st, envsReceived := n, delivered := d\<rparr>) = data_out m"
  "interested (m\<lparr>g_store := st, envsReceived := n\<rparr>) = interested m"
  "interested (m\<lparr>g_store := st, envsReceived := n, delivered := d\<rparr>) = interested m"
  by (simp_all add: data_out_def interested_def fun_eq_iff)

lemma forwardToInterested_out:
  "data_out (forwardToInterested s t raw m) = data_out m @ map (\<lambda>k. (k, raw))
     (map fst (filter (\<lambda>(k, p). k \<noteq> s \<and> interested m k t \<and> hasPeer p) (peers m)))"
  by (simp add: forwardToInterested_def data_out_def map_filter_append data_new Let_def)

lemma forwardToInterested_fields [simp]: "g_store (forwardToInterested s t raw m) = g_store m"
  "delivered (forwardToInterested s t raw m) = delivered m" "seen (forwardToInterested s t raw m) = seen m"
  "maxSeen (forwardToInterested s t raw m) = maxSeen m"
  by (simp_all add: forwardToInterested_def Let_def)

lemma acceptData_fields:
  "seen (acceptData E now s raw env m) = seen m" "maxSeen (acceptData E now s raw env m) = maxSeen m"
  by (simp_all add: acceptData_def Let_def split: sum.split)

lemma acceptData_delivered:
  "delivered (acceptData E now s raw env m) = delivered m
   \<or> (Validate (ge_crypto E) env = Inr () \<and> (\<exists>r. delivered (acceptData E now s raw env m) = delivered m @ [env\<lparr>ReceivedAt := r\<rparr>]))"
proof -
  have "\<exists>r. env = env\<lparr>ReceivedAt := r\<rparr>" by (rule exI [of _ "ReceivedAt env"]) simp
  then show ?thesis by (cases "Validate (ge_crypto E) env") (auto simp: acceptData_def Let_def)
qed

lemma acceptData_out:
  "data_out (acceptData E now s raw env m) = data_out m
   \<or> (Validate (ge_crypto E) env = Inr () \<and> \<not> NoGossip env
      \<and> data_out (acceptData E now s raw env m) = data_out m @ map (\<lambda>k. (k, raw))
          (map fst (filter (\<lambda>(k, p). k \<noteq> s \<and> interested m k (Topic env) \<and> hasPeer p) (peers m))))"
  by (cases "Validate (ge_crypto E) env")
     (simp_all add: acceptData_def Let_def forwardToInterested_out)

lemma envHash_ReceivedAt [simp]: "envHash E (env\<lparr>ReceivedAt := r\<rparr>) = envHash E env"
  by (simp add: envHash_def)

lemma onData_seen_mono:
  assumes "int (length (seen m)) + 1 < maxSeen m"
  shows "set (seen m) \<subseteq> set (seen (onData E now s raw m))
    \<and> length (seen (onData E now s raw m)) \<le> length (seen m) + 2"
proof (cases rule: onData_cases [of m E now s raw])
  case quiet
  then show ?thesis by (simp add: same_core_def)
next
  case (accept env m1)
  have "seen m1 = seen m" "maxSeen m1 = maxSeen m" using accept(3) by (simp_all add: same_core_def)
  then have "seen (markSeen E (idHash E env) (envHash E env) m1) = seen (addSeen (envHash E env) (addSeen (idHash E env) m1))"
    using assms by (simp add: markSeen_def Let_def addSeen_def)
  then show ?thesis using \<open>seen m1 = seen m\<close> by (auto simp: accept(7) acceptData_fields addSeen_def)
qed

type_synonym mesh_data = "int \<times> string \<times> envelope json"

definition run_data :: "('db, 'd, 'sk, 'pk, 'sig) gossip_env \<Rightarrow> mesh_data list \<Rightarrow> ('db, 'd) manager \<Rightarrow> ('db, 'd) manager" where
  "run_data E ms m = fold (\<lambda>(now, s, raw). onData E now s raw) ms m"

definition delivered_once :: "('db, 'd, 'sk, 'pk, 'sig) gossip_env \<Rightarrow> ('db, 'd) manager \<Rightarrow> bool" where
  "delivered_once E m \<longleftrightarrow> distinct (map (envHash E) (delivered m)) \<and> (\<forall>e \<in> set (delivered m). envHash E e \<in> set (seen m))"

lemma onData_delivered_once:
  assumes inv: "delivered_once E m" and room: "int (length (seen m)) + 1 < maxSeen m"
  shows "delivered_once E (onData E now s raw m)"
proof (cases rule: onData_cases [of m E now s raw])
  case quiet
  with inv show ?thesis by (simp add: same_core_def delivered_once_def)
next
  case (accept env m1)
  let ?m2 = "markSeen E (idHash E env) (envHash E env) m1"
  have d: "delivered ?m2 = delivered m" using accept(3) by (simp add: same_core_def)
  have "set (seen m) \<subseteq> set (seen (onData E now s raw m))" using onData_seen_mono [OF room] by blast
  moreover have "envHash E env \<in> set (seen (onData E now s raw m))" by (simp add: accept(7) acceptData_fields)
  moreover have "envHash E env \<notin> envHash E ` set (delivered m)" using accept(2) inv by (auto simp: delivered_once_def)
  ultimately show ?thesis
    using acceptData_delivered [of E now s raw env ?m2] inv d
    unfolding delivered_once_def accept(7) by auto
qed

lemma run_data_once:
  "delivered_once E m \<Longrightarrow> int (length (seen m)) + 2 * int (length ms) < maxSeen m \<Longrightarrow> delivered_once E (run_data E ms m)"
proof (induction ms arbitrary: m)
  case (Cons x ms)
  obtain now s raw where x: "x = (now, s, raw)" by (metis prod_cases3)
  let ?m = "onData E now s raw m"
  have room: "int (length (seen m)) + 1 < maxSeen m" using Cons.prems(2) by simp
  have "maxSeen ?m = maxSeen m"
    by (cases rule: onData_cases [of m E now s raw]) (simp_all add: same_core_def acceptData_fields)
  then have "int (length (seen ?m)) + 2 * int (length ms) < maxSeen ?m"
    using onData_seen_mono [OF room, of E now s raw] Cons.prems(2) by simp
  from Cons.IH [OF onData_delivered_once [OF Cons.prems(1) room] this] show ?case by (simp add: run_data_def x)
qed (simp add: run_data_def)

section \<open>The store behind the mesh\<close>

lemma Ingest_quiet_ok:
  assumes "envelope_env (ge_ops E) contents (ge_crypto E)" and "\<forall>s. st = Some s \<longrightarrow> store_ok (ge_crypto E) contents s"
  shows "\<forall>s. map_option (\<lambda>s. case Ingest (ge_ops E) (ge_crypto E) now s env of Inl _ \<Rightarrow> s | Inr s' \<Rightarrow> s') st = Some s
    \<longrightarrow> store_ok (ge_crypto E) contents s"
proof (cases st)
  case (Some s)
  with assms(2) envelope_env.Ingest_ok [OF assms(1)] show ?thesis
    by (cases "Ingest (ge_ops E) (ge_crypto E) now s env") auto
qed simp

definition mesh_store_ok :: "('db, 'd, 'sk, 'pk, 'sig) gossip_env \<Rightarrow> ('db \<Rightarrow> (bytes \<rightharpoonup> envelope json)) \<Rightarrow> ('db, 'd) manager \<Rightarrow> bool" where
  "mesh_store_ok E contents m \<longleftrightarrow> (\<forall>s. g_store m = Some s \<longrightarrow> store_ok (ge_crypto E) contents s)"

lemma acceptData_g_store:
  "g_store (acceptData E now s raw env m) = g_store m
   \<or> g_store (acceptData E now s raw env m)
     = map_option (\<lambda>s. case Ingest (ge_ops E) (ge_crypto E) now s env of Inl _ \<Rightarrow> s | Inr s' \<Rightarrow> s') (g_store m)"
  by (cases "Validate (ge_crypto E) env") (simp_all add: acceptData_def Let_def)

lemma acceptData_store:
  assumes "envelope_env (ge_ops E) contents (ge_crypto E)" and "mesh_store_ok E contents m"
  shows "mesh_store_ok E contents (acceptData E now s raw env m)"
  using acceptData_g_store [of E now s raw env m]
proof
  assume "g_store (acceptData E now s raw env m) = g_store m"
  with assms(2) show ?thesis by (simp only: mesh_store_ok_def)
next
  assume eq: "g_store (acceptData E now s raw env m)
     = map_option (\<lambda>s. case Ingest (ge_ops E) (ge_crypto E) now s env of Inl _ \<Rightarrow> s | Inr s' \<Rightarrow> s') (g_store m)"
  show ?thesis
    using Ingest_quiet_ok [OF assms(1) assms(2) [unfolded mesh_store_ok_def]] by (simp only: mesh_store_ok_def eq) blast
qed

lemma shipSyncLoop_store: "g_store (snd (shipSyncLoop E now ps n m)) = g_store m"
proof (induction ps arbitrary: n m)
  case (Cons p ps)
  obtain i d nn v t where p: "p = (i, d, nn, v, t)" by (metis prod_cases5)
  show ?case
    by (cases "overlayDir m"; cases "ge_add E now (the (overlayDir m)) i d nn v t")
       (simp_all add: p Let_def setPeerVersion_def Cons.IH split: option.split)
qed simp

lemma fold_ingestQuietly_store:
  assumes "envelope_env (ge_ops E) contents (ge_crypto E)"
  shows "mesh_store_ok E contents m \<Longrightarrow> mesh_store_ok E contents (fold (ingestQuietly E now) es m)"
proof (induction es arbitrary: m)
  case (Cons e es)
  have "mesh_store_ok E contents (ingestQuietly E now e m)"
    using Cons.prems Ingest_quiet_ok [OF assms] by (auto simp: ingestQuietly_def mesh_store_ok_def split: sum.splits)
  then show ?case using Cons.IH by simp
qed simp

text \<open>A warning is dropped, or it is counted, marked as seen, enforced and forwarded.\<close>

lemma onSlashWarning_cases:
  obtains (drop) "onSlashWarning E now s raw m = m"
  | (count) w dereg trk where "raw = Json w" and "Target w \<noteq> []" and "warnHash w \<notin> set (seen m)"
      and "addWarning now (slashTracker m) w = (dereg, trk)"
      and "onSlashWarning E now s raw m = sendToAllExcept s (MsgSlashWarning raw)
        (let m2 = (addSeen (warnHash w) m)\<lparr>slashTracker := trk\<rparr>
         in if dereg then removeSHIP E (Target w) (removePeer now (Target w) m2) else m2)"
proof (cases raw)
  case (Malformed b)
  then show ?thesis using drop by (simp add: onSlashWarning_def)
next
  case (Json w)
  obtain dereg trk where a: "addWarning now (slashTracker m) w = (dereg, trk)" by (metis surj_pair)
  have "slashTracker (addSeen h m) = slashTracker m" for h by (simp add: addSeen_def)
  then have "onSlashWarning E now s raw m =
      (if Target w = [] \<or> Reporter w = [] \<or> Target w = s \<or> warnHash w \<in> set (seen m) then m
       else sendToAllExcept s (MsgSlashWarning raw)
        (let m2 = (addSeen (warnHash w) m)\<lparr>slashTracker := trk\<rparr>
         in if dereg then removeSHIP E (Target w) (removePeer now (Target w) m2) else m2))"
    by (simp add: onSlashWarning_def Json a forwardSlashWarning_def Let_def)
  then show ?thesis using drop count [OF Json _ _ a] by (metis (no_types, lifting))
qed

lemma slash_upd_store: "g_store (let m2 = (addSeen h m)\<lparr>slashTracker := trk\<rparr>
    in if dereg then removeSHIP E t (removePeer now t m2) else m2) = g_store m"
proof -
  have "g_store (removeSHIP E t (removePeer now t m')) = g_store m'" for m'
  proof -
    have "same_core m' (removeSHIP E t (removePeer now t m'))" by (rule same_core_trans [OF removePeer_core removeSHIP_core])
    then show ?thesis by (simp add: same_core_def)
  qed
  then show ?thesis by (simp add: Let_def)
qed

lemma onSlashWarning_store: "g_store (onSlashWarning E now s raw m) = g_store m"
  by (cases rule: onSlashWarning_cases [of E now s raw m])
     (simp_all add: sendToAllExcept_def slash_upd_store)

lemma handleMessage_store:
  assumes env: "envelope_env (ge_ops E) contents (ge_crypto E)" and ok: "mesh_store_ok E contents m"
  shows "mesh_store_ok E contents (handleMessage E now sender msg m)"
proof (cases msg)
  case (MsgData raw)
  show ?thesis
  proof (cases rule: onData_cases [of m E now sender raw])
    case quiet
    with ok show ?thesis by (simp add: handleMessage_def MsgData mesh_store_ok_def same_core_def)
  next
    case (accept e m1)
    then have "mesh_store_ok E contents (markSeen E (idHash E e) (envHash E e) m1)"
      using ok by (simp add: mesh_store_ok_def same_core_def)
    from acceptData_store [OF env this] accept(7) show ?thesis by (simp add: handleMessage_def MsgData)
  qed
next
  case (MsgDataResponse raw)
  with fold_ingestQuietly_store [OF env ok] ok show ?thesis
    by (simp add: handleMessage_def onDataResponse_def split: option.split)
next
  case (MsgSHIPSync raw)
  with ok show ?thesis
    using shipSyncLoop_store [of E now _ 0 m]
    by (auto simp: handleMessage_def onSHIPSync_def mesh_store_ok_def sendToAllExcept_def case_prod_unfold
        split: option.splits)
next
  case (MsgSlashWarning raw)
  with ok show ?thesis by (simp add: handleMessage_def mesh_store_ok_def onSlashWarning_store)
qed (use ok in \<open>auto simp: handleMessage_def mesh_store_ok_def onTopics_def onDataRequest_def sendTo_def Let_def
    split: option.splits if_splits\<close>)

section \<open>Enforcement\<close>

lemma map_of_removePeerWithReason: "map_of (peers (removePeerWithReason now t r m)) t = None"
proof (cases "map_of (peers m) t")
  case (Some p)
  then show ?thesis by (simp add: removePeerWithReason_def dropPeer_def delete_conv')
next
  case None
  show ?thesis
  proof (cases "filter (\<lambda>(k, p). origKey p = t) (peers m)")
    case Nil
    with None show ?thesis by (simp add: removePeerWithReason_def)
  next
    case (Cons x xs)
    with None show ?thesis
      by (cases x) (simp add: removePeerWithReason_def dropPeer_def delete_conv')
  qed
qed

lemma enforce_removes:
  assumes "\<And>d i. set (ge_rows E (ge_remove E d i)) = {r \<in> set (ge_rows E d). fst r \<noteq> i}"
  shows "map_of (peers (removeSHIP E t (removePeer now t m))) t = None
    \<and> (\<forall>d. overlayDir (removeSHIP E t (removePeer now t m)) = Some d \<longrightarrow>
         (\<exists>d0. overlayDir m = Some d0 \<and> set (ge_rows E d) = {r \<in> set (ge_rows E d0). fst r \<noteq> t}))"
  using map_of_removePeerWithReason [of now t "[]" m] assms
  by (auto simp: removeSHIP_def removePeer_def)

lemma sendToAllExcept_fields [simp]: "peers (sendToAllExcept s msg m) = peers m"
  "overlayDir (sendToAllExcept s msg m) = overlayDir m" "slashTracker (sendToAllExcept s msg m) = slashTracker m"
  "seen (sendToAllExcept s msg m) = seen m"
  by (simp_all add: sendToAllExcept_def)

lemma onSlashWarning_counted:
  assumes "Target w \<noteq> []" and "Reporter w \<noteq> []" and "Target w \<noteq> s" and "warnHash w \<notin> set (seen m)"
    and "addWarning now (slashTracker m) w = (dereg, trk)"
  shows "onSlashWarning E now s (Json w) m = sendToAllExcept s (MsgSlashWarning (Json w))
        (let m2 = (addSeen (warnHash w) m)\<lparr>slashTracker := trk\<rparr>
         in if dereg then removeSHIP E (Target w) (removePeer now (Target w) m2) else m2)"
proof -
  have "slashTracker (addSeen h m) = slashTracker m" for h by (simp add: addSeen_def)
  with assms show ?thesis by (simp add: onSlashWarning_def forwardSlashWarning_def Let_def)
qed

lemma onSlashWarning_enforces:
  assumes "\<And>d i. set (ge_rows E (ge_remove E d i)) = {r \<in> set (ge_rows E d). fst r \<noteq> i}"
    and "Target w \<noteq> []" and "Reporter w \<noteq> []" and "Target w \<noteq> s" and "warnHash w \<notin> set (seen m)"
    and "fst (addWarning now (slashTracker m) w)"
  shows "map_of (peers (onSlashWarning E now s (Json w) m)) (Target w) = None
    \<and> (\<forall>d. overlayDir (onSlashWarning E now s (Json w) m) = Some d \<longrightarrow>
         (\<exists>d0. overlayDir m = Some d0 \<and> set (ge_rows E d) = {r \<in> set (ge_rows E d0). fst r \<noteq> Target w}))"
proof -
  obtain trk where a: "addWarning now (slashTracker m) w = (True, trk)"
    using assms(6) by (cases "addWarning now (slashTracker m) w") auto
  show ?thesis
    using onSlashWarning_counted [OF assms(2-5) a, of E]
      enforce_removes [OF assms(1), of "Target w" now "(addSeen (warnHash w) m)\<lparr>slashTracker := trk\<rparr>"]
    by (simp add: Let_def addSeen_def)
qed

lemma warnHash_reporter: "warnHash (w\<lparr>Reporter := r\<rparr>) = warnHash w \<longleftrightarrow> r = Reporter w"
  by (simp add: warnHash_def)

section \<open>A concrete manager\<close>

type_synonym demo_env_t = "(envelope json mem_db, dir_value mem_db directory, char, char, char \<times> bytes) gossip_env"

definition demo_genv :: demo_env_t where
  "demo_genv = \<lparr>ge_ops = mem_ops, ge_crypto = demo_crypto, ge_rows = ForEachSHIP mem_ops,
     ge_add = AddSHIPPeerFromGossip mem_ops, ge_remove = RemoveSHIPPeerByIdentity mem_ops,
     ge_address = Inr, ge_get = demo_woc, evictSeen = drop\<rparr>"

definition demo_cfg :: "(envelope json mem_db, dir_value mem_db directory) manager_config" where
  "demo_cfg = \<lparr>cfg_self = ''02self'', cfg_store = Some (NewEnvelopeStore [] 3600 65536), cfg_localInterests = [],
     cfg_maxSeen = 100, cfg_hasHook = True, cfg_overlayDir = Some (NewDirectory []), cfg_bondChecker = None,
     cfg_catchUpTopics = [], cfg_localPubkeys = [], cfg_connLog = None\<rparr>"

definition demo_mesh :: "(envelope json mem_db, dir_value mem_db directory) manager" where
  "demo_mesh = (NewManager demo_cfg)\<lparr>
     peers := [(''q'', \<lparr>hasPeer = True, IdentityPK = Some ''q'', Endpoint = [], Direction = ''outbound'', BondSats = 0,
                 PeerVersion = [], ConnectedAt = None, origKey = ''q''\<rparr>)],
     interests := [''q'' \<mapsto> [[]]]\<rparr>"

lemma demo_genv_simps [simp]: "ge_ops demo_genv = mem_ops" "ge_crypto demo_genv = demo_crypto"
  "ge_rows demo_genv = ForEachSHIP mem_ops" "ge_remove demo_genv = RemoveSHIPPeerByIdentity mem_ops"
  "evictSeen demo_genv = drop" "ge_address demo_genv = Inr" "ge_get demo_genv = demo_woc"
  by (simp_all add: demo_genv_def)

section \<open>Properties\<close>

text \<open>
  C26: the mesh forwards only what it should, to whom it should. Handling a data message writes data
  messages only if the envelope is fresh, properly signed and not marked \<^verbatim>\<open>no_gossip\<close>; it writes the
  received document itself, and only to connected peers other than the sender whose declared
  interests include a prefix of the topic.
\<close>

theorem onData_forwards_only:
  "\<exists>ks. data_out (onData E now sender raw m) = data_out m @ map (\<lambda>k. (k, raw)) ks
    \<and> (ks \<noteq> [] \<longrightarrow> (\<exists>env. raw = Json env \<and> Validate (ge_crypto E) env = Inr () \<and> \<not> NoGossip env
         \<and> envHash E env \<notin> set (seen m)
         \<and> (\<forall>k \<in> set ks. k \<noteq> sender \<and> k \<in> fst ` set (peers m) \<and> interested m k (Topic env))))"
proof (cases rule: onData_cases [of m E now sender raw])
  case quiet
  then show ?thesis by (intro exI [of _ "[]"]) (simp add: same_core_def)
next
  case (accept env m1)
  let ?m2 = "markSeen E (idHash E env) (envHash E env) m1"
  let ?ks = "map fst (filter (\<lambda>(k, p). k \<noteq> sender \<and> interested ?m2 k (Topic env) \<and> hasPeer p) (peers ?m2))"
  have d: "data_out ?m2 = data_out m" using accept(3) by (simp add: same_core_def)
  have i: "interested ?m2 k t = interested m k t" for k t using accept(5) by (simp add: interested_def)
  have ks: "\<forall>k \<in> set ?ks. k \<noteq> sender \<and> k \<in> fst ` set (peers m) \<and> interested m k (Topic env)"
    using accept(4) i by force
  from acceptData_out [of E now sender raw env ?m2] show ?thesis
  proof
    assume "data_out (acceptData E now sender raw env ?m2) = data_out ?m2"
    with d have "data_out (onData E now sender raw m) = data_out m" by (simp only: accept(7))
    then show ?thesis by (intro exI [of _ "[]"]) simp
  next
    assume a: "Validate (ge_crypto E) env = Inr () \<and> \<not> NoGossip env
      \<and> data_out (acceptData E now sender raw env ?m2) = data_out ?m2 @ map (\<lambda>k. (k, raw)) ?ks"
    show ?thesis
    proof (intro exI [of _ ?ks] conjI impI)
      show "data_out (onData E now sender raw m) = data_out m @ map (\<lambda>k. (k, raw)) ?ks"
        using a d by (simp only: accept(7))
    qed (use a ks accept(1,2) in blast)
  qed
qed

theorem onData_forwards_only_witness:
  "data_out (onData demo_genv 0 ''p'' (Json demo_signed) demo_mesh) = [(''q'', Json demo_signed)]
   \<and> Validate demo_crypto demo_signed = Inr () \<and> \<not> NoGossip demo_signed"
proof -
  have ng: "\<not> NoGossip demo_signed" by (simp add: demo_signed_def Sign_def demo_env_def)
  have out: "data_out (onData demo_genv 0 ''p'' (Json demo_signed) demo_mesh) = [(''q'', Json demo_signed)]"
    using demo_signed_valid
    by (simp add: onData_def allowPeerMessage_def demo_mesh_def NewManager_def Let_def acceptData_def
        demo_cfg_def data_out_def forwardToInterested_def interested_def markSeen_def addSeen_def ng)
  moreover have "data_out demo_mesh = []" by (simp add: data_out_def demo_mesh_def NewManager_def)
  ultimately show ?thesis
    using onData_forwards_only [of demo_genv 0 "''p''" "Json demo_signed" demo_mesh] by auto
qed
text \<open>
  C25: the mesh delivers an envelope once. Starting from a new manager, however often and from however
  many peers an envelope arrives, the hook never sees two envelopes with the same dedup hash, as
  long as fewer than half of \<^verbatim>\<open>maxSeen\<close> data messages have arrived (so that nothing was evicted).
\<close>

theorem mesh_delivers_once:
  assumes "2 * int (length ms) < maxSeen (NewManager cfg)"
  shows "distinct (map (envHash E) (delivered (run_data E ms (NewManager cfg))))"
proof -
  have "delivered_once E (NewManager cfg)" by (simp add: delivered_once_def NewManager_def)
  moreover have "seen (NewManager cfg) = []" by (simp add: NewManager_def)
  ultimately have "delivered_once E (run_data E ms (NewManager cfg))" using assms by (intro run_data_once) simp_all
  then show ?thesis by (simp add: delivered_once_def)
qed

theorem mesh_delivers_once_witness:
  "distinct (map (envHash demo_genv) (delivered (run_data demo_genv
     [(0, ''p'', Json demo_signed), (1, ''q'', Json demo_signed)] (NewManager demo_cfg))))"
  by (rule mesh_delivers_once) (simp add: NewManager_def demo_cfg_def)

text \<open>
  the dedup map stays bounded by data traffic. If \<^verbatim>\<open>maxSeen\<close> is at least 4 and the map holds at most
  \<^verbatim>\<open>maxSeen\<close> entries, it still does after any data message, whichever entries the runtime picks for
  eviction.
\<close>

theorem onData_seen_bounded:
  assumes ev: "\<And>n xs. length (evictSeen E n xs) = length xs - n" and big: "4 \<le> maxSeen m"
    and le: "int (length (seen m)) \<le> maxSeen m"
  shows "int (length (seen (onData E now sender raw m))) \<le> maxSeen m"
proof (cases rule: onData_cases [of m E now sender raw])
  case quiet
  with le show ?thesis by (simp add: same_core_def)
next
  case (accept env m1)
  let ?i = "idHash E env" and ?h = "envHash E env"
  have m1: "seen m1 = seen m" "maxSeen m1 = maxSeen m" using accept(3) by (simp_all add: same_core_def)
  define s where "s = seen (addSeen ?i m1)"
  have s: "length s \<le> length (seen m) + 1" using m1 by (simp add: s_def addSeen_def)
  define s2 where "s2 = (if int (length s) \<ge> maxSeen m then evictSeen E (max 1 (nat (maxSeen m div 2))) s else s)"
  have "2 \<le> nat (maxSeen m div 2)" using big by simp
  then have "int (length s2) \<le> maxSeen m - 1" using s le by (auto simp: s2_def ev)
  moreover have "length (seen (markSeen E ?i ?h m1)) \<le> length s2 + 1"
    using m1 by (simp add: markSeen_def Let_def s_def s2_def addSeen_def)
  ultimately show ?thesis by (simp add: accept(7) acceptData_fields)
qed

theorem onData_seen_bounded_witness:
  "int (length (seen (onData demo_genv 0 ''p'' (Json demo_signed) (NewManager demo_cfg)))) \<le> 100"
  using onData_seen_bounded [of demo_genv "NewManager demo_cfg" 0 "''p''" "Json demo_signed"]
  by (simp add: NewManager_def demo_cfg_def)

text \<open>
  C4: nothing unauthenticated enters the store over the mesh. Whatever messages of whatever kinds
  arrive from whatever peers, every envelope in the store behind the mesh passes \<^verbatim>\<open>Validate\<close> and is
  filed under its key within the limits.
\<close>

theorem mesh_store_authentic:
  assumes env: "envelope_env (ge_ops E) contents (ge_crypto E)" and "mesh_store_ok E contents m"
  shows "mesh_store_ok E contents (fold (\<lambda>(now, sender, msg). handleMessage E now sender msg) ms m)"
  using assms(2)
proof (induction ms arbitrary: m)
  case (Cons x ms)
  then show ?case using handleMessage_store [OF env] by (cases x) simp
qed simp

theorem mesh_store_authentic_witness:
  "mesh_store_ok demo_genv map_of (fold (\<lambda>(now, sender, msg). handleMessage demo_genv now sender msg)
     [(0, ''p'', MsgData (Json demo_signed)), (1, ''p'', MsgTopics (Json [''t''])),
      (2, ''q'', MsgData (Json (demo_signed\<lparr>Payload := ''forged''\<rparr>)))] (NewManager demo_cfg))"
proof (rule mesh_store_authentic)
  show "envelope_env (ge_ops demo_genv) map_of (ge_crypto demo_genv)"
    using demos.envelope_env_axioms by simp
  show "mesh_store_ok demo_genv map_of (NewManager demo_cfg)"
    by (simp add: mesh_store_ok_def NewManager_def demo_cfg_def store_ok_def durable_ok_def ephemeral_ok_def NewEnvelopeStore_def)
qed

text \<open>
  one sender can deregister a peer. The reporter of a slash warning is a field of the message and
  is not checked against the sender: two warnings that one and the same peer sends, with two made-up
  reporters, remove the target from the peers and from the overlay directory of every node that
  has no earlier record about it.
\<close>

theorem forged_reporters_deregister:
  assumes dir: "\<And>d i. set (ge_rows E (ge_remove E d i)) = {r \<in> set (ge_rows E d). fst r \<noteq> i}"
    and w: "Target w \<noteq> []" "Reporter w \<noteq> []" "r \<noteq> []" "r \<noteq> Reporter w" "Reason w = SlashDoublePublish"
    and s: "Target w \<noteq> sender" and fresh: "map_of (slashTracker m) (Target w) = None"
      "warnHash w \<notin> set (seen m)" "warnHash (w\<lparr>Reporter := r\<rparr>) \<notin> set (seen m)"
    and t: "t1 \<le> t2" "t2 - t1 \<le> slashGracePeriod"
  shows "let m' = onSlashWarning E t2 sender (Json (w\<lparr>Reporter := r\<rparr>)) (onSlashWarning E t1 sender (Json w) m)
    in map_of (peers m') (Target w) = None
       \<and> (\<forall>d. overlayDir m' = Some d \<longrightarrow> (\<forall>row \<in> set (ge_rows E d). fst row \<noteq> Target w))"
proof -
  let ?w2 = "w\<lparr>Reporter := r\<rparr>" and ?m1 = "onSlashWarning E t1 sender (Json w) m"
  have a1: "addWarning t1 (slashTracker m) w
      = (False, AList.update (Target w) \<lparr>Warnings = [w], FirstWarn = t1\<rparr> (slashTracker m))"
    using fresh(1) w(5) by (simp add: addWarning_def Let_def countByReason_def slashGracePeriod_def)
  note m1 = onSlashWarning_counted [OF w(1,2) s fresh(2) a1, of E]
  have trk: "map_of (slashTracker ?m1) (Target w) = Some \<lparr>Warnings = [w], FirstWarn = t1\<rparr>"
    by (simp add: m1 Let_def update_conv')
  have seen1: "warnHash ?w2 \<notin> set (seen ?m1)"
    using fresh(3) warnHash_reporter [where w = w and r = r] w(4) by (simp add: m1 Let_def)
  have a2: "fst (addWarning t2 (slashTracker ?m1) ?w2)"
    using trk t w(4,5) by (simp add: addWarning_def Let_def countByReason_def)
  have "map_of (peers (onSlashWarning E t2 sender (Json ?w2) ?m1)) (Target ?w2) = None
    \<and> (\<forall>d. overlayDir (onSlashWarning E t2 sender (Json ?w2) ?m1) = Some d \<longrightarrow>
         (\<exists>d0. overlayDir ?m1 = Some d0 \<and> set (ge_rows E d) = {row \<in> set (ge_rows E d0). fst row \<noteq> Target ?w2}))"
    using w s seen1 a2 by (intro onSlashWarning_enforces [OF dir]) simp_all
  then show ?thesis by (auto simp: Let_def)
qed

theorem forged_reporters_deregister_witness:
  "let w = demo_warn ''r1'';
       m' = onSlashWarning demo_genv 5 ''02mallory'' (Json (w\<lparr>Reporter := ''r2''\<rparr>))
              (onSlashWarning demo_genv 4 ''02mallory'' (Json w) (NewManager demo_cfg))
   in map_of (peers m') ''02bad'' = None"
proof -
  have dir: "set (ge_rows demo_genv (ge_remove demo_genv d i)) = {r \<in> set (ge_rows demo_genv d). fst r \<noteq> i}" for d i
    using demod.od.remove_exact by simp
  show ?thesis
    using forged_reporters_deregister [OF dir, of "demo_warn ''r1''" "''r2''" "''02mallory''" "NewManager demo_cfg" 4 5]
    by (simp add: demo_warn_def SlashDoublePublish_def NewManager_def demo_cfg_def slashGracePeriod_def Let_def)
qed

text \<open>
  an invalid copy suppresses the genuine envelope. The dedup hash does not cover the signature and
  is recorded before the signature is checked: after any peer has sent a copy of an envelope with a
  bad signature, the genuine envelope, arriving later from any peer, is neither delivered nor
  stored nor forwarded by a node that had seen nothing before.
\<close>

theorem forged_copy_suppresses_genuine:
  assumes bad: "Validate (ge_crypto E) (env\<lparr>Signature := sig\<rparr>) = Inl err"
    and empty: "seen m = []" "peerRates m = []"
  shows "same_core (onData E t1 mallory (Json (env\<lparr>Signature := sig\<rparr>)) m)
      (onData E t2 bob (Json env) (onData E t1 mallory (Json (env\<lparr>Signature := sig\<rparr>)) m))
    \<and> delivered (onData E t2 bob (Json env) (onData E t1 mallory (Json (env\<lparr>Signature := sig\<rparr>)) m)) = delivered m
    \<and> g_store (onData E t2 bob (Json env) (onData E t1 mallory (Json (env\<lparr>Signature := sig\<rparr>)) m)) = g_store m"
proof -
  let ?forged = "env\<lparr>Signature := sig\<rparr>"
  let ?m1 = "onData E t1 mallory (Json ?forged) m"
  have h: "envHash E ?forged = envHash E env" by (simp add: envHash_def)
  have "?m1 = acceptData E t1 mallory (Json ?forged) ?forged (markSeen E (idHash E ?forged) (envHash E ?forged)
      (m\<lparr>peerRates := snd (snd (allowPeerMessage t1 (ratePerSec m) (rateBurst m) [] mallory))\<rparr>))"
    by (simp add: onData_def empty allowPeerMessage_def envHash_def idHash_def Let_def)
  then have m1: "?m1 = markSeen E (idHash E ?forged) (envHash E env)
      (m\<lparr>peerRates := snd (snd (allowPeerMessage t1 (ratePerSec m) (rateBurst m) [] mallory))\<rparr>)"
    by (simp add: acceptData_def bad h)
  have seen: "envHash E env \<in> set (seen ?m1)" unfolding m1 by (rule markSeen_fields)
  have core: "same_core ?m1 (onData E t2 bob (Json env) ?m1)"
    using seen by (cases rule: onData_cases [of ?m1 E t2 bob "Json env"]) auto
  moreover have "delivered ?m1 = delivered m" "g_store ?m1 = g_store m" unfolding m1 by simp_all
  ultimately show ?thesis by (simp add: same_core_def)
qed

theorem forged_copy_suppresses_genuine_witness:
  "Validate demo_crypto demo_signed = Inr ()
   \<and> delivered (onData demo_genv 2 ''bob'' (Json demo_signed)
        (onData demo_genv 1 ''mallory'' (Json (demo_signed\<lparr>Signature := ''zz''\<rparr>)) (NewManager demo_cfg))) = []"
proof -
  have "Validate demo_crypto (demo_signed\<lparr>Signature := ''zz''\<rparr>) = Inl InvalidSignatureHex"
    using demo_signed_valid(1) by (auto simp: Validate_def unhex_def split: if_splits sum.splits option.splits)
  then show ?thesis
    using forged_copy_suppresses_genuine [where E = demo_genv and env = demo_signed and sig = "''zz''"
        and m = "NewManager demo_cfg"]
      demo_signed_valid(1)
    by (simp add: NewManager_def)
qed



end
