(* ===== verification/Txrelay.thy ===== *)
theory Txrelay
  imports Anvil_Prelude
begin

text \<open>
  \<^verbatim>\<open>internal/txrelay\<close>: the ARC client (\<^verbatim>\<open>arc.go\<close>), the in-memory transaction pool (\<^verbatim>\<open>mempool.go\<close>) and the
  broadcaster over both (\<^verbatim>\<open>broadcast.go\<close>).

  Parsing of transactions by go-sdk is the record \<open>tx_codec\<close> of parameters; what the code relies on is
  the locale \<open>go_sdk\<close>: the bytes of a parsed transaction parse to a transaction with the same id. An
  ARC service is the function that answers a request.
\<close>

section \<open>Transactions\<close>

record sdk_input =
  in_txid :: string
  in_vout :: uint32

record sdk_output =
  out_sats :: "64 word"
  out_script :: bytes

record sdk_tx =
  tx_id :: string
  tx_ins :: "sdk_input list"
  tx_outs :: "sdk_output list"
  tx_bytes :: bytes

record tx_codec =
  parse_tx :: "bytes \<Rightarrow> string + sdk_tx"
  parse_beef :: "bytes \<Rightarrow> string + sdk_tx"

locale go_sdk =
  fixes lib :: tx_codec
  assumes bytes_parse: "parse_tx lib b = Inr tx \<or> parse_beef lib b = Inr tx
      \<Longrightarrow> \<exists>tx'. parse_tx lib (tx_bytes tx) = Inr tx' \<and> tx_id tx' = tx_id tx"

section \<open>The ARC client\<close>

record ARCResponse =
  arc_TxID :: string
  arc_Status :: string
  arc_BlockHash :: string
  arc_BlockHeight :: uint32
  arc_MerklePath :: string

record ARCClient =
  baseURL :: string
  apiKey :: string

record arc_request =
  rq_method :: string
  rq_url :: string
  rq_auth :: string
  rq_body :: bytes

datatype arc_reply = RequestFailed string | ReadFailed string | ArcReply nat "ARCResponse json"

datatype arc_err = ErrARCRequest string | ErrARCRead string | ErrARCStatus nat | ErrARCParse

type_synonym arc_service = "arc_request \<Rightarrow> arc_reply"

definition NewARCClient :: "string \<Rightarrow> string \<Rightarrow> ARCClient" where
  "NewARCClient url key = \<lparr>baseURL = url, apiKey = key\<rparr>"

definition arc_answer :: "nat list \<Rightarrow> arc_reply \<Rightarrow> arc_err + ARCResponse" where
  "arc_answer ok reply =
     (case reply of
        RequestFailed e \<Rightarrow> Inl (ErrARCRequest e)
      | ReadFailed e \<Rightarrow> Inl (ErrARCRead e)
      | ArcReply status body \<Rightarrow>
         (if status \<notin> set ok then Inl (ErrARCStatus status)
          else case unjson body of None \<Rightarrow> Inl ErrARCParse | Some resp \<Rightarrow> Inr resp))"

definition Submit :: "arc_service \<Rightarrow> ARCClient \<Rightarrow> bytes \<Rightarrow> arc_err + ARCResponse" where
  "Submit arc c raw =
     arc_answer [200, 201] (arc \<lparr>rq_method = ''POST'', rq_url = baseURL c @ ''/v1/tx'',
       rq_auth = (if apiKey c \<noteq> [] then ''Bearer '' @ apiKey c else []), rq_body = raw\<rparr>)"

definition QueryStatus :: "arc_service \<Rightarrow> ARCClient \<Rightarrow> string \<Rightarrow> arc_err + ARCResponse" where
  "QueryStatus arc c txid =
     arc_answer [200] (arc \<lparr>rq_method = ''GET'', rq_url = baseURL c @ ''/v1/tx/'' @ txid,
       rq_auth = (if apiKey c \<noteq> [] then ''Bearer '' @ apiKey c else []), rq_body = []\<rparr>)"

section \<open>The transaction pool\<close>

type_synonym Mempool = "string \<rightharpoonup> bytes"

definition NewMempool :: Mempool where
  "NewMempool = Map.empty"

definition AddTx :: "Mempool \<Rightarrow> string \<Rightarrow> bytes \<Rightarrow> bool \<times> Mempool" where
  \<comment> \<open>the flag is the error: the transaction is already there\<close>
  "AddTx m txid raw = (if m txid \<noteq> None then (True, m) else (False, m(txid \<mapsto> raw)))"

definition GetTx :: "Mempool \<Rightarrow> string \<Rightarrow> bytes option" where
  "GetTx m txid = m txid"

definition HasTx :: "Mempool \<Rightarrow> string \<Rightarrow> bool" where
  "HasTx m txid = (m txid \<noteq> None)"

definition RemoveTx :: "Mempool \<Rightarrow> string \<Rightarrow> Mempool" where
  "RemoveTx m txid = m(txid := None)"

definition CountTx :: "Mempool \<Rightarrow> nat" where
  "CountTx m = card (dom m)"

section \<open>The broadcaster\<close>

record Broadcaster =
  mempool :: Mempool
  arcClient :: "ARCClient option"

record BroadcastResult =
  br_TxID :: string
  br_Accepted :: bool
  br_ARC :: bool
  br_Status :: string

datatype broadcast_err = ErrParseBEEF string | ErrParseRaw string | ErrNoARC

definition NewBroadcaster :: "Mempool \<Rightarrow> ARCClient option \<Rightarrow> Broadcaster" where
  "NewBroadcaster m arc = \<lparr>mempool = m, arcClient = arc\<rparr>"

definition BroadcastBEEF :: "tx_codec \<Rightarrow> Broadcaster \<Rightarrow> bytes \<Rightarrow> (broadcast_err + BroadcastResult) \<times> Broadcaster" where
  "BroadcastBEEF lib b beef =
     (case parse_beef lib beef of
        Inl e \<Rightarrow> (Inl (ErrParseBEEF e), b)
      | Inr tx \<Rightarrow> (Inr \<lparr>br_TxID = tx_id tx, br_Accepted = True, br_ARC = False, br_Status = []\<rparr>,
                   b\<lparr>mempool := snd (AddTx (mempool b) (tx_id tx) (tx_bytes tx))\<rparr>))"

definition BroadcastRaw :: "tx_codec \<Rightarrow> Broadcaster \<Rightarrow> bytes \<Rightarrow> (broadcast_err + BroadcastResult) \<times> Broadcaster" where
  "BroadcastRaw lib b raw =
     (case parse_tx lib raw of
        Inl e \<Rightarrow> (Inl (ErrParseRaw e), b)
      | Inr tx \<Rightarrow> (Inr \<lparr>br_TxID = tx_id tx, br_Accepted = True, br_ARC = False, br_Status = []\<rparr>,
                   b\<lparr>mempool := snd (AddTx (mempool b) (tx_id tx) raw)\<rparr>))"

definition BroadcastToARC :: "tx_codec \<Rightarrow> arc_service \<Rightarrow> Broadcaster \<Rightarrow> bytes \<Rightarrow> broadcast_err + BroadcastResult" where
  "BroadcastToARC lib arc b raw =
     (case arcClient b of
        None \<Rightarrow> Inl ErrNoARC
      | Some c \<Rightarrow>
         (case parse_tx lib raw of
            Inl e \<Rightarrow> Inl (ErrParseRaw e)
          | Inr tx \<Rightarrow>
             (case Submit arc c raw of
                Inl _ \<Rightarrow> Inr \<lparr>br_TxID = tx_id tx, br_Accepted = False, br_ARC = True, br_Status = ''error''\<rparr>
              | Inr resp \<Rightarrow>
                 Inr \<lparr>br_TxID = tx_id tx,
                      br_Accepted = (arc_Status resp = ''SEEN_ON_NETWORK'' \<or> arc_Status resp = ''MINED''),
                      br_ARC = True, br_Status = arc_Status resp\<rparr>)))"

section \<open>The pool holds what its keys name\<close>

definition mempool_ok :: "tx_codec \<Rightarrow> Mempool \<Rightarrow> bool" where
  "mempool_ok lib m \<longleftrightarrow> (\<forall>txid raw. m txid = Some raw \<longrightarrow> (\<exists>tx. parse_tx lib raw = Inr tx \<and> tx_id tx = txid))"

datatype pool_op = OpBEEF bytes | OpRaw bytes | OpRemove string

fun pool_step :: "tx_codec \<Rightarrow> pool_op \<Rightarrow> Broadcaster \<Rightarrow> Broadcaster" where
  "pool_step lib (OpBEEF b) s = snd (BroadcastBEEF lib s b)"
| "pool_step lib (OpRaw b) s = snd (BroadcastRaw lib s b)"
| "pool_step lib (OpRemove t) s = s\<lparr>mempool := RemoveTx (mempool s) t\<rparr>"

lemma mempool_ok_add:
  assumes "mempool_ok lib m" "parse_tx lib raw = Inr tx" "tx_id tx = t"
  shows "mempool_ok lib (snd (AddTx m t raw))"
  using assms by (auto simp: mempool_ok_def AddTx_def)

context go_sdk
begin

lemma pool_step_ok:
  assumes "mempool_ok lib (mempool s)"
  shows "mempool_ok lib (mempool (pool_step lib opn s))"
proof (cases opn)
  case (OpBEEF b)
  show ?thesis
  proof (cases "parse_beef lib b")
    case (Inr tx)
    then obtain tx' where "parse_tx lib (tx_bytes tx) = Inr tx'" "tx_id tx' = tx_id tx" using bytes_parse by blast
    then show ?thesis using assms OpBEEF Inr by (simp add: BroadcastBEEF_def mempool_ok_add)
  qed (use assms OpBEEF in \<open>simp add: BroadcastBEEF_def\<close>)
next
  case (OpRaw b)
  then show ?thesis using assms by (cases "parse_tx lib b") (auto simp: BroadcastRaw_def mempool_ok_add)
next
  case (OpRemove t)
  then show ?thesis using assms by (auto simp: mempool_ok_def RemoveTx_def)
qed

lemma pool_run_ok: "mempool_ok lib (mempool s) \<Longrightarrow> mempool_ok lib (mempool (fold (pool_step lib) ops s))"
  by (induction ops arbitrary: s) (simp_all add: pool_step_ok)

end

text \<open>
  A concrete codec for evaluation: a transaction is its bytes, its id their hexadecimal form; a BEEF
  is a transaction behind one byte. \<open>demo_pay\<close> reads one output of one satoshi value and a script.
\<close>

definition demo_tx :: "bytes \<Rightarrow> sdk_tx" where
  "demo_tx b = \<lparr>tx_id = hex_encode b, tx_ins = [\<lparr>in_txid = ''0'', in_vout = 0\<rparr>],
     tx_outs = (case b of [] \<Rightarrow> [] | c # s \<Rightarrow> [\<lparr>out_sats = of_char c, out_script = s\<rparr>]), tx_bytes = b\<rparr>"

definition demo_codec :: tx_codec where
  "demo_codec = \<lparr>parse_tx = (\<lambda>b. if b = [] then Inl ''empty'' else Inr (demo_tx b)),
     parse_beef = (\<lambda>b. if length b < 2 then Inl ''short'' else Inr (demo_tx (tl b)))\<rparr>"

interpretation demosdk: go_sdk demo_codec
proof
  fix b tx
  assume "parse_tx demo_codec b = Inr tx \<or> parse_beef demo_codec b = Inr tx"
  then have "\<exists>c. c \<noteq> [] \<and> tx = demo_tx c"
    by (cases b) (auto simp: demo_codec_def split: if_splits)
  then show "\<exists>tx'. parse_tx demo_codec (tx_bytes tx) = Inr tx' \<and> tx_id tx' = tx_id tx"
    by (auto simp: demo_codec_def demo_tx_def)
qed

section \<open>Properties\<close>

text \<open>
  the pool never files bytes under the wrong id. Whatever BEEF envelopes and raw transactions are
  broadcast and whatever is removed, in any order, every entry of a pool that started empty parses to
  the transaction its key names; and an entry that is present is never overwritten by a broadcast.
\<close>

theorem mempool_keyed_by_txid:
  assumes sdk: "go_sdk lib"
  shows "mempool_ok lib (mempool (fold (pool_step lib) ops (NewBroadcaster NewMempool arc)))
    \<and> (HasTx (mempool b) t \<longrightarrow> GetTx (mempool (snd (BroadcastRaw lib b raw))) t = GetTx (mempool b) t
         \<and> GetTx (mempool (snd (BroadcastBEEF lib b raw))) t = GetTx (mempool b) t)"
proof (intro conjI impI)
  have "mempool_ok lib (mempool (NewBroadcaster NewMempool arc))"
    by (simp add: NewBroadcaster_def NewMempool_def mempool_ok_def)
  then show "mempool_ok lib (mempool (fold (pool_step lib) ops (NewBroadcaster NewMempool arc)))"
    by (rule go_sdk.pool_run_ok [OF sdk])
qed (auto simp: HasTx_def GetTx_def BroadcastRaw_def BroadcastBEEF_def AddTx_def split: sum.splits)

theorem mempool_keyed_by_txid_witness:
  "mempool_ok demo_codec (mempool (fold (pool_step demo_codec) [OpRaw ''ab'', OpBEEF ''xcd'', OpRemove ''6162'']
     (NewBroadcaster NewMempool None)))
   \<and> GetTx (mempool (fold (pool_step demo_codec) [OpRaw ''ab'', OpBEEF ''xcd'', OpRemove ''6162'']
     (NewBroadcaster NewMempool None))) (hex_encode ''cd'') = Some ''cd''"
proof
  show "mempool_ok demo_codec (mempool (fold (pool_step demo_codec) [OpRaw ''ab'', OpBEEF ''xcd'', OpRemove ''6162'']
     (NewBroadcaster NewMempool None)))"
    using mempool_keyed_by_txid [OF demosdk.go_sdk_axioms] by blast
  show "GetTx (mempool (fold (pool_step demo_codec) [OpRaw ''ab'', OpBEEF ''xcd'', OpRemove ''6162'']
     (NewBroadcaster NewMempool None))) (hex_encode ''cd'') = Some ''cd''"
    by code_simp
qed

end
