(* ===== verification/Nonce.thy ===== *)
theory Nonce
  imports Http
begin

text \<open>
  The nonces of payment challenges: \<^verbatim>\<open>nonce_provider.go\<close> (outputs minted by the node wallet),
  \<^verbatim>\<open>nonce_pool.go\<close> (a pool that is filled in the background) and the development provider of
  \<^verbatim>\<open>payment.go\<close>, all in \<^verbatim>\<open>internal/api\<close>.

  The Go interface \<^verbatim>\<open>NonceProvider\<close> is the locale \<open>nonce_source\<close>: an operation that mints, and the law
  that it never mints the same nonce twice. The wallet provider satisfies it when the wallet never
  creates two transactions with the same id (locale \<open>nonce_wallet\<close>), the pool satisfies it whenever the
  provider behind it does.

  \<^verbatim>\<open>MintNonce\<close> and \<^verbatim>\<open>replenish\<close> of the pool run concurrently: their atomic parts (the sections under the
  mutex and the calls of the inner provider) are the steps of \<open>pool_run\<close>, interleaved in any order.
\<close>

record NonceUTXO =
  nu_TxID :: string
  nu_Vout :: int
  nu_Satoshis :: int
  nu_LockingScriptHex :: string

locale nonce_source =
  fixes mint :: "int \<Rightarrow> 's \<Rightarrow> (string + NonceUTXO) \<times> 's"
    and minted :: "'s \<Rightarrow> NonceUTXO set"
    and good :: "'s \<Rightarrow> bool"
  assumes mint_fresh: "good s \<Longrightarrow> mint now s = (Inr n, s') \<Longrightarrow> n \<notin> minted s \<and> insert n (minted s) \<subseteq> minted s' \<and> good s'"
    and mint_failed: "good s \<Longrightarrow> mint now s = (Inl e, s') \<Longrightarrow> minted s \<subseteq> minted s' \<and> good s'"

section \<open>The development provider\<close>

definition devScript :: string where "devScript = ''dev-mode-no-real-utxo''"

definition DevMintNonce :: "(bytes \<Rightarrow> bytes) \<Rightarrow> int \<Rightarrow> int \<Rightarrow> (string + NonceUTXO) \<times> int" where
  "DevMintNonce sha now counter =
     (let n = wrap64 (counter + 1);
          h = sha (''dev-nonce-'' @ itoa n @ ''-'' @ itoa now)
      in (Inr \<lparr>nu_TxID = hex_encode h, nu_Vout = 0, nu_Satoshis = 1, nu_LockingScriptHex = devScript\<rparr>, n))"

section \<open>The wallet provider\<close>

record created_action =
  ca_txid :: string
  ca_signable :: "string option"

record ('w, 'pk) nonce_wallet_ops =
  w_publicKey :: "string \<Rightarrow> string + 'pk"
  w_address :: "'pk \<Rightarrow> string + string"
  w_lock :: "string \<Rightarrow> string + bytes"
  w_createAction :: "'w \<Rightarrow> bytes \<Rightarrow> int \<Rightarrow> (string + created_action) \<times> 'w"
  w_signAction :: "'w \<Rightarrow> string \<Rightarrow> (string + string) \<times> 'w"

record 'w WalletNonceProvider =
  wn_wallet :: 'w
  nonceSeq :: int

definition NewWalletNonceProvider :: "'w \<Rightarrow> 'w WalletNonceProvider" where
  "NewWalletNonceProvider w = \<lparr>wn_wallet = w, nonceSeq = 0\<rparr>"

definition nonceCounter :: "int \<Rightarrow> int" where
  "nonceCounter seq = uint64 (seq + 1)"

definition WalletMintNonce :: "('w, 'pk) nonce_wallet_ops \<Rightarrow> int \<Rightarrow> 'w WalletNonceProvider
    \<Rightarrow> (string + NonceUTXO) \<times> 'w WalletNonceProvider" where
  "WalletMintNonce W now p0 =
     (let seq = nonceCounter (nonceSeq p0); p = p0\<lparr>nonceSeq := seq\<rparr> in
      case w_publicKey W (''nonce-'' @ itoa seq) of
        Inl e \<Rightarrow> (Inl e, p)
      | Inr pk \<Rightarrow>
         (case w_address W pk of
            Inl e \<Rightarrow> (Inl e, p)
          | Inr addr \<Rightarrow>
             (case w_lock W addr of
                Inl e \<Rightarrow> (Inl e, p)
              | Inr lockScript \<Rightarrow>
                 (case w_createAction W (wn_wallet p) lockScript 1 of
                    (Inl e, w1) \<Rightarrow> (Inl e, p\<lparr>wn_wallet := w1\<rparr>)
                  | (Inr res, w1) \<Rightarrow>
                     (case ca_signable res of
                        Some ref \<Rightarrow>
                          (case w_signAction W w1 ref of
                             (Inl e, w2) \<Rightarrow> (Inl e, p\<lparr>wn_wallet := w2\<rparr>)
                           | (Inr txid, w2) \<Rightarrow>
                               (Inr \<lparr>nu_TxID = txid, nu_Vout = 0, nu_Satoshis = 1,
                                     nu_LockingScriptHex = hex_encode lockScript\<rparr>, p\<lparr>wn_wallet := w2\<rparr>))
                      | None \<Rightarrow>
                          (Inr \<lparr>nu_TxID = ca_txid res, nu_Vout = 0, nu_Satoshis = 1,
                                nu_LockingScriptHex = hex_encode lockScript\<rparr>, p\<lparr>wn_wallet := w1\<rparr>))))))"

text \<open>
  What the provider relies on: the wallet never creates (or signs) two transactions with the same id.
\<close>

locale nonce_wallet =
  fixes W :: "('w, 'pk) nonce_wallet_ops" and created :: "'w \<Rightarrow> string set"
  assumes create_fresh: "w_createAction W w b v = (Inr res, w') \<Longrightarrow> ca_signable res = None
      \<Longrightarrow> ca_txid res \<notin> created w \<and> insert (ca_txid res) (created w) \<subseteq> created w'"
    and create_mono: "w_createAction W w b v = (r, w') \<Longrightarrow> created w \<subseteq> created w'"
    and sign_fresh: "w_signAction W w ref = (Inr txid, w') \<Longrightarrow> txid \<notin> created w \<and> insert txid (created w) \<subseteq> created w'"
    and sign_mono: "w_signAction W w ref = (q, w') \<Longrightarrow> created w \<subseteq> created w'"

definition wallet_minted :: "('w \<Rightarrow> string set) \<Rightarrow> 'w WalletNonceProvider \<Rightarrow> NonceUTXO set" where
  "wallet_minted created p = {n. nu_TxID n \<in> created (wn_wallet p)}"

sublocale nonce_wallet \<subseteq> nonce_source "WalletMintNonce W" "wallet_minted created" "\<lambda>p. True"
proof
  fix p now n p'
  assume m: "WalletMintNonce W now p = (Inr n, p')"
  then obtain lockScript res w1 where c: "w_createAction W (wn_wallet p) lockScript 1 = (Inr res, w1)"
    and r: "case ca_signable res of
        Some ref \<Rightarrow> w_signAction W w1 ref = (Inr (nu_TxID n), wn_wallet p')
      | None \<Rightarrow> nu_TxID n = ca_txid res \<and> wn_wallet p' = w1"
    by (auto simp: WalletMintNonce_def Let_def split: sum.splits prod.splits option.splits)
  have "nu_TxID n \<notin> created (wn_wallet p) \<and> insert (nu_TxID n) (created (wn_wallet p)) \<subseteq> created (wn_wallet p')"
  proof (cases "ca_signable res")
    case None
    with create_fresh [OF c] r show ?thesis by simp
  next
    case (Some ref)
    with create_mono [OF c] sign_fresh r show ?thesis by fastforce
  qed
  then show "n \<notin> wallet_minted created p \<and> insert n (wallet_minted created p) \<subseteq> wallet_minted created p' \<and> True"
    by (auto simp: wallet_minted_def)
next
  fix p now e p'
  assume m: "WalletMintNonce W now p = (Inl e, p')"
  have "created (wn_wallet p) \<subseteq> created (wn_wallet p')"
    using m create_mono sign_mono
    by (fastforce simp: WalletMintNonce_def Let_def split: sum.splits prod.splits option.splits)
  then show "wallet_minted created p \<subseteq> wallet_minted created p' \<and> True" by (auto simp: wallet_minted_def)
qed

section \<open>The pool\<close>

record 's UTXONoncePool =
  inner :: 's
  pool :: "NonceUTXO list"
  poolSize :: int
  minting :: bool

definition NewUTXONoncePool :: "'s \<Rightarrow> int \<Rightarrow> 's UTXONoncePool" where
  "NewUTXONoncePool p sz =
     \<lparr>inner = p, pool = [], poolSize = (if sz \<le> 0 then 100 else sz), minting = False\<rparr>"

definition PoolSize :: "'s UTXONoncePool \<Rightarrow> nat" where
  "PoolSize p = length (pool p)"

definition takeNonce :: "'s UTXONoncePool \<Rightarrow> (NonceUTXO \<times> bool) option \<times> 's UTXONoncePool" where
  \<comment> \<open>\<^verbatim>\<open>MintNonce\<close> under the mutex: the last nonce, and whether \<^verbatim>\<open>replenish\<close> is started\<close>
  "takeNonce p =
     (if pool p \<noteq> [] then
        (let rest = butlast (pool p)
         in (Some (last (pool p), int (length rest) < poolSize p div 4), p\<lparr>pool := rest\<rparr>))
      else (None, p))"

definition mintInner :: "(int \<Rightarrow> 's \<Rightarrow> (string + NonceUTXO) \<times> 's) \<Rightarrow> int \<Rightarrow> 's UTXONoncePool
    \<Rightarrow> (string + NonceUTXO) \<times> 's UTXONoncePool" where
  "mintInner mint now p = (case mint now (inner p) of (r, s) \<Rightarrow> (r, p\<lparr>inner := s\<rparr>))"

definition replenishBegin :: "'s UTXONoncePool \<Rightarrow> int option \<times> 's UTXONoncePool" where
  "replenishBegin p =
     (if minting p then (None, p)
      else (Some (poolSize p - int (length (pool p))), p\<lparr>minting := True\<rparr>))"

definition addNonce :: "NonceUTXO \<Rightarrow> 's UTXONoncePool \<Rightarrow> 's UTXONoncePool" where
  "addNonce n p = p\<lparr>pool := pool p @ [n]\<rparr>"

definition replenishEnd :: "'s UTXONoncePool \<Rightarrow> 's UTXONoncePool" where
  "replenishEnd p = p\<lparr>minting := False\<rparr>"

fun replenishLoop :: "(int \<Rightarrow> 's \<Rightarrow> (string + NonceUTXO) \<times> 's) \<Rightarrow> int \<Rightarrow> nat \<Rightarrow> 's UTXONoncePool \<Rightarrow> 's UTXONoncePool" where
  "replenishLoop mint now 0 p = p"
| "replenishLoop mint now (Suc k) p =
     (case mintInner mint now p of
        (Inl e, p') \<Rightarrow> p'
      | (Inr n, p') \<Rightarrow> replenishLoop mint now k (addNonce n p'))"

definition replenish :: "(int \<Rightarrow> 's \<Rightarrow> (string + NonceUTXO) \<times> 's) \<Rightarrow> int \<Rightarrow> 's UTXONoncePool \<Rightarrow> 's UTXONoncePool" where
  \<comment> \<open>without interruption\<close>
  "replenish mint now p =
     (case replenishBegin p of
        (None, p') \<Rightarrow> p'
      | (Some needed, p') \<Rightarrow> replenishEnd (replenishLoop mint now (nat needed) p'))"

definition PoolMintNonce :: "(int \<Rightarrow> 's \<Rightarrow> (string + NonceUTXO) \<times> 's) \<Rightarrow> int \<Rightarrow> 's UTXONoncePool
    \<Rightarrow> (string + NonceUTXO) \<times> 's UTXONoncePool" where
  \<comment> \<open>without interruption, a background \<^verbatim>\<open>replenish\<close> run to its end\<close>
  "PoolMintNonce mint now p =
     (case takeNonce p of
        (Some (n, low), p') \<Rightarrow> (Inr n, if low then replenish mint now p' else p')
      | (None, p') \<Rightarrow>
         (case mintInner mint now p' of
            (Inl e, p'') \<Rightarrow> (Inl e, p'')
          | (Inr n, p'') \<Rightarrow> (Inr n, replenish mint now p'')))"

subsection \<open>Interleavings\<close>

text \<open>
  The state of the concurrent system: the pool, the \<^verbatim>\<open>replenish\<close> that holds the \<^verbatim>\<open>minting\<close> flag (how many
  nonces it still wants and the one in its hand between minting and appending), and the nonces
  handed out so far. A request that found the pool empty mints at some later moment, so \<open>demand\<close> has no
  condition on the pool; likewise a \<^verbatim>\<open>replenish\<close> may start at any time.
\<close>

record 's pool_sys =
  pl :: "'s UTXONoncePool"
  worker :: "(int \<times> NonceUTXO option) option"
  issued :: "NonceUTXO list"

inductive pool_run :: "(int \<Rightarrow> 's \<Rightarrow> (string + NonceUTXO) \<times> 's) \<Rightarrow> 's \<Rightarrow> int \<Rightarrow> 's pool_sys \<Rightarrow> bool"
  for mint :: "int \<Rightarrow> 's \<Rightarrow> (string + NonceUTXO) \<times> 's" and s0 :: 's and sz :: int where
  init: "pool_run mint s0 sz \<lparr>pl = NewUTXONoncePool s0 sz, worker = None, issued = []\<rparr>"
| take_ready: "pool_run mint s0 sz y \<Longrightarrow> takeNonce (pl y) = (Some (n, low), p)
    \<Longrightarrow> pool_run mint s0 sz (y\<lparr>pl := p, issued := issued y @ [n]\<rparr>)"
| demand: "pool_run mint s0 sz y \<Longrightarrow> mintInner mint now (pl y) = (Inr n, p)
    \<Longrightarrow> pool_run mint s0 sz (y\<lparr>pl := p, issued := issued y @ [n]\<rparr>)"
| demand_failed: "pool_run mint s0 sz y \<Longrightarrow> mintInner mint now (pl y) = (Inl e, p)
    \<Longrightarrow> pool_run mint s0 sz (y\<lparr>pl := p\<rparr>)"
| repl_begin: "pool_run mint s0 sz y \<Longrightarrow> replenishBegin (pl y) = (Some needed, p)
    \<Longrightarrow> pool_run mint s0 sz (y\<lparr>pl := p, worker := Some (needed, None)\<rparr>)"
| repl_mint: "pool_run mint s0 sz y \<Longrightarrow> worker y = Some (k, None) \<Longrightarrow> 0 < k
    \<Longrightarrow> mintInner mint now (pl y) = (Inr n, p) \<Longrightarrow> pool_run mint s0 sz (y\<lparr>pl := p, worker := Some (k, Some n)\<rparr>)"
| repl_failed: "pool_run mint s0 sz y \<Longrightarrow> worker y = Some (k, None) \<Longrightarrow> 0 < k
    \<Longrightarrow> mintInner mint now (pl y) = (Inl e, p) \<Longrightarrow> pool_run mint s0 sz (y\<lparr>pl := p, worker := Some (0, None)\<rparr>)"
| repl_append: "pool_run mint s0 sz y \<Longrightarrow> worker y = Some (k, Some n)
    \<Longrightarrow> pool_run mint s0 sz (y\<lparr>pl := addNonce n (pl y), worker := Some (k - 1, None)\<rparr>)"
| repl_end: "pool_run mint s0 sz y \<Longrightarrow> worker y = Some (k, None) \<Longrightarrow> k \<le> 0
    \<Longrightarrow> pool_run mint s0 sz (y\<lparr>pl := replenishEnd (pl y), worker := None\<rparr>)"

definition in_hand :: "'s pool_sys \<Rightarrow> NonceUTXO list" where
  "in_hand y = (case worker y of Some (_, Some n) \<Rightarrow> [n] | _ \<Rightarrow> [])"

definition pool_inv :: "('s \<Rightarrow> NonceUTXO set) \<Rightarrow> ('s \<Rightarrow> bool) \<Rightarrow> 's pool_sys \<Rightarrow> bool" where
  "pool_inv minted good y \<longleftrightarrow> good (inner (pl y)) \<and>
     distinct (issued y @ pool (pl y) @ in_hand y)
     \<and> set (issued y @ pool (pl y) @ in_hand y) \<subseteq> minted (inner (pl y))
     \<and> minting (pl y) = (worker y \<noteq> None)
     \<and> (\<forall>k h. worker y = Some (k, h) \<longrightarrow> int (length (pool (pl y))) + max k 0 \<le> poolSize (pl y)
          \<and> (h \<noteq> None \<longrightarrow> 0 < k))
     \<and> int (length (pool (pl y))) \<le> poolSize (pl y)"


lemma takeNonce_cases:
  assumes "takeNonce p = (Some (n, low), p')"
  shows "pool p = pool p' @ [n] \<and> inner p' = inner p \<and> poolSize p' = poolSize p \<and> minting p' = minting p"
  using assms by (auto simp: takeNonce_def Let_def split: if_splits)

lemma mintInner_fields:
  assumes "mintInner mint now p = (r, p')"
  shows "pool p' = pool p \<and> poolSize p' = poolSize p \<and> minting p' = minting p \<and> mint now (inner p) = (r, inner p')"
  using assms by (auto simp: mintInner_def split: prod.splits)

context nonce_source
begin

lemma mintInner_Inr:
  assumes "good (inner p)" "mintInner mint now p = (Inr n, p')"
  shows "n \<notin> minted (inner p)" "pool p' = pool p" "insert n (minted (inner p)) \<subseteq> minted (inner p')" "good (inner p')"
  using mintInner_fields [OF assms(2)] mint_fresh [OF assms(1)] by metis+

lemma mintInner_Inl:
  assumes "good (inner p)" "mintInner mint now p = (Inl e, p')"
  shows "pool p' = pool p" "minted (inner p) \<subseteq> minted (inner p')" "good (inner p')"
  using mintInner_fields [OF assms(2)] mint_failed [OF assms(1)] by metis+

lemma pool_inv_take:
  assumes "pool_inv minted good y" "takeNonce (pl y) = (Some (n, low), p)"
  shows "pool_inv minted good (y\<lparr>pl := p, issued := issued y @ [n]\<rparr>)"
  using assms(1) takeNonce_cases [OF assms(2)]
  by (auto simp: pool_inv_def in_hand_def split: option.splits)

lemma pool_inv_mint:
  assumes good: "pool_inv minted good y" and m: "mintInner mint now (pl y) = (Inr n, p)"
  shows "pool_inv minted good (y\<lparr>pl := p, issued := issued y @ [n]\<rparr>)"
    and "worker y = Some (k, None) \<Longrightarrow> 0 < k \<Longrightarrow> pool_inv minted good (y\<lparr>pl := p, worker := Some (k, Some n)\<rparr>)"
proof -
  have f: "pool p = pool (pl y)" "poolSize p = poolSize (pl y)" "minting p = minting (pl y)"
    using mintInner_fields [OF m] by auto
  have "good (inner (pl y))" using good by (simp add: pool_inv_def)
  note fresh = mintInner_Inr [OF this m]
  with good have "n \<notin> set (issued y @ pool (pl y) @ in_hand y)" by (auto simp: pool_inv_def)
  with good fresh f show "pool_inv minted good (y\<lparr>pl := p, issued := issued y @ [n]\<rparr>)"
    by (auto simp: pool_inv_def in_hand_def split: option.splits)
  assume "worker y = Some (k, None)" "0 < k"
  with good fresh f \<open>n \<notin> set (issued y @ pool (pl y) @ in_hand y)\<close>
  show "pool_inv minted good (y\<lparr>pl := p, worker := Some (k, Some n)\<rparr>)"
    by (auto simp: pool_inv_def in_hand_def)
qed

lemma pool_inv_failed:
  assumes good: "pool_inv minted good y" and m: "mintInner mint now (pl y) = (Inl e, p)"
  shows "pool_inv minted good (y\<lparr>pl := p\<rparr>)"
    and "worker y = Some (k, None) \<Longrightarrow> 0 < k \<Longrightarrow> pool_inv minted good (y\<lparr>pl := p, worker := Some (0, None)\<rparr>)"
proof -
  have f: "pool p = pool (pl y)" "poolSize p = poolSize (pl y)" "minting p = minting (pl y)"
    using mintInner_fields [OF m] by auto
  have "good (inner (pl y))" using good by (simp add: pool_inv_def)
  note fresh = mintInner_Inl [OF this m]
  with good fresh f show "pool_inv minted good (y\<lparr>pl := p\<rparr>)" by (auto simp: pool_inv_def in_hand_def split: option.splits)
  assume "worker y = Some (k, None)" "0 < k"
  with good fresh f show "pool_inv minted good (y\<lparr>pl := p, worker := Some (0, None)\<rparr>)"
    by (auto simp: pool_inv_def in_hand_def)
qed

lemma pool_run_inv: "pool_run mint s0 sz y \<Longrightarrow> good s0 \<Longrightarrow> minted s0 = {} \<Longrightarrow> pool_inv minted good y"
proof (induction rule: pool_run.induct)
  case init
  then show ?case by (simp add: pool_inv_def NewUTXONoncePool_def in_hand_def)
next
  case (repl_begin y needed p)
  then show ?case
    by (auto simp: pool_inv_def in_hand_def replenishBegin_def split: if_splits option.splits)
next
  case (repl_append y k n)
  then show ?case by (auto simp: pool_inv_def in_hand_def addNonce_def)
next
  case (repl_end y k)
  then show ?case by (auto simp: pool_inv_def in_hand_def replenishEnd_def)
qed (simp_all add: pool_inv_take pool_inv_mint pool_inv_failed)

end


subsection \<open>The pool is a nonce source again\<close>

definition pool_ok :: "('s \<Rightarrow> NonceUTXO set) \<Rightarrow> ('s \<Rightarrow> bool) \<Rightarrow> 's UTXONoncePool \<Rightarrow> bool" where
  "pool_ok minted good p \<longleftrightarrow> good (inner p) \<and> distinct (pool p) \<and> set (pool p) \<subseteq> minted (inner p)"

definition handed_out :: "('s \<Rightarrow> NonceUTXO set) \<Rightarrow> 's UTXONoncePool \<Rightarrow> NonceUTXO set" where
  "handed_out minted p = minted (inner p) - set (pool p)"

context nonce_source
begin

lemma replenishLoop_ok:
  "pool_ok minted good p \<Longrightarrow> pool_ok minted good (replenishLoop mint now k p)
     \<and> handed_out minted p \<subseteq> handed_out minted (replenishLoop mint now k p)"
proof (induction k arbitrary: p)
  case (Suc k)
  obtain r p' where m: "mintInner mint now p = (r, p')" by fastforce
  have g: "good (inner p)" using Suc.prems by (simp add: pool_ok_def)
  show ?case
  proof (cases r)
    case (Inl e)
    with m have m': "mintInner mint now p = (Inl e, p')" by simp
    have "pool_ok minted good p'" "handed_out minted p \<subseteq> handed_out minted p'"
      using Suc.prems mintInner_Inl [OF g m'] by (auto simp: pool_ok_def handed_out_def)
    with Inl m show ?thesis by simp
  next
    case (Inr n)
    with m have m': "mintInner mint now p = (Inr n, p')" by simp
    have "pool_ok minted good (addNonce n p')" "handed_out minted p \<subseteq> handed_out minted (addNonce n p')"
      using Suc.prems mintInner_Inr [OF g m'] by (auto simp: pool_ok_def handed_out_def addNonce_def)
    with Suc.IH [of "addNonce n p'"] Inr m show ?thesis by auto
  qed
qed simp

lemma replenish_ok:
  assumes "pool_ok minted good p"
  shows "pool_ok minted good (replenish mint now p) \<and> handed_out minted p \<subseteq> handed_out minted (replenish mint now p)"
proof (cases "minting p")
  case False
  let ?k = "nat (poolSize p - int (length (pool p)))" and ?p = "p\<lparr>minting := True\<rparr>"
  have eq: "replenish mint now p = replenishEnd (replenishLoop mint now ?k ?p)"
    using False by (simp add: replenish_def replenishBegin_def)
  have "pool_ok minted good ?p" "handed_out minted ?p = handed_out minted p"
    using assms by (simp_all add: pool_ok_def handed_out_def)
  with replenishLoop_ok [of ?p now ?k] show ?thesis
    unfolding eq by (simp add: replenishEnd_def pool_ok_def handed_out_def)
qed (use assms in \<open>simp add: replenish_def replenishBegin_def\<close>)

end

locale nonce_pool = inner: nonce_source mint minted good
  for mint :: "int \<Rightarrow> 's \<Rightarrow> (string + NonceUTXO) \<times> 's" and minted :: "'s \<Rightarrow> NonceUTXO set" and good :: "'s \<Rightarrow> bool"

sublocale nonce_pool \<subseteq> pooled: nonce_source "PoolMintNonce mint" "handed_out minted" "pool_ok minted good"
proof
  fix p now n p'
  assume ok: "pool_ok minted good p" and m: "PoolMintNonce mint now p = (Inr n, p')"
  show "n \<notin> handed_out minted p \<and> insert n (handed_out minted p) \<subseteq> handed_out minted p' \<and> pool_ok minted good p'"
  proof (cases "pool p = []")
    case True
    then obtain p1 where m1: "mintInner mint now p = (Inr n, p1)" and p': "p' = replenish mint now p1"
      using m by (auto simp: PoolMintNonce_def takeNonce_def split: sum.splits prod.splits)
    have "good (inner p)" using ok by (simp add: pool_ok_def)
    from inner.mintInner_Inr [OF this m1] ok True have "n \<notin> handed_out minted p"
      "insert n (handed_out minted p) \<subseteq> handed_out minted p1" "pool_ok minted good p1"
      by (auto simp: pool_ok_def handed_out_def)
    with inner.replenish_ok [of p1 now] p' show ?thesis by auto
  next
    case False
    let ?p = "p\<lparr>pool := butlast (pool p)\<rparr>"
    have split: "pool p = butlast (pool p) @ [last (pool p)]" using False by simp
    have n: "n = last (pool p)" and p': "p' = ?p \<or> p' = replenish mint now ?p"
      using m False by (auto simp: PoolMintNonce_def takeNonce_def Let_def split: if_splits)
    have d: "distinct (butlast (pool p) @ [n])" and sub: "set (butlast (pool p) @ [n]) \<subseteq> minted (inner p)" and i: "good (inner p)"
      using ok split unfolding pool_ok_def n by simp_all
    have sp: "set (pool p) = insert n (set (butlast (pool p)))" using arg_cong [OF split, of set] n by auto
    then have "n \<notin> handed_out minted p" by (simp add: handed_out_def)
    moreover have "insert n (handed_out minted p) \<subseteq> handed_out minted ?p"
      using d sub sp by (auto simp: handed_out_def)
    moreover have "pool_ok minted good ?p" using d sub i by (auto simp: pool_ok_def)
    ultimately show ?thesis using inner.replenish_ok [of ?p now] p' by auto
  qed
next
  fix p now e p'
  assume ok: "pool_ok minted good p" and m: "PoolMintNonce mint now p = (Inl e, p')"
  then have "mintInner mint now p = (Inl e, p')" "pool p = []"
    by (auto simp: PoolMintNonce_def takeNonce_def Let_def split: if_splits sum.splits prod.splits)
  with inner.mintInner_Inl [of p now e p'] ok
  show "handed_out minted p \<subseteq> handed_out minted p' \<and> pool_ok minted good p'"
    by (auto simp: pool_ok_def handed_out_def)
qed

lemma replenishLoop_fills:
  assumes "\<And>s. \<exists>n s'. mint now s = (Inr n, s')"
  shows "length (pool (replenishLoop mint now k p)) = length (pool p) + k
    \<and> poolSize (replenishLoop mint now k p) = poolSize p"
proof (induction k arbitrary: p)
  case (Suc k)
  obtain n s' where "mint now (inner p) = (Inr n, s')" using assms by blast
  then have "mintInner mint now p = (Inr n, p\<lparr>inner := s'\<rparr>)" by (simp add: mintInner_def)
  with Suc.IH [of "addNonce n (p\<lparr>inner := s'\<rparr>)"] show ?case by (simp add: addNonce_def)
qed simp

lemma replenish_fills:
  assumes "\<And>s. \<exists>n s'. mint now s = (Inr n, s')" "\<not> minting p" "int (length (pool p)) \<le> poolSize p"
  shows "int (length (pool (replenish mint now p))) = poolSize p \<and> \<not> minting (replenish mint now p)"
  using assms(2,3) replenishLoop_fills [of mint now "nat (poolSize p - int (length (pool p)))" "p\<lparr>minting := True\<rparr>", OF assms(1)]
  by (auto simp: replenish_def replenishBegin_def replenishEnd_def)

section \<open>A concrete wallet\<close>

definition demo_wallet :: "(nat, nat) nonce_wallet_ops" where
  "demo_wallet = \<lparr>w_publicKey = (\<lambda>k. Inr 0), w_address = (\<lambda>pk. Inr ''addr''), w_lock = (\<lambda>a. Inr a),
     w_createAction = (\<lambda>w b v. (Inr \<lparr>ca_txid = itoa (int w), ca_signable = None\<rparr>, Suc w)),
     w_signAction = (\<lambda>w ref. (Inl ''nothing to sign'', w))\<rparr>"

definition demo_created :: "nat \<Rightarrow> string set" where
  "demo_created w = (\<lambda>k. itoa (int k)) ` {..<w}"

interpretation demow: nonce_wallet demo_wallet demo_created
  by unfold_locales (auto simp: demo_wallet_def demo_created_def itoa_inject lessThan_Suc)

interpretation demop: nonce_pool "WalletMintNonce demo_wallet" "wallet_minted demo_created" "\<lambda>p. True"
  by unfold_locales

section \<open>Properties\<close>

text \<open>
  C11: no nonce is handed out twice. However requests and the background \<^verbatim>\<open>replenish\<close> interleave, if the
  provider behind the pool never mints a nonce twice, the nonces handed out and those still in the
  pool are all different, each was minted by that provider, and the pool never exceeds its size.
\<close>

theorem nonce_pool_unique:
  assumes "nonce_source mint minted good" and "good s0" and "minted s0 = {}" and "pool_run mint s0 sz y"
  shows "distinct (issued y @ pool (pl y)) \<and> set (issued y @ pool (pl y)) \<subseteq> minted (inner (pl y))
    \<and> int (PoolSize (pl y)) \<le> poolSize (pl y)"
  using nonce_source.pool_run_inv [OF assms(1,4,2,3)] by (auto simp: pool_inv_def PoolSize_def)

lemma demo_mints:
  "mintInner (WalletMintNonce demo_wallet) now p =
     (Inr \<lparr>nu_TxID = itoa (int (wn_wallet (inner p))), nu_Vout = 0, nu_Satoshis = 1, nu_LockingScriptHex = hex_encode ''addr''\<rparr>,
      p\<lparr>inner := \<lparr>wn_wallet = Suc (wn_wallet (inner p)), nonceSeq = nonceCounter (nonceSeq (inner p))\<rparr>\<rparr>)"
  by (simp add: mintInner_def WalletMintNonce_def demo_wallet_def Let_def)

theorem nonce_pool_unique_witness:
  "\<exists>y. pool_run (WalletMintNonce demo_wallet) (NewWalletNonceProvider 0) 2 y
     \<and> length (issued y) = 2 \<and> distinct (issued y)"
proof -
  let ?R = "pool_run (WalletMintNonce demo_wallet) (NewWalletNonceProvider 0) 2"
  let ?p = "NewUTXONoncePool (NewWalletNonceProvider 0 :: nat WalletNonceProvider) 2"
  have "?R \<lparr>pl = ?p, worker = None, issued = []\<rparr>" by (rule pool_run.init)
  from pool_run.repl_begin [OF this, of 2 "?p\<lparr>minting := True\<rparr>"]
  have "?R \<lparr>pl = ?p\<lparr>minting := True\<rparr>, worker = Some (2, None), issued = []\<rparr>"
    by (simp add: replenishBegin_def NewUTXONoncePool_def)
  from pool_run.repl_mint [OF this _ _ demo_mints]
  obtain n p where "?R \<lparr>pl = p, worker = Some (2, Some n), issued = []\<rparr>" "pool p = []"
    by (force simp: NewUTXONoncePool_def)
  with pool_run.repl_append [of _ _ _ _ 2 n] obtain p where r: "?R \<lparr>pl = p, worker = Some (1, None), issued = []\<rparr>" and p: "pool p = [n]"
    by (force simp: addNonce_def)
  from p have "takeNonce p = (Some (n, 0 < poolSize p div 4), p\<lparr>pool := []\<rparr>)" by (simp add: takeNonce_def)
  with pool_run.take_ready [OF r] have "?R \<lparr>pl = p\<lparr>pool := []\<rparr>, worker = Some (1, None), issued = [n]\<rparr>" by simp
  from pool_run.demand [OF this demo_mints]
  obtain y where y: "?R y" "length (issued y) = 2" by fastforce
  moreover have "wallet_minted demo_created (NewWalletNonceProvider 0) = {}"
    by (simp add: wallet_minted_def demo_created_def NewWalletNonceProvider_def)
  then have "distinct (issued y)"
    using nonce_pool_unique [OF demow.nonce_source_axioms, of "NewWalletNonceProvider 0" 2 y] y by simp
  ultimately show ?thesis by blast
qed

end
