(* ===== verification/Payment.thy ===== *)
theory Payment
  imports Nonce Txrelay Envelope_Store
begin

text \<open>
  The HTTP 402 payment gate of \<^verbatim>\<open>internal/api\<close>: \<^verbatim>\<open>payment.go\<close> (challenges and the middleware),
  \<^verbatim>\<open>payment_verify.go\<close> (proofs and direct payments) and \<^verbatim>\<open>payment_resolve.go\<close> (who has to be paid).

  Parameters, in the record \<open>pay_env\<close>: SHA-256, the JSON forms of challenges and receipts and the
  decoding of a proof, go-sdk's transaction parser, the ARC service, and the nonce provider. The
  envelope store behind the resolver is shared with the rest of the node and passed to each call.
  \<open>now\<close> is the clock in nanoseconds.

  \<^verbatim>\<open>verifyProof\<close> reads the pending challenge under the mutex, works without it, and deletes the challenge
  under the mutex again. The two halves are \<open>lookupChallenge\<close> and \<open>settleProof\<close>, so that the effect of other
  requests between them can be stated. The clean-up goroutine that \<^verbatim>\<open>issueChallengeForPayees\<close> starts is
  a step of its own.
\<close>

section \<open>Challenges, proofs and receipts\<close>

record Payee =
  Role :: string
  LockingScriptHex :: string
  AmountSats :: int

record X402Challenge =
  ch_V :: int
  ch_Scheme :: string
  ch_Domain :: string
  ch_Method :: string
  ch_Path :: string
  ch_Query :: string
  ch_ReqHeadersSHA256 :: string
  ch_ReqBodySHA256 :: string
  ch_AmountSats :: int
  ch_PayeeLockingScriptHex :: string
  ch_Payees :: "Payee list"
  ch_NonceUTXO :: "NonceUTXO option"
  ch_ExpiresAt :: int
  ch_RequireMempoolAccept :: bool

record ProofRequest =
  pr_Method :: string
  pr_Path :: string
  pr_Query :: string
  pr_ReqHeadersSHA256 :: string
  pr_ReqBodySHA256 :: string

record ProofPayment =
  pp_TxID :: string
  pp_RawTxB64 :: string

record X402Proof =
  xp_V :: int
  xp_Scheme :: string
  xp_ChallengeSHA256 :: string
  xp_Request :: ProofRequest
  xp_Payment :: ProofPayment

record X402Receipt =
  rc_TxID :: string
  rc_Satoshis :: int
  rc_Timestamp :: int

record pendingChallenge =
  pc_challenge :: X402Challenge
  pc_payees :: "Payee list"

record 'n PaymentGate =
  priceSats :: int
  payeeScriptHex :: string
  nonceProvider :: 'n
  challengeTTL :: int
  requireMempool :: bool
  gateArc :: "ARCClient option"
  hasResolver :: bool
  allowPassthrough :: bool
  allowSplit :: bool
  maxAppPriceSats :: int
  endpointPrices :: "string \<rightharpoonup> int"
  pendingChallenges :: "string \<rightharpoonup> pendingChallenge"

record 'n pay_env =
  pe_sha256 :: "bytes \<Rightarrow> bytes"
  pe_challenge_json :: "X402Challenge \<Rightarrow> bytes"
  pe_receipt_json :: "X402Receipt \<Rightarrow> bytes"
  pe_proof_json :: "bytes \<Rightarrow> X402Proof option"
  pe_codec :: tx_codec
  pe_arc :: arc_service
  pe_mint :: "int \<Rightarrow> 'n \<Rightarrow> (string + NonceUTXO) \<times> 'n"

datatype pay_err =
    ErrProofJSON | ErrProofVersion int | ErrUnknownChallenge | ErrMethodMismatch | ErrPathMismatch | ErrQueryMismatch
  | ErrHeadersProof | ErrHeadersLive | ErrBodyProof | ErrBodyLive | ErrExpired | ErrRawTx | ErrTransaction string
  | ErrNonceNotSpent string int | ErrPayeeScript string | ErrUnpaid int string | ErrTxIDMismatch string string
  | ErrARCFailed arc_err | ErrARCRejected string | ErrEmptyPayment | ErrUndecodable | ErrMint string

section \<open>Construction and prices\<close>

record 'n PaymentGateConfig =
  pg_PriceSats :: int
  pg_PayeeScriptHex :: string
  pg_NonceProvider :: "'n option"
  pg_ChallengeTTL :: int
  pg_RequireMempool :: bool
  pg_ARCClient :: "ARCClient option"
  pg_Resolver :: bool
  pg_AllowPassthrough :: bool
  pg_AllowSplit :: bool
  pg_MaxAppPriceSats :: int
  pg_EndpointPrices :: "string \<rightharpoonup> int"

definition NewPaymentGate :: "'n PaymentGateConfig \<Rightarrow> 'n PaymentGate option" where
  "NewPaymentGate cfg =
     (let appMonetizationEnabled = (pg_AllowPassthrough cfg \<or> pg_AllowSplit cfg);
          nodeCharges = (pg_PriceSats cfg > 0)
      in if \<not> nodeCharges \<and> \<not> appMonetizationEnabled then None
         else case pg_NonceProvider cfg of
           None \<Rightarrow> None
         | Some np \<Rightarrow>
            (if nodeCharges \<and> pg_PayeeScriptHex cfg = [] then None
             else Some \<lparr>priceSats = pg_PriceSats cfg, payeeScriptHex = pg_PayeeScriptHex cfg, nonceProvider = np,
                    challengeTTL = (if pg_ChallengeTTL cfg = 0 then 60 * 1000000000 else pg_ChallengeTTL cfg),
                    requireMempool = pg_RequireMempool cfg, gateArc = pg_ARCClient cfg, hasResolver = pg_Resolver cfg,
                    allowPassthrough = pg_AllowPassthrough cfg, allowSplit = pg_AllowSplit cfg,
                    maxAppPriceSats = pg_MaxAppPriceSats cfg, endpointPrices = pg_EndpointPrices cfg,
                    pendingChallenges = Map.empty\<rparr>))"

definition priceForPath :: "'n PaymentGate \<Rightarrow> string \<Rightarrow> int" where
  "priceForPath pg path =
     (if prefix ''/content/'' path \<or> prefix ''/.well-known/'' path then 0
      else case endpointPrices pg path of Some price \<Rightarrow> price | None \<Rightarrow> priceSats pg)"

section \<open>Who is paid\<close>

definition Resolve :: "('db, envelope json) leveldb_ops \<Rightarrow> int \<Rightarrow> 'db envelope_store \<Rightarrow> string \<Rightarrow> monetization option" where
  "Resolve ops now store topic =
     (if topic = [] then None
      else case QueryByTopic ops now store topic 1 of
        Inl _ \<Rightarrow> None
      | Inr [] \<Rightarrow> None
      | Inr (env # _) \<Rightarrow> Monetization env)"

definition capPrice :: "'n PaymentGate \<Rightarrow> int \<Rightarrow> int" where
  "capPrice pg price = (if maxAppPriceSats pg > 0 \<and> price > maxAppPriceSats pg then maxAppPriceSats pg else price)"

definition nodePayees :: "'n PaymentGate \<Rightarrow> string \<Rightarrow> Payee list" where
  "nodePayees pg path =
     (let nodePrice = priceForPath pg path in
      if nodePrice > 0 \<and> payeeScriptHex pg \<noteq> []
      then [\<lparr>Role = ''infrastructure'', LockingScriptHex = payeeScriptHex pg, AmountSats = nodePrice\<rparr>] else [])"

definition contentPayee :: "'n PaymentGate \<Rightarrow> monetization \<Rightarrow> Payee" where
  "contentPayee pg mon =
     \<lparr>Role = ''content'', LockingScriptHex = PayeeLockingScriptHex mon, AmountSats = capPrice pg (PriceSats mon)\<rparr>"

definition resolvePayees :: "('db, envelope json) leveldb_ops \<Rightarrow> int \<Rightarrow> 'db envelope_store \<Rightarrow> 'n PaymentGate
    \<Rightarrow> http_request \<Rightarrow> Payee list \<times> bool" where
  "resolvePayees ops now store pg r =
     (let node = nodePayees pg (URLPath r);
          topic = query_get (RawQuery r) ''topic''
      in if \<not> hasResolver pg \<or> topic = [] then (node, False)
         else case Resolve ops now store topic of
           None \<Rightarrow> (node, False)
         | Some mon \<Rightarrow>
            (if Model mon = ''passthrough'' then
               (if \<not> allowPassthrough pg then (node, False) else ([contentPayee pg mon], False))
             else if Model mon = ''split'' then
               (if \<not> allowSplit pg then (node, False) else (node @ [contentPayee pg mon], False))
             else if Model mon = ''token'' then ([], True)
             else (node, False)))"

section \<open>Issuing a challenge\<close>

definition sha256Hex :: "'n pay_env \<Rightarrow> bytes \<Rightarrow> string" where
  "sha256Hex E data = hex_encode (pe_sha256 E data)"

definition base64Url :: "bytes \<Rightarrow> string" where
  "base64Url data = b64_encode RawURL data"

definition canonicalHeaderHash :: "'n pay_env \<Rightarrow> http_request \<Rightarrow> string" where
  "canonicalHeaderHash E r =
     (let host = Header r ''Host'';
          vals = [(''host'', if host = [] then Host r else host), (''content-type'', Header r ''Content-Type''),
                  (''accept'', Header r ''Accept'')];
          pairs = map (\<lambda>(name, val). name @ '':'' @ trim_space val) (filter (\<lambda>(name, val). val \<noteq> []) vals)
      in sha256Hex E (join_nl (sort pairs) @ nl))"

definition bodyLimit :: nat where "bodyLimit = 1048576"

definition makeChallenge :: "'n pay_env \<Rightarrow> int \<Rightarrow> 'n PaymentGate \<Rightarrow> http_request \<Rightarrow> Payee list \<Rightarrow> NonceUTXO \<Rightarrow> X402Challenge" where
  "makeChallenge E now pg r payees n =
     \<lparr>ch_V = 1, ch_Scheme = ''bsv-tx-v1'', ch_Domain = Host r, ch_Method = Method r, ch_Path = URLPath r,
      ch_Query = RawQuery r, ch_ReqHeadersSHA256 = canonicalHeaderHash E r,
      ch_ReqBodySHA256 = sha256Hex E (limit_reader bodyLimit (Body r)),
      ch_AmountSats = foldl (\<lambda>t p. wrap64 (t + AmountSats p)) 0 payees,
      ch_PayeeLockingScriptHex = (case payees of [p] \<Rightarrow> LockingScriptHex p | _ \<Rightarrow> payeeScriptHex pg),
      ch_Payees = (if length payees > 1 then payees else []), ch_NonceUTXO = Some n,
      ch_ExpiresAt = (now + challengeTTL pg) div 1000000000, ch_RequireMempoolAccept = requireMempool pg\<rparr>"

definition challengeHash :: "'n pay_env \<Rightarrow> X402Challenge \<Rightarrow> string" where
  "challengeHash E ch = sha256Hex E (pe_challenge_json E ch)"

definition issueChallengeForPayees :: "'n pay_env \<Rightarrow> int \<Rightarrow> 'n PaymentGate \<Rightarrow> http_request \<Rightarrow> Payee list
    \<Rightarrow> (pay_err + X402Challenge) \<times> 'n PaymentGate" where
  "issueChallengeForPayees E now pg r payees =
     (case pe_mint E now (nonceProvider pg) of
        (Inl e, np) \<Rightarrow> (Inl (ErrMint e), pg\<lparr>nonceProvider := np\<rparr>)
      | (Inr n, np) \<Rightarrow>
         (let ch = makeChallenge E now pg r payees n
          in (Inr ch, pg\<lparr>nonceProvider := np, pendingChallenges :=
                (pendingChallenges pg)(challengeHash E ch \<mapsto> \<lparr>pc_challenge = ch, pc_payees = payees\<rparr>)\<rparr>)))"

definition cleanExpired :: "int \<Rightarrow> 'n PaymentGate \<Rightarrow> 'n PaymentGate" where
  "cleanExpired now pg = pg\<lparr>pendingChallenges := (\<lambda>h. case pendingChallenges pg h of
      None \<Rightarrow> None
    | Some p \<Rightarrow> if now div 1000000000 > ch_ExpiresAt (pc_challenge p) then None else Some p)\<rparr>"

section \<open>Verification\<close>

definition pays :: "Payee \<Rightarrow> bytes \<Rightarrow> sdk_output \<Rightarrow> bool" where
  "pays p payeeBytes out \<longleftrightarrow> out_sats out \<ge> of_int (AmountSats p) \<and> hex_encode (out_script out) = hex_encode payeeBytes"

fun checkPayees :: "sdk_output list \<Rightarrow> Payee list \<Rightarrow> int \<Rightarrow> pay_err + int" where
  "checkPayees outs [] totalPaid = Inr totalPaid"
| "checkPayees outs (p # ps) totalPaid =
     (case hex_decode (LockingScriptHex p) of
        None \<Rightarrow> Inl (ErrPayeeScript (Role p))
      | Some payeeBytes \<Rightarrow>
         (if list_ex (pays p payeeBytes) outs then checkPayees outs ps (wrap64 (totalPaid + AmountSats p))
          else Inl (ErrUnpaid (AmountSats p) (Role p))))"

definition submitToARC :: "'n pay_env \<Rightarrow> ARCClient option \<Rightarrow> bytes \<Rightarrow> pay_err + unit" where
  "submitToARC E client txBytes =
     (case client of
        None \<Rightarrow> Inr ()
      | Some c \<Rightarrow>
         (case Submit (pe_arc E) c txBytes of
            Inl e \<Rightarrow> Inl (ErrARCFailed e)
          | Inr resp \<Rightarrow>
             (if arc_Status resp \<in> {''SEEN_ON_NETWORK'', ''MINED'', ''SEEN_IN_ORPHAN_MEMPOOL''} then Inr ()
              else Inl (ErrARCRejected (arc_Status resp)))))"

definition decodeProof :: "'n pay_env \<Rightarrow> string \<Rightarrow> X402Proof option" where
  "decodeProof E hdr = pe_proof_json E (case b64_decode RawURL hdr of Some j \<Rightarrow> j | None \<Rightarrow> hdr)"

definition decodeTx :: "string \<Rightarrow> bytes option" where
  "decodeTx s = (case b64_decode Std s of Some b \<Rightarrow> Some b | None \<Rightarrow> hex_decode s)"

definition lookupChallenge :: "'n pay_env \<Rightarrow> 'n PaymentGate \<Rightarrow> string \<Rightarrow> pay_err + X402Proof \<times> pendingChallenge" where
  \<comment> \<open>steps 1 and 2\<close>
  "lookupChallenge E pg hdr =
     (case decodeProof E hdr of
        None \<Rightarrow> Inl ErrProofJSON
      | Some proof \<Rightarrow>
         (if xp_V proof \<noteq> 1 then Inl (ErrProofVersion (xp_V proof))
          else case pendingChallenges pg (xp_ChallengeSHA256 proof) of
            None \<Rightarrow> Inl ErrUnknownChallenge
          | Some pending \<Rightarrow> Inr (proof, pending)))"

definition checkBinding :: "'n pay_env \<Rightarrow> http_request \<Rightarrow> ProofRequest \<Rightarrow> X402Challenge \<Rightarrow> pay_err + unit" where
  \<comment> \<open>step 3: proof, challenge and live request agree\<close>
  "checkBinding E r q ch =
     (let liveHeaderHash = canonicalHeaderHash E r;
          liveBodyHash = sha256Hex E (limit_reader bodyLimit (Body r))
      in if pr_Method q \<noteq> ch_Method ch \<or> pr_Method q \<noteq> Method r then Inl ErrMethodMismatch
         else if pr_Path q \<noteq> ch_Path ch \<or> pr_Path q \<noteq> URLPath r then Inl ErrPathMismatch
         else if pr_Query q \<noteq> ch_Query ch \<or> pr_Query q \<noteq> RawQuery r then Inl ErrQueryMismatch
         else if pr_ReqHeadersSHA256 q \<noteq> ch_ReqHeadersSHA256 ch then Inl ErrHeadersProof
         else if ch_ReqHeadersSHA256 ch \<noteq> liveHeaderHash then Inl ErrHeadersLive
         else if pr_ReqBodySHA256 q \<noteq> ch_ReqBodySHA256 ch then Inl ErrBodyProof
         else if ch_ReqBodySHA256 ch \<noteq> liveBodyHash then Inl ErrBodyLive
         else Inr ())"

definition checkNonce :: "NonceUTXO option \<Rightarrow> sdk_input list \<Rightarrow> pay_err + unit" where
  \<comment> \<open>step 6\<close>
  "checkNonce nonce ins =
     (case nonce of
        None \<Rightarrow> Inr ()
      | Some n \<Rightarrow>
         (if nu_LockingScriptHex n \<noteq> devScript
             \<and> \<not> list_ex (\<lambda>i. in_txid i = nu_TxID n \<and> in_vout i = of_int (nu_Vout n)) ins
          then Inl (ErrNonceNotSpent (nu_TxID n) (nu_Vout n)) else Inr ()))"

definition checkPayment :: "'n pay_env \<Rightarrow> 'n PaymentGate \<Rightarrow> ProofPayment \<Rightarrow> pendingChallenge \<Rightarrow> pay_err + string \<times> int" where
  \<comment> \<open>steps 5 to 9: the transaction id and what was paid\<close>
  "checkPayment E pg pay pending =
     (let ch = pc_challenge pending in
      case decodeTx (pp_RawTxB64 pay) of
        None \<Rightarrow> Inl ErrRawTx
      | Some txBytes \<Rightarrow>
         (case parse_tx (pe_codec E) txBytes of
            Inl e \<Rightarrow> Inl (ErrTransaction e)
          | Inr tx \<Rightarrow>
             (case checkNonce (ch_NonceUTXO ch) (tx_ins tx) of
                Inl e \<Rightarrow> Inl e
              | Inr _ \<Rightarrow>
                 (case checkPayees (tx_outs tx) (pc_payees pending) 0 of
                    Inl e \<Rightarrow> Inl e
                  | Inr totalPaid \<Rightarrow>
                     (if pp_TxID pay \<noteq> [] \<and> pp_TxID pay \<noteq> tx_id tx then Inl (ErrTxIDMismatch (pp_TxID pay) (tx_id tx))
                      else case (if ch_RequireMempoolAccept ch then submitToARC E (gateArc pg) txBytes else Inr ()) of
                        Inl e \<Rightarrow> Inl e
                      | Inr _ \<Rightarrow> Inr (tx_id tx, totalPaid))))))"

definition dropChallenge :: "string \<Rightarrow> 'n PaymentGate \<Rightarrow> 'n PaymentGate" where
  "dropChallenge h pg = pg\<lparr>pendingChallenges := (pendingChallenges pg)(h := None)\<rparr>"

definition settleProof :: "'n pay_env \<Rightarrow> int \<Rightarrow> http_request \<Rightarrow> X402Proof \<Rightarrow> pendingChallenge \<Rightarrow> 'n PaymentGate
    \<Rightarrow> (pay_err + X402Receipt) \<times> 'n PaymentGate" where
  \<comment> \<open>the rest of \<^verbatim>\<open>verifyProof\<close> after the challenge was read\<close>
  "settleProof E now r proof pending pg =
     (let ch = pc_challenge pending in
      case checkBinding E r (xp_Request proof) ch of
        Inl e \<Rightarrow> (Inl e, pg)
      | Inr _ \<Rightarrow>
         (if now div 1000000000 > ch_ExpiresAt ch then (Inl ErrExpired, dropChallenge (xp_ChallengeSHA256 proof) pg)
          else case checkPayment E pg (xp_Payment proof) pending of
            Inl e \<Rightarrow> (Inl e, pg)
          | Inr (txid, totalPaid) \<Rightarrow>
             (Inr \<lparr>rc_TxID = txid, rc_Satoshis = totalPaid, rc_Timestamp = now div 1000000000\<rparr>,
              dropChallenge (xp_ChallengeSHA256 proof) pg)))"

definition verifyProof :: "'n pay_env \<Rightarrow> int \<Rightarrow> 'n PaymentGate \<Rightarrow> http_request \<Rightarrow> string
    \<Rightarrow> (pay_err + X402Receipt) \<times> 'n PaymentGate" where
  "verifyProof E now pg r hdr =
     (case lookupChallenge E pg hdr of
        Inl e \<Rightarrow> (Inl e, pg)
      | Inr (proof, pending) \<Rightarrow> settleProof E now r proof pending pg)"

definition decodePayment :: "string \<Rightarrow> bytes option" where
  "decodePayment s =
     (case hex_decode s of
        Some b \<Rightarrow> Some b
      | None \<Rightarrow> (case b64_decode Std s of Some b \<Rightarrow> Some b | None \<Rightarrow> b64_decode RawStd s))"

definition verifyDirectPayment :: "'n pay_env \<Rightarrow> int \<Rightarrow> 'n PaymentGate \<Rightarrow> string \<Rightarrow> Payee list \<Rightarrow> pay_err + X402Receipt" where
  "verifyDirectPayment E now pg hdr payees =
     (let paymentHeader = trim_space hdr in
      if paymentHeader = [] then Inl ErrEmptyPayment
      else case decodePayment paymentHeader of
        None \<Rightarrow> Inl ErrUndecodable
      | Some txBytes \<Rightarrow>
         (case parse_tx (pe_codec E) txBytes of
            Inl e \<Rightarrow> Inl (ErrTransaction e)
          | Inr tx \<Rightarrow>
             (case checkPayees (tx_outs tx) payees 0 of
                Inl e \<Rightarrow> Inl e
              | Inr totalPaid \<Rightarrow>
                 (case submitToARC E (gateArc pg) txBytes of
                    Inl e \<Rightarrow> Inl e
                  | Inr _ \<Rightarrow> Inr \<lparr>rc_TxID = tx_id tx, rc_Satoshis = totalPaid, rc_Timestamp = now div 1000000000\<rparr>))))"

section \<open>The middleware\<close>

text \<open>
  What the middleware does with a request: hand it to the next handler (with the receipt header, if
  any), answer with a challenge, or answer with an error status.
\<close>

datatype pay_out = PayNext http_request "X402Receipt option" | PayChallenge X402Challenge | PayError nat pay_err

definition receiptHeader :: "'n pay_env \<Rightarrow> X402Receipt \<Rightarrow> string" where
  "receiptHeader E rc = base64Url (pe_receipt_json E rc)"

abbreviation authed :: "http_request \<Rightarrow> http_request" where
  "authed r \<equiv> set_header ''X-Anvil-Authed'' ''true'' r"

definition PaymentMiddleware :: "'n pay_env \<Rightarrow> ('db, envelope json) leveldb_ops \<Rightarrow> int \<Rightarrow> 'db envelope_store
    \<Rightarrow> 'n PaymentGate \<Rightarrow> http_request \<Rightarrow> pay_out \<times> 'n PaymentGate" where
  "PaymentMiddleware E ops now store pg r =
     (case resolvePayees ops now store pg r of
        (payees, tokenGated) \<Rightarrow>
         (if tokenGated then (PayNext (authed r) None, pg)
          else if payees = [] then (PayNext r None, pg)
          else
            let proofHeader = Header r ''X402-Proof''; bsvPayment = Header r ''X-Bsv-Payment'' in
            if proofHeader = [] \<and> bsvPayment = [] then
              (case issueChallengeForPayees E now pg r payees of
                 (Inl e, pg') \<Rightarrow> (PayError 500 e, pg')
               | (Inr ch, pg') \<Rightarrow> (PayChallenge ch, pg'))
            else if bsvPayment \<noteq> [] \<and> proofHeader = [] then
              (case verifyDirectPayment E now pg bsvPayment payees of
                 Inl e \<Rightarrow> (PayError 402 e, pg)
               | Inr rc \<Rightarrow> (PayNext (authed r) (Some rc), pg))
            else
              (case verifyProof E now pg r proofHeader of
                 (Inl e, pg') \<Rightarrow> (PayError 402 e, pg')
               | (Inr rc, pg') \<Rightarrow> (PayNext (authed (r\<lparr>Body := limit_reader bodyLimit (Body r)\<rparr>)) (Some rc), pg'))))"

end
