(* ===== verification/Payment_Safety.thy ===== *)
theory Payment_Safety
  imports Payment
begin

text \<open>
  What the payment gate guarantees: what a receipt certifies, that a challenge is redeemed at most
  once, and where the guarantees end (concurrent requests, shared scripts).
\<close>

section \<open>Paying payees\<close>

definition pays_all :: "sdk_output list \<Rightarrow> Payee list \<Rightarrow> bool" where
  \<comment> \<open>every payee has an output with its script and at least its amount\<close>
  "pays_all outs ps \<longleftrightarrow> (\<forall>p \<in> set ps. \<exists>out \<in> set outs.
     hex_decode (LockingScriptHex p) = Some (out_script out) \<and> of_int (AmountSats p) \<le> out_sats out)"

lemma checkPayees_Inr:
  "checkPayees outs ps t = Inr t' \<Longrightarrow> pays_all outs ps \<and> t' = foldl (\<lambda>t p. wrap64 (t + AmountSats p)) t ps"
  by (induction ps arbitrary: t)
    (auto simp: pays_all_def pays_def list_ex_iff hex_encode_inject split: option.splits if_splits)

lemma of_int_le_word:
  fixes w :: "64 word"
  assumes "of_int a \<le> w" "0 \<le> a" "a < 2 ^ 63"
  shows "a \<le> uint w"
proof -
  have "uint (of_int a :: 64 word) = a" using assms by (simp add: unsigned_of_int take_bit_int_eq_self)
  then show ?thesis using assms(1) by (simp add: word_le_def)
qed

definition same_request :: "'n pay_env \<Rightarrow> X402Challenge \<Rightarrow> http_request \<Rightarrow> bool" where
  \<comment> \<open>the request is the one the challenge was issued for\<close>
  "same_request E ch r \<longleftrightarrow> ch_Method ch = Method r \<and> ch_Path ch = URLPath r \<and> ch_Query ch = RawQuery r
     \<and> ch_ReqHeadersSHA256 ch = canonicalHeaderHash E r
     \<and> ch_ReqBodySHA256 ch = sha256Hex E (limit_reader bodyLimit (Body r))"

definition spends_nonce :: "sdk_tx \<Rightarrow> NonceUTXO option \<Rightarrow> bool" where
  "spends_nonce tx nonce \<longleftrightarrow> (case nonce of None \<Rightarrow> True
     | Some n \<Rightarrow> nu_LockingScriptHex n = devScript
         \<or> (\<exists>i \<in> set (tx_ins tx). in_txid i = nu_TxID n \<and> in_vout i = of_int (nu_Vout n)))"

definition accepted_by_arc :: "'n pay_env \<Rightarrow> ARCClient option \<Rightarrow> bytes \<Rightarrow> bool" where
  "accepted_by_arc E client b \<longleftrightarrow> (case client of None \<Rightarrow> True
     | Some c \<Rightarrow> \<exists>resp. Submit (pe_arc E) c b = Inr resp
         \<and> arc_Status resp \<in> {''SEEN_ON_NETWORK'', ''MINED'', ''SEEN_IN_ORPHAN_MEMPOOL''})"

lemma submitToARC_Inr: "submitToARC E client b = Inr u \<longleftrightarrow> accepted_by_arc E client b"
  by (auto simp: submitToARC_def accepted_by_arc_def split: option.splits sum.splits if_splits)

lemma checkBinding_Inr: "checkBinding E r q ch = Inr u \<Longrightarrow> same_request E ch r"
  by (auto simp: checkBinding_def same_request_def Let_def split: if_splits)

lemma checkNonce_Inr: "checkNonce nonce (tx_ins tx) = Inr u \<longleftrightarrow> spends_nonce tx nonce"
  by (auto simp: checkNonce_def spends_nonce_def list_ex_iff split: option.splits)

lemma checkPayment_Inr:
  assumes "checkPayment E pg pay pending = Inr (txid, amt)"
  obtains b tx where "decodeTx (pp_RawTxB64 pay) = Some b" "parse_tx (pe_codec E) b = Inr tx" "txid = tx_id tx"
    "spends_nonce tx (ch_NonceUTXO (pc_challenge pending))" "pays_all (tx_outs tx) (pc_payees pending)"
    "ch_RequireMempoolAccept (pc_challenge pending) \<Longrightarrow> accepted_by_arc E (gateArc pg) b"
    "amt = foldl (\<lambda>t p. wrap64 (t + AmountSats p)) 0 (pc_payees pending)"
  using assms by (auto simp: checkPayment_def Let_def checkNonce_Inr submitToARC_Inr
      split: option.splits sum.splits if_splits dest: checkPayees_Inr)

lemma settleProof_Inr:
  assumes "settleProof E now r proof pending pg = (Inr rc, pg')"
  shows "same_request E (pc_challenge pending) r" "now div 1000000000 \<le> ch_ExpiresAt (pc_challenge pending)"
    "checkPayment E pg (xp_Payment proof) pending = Inr (rc_TxID rc, rc_Satoshis rc)"
    "pg' = dropChallenge (xp_ChallengeSHA256 proof) pg"
  using assms by (auto simp: settleProof_def Let_def split: sum.splits if_splits dest: checkBinding_Inr)

lemma settleProof_state:
  "settleProof E now r proof pending pg = (res, pg') \<Longrightarrow> pg' = pg \<or> pg' = dropChallenge (xp_ChallengeSHA256 proof) pg"
  by (auto simp: settleProof_def Let_def split: sum.splits if_splits)

lemma lookupChallenge_Inr:
  assumes "lookupChallenge E pg hdr = Inr (proof, pending)"
  shows "decodeProof E hdr = Some proof" "xp_V proof = 1" "pendingChallenges pg (xp_ChallengeSHA256 proof) = Some pending"
  using assms by (auto simp: lookupChallenge_def split: option.splits if_splits)

section \<open>Redeeming a challenge once\<close>

text \<open>
  A run of the gate serves requests (each with the clock and the envelope store it sees) and cleans up
  expired challenges. \<open>redeemed\<close> lists the hashes of the challenges whose proofs were accepted.
\<close>

datatype 'db gate_event = Serve int "'db envelope_store" http_request | CleanUp int

definition redeems :: "'n pay_env \<Rightarrow> pay_out \<Rightarrow> http_request \<Rightarrow> string list" where
  "redeems E out r =
     (case out of
        PayNext _ (Some _) \<Rightarrow> (if Header r ''X402-Proof'' = [] then [] else
           case decodeProof E (Header r ''X402-Proof'') of None \<Rightarrow> [] | Some p \<Rightarrow> [xp_ChallengeSHA256 p])
      | _ \<Rightarrow> [])"

fun redeemed :: "'n pay_env \<Rightarrow> ('db, envelope json) leveldb_ops \<Rightarrow> 'db gate_event list \<Rightarrow> 'n PaymentGate \<Rightarrow> string list" where
  "redeemed E ops [] pg = []"
| "redeemed E ops (CleanUp now # evs) pg = redeemed E ops evs (cleanExpired now pg)"
| "redeemed E ops (Serve now store r # evs) pg =
     (case PaymentMiddleware E ops now store pg r of
        (out, pg') \<Rightarrow> redeems E out r @ redeemed E ops evs pg')"

text \<open>What one request does to the table of pending challenges.\<close>

lemma PaymentMiddleware_cases:
  assumes "PaymentMiddleware E ops now store pg r = (out, pg')"
  obtains (quiet) "pg' = pg" "redeems E out r = []"
    | (mint_failed) e np where "pe_mint E now (nonceProvider pg) = (Inl e, np)" "pg' = pg\<lparr>nonceProvider := np\<rparr>"
        "redeems E out r = []"
    | (issue) n np payees where "pe_mint E now (nonceProvider pg) = (Inr n, np)" "redeems E out r = []"
        "pg' = pg\<lparr>nonceProvider := np, pendingChallenges := (pendingChallenges pg)
            (challengeHash E (makeChallenge E now pg r payees n)
              \<mapsto> \<lparr>pc_challenge = makeChallenge E now pg r payees n, pc_payees = payees\<rparr>)\<rparr>"
    | (dropped) h where "pg' = dropChallenge h pg" "redeems E out r = []"
    | (redeem) h p where "pendingChallenges pg h = Some p" "redeems E out r = [h]" "pg' = dropChallenge h pg"
proof -
  obtain payees tok where rp: "resolvePayees ops now store pg r = (payees, tok)" by fastforce
  let ?ph = "Header r ''X402-Proof''" and ?bp = "Header r ''X-Bsv-Payment''"
  consider (free) "tok \<or> payees = []" | (chal) "\<not> tok" "payees \<noteq> []" "?ph = []" "?bp = []"
    | (direct) "\<not> tok" "payees \<noteq> []" "?ph = []" "?bp \<noteq> []" | (with_proof) "\<not> tok" "payees \<noteq> []" "?ph \<noteq> []"
    by blast
  then show thesis
  proof cases
    case free
    then show ?thesis using assms rp quiet by (auto simp: PaymentMiddleware_def redeems_def split: if_splits)
  next
    case chal
    obtain res np where m: "pe_mint E now (nonceProvider pg) = (res, np)" by fastforce
    show ?thesis
    proof (cases res)
      case (Inl e)
      with assms rp chal m have "pg' = pg\<lparr>nonceProvider := np\<rparr>" "redeems E out r = []"
        by (auto simp: PaymentMiddleware_def issueChallengeForPayees_def redeems_def)
      with mint_failed m Inl show ?thesis by blast
    next
      case (Inr n)
      with assms rp chal m have "redeems E out r = []" "pg' = pg\<lparr>nonceProvider := np, pendingChallenges := (pendingChallenges pg)
          (challengeHash E (makeChallenge E now pg r payees n) \<mapsto> \<lparr>pc_challenge = makeChallenge E now pg r payees n, pc_payees = payees\<rparr>)\<rparr>"
        by (auto simp: PaymentMiddleware_def issueChallengeForPayees_def Let_def redeems_def)
      with issue m Inr show ?thesis by blast
    qed
  next
    case direct
    then show ?thesis using assms rp quiet
      by (cases "verifyDirectPayment E now pg ?bp payees") (auto simp: PaymentMiddleware_def redeems_def)
  next
    case with_proof
    obtain res pg1 where v: "verifyProof E now pg r ?ph = (res, pg1)" by fastforce
    have pg': "pg' = pg1" using assms rp with_proof v by (cases res) (auto simp: PaymentMiddleware_def)
    have o: "redeems E out r = []" if "res = Inl e" for e
      using assms rp with_proof v that by (auto simp: PaymentMiddleware_def redeems_def)
    show ?thesis
    proof (cases "lookupChallenge E pg ?ph")
      case (Inl e)
      with v have "res = Inl e" "pg1 = pg" by (simp_all add: verifyProof_def)
      then show ?thesis using quiet pg' o by blast
    next
      case (Inr lp)
      obtain pr pend where lp: "lp = (pr, pend)" by fastforce
      note look = lookupChallenge_Inr [OF Inr [unfolded lp]]
      have s: "settleProof E now r pr pend pg = (res, pg1)" using v Inr lp by (simp add: verifyProof_def)
      show ?thesis
      proof (cases res)
        case (Inl e)
        then show ?thesis using settleProof_state [OF s] quiet dropped pg' o by blast
      next
        case (Inr rc)
        have "out = PayNext (authed (r\<lparr>Body := limit_reader bodyLimit (Body r)\<rparr>)) (Some rc)"
          using assms rp with_proof v Inr by (simp add: PaymentMiddleware_def)
        then have "redeems E out r = [xp_ChallengeSHA256 pr]" using look(1) with_proof by (simp add: redeems_def)
        with redeem look(3) settleProof_Inr(4) [OF s [unfolded Inr]] pg' show ?thesis by blast
      qed
    qed
  qed
qed

lemma dropChallenge_fields [simp]:
  "dom (pendingChallenges (dropChallenge h pg)) = dom (pendingChallenges pg) - {h}"
  "nonceProvider (dropChallenge h pg) = nonceProvider pg"
  "pendingChallenges (dropChallenge h pg) h = None" "gateArc (dropChallenge h pg) = gateArc pg"
  by (auto simp: dropChallenge_def)

definition hashes_of :: "'n pay_env \<Rightarrow> NonceUTXO set \<Rightarrow> string set" where
  "hashes_of E N = {challengeHash E ch | ch n. ch_NonceUTXO ch = Some n \<and> n \<in> N}"

lemma issued_hash_fresh:
  assumes inj: "\<And>c d. challengeHash E c = challengeHash E d \<Longrightarrow> ch_NonceUTXO c = ch_NonceUTXO d" and "n \<notin> N"
  shows "challengeHash E (makeChallenge E now pg r payees n) \<notin> hashes_of E N"
proof
  let ?ch = "makeChallenge E now pg r payees n"
  assume "challengeHash E ?ch \<in> hashes_of E N"
  then obtain c k where "challengeHash E ?ch = challengeHash E c" "ch_NonceUTXO c = Some k" "k \<in> N"
    unfolding hashes_of_def by blast
  moreover from this(1) have "ch_NonceUTXO ?ch = ch_NonceUTXO c" by (rule inj)
  moreover have "ch_NonceUTXO ?ch = Some n" by (simp add: makeChallenge_def)
  ultimately show False using \<open>n \<notin> N\<close> by simp
qed

lemma hashes_of_mono: "N \<subseteq> M \<Longrightarrow> hashes_of E N \<subseteq> hashes_of E M"
  by (auto simp: hashes_of_def)

lemma issued_hash_minted: "n \<in> N \<Longrightarrow> challengeHash E (makeChallenge E now pg r payees n) \<in> hashes_of E N"
  by (auto simp: hashes_of_def makeChallenge_def)

lemma redeemed_distinct:
  assumes src: "nonce_source (pe_mint E) minted good"
    and inj: "\<And>c d. challengeHash E c = challengeHash E d \<Longrightarrow> ch_NonceUTXO c = ch_NonceUTXO d"
  shows "good (nonceProvider pg) \<Longrightarrow> used \<union> dom (pendingChallenges pg) \<subseteq> hashes_of E (minted (nonceProvider pg))
    \<Longrightarrow> used \<inter> dom (pendingChallenges pg) = {}
    \<Longrightarrow> distinct (redeemed E ops evs pg) \<and> used \<inter> set (redeemed E ops evs pg) = {}"
proof (induction evs arbitrary: pg used)
  case (Cons ev evs)
  note P = Cons.prems
  show ?case
  proof (cases ev)
    case (CleanUp now)
    have "dom (pendingChallenges (cleanExpired now pg)) \<subseteq> dom (pendingChallenges pg)"
      by (auto simp: cleanExpired_def split: option.splits)
    moreover have "nonceProvider (cleanExpired now pg) = nonceProvider pg" by (simp add: cleanExpired_def)
    ultimately show ?thesis using P Cons.IH [of "cleanExpired now pg" used] CleanUp by force
  next
    case (Serve now store r)
    obtain out pg' where m: "PaymentMiddleware E ops now store pg r = (out, pg')" by fastforce
    from m show ?thesis
    proof (cases rule: PaymentMiddleware_cases)
      case quiet
      then show ?thesis using P Cons.IH [of pg used] Serve m by simp
    next
      case (mint_failed e np)
      note mf = nonce_source.mint_failed [OF src P(1) mint_failed(1)]
      then have "hashes_of E (minted (nonceProvider pg)) \<subseteq> hashes_of E (minted np)" by (intro hashes_of_mono) simp
      with P(2) have "used \<union> dom (pendingChallenges pg) \<subseteq> hashes_of E (minted np)" by blast
      then show ?thesis using P(3) mf Cons.IH [of pg' used] Serve m mint_failed by simp
    next
      case (issue n np payees)
      let ?ch = "makeChallenge E now pg r payees n"
      have fresh: "n \<notin> minted (nonceProvider pg)" "insert n (minted (nonceProvider pg)) \<subseteq> minted np" "good np"
        using nonce_source.mint_fresh [OF src P(1) issue(1)] by auto
      have "challengeHash E ?ch \<notin> hashes_of E (minted (nonceProvider pg))" by (rule issued_hash_fresh [OF inj fresh(1)])
      then have "challengeHash E ?ch \<notin> used" using P(2) by blast
      moreover have "challengeHash E ?ch \<in> hashes_of E (minted np)" using fresh(2) by (simp add: issued_hash_minted)
      moreover have "hashes_of E (minted (nonceProvider pg)) \<subseteq> hashes_of E (minted np)" using hashes_of_mono fresh(2) by blast
      moreover have d: "dom (pendingChallenges pg') = insert (challengeHash E ?ch) (dom (pendingChallenges pg))"
        and np: "nonceProvider pg' = np" using issue(3) by simp_all
      ultimately have "used \<union> dom (pendingChallenges pg') \<subseteq> hashes_of E (minted (nonceProvider pg'))"
        "used \<inter> dom (pendingChallenges pg') = {}" using P(2,3) unfolding d np by blast+
      with Cons.IH [of pg' used] fresh(3) np
      have "distinct (redeemed E ops evs pg') \<and> used \<inter> set (redeemed E ops evs pg') = {}" by simp
      then show ?thesis using Serve m issue(2) by simp
    next
      case (dropped h)
      then have "distinct (redeemed E ops evs pg') \<and> used \<inter> set (redeemed E ops evs pg') = {}"
        using P by (intro Cons.IH) (simp_all, blast+)
      then show ?thesis using Serve m dropped by simp
    next
      case (redeem h p)
      then have "distinct (redeemed E ops evs pg') \<and> insert h used \<inter> set (redeemed E ops evs pg') = {}"
        using P by (intro Cons.IH) (simp_all, blast+)
      moreover have "h \<notin> used" using P(3) redeem(1) by blast
      ultimately show ?thesis using Serve m redeem by auto
    qed
  qed
qed simp

section \<open>Header formats\<close>

lemma those_None: "None \<in> set xs \<Longrightarrow> those xs = None"
  by (induction xs) (auto split: option.splits)

lemma those_Some: "list_all (\<lambda>x. x \<noteq> None) xs \<Longrightarrow> \<exists>ys. those xs = Some ys \<and> length ys = length xs"
  by (induction xs) (auto split: option.splits)

lemma b64_quanta_length:
  "length ds mod 4 = 0 \<Longrightarrow> \<exists>b. b64_quanta ds = Some b \<and> 4 * length b = 3 * length ds"
proof (induction ds rule: b64_quanta.induct)
  case (5 a b c d rest)
  then have "length rest mod 4 = 0" by simp
  with 5 show ?case by auto
qed simp_all

lemma hexdigit_b64:
  assumes "n < 16"
  shows "b64_val Std (hexdigit n) \<noteq> None"
  using assms by (auto simp: hexdigit_def b64_val_def Let_def)

lemma b64_val_specials [simp]:
  "b64_val Std (CHR ''='') = None" "b64_val enc (CHR 0x0A) = None" "b64_val enc (CHR 0x0D) = None" "b64_val enc (CHR 0x7B) = None"
  by (cases enc; simp add: b64_val_def)+

lemma hex_encode_b64: "c \<in> set (hex_encode b) \<Longrightarrow> b64_val Std c \<noteq> None"
proof (induction b)
  case (Cons x xs)
  have "(of_char x :: nat) div 16 < 16" by (rule less_mult_imp_div_less) (simp add: of_char_bound)
  with Cons show ?case using hexdigit_b64 [of "of_char x div 16"] hexdigit_b64 [of "of_char x mod 16"] by auto
qed simp

text \<open>A hexadecimal text of a multiple of four digits is also a base64 text.\<close>

lemma b64_decode_hex:
  assumes "length b mod 2 = 0"
  shows "\<exists>c. b64_decode Std (hex_encode b) = Some c \<and> 2 * length c = 3 * length b"
proof -
  let ?s = "hex_encode b"
  have f: "filter (\<lambda>c. c \<noteq> CHR 0x0A \<and> c \<noteq> CHR 0x0D) ?s = ?s" using hex_encode_b64 [of "CHR 0x0A" b] hex_encode_b64 [of "CHR 0x0D" b] by (auto simp: filter_id_conv)
  have len: "length ?s mod 4 = 0" using assms by (simp add: length_hex_encode) presburger
  have "?s \<noteq> [] \<Longrightarrow> last ?s \<noteq> CHR ''=''" using hex_encode_b64 [of "last ?s" b] by auto
  then have p: "strip_padding ?s = Some ?s" using len by (auto simp: strip_padding_def)
  have "list_all (\<lambda>x. x \<noteq> None) (map (b64_val Std) ?s)" using hex_encode_b64 by (simp add: list_all_iff)
  then obtain ds where ds: "those (map (b64_val Std) ?s) = Some ds" "length ds = length ?s"
    using those_Some by fastforce
  then obtain c where "b64_quanta ds = Some c" "4 * length c = 3 * length ds" using b64_quanta_length len by metis
  then show ?thesis using ds by (simp add: b64_decode_def f p length_hex_encode)
qed

section \<open>A concrete gate\<close>

definition demo_nonce_text :: "NonceUTXO \<Rightarrow> string" where
  "demo_nonce_text n = hex_encode (nu_TxID n) @ '':'' @ itoa (nu_Vout n) @ '':'' @ itoa (nu_Satoshis n) @ '':''
     @ hex_encode (nu_LockingScriptHex n)"

lemma hex_no_colon: "CHR '':'' \<notin> set (hex_encode b)"
  using hex_encode_b64 [of "CHR '':''" b] by (auto simp: b64_val_def)

lemma demo_nonce_text_inject: "demo_nonce_text m = demo_nonce_text n \<Longrightarrow> m = n"
  unfolding demo_nonce_text_def
  by (auto dest!: sep_inject simp: itoa_inject hex_no_colon intro!: NonceUTXO.equality)

definition demo_nonce :: NonceUTXO where
  "demo_nonce = \<lparr>nu_TxID = ''0'', nu_Vout = 0, nu_Satoshis = 1, nu_LockingScriptHex = hex_encode ''addr''\<rparr>"

definition demo_req :: http_request where
  "demo_req = \<lparr>Method = ''GET'', Header = (\<lambda>_. []), RemoteAddr = [], Host = ''h'', URLPath = ''/status'', RawQuery = [], Body = []\<rparr>"

definition demo_proof :: "string \<Rightarrow> X402Proof" where
  "demo_proof h = \<lparr>xp_V = 1, xp_Scheme = ''bsv-tx-v1'', xp_ChallengeSHA256 = h,
     xp_Request = \<lparr>pr_Method = ''GET'', pr_Path = ''/status'', pr_Query = [],
       pr_ReqHeadersSHA256 = hex_encode (''host:h'' @ nl), pr_ReqBodySHA256 = []\<rparr>,
     xp_Payment = \<lparr>pp_TxID = [], pp_RawTxB64 = ''BVM=''\<rparr>\<rparr>"

definition demo_pay :: "nat WalletNonceProvider pay_env" where
  "demo_pay = \<lparr>pe_sha256 = (\<lambda>x. x),
     pe_challenge_json = (\<lambda>ch. case ch_NonceUTXO ch of None \<Rightarrow> ''-'' | Some n \<Rightarrow> demo_nonce_text n),
     pe_receipt_json = rc_TxID, pe_proof_json = (\<lambda>j. Some (demo_proof j)), pe_codec = demo_codec,
     pe_arc = (\<lambda>_. RequestFailed ''down''), pe_mint = WalletMintNonce demo_wallet\<rparr>"

definition demo_gate :: "nat WalletNonceProvider PaymentGate" where
  "demo_gate = \<lparr>priceSats = 1, payeeScriptHex = hex_encode ''S'', nonceProvider = NewWalletNonceProvider 0,
     challengeTTL = 60 * 1000000000, requireMempool = False, gateArc = None, hasResolver = False,
     allowPassthrough = False, allowSplit = True, maxAppPriceSats = 0, endpointPrices = Map.empty,
     pendingChallenges = Map.empty\<rparr>"

definition demo_paid_req :: http_request where
  "demo_paid_req = set_header ''X402-Proof'' (base64Url (hex_encode (demo_nonce_text demo_nonce))) demo_req"


lemma demo_b64: "b64_decode Std ''BVM='' = Some [CHR 0x05, CHR ''S'']"
  by (simp add: b64_decode_def strip_padding_def b64_val_def char_of_def bit_simps)

declare hex_encode.simps [simp del]

lemma demo_pay_simps [simp]: "pe_sha256 demo_pay = (\<lambda>x. x)" "pe_proof_json demo_pay j = Some (demo_proof j)"
  "pe_codec demo_pay = demo_codec" "pe_mint demo_pay = WalletMintNonce demo_wallet"
  "pe_challenge_json demo_pay ch = (case ch_NonceUTXO ch of None \<Rightarrow> ''-'' | Some n \<Rightarrow> demo_nonce_text n)"
  by (simp_all add: demo_pay_def)

lemma demo_proof_simps [simp]: "xp_V (demo_proof h) = 1" "xp_ChallengeSHA256 (demo_proof h) = h"
  "pp_TxID (xp_Payment (demo_proof h)) = []" "pp_RawTxB64 (xp_Payment (demo_proof h)) = ''BVM=''"
  by (simp_all add: demo_proof_def)

definition demo_challenge :: X402Challenge where
  "demo_challenge = makeChallenge demo_pay 0 demo_gate demo_req (nodePayees demo_gate ''/status'') demo_nonce"

definition demo_pending :: "nat WalletNonceProvider PaymentGate" where
  "demo_pending = demo_gate\<lparr>nonceProvider := \<lparr>wn_wallet = 1, nonceSeq = 1\<rparr>,
     pendingChallenges := [challengeHash demo_pay demo_challenge \<mapsto>
       \<lparr>pc_challenge = demo_challenge, pc_payees = nodePayees demo_gate ''/status''\<rparr>]\<rparr>"

lemma demo_payees: "nodePayees demo_gate ''/status'' = [\<lparr>Role = ''infrastructure'', LockingScriptHex = hex_encode ''S'', AmountSats = 1\<rparr>]"
  by (simp add: nodePayees_def priceForPath_def demo_gate_def Let_def)

lemma demo_headers: "canonicalHeaderHash demo_pay demo_req = hex_encode (''host:h'' @ nl)"
  "canonicalHeaderHash demo_pay demo_paid_req = hex_encode (''host:h'' @ nl)"
  by (simp_all add: canonicalHeaderHash_def demo_req_def demo_paid_req_def sha256Hex_def trim_space_def Let_def)

lemma demo_hash: "challengeHash demo_pay demo_challenge = hex_encode (demo_nonce_text demo_nonce)"
  by (simp add: challengeHash_def sha256Hex_def demo_challenge_def makeChallenge_def)

lemma demo_issue: "PaymentMiddleware demo_pay ops 0 store demo_gate demo_req = (PayChallenge demo_challenge, demo_pending)"
proof -
  have r: "resolvePayees ops 0 store demo_gate demo_req = (nodePayees demo_gate ''/status'', False)"
    by (simp add: resolvePayees_def demo_gate_def demo_req_def Let_def)
  have h: "Header demo_req = (\<lambda>_. [])" by (simp add: demo_req_def)
  have np: "nonceProvider demo_gate = NewWalletNonceProvider 0" "pendingChallenges demo_gate = Map.empty" by (simp_all add: demo_gate_def)
  have ne: "nodePayees demo_gate ''/status'' \<noteq> []" by (simp add: demo_payees)
  have m: "WalletMintNonce demo_wallet 0 (NewWalletNonceProvider 0) = (Inr demo_nonce, \<lparr>wn_wallet = 1, nonceSeq = 1\<rparr>)"
    by (simp add: WalletMintNonce_def demo_wallet_def NewWalletNonceProvider_def nonceCounter_def Let_def
        uint64_def itoa_def digits.simps [of 0] digit_def char_of_def bit_simps demo_nonce_def)
  show ?thesis
    unfolding PaymentMiddleware_def r
    by (simp add: h ne issueChallengeForPayees_def np m demo_pending_def demo_challenge_def Let_def)
qed

lemma demo_lookup: "lookupChallenge demo_pay demo_pending (Header demo_paid_req ''X402-Proof'') = Inr (demo_proof (hex_encode (demo_nonce_text demo_nonce)),
    \<lparr>pc_challenge = demo_challenge, pc_payees = nodePayees demo_gate ''/status''\<rparr>)"
  by (simp add: lookupChallenge_def decodeProof_def demo_paid_req_def base64Url_def b64_decode_encode demo_pending_def demo_hash)

lemma demo_settle:
  "settleProof demo_pay 1 demo_paid_req (demo_proof (hex_encode (demo_nonce_text demo_nonce)))
     \<lparr>pc_challenge = demo_challenge, pc_payees = nodePayees demo_gate ''/status''\<rparr> demo_pending
   = (Inr \<lparr>rc_TxID = hex_encode [CHR 0x05, CHR ''S''], rc_Satoshis = 1, rc_Timestamp = 0\<rparr>,
      dropChallenge (hex_encode (demo_nonce_text demo_nonce)) demo_pending)"
proof -
  have b: "checkBinding demo_pay demo_paid_req (xp_Request (demo_proof h)) demo_challenge = Inr ()" for h
    by (simp add: checkBinding_def demo_headers Let_def demo_challenge_def makeChallenge_def demo_proof_def)
      (simp add: demo_paid_req_def demo_req_def sha256Hex_def limit_reader_def hex_encode.simps)
  have e: "ch_ExpiresAt demo_challenge = 60" "ch_NonceUTXO demo_challenge = Some demo_nonce" "\<not> ch_RequireMempoolAccept demo_challenge"
    by (simp_all add: demo_challenge_def makeChallenge_def demo_gate_def)
  have t: "parse_tx (pe_codec demo_pay) [CHR 0x05, CHR ''S''] = Inr (demo_tx [CHR 0x05, CHR ''S''])"
    by (simp add: demo_codec_def)
  have n: "checkNonce (Some demo_nonce) (tx_ins (demo_tx b)) = Inr ()" for b by (simp add: checkNonce_def demo_tx_def demo_nonce_def)
  have p: "checkPayees (tx_outs (demo_tx [CHR 0x05, CHR ''S''])) (nodePayees demo_gate ''/status'') 0 = Inr 1"
    by (simp add: demo_payees demo_tx_def pays_def wrap64_def)
  have "checkPayment demo_pay demo_pending (xp_Payment (demo_proof h)) \<lparr>pc_challenge = demo_challenge, pc_payees = nodePayees demo_gate ''/status''\<rparr>
      = Inr (hex_encode [CHR 0x05, CHR ''S''], 1)" for h
    using t by (simp add: checkPayment_def Let_def decodeTx_def demo_b64 e n p) (simp add: demo_tx_def)
  then show ?thesis by (simp add: settleProof_def Let_def b e)
qed

lemma demo_verified: "verifyProof demo_pay 1 demo_pending demo_paid_req (Header demo_paid_req ''X402-Proof'')
   = (Inr \<lparr>rc_TxID = hex_encode [CHR 0x05, CHR ''S''], rc_Satoshis = 1, rc_Timestamp = 0\<rparr>,
      dropChallenge (hex_encode (demo_nonce_text demo_nonce)) demo_pending)"
  by (simp only: verifyProof_def demo_lookup sum.case prod.case demo_settle)

lemma demo_forwarded: "PaymentMiddleware demo_pay ops 1 store demo_pending demo_paid_req
   = (PayNext (authed (demo_paid_req\<lparr>Body := []\<rparr>)) (Some \<lparr>rc_TxID = hex_encode [CHR 0x05, CHR ''S''], rc_Satoshis = 1, rc_Timestamp = 0\<rparr>),
      dropChallenge (hex_encode (demo_nonce_text demo_nonce)) demo_pending)"
proof -
  have r: "resolvePayees ops 1 store demo_pending demo_paid_req = (nodePayees demo_gate ''/status'', False)"
    by (simp add: resolvePayees_def demo_pending_def demo_gate_def demo_paid_req_def demo_req_def Let_def
        nodePayees_def priceForPath_def)
  have "base64Url (hex_encode (demo_nonce_text demo_nonce)) \<noteq> []"
    by (simp add: base64Url_def b64_encode_def demo_nonce_text_def hex_encode.simps demo_nonce_def)
  then have h: "Header demo_paid_req ''X402-Proof'' \<noteq> []" by (simp add: demo_paid_req_def)
  have ne: "nodePayees demo_gate ''/status'' \<noteq> []" by (simp add: demo_payees)
  have b: "limit_reader bodyLimit (Body demo_paid_req) = []" by (simp add: demo_paid_req_def demo_req_def limit_reader_def)
  show ?thesis unfolding PaymentMiddleware_def r by (simp add: h ne demo_verified b)
qed

lemma demo_good: "nonce_source (pe_mint demo_pay) (wallet_minted demo_created) (\<lambda>p. True)"
  using demow.nonce_source_axioms by simp

lemma demo_collision_free: "challengeHash demo_pay c = challengeHash demo_pay d \<Longrightarrow> ch_NonceUTXO c = ch_NonceUTXO d"
proof -
  have colon: "demo_nonce_text n \<noteq> ''-''" for n
    by (auto simp: demo_nonce_text_def append_eq_Cons_conv)
  show "challengeHash demo_pay c = challengeHash demo_pay d \<Longrightarrow> ch_NonceUTXO c = ch_NonceUTXO d"
    using colon colon [symmetric]
    by (auto simp: challengeHash_def sha256Hex_def dest: demo_nonce_text_inject split: option.splits)
qed

declare hex_encode.simps [simp]

section \<open>Properties\<close>



text \<open>
  C3: a challenge is redeemed at most once. If nonces are minted only once and two challenges with the
  same hash carry the same nonce, then over any sequence of requests and clean-ups, handled one after
  the other by a new gate, the accepted proofs all name different challenges.
\<close>

theorem challenge_redeemed_once:
  assumes "NewPaymentGate cfg = Some pg"
    and "nonce_source (pe_mint E) minted good" and "good (nonceProvider pg)"
    and "\<And>c d. challengeHash E c = challengeHash E d \<Longrightarrow> ch_NonceUTXO c = ch_NonceUTXO d"
  shows "distinct (redeemed E ops evs pg)"
proof -
  have "pendingChallenges pg = Map.empty"
    using assms(1) by (auto simp: NewPaymentGate_def Let_def split: if_splits option.splits)
  then show ?thesis using redeemed_distinct [OF assms(2,4), of pg "{}" ops evs] assms(3) by simp
qed

definition demo_gate_cfg :: "nat WalletNonceProvider PaymentGateConfig" where
  "demo_gate_cfg = \<lparr>pg_PriceSats = 1, pg_PayeeScriptHex = hex_encode ''S'', pg_NonceProvider = Some (NewWalletNonceProvider 0),
     pg_ChallengeTTL = 0, pg_RequireMempool = False, pg_ARCClient = None, pg_Resolver = False, pg_AllowPassthrough = False,
     pg_AllowSplit = True, pg_MaxAppPriceSats = 0, pg_EndpointPrices = Map.empty\<rparr>"

theorem challenge_redeemed_once_witness:
  "redeemed demo_pay mem_ops [Serve 0 (NewEnvelopeStore [] 1 1) demo_req, Serve 1 (NewEnvelopeStore [] 1 1) demo_paid_req] demo_gate
     = [hex_encode (demo_nonce_text demo_nonce)]
   \<and> distinct (redeemed demo_pay mem_ops [Serve 0 (NewEnvelopeStore [] 1 1) demo_req,
       Serve 1 (NewEnvelopeStore [] 1 1) demo_paid_req, Serve 2 (NewEnvelopeStore [] 1 1) demo_paid_req, CleanUp 3] demo_gate)"
proof
  have g: "NewPaymentGate demo_gate_cfg = Some demo_gate" by (simp add: NewPaymentGate_def demo_gate_cfg_def demo_gate_def)
  show "distinct (redeemed demo_pay mem_ops [Serve 0 (NewEnvelopeStore [] 1 1) demo_req,
       Serve 1 (NewEnvelopeStore [] 1 1) demo_paid_req, Serve 2 (NewEnvelopeStore [] 1 1) demo_paid_req, CleanUp 3] demo_gate)"
    by (rule challenge_redeemed_once [OF g demo_good]) (auto intro: demo_collision_free)
  have h: "Header demo_paid_req ''X402-Proof'' \<noteq> []" "decodeProof demo_pay (Header demo_paid_req ''X402-Proof'') = Some (demo_proof (hex_encode (demo_nonce_text demo_nonce)))"
    using demo_forwarded lookupChallenge_Inr(1) [OF demo_lookup]
    by (auto simp: demo_paid_req_def base64Url_def b64_encode_def demo_nonce_text_def demo_nonce_def)
  show "redeemed demo_pay mem_ops [Serve 0 (NewEnvelopeStore [] 1 1) demo_req, Serve 1 (NewEnvelopeStore [] 1 1) demo_paid_req] demo_gate
     = [hex_encode (demo_nonce_text demo_nonce)]"
    by (simp add: demo_issue demo_forwarded) (simp add: redeems_def h)
qed



text \<open>
  two requests in flight redeem one challenge. \<^verbatim>\<open>verifyProof\<close> reads the challenge in one critical
  section and deletes it in another: a second request with the same proof that has read the challenge
  before the first one finishes is accepted too, although the challenge is then no longer pending.
\<close>

theorem concurrent_proofs_both_accepted:
  assumes l: "lookupChallenge E pg hdr = Inr (pf, pending)"
    and s: "settleProof E now r pf pending pg = (Inr rc, pg')"
  shows "lookupChallenge E pg' hdr = Inl ErrUnknownChallenge
    \<and> settleProof E now r pf pending pg' = (Inr rc, pg')"
proof -
  have pg': "pg' = dropChallenge (xp_ChallengeSHA256 pf) pg" by (rule settleProof_Inr(4) [OF s])
  have c: "checkPayment E (dropChallenge h pg) p pending = checkPayment E pg p pending" for h p
    unfolding checkPayment_def dropChallenge_fields ..
  have d: "dropChallenge h (dropChallenge h pg) = dropChallenge h pg" for h by (simp add: dropChallenge_def)
  have "settleProof E now r pf pending pg' = (Inr rc, pg')"
    using s unfolding pg' by (auto simp: settleProof_def Let_def c d split: sum.splits if_splits)
  moreover have "lookupChallenge E pg' hdr = Inl ErrUnknownChallenge"
    using lookupChallenge_Inr [OF l] unfolding pg' by (simp add: lookupChallenge_def)
  ultimately show ?thesis by blast
qed

theorem concurrent_proofs_both_accepted_witness:
  "let gone = dropChallenge (hex_encode (demo_nonce_text demo_nonce)) demo_pending in
   fst (settleProof demo_pay 1 demo_paid_req (demo_proof (hex_encode (demo_nonce_text demo_nonce)))
     \<lparr>pc_challenge = demo_challenge, pc_payees = nodePayees demo_gate ''/status''\<rparr> gone)
   = Inr \<lparr>rc_TxID = hex_encode [CHR 0x05, CHR ''S''], rc_Satoshis = 1, rc_Timestamp = 0\<rparr>"
  using concurrent_proofs_both_accepted [OF demo_lookup demo_settle] by (simp add: Let_def)

text \<open>
  one output can pay two payees. Each payee is searched for in all outputs, so if the node and the
  content publisher declare the same script, one output with the larger of the two amounts satisfies
  both, and the receipt states the sum.
\<close>

theorem shared_script_counted_twice:
  assumes "hex_decode s = Some sc" and "0 \<le> a" "0 \<le> b" "a < 2 ^ 62" "b < 2 ^ 62" and "gateArc pg = None"
    and "trim_space hdr \<noteq> []" and "decodePayment (trim_space hdr) = Some bts"
    and "parse_tx (pe_codec E) bts = Inr tx" and "tx_outs tx = [\<lparr>out_sats = of_int (max a b), out_script = sc\<rparr>]"
  shows "verifyDirectPayment E now pg hdr [\<lparr>Role = ''infrastructure'', LockingScriptHex = s, AmountSats = a\<rparr>,
      \<lparr>Role = ''content'', LockingScriptHex = s, AmountSats = b\<rparr>]
    = Inr \<lparr>rc_TxID = tx_id tx, rc_Satoshis = a + b, rc_Timestamp = now div 1000000000\<rparr>"
proof -
  have le: "(of_int x :: 64 word) \<le> of_int (max a b)" if "x = a \<or> x = b" for x
  proof -
    have "uint (of_int x :: 64 word) = x" "uint (of_int (max a b) :: 64 word) = max a b"
      using that assms(2-5) by (auto simp: unsigned_of_int take_bit_int_eq_self max_def)
    then show ?thesis using that by (auto simp: word_le_def)
  qed
  have "wrap64 a = a" "wrap64 (a + b) = a + b" using assms(2-5) by (auto intro!: wrap64_id)
  then have "checkPayees (tx_outs tx) [\<lparr>Role = ''infrastructure'', LockingScriptHex = s, AmountSats = a\<rparr>,
      \<lparr>Role = ''content'', LockingScriptHex = s, AmountSats = b\<rparr>] 0 = Inr (a + b)"
    using assms(1,10) le by (simp add: pays_def)
  then show ?thesis using assms by (simp add: verifyDirectPayment_def submitToARC_def Let_def)
qed

theorem shared_script_counted_twice_witness:
  "verifyDirectPayment demo_pay 0 demo_gate ''0553'' [\<lparr>Role = ''infrastructure'', LockingScriptHex = ''53'', AmountSats = 5\<rparr>,
      \<lparr>Role = ''content'', LockingScriptHex = ''53'', AmountSats = 3\<rparr>]
   = Inr \<lparr>rc_TxID = hex_encode [CHR 0x05, CHR ''S''], rc_Satoshis = 8, rc_Timestamp = 0\<rparr>"
proof -
  have d: "decodePayment (trim_space ''0553'') = Some [CHR 0x05, CHR ''S'']" "trim_space ''0553'' \<noteq> []"
    by (simp_all add: decodePayment_def trim_space_def unhex_def char_of_def bit_simps)
  have t: "parse_tx (pe_codec demo_pay) [CHR 0x05, CHR ''S''] = Inr (demo_tx [CHR 0x05, CHR ''S''])" by (simp add: demo_codec_def)
  have s: "hex_decode ''53'' = Some ''S''" by (simp add: unhex_def char_of_def bit_simps)
  have "tx_outs (demo_tx [CHR 0x05, CHR ''S'']) = [\<lparr>out_sats = of_int (max 5 3), out_script = ''S''\<rparr>]" by (simp add: demo_tx_def)
  from shared_script_counted_twice [OF s _ _ _ _ _ d(2,1) t this, of demo_gate 0]
  show ?thesis by (simp add: demo_gate_def demo_tx_def)
qed

text \<open>
  hexadecimal transactions in a proof are often misread. \<^verbatim>\<open>verifyProof\<close> tries base64 before hexadecimal,
  and hexadecimal digits are base64 digits: a transaction with an even number of bytes that is sent in
  hexadecimal is always decoded to other bytes.
\<close>

theorem hex_rawtx_shadowed:
  assumes "length b mod 2 = 0" and "b \<noteq> []"
  shows "decodeTx (hex_encode b) \<noteq> Some b"
proof -
  obtain c where "b64_decode Std (hex_encode b) = Some c" "2 * length c = 3 * length b" using b64_decode_hex [OF assms(1)] by blast
  moreover from this(2) assms(2) have "c \<noteq> b" by (cases b) auto
  ultimately show ?thesis by (simp add: decodeTx_def)
qed

theorem hex_rawtx_shadowed_witness: "decodeTx (hex_encode ''ab'') \<noteq> Some ''ab'' \<and> hex_decode (hex_encode ''ab'') = Some ''ab''"
  using hex_rawtx_shadowed [of "''ab''"] by (simp only: hex_decode_encode) simp

text \<open>
  a proof can be sent encoded or in the clear. What \<^verbatim>\<open>base64Url\<close> writes is read back as the same JSON
  text, and a JSON object that is not encoded at all is read as it stands.
\<close>

theorem proof_header_forms:
  "decodeProof E (base64Url j) = pe_proof_json E j
   \<and> (CHR 0x7B \<in> set j \<longrightarrow> decodeProof E j = pe_proof_json E j)"
proof (intro conjI impI)
  show "decodeProof E (base64Url j) = pe_proof_json E j"
    by (simp add: decodeProof_def base64Url_def b64_decode_encode)
  assume "CHR 0x7B \<in> set j"
  then have "None \<in> set (map (b64_val RawURL) (filter (\<lambda>c. c \<noteq> CHR 0x0A \<and> c \<noteq> CHR 0x0D) j))"
    by (force simp: image_iff intro: b64_val_specials(4) [symmetric])
  then show "decodeProof E j = pe_proof_json E j"
    by (simp add: decodeProof_def b64_decode_def those_None)
qed

theorem proof_header_forms_witness:
  "decodeProof demo_pay (base64Url ''{}'') = Some (demo_proof ''{}'') \<and> decodeProof demo_pay ''{}'' = Some (demo_proof ''{}'')"
  using proof_header_forms [of demo_pay "''{}''"] by simp

end
