(* ===== verification/Spv.thy ===== *)
theory Spv
  imports Header_Store Txrelay
begin

text \<open>
  \<^verbatim>\<open>internal/spv\<close>: the BEEF validator with its statistics (\<^verbatim>\<open>validate.go\<close>), the proof store (\<^verbatim>\<open>store.go\<close>)
  and the proof fetcher (\<^verbatim>\<open>fetcher.go\<close>).

  go-sdk parses BEEF and verifies its merkle proofs; the record \<open>beef_lib\<close> holds these functions, the
  locale \<open>beef_sdk\<close> what the code relies on: \<^verbatim>\<open>Verify\<close> answers yes only if the chain tracker confirms the
  root of every BUMP at its height. A parsed BEEF is the list of its BUMPs, each with height and
  computed root, and its transactions, each with the index of its BUMP if it has one.
\<close>

section \<open>The validator\<close>

record sdk_beef =
  bf_bumps :: "(uint32 \<times> bytes) list"
  bf_txs :: "(string \<times> nat option) list"

type_synonym tracker = "bytes \<Rightarrow> uint32 \<Rightarrow> dberr + bool"

record beef_lib =
  sdk_parse :: "bytes \<Rightarrow> string + sdk_beef"
  sdk_tx :: "bytes \<Rightarrow> string + sdk_tx"
  sdk_verify :: "sdk_beef \<Rightarrow> tracker \<Rightarrow> string + bool"

locale beef_sdk =
  fixes bl :: beef_lib
  assumes verify_sound: "sdk_verify bl bf tr = Inr True \<Longrightarrow> (h, root) \<in> set (bf_bumps bf) \<Longrightarrow> tr root h = Inr True"

definition ConfidenceSPVVerified :: string where "ConfidenceSPVVerified = ''spv_verified''"
definition ConfidencePartiallyVerified :: string where "ConfidencePartiallyVerified = ''partially_verified''"
definition ConfidenceUnconfirmed :: string where "ConfidenceUnconfirmed = ''unconfirmed''"
definition ConfidenceInvalid :: string where "ConfidenceInvalid = ''invalid''"

lemmas confidence_defs = ConfidenceSPVVerified_def ConfidencePartiallyVerified_def ConfidenceUnconfirmed_def ConfidenceInvalid_def

record Result =
  rs_Valid :: bool
  rs_TxID :: string
  rs_Confidence :: string
  rs_Message :: string

record ValidationStats =
  st_Total :: int
  st_Valid :: int
  st_Invalid :: int
  st_LastValidatedAt :: "int option"
  st_LastError :: string
  st_ByConfidence :: "string \<rightharpoonup> int"
  st_FailureByReason :: "string \<rightharpoonup> int"

definition NewValidator :: ValidationStats where
  "NewValidator = \<lparr>st_Total = 0, st_Valid = 0, st_Invalid = 0, st_LastValidatedAt = None, st_LastError = [],
     st_ByConfidence = Map.empty, st_FailureByReason = Map.empty\<rparr>"

definition bump_count :: "string \<Rightarrow> (string \<rightharpoonup> int) \<Rightarrow> (string \<rightharpoonup> int)" where
  "bump_count k m = m(k \<mapsto> wrap64 ((case m k of None \<Rightarrow> 0 | Some n \<Rightarrow> n) + 1))"

definition recordResult :: "int \<Rightarrow> Result \<Rightarrow> string \<Rightarrow> ValidationStats \<Rightarrow> ValidationStats" where
  "recordResult now res failureReason st =
     (let st1 = st\<lparr>st_Total := wrap64 (st_Total st + 1), st_LastValidatedAt := Some now,
                   st_ByConfidence := bump_count (rs_Confidence res) (st_ByConfidence st)\<rparr>
      in if rs_Valid res then st1\<lparr>st_Valid := wrap64 (st_Valid st1 + 1), st_LastError := []\<rparr>
         else let st2 = st1\<lparr>st_Invalid := wrap64 (st_Invalid st1 + 1), st_LastError := rs_Message res\<rparr>
              in if failureReason \<noteq> [] then st2\<lparr>st_FailureByReason := bump_count failureReason (st_FailureByReason st2)\<rparr>
                 else st2)"

definition SpvStats :: "ValidationStats \<Rightarrow> ValidationStats" where
  "SpvStats st = st"

definition judgeBEEF :: "beef_lib \<Rightarrow> tracker \<Rightarrow> bytes \<Rightarrow> Result \<times> string" where
  \<comment> \<open>the result and the failure reason that is recorded with it\<close>
  "judgeBEEF bl tr beef =
     (let invalid = (\<lambda>txid msg reason. (\<lparr>rs_Valid = False, rs_TxID = txid, rs_Confidence = ConfidenceInvalid, rs_Message = msg\<rparr>, reason));
          valid = (\<lambda>txid conf msg. (\<lparr>rs_Valid = True, rs_TxID = txid, rs_Confidence = conf, rs_Message = msg\<rparr>, []))
      in if beef = [] then invalid [] ''empty BEEF input'' ''empty_input''
         else case sdk_parse bl beef of
           Inl e \<Rightarrow> invalid [] (''parse BEEF: '' @ e) ''parse_beef''
         | Inr b \<Rightarrow>
            (case sdk_tx bl beef of
               Inl e \<Rightarrow> invalid [] (''parse transaction from BEEF: '' @ e) ''parse_transaction''
             | Inr tx \<Rightarrow>
                (let txid = tx_id tx; totalBumps = int (length (bf_bumps b)); totalTxs = int (length (bf_txs b)) in
                 if totalBumps = 0 then valid txid ConfidenceUnconfirmed (''no merkle proofs in BEEF '' @ [CHR 0xE2, CHR 0x80, CHR 0x94] @ '' fully unconfirmed ancestry'')
                 else case sdk_verify bl b tr of
                   Inl e \<Rightarrow> invalid txid (''BEEF verification: '' @ e) ''verify_error''
                 | Inr False \<Rightarrow> invalid txid ''merkle proofs did not verify against local header chain'' ''root_mismatch''
                 | Inr True \<Rightarrow>
                    (if totalBumps \<ge> totalTxs - 1
                     then valid txid ConfidenceSPVVerified (''all '' @ itoa totalBumps @ '' merkle proofs verified against local headers'')
                     else valid txid ConfidencePartiallyVerified
                       (itoa totalBumps @ '' merkle proofs verified, '' @ itoa (totalTxs - 1 - totalBumps) @ '' ancestor txs unconfirmed'')))))"

definition ValidateBEEF :: "beef_lib \<Rightarrow> tracker \<Rightarrow> int \<Rightarrow> ValidationStats \<Rightarrow> bytes \<Rightarrow> Result \<times> ValidationStats" where
  "ValidateBEEF bl tr now st beef =
     (case judgeBEEF bl tr beef of (res, reason) \<Rightarrow> (res, recordResult now res reason st))"

definition classifyConfidence :: "int \<Rightarrow> int \<Rightarrow> string" where
  "classifyConfidence totalBumps verifiedBumps =
     (if totalBumps = 0 then ConfidenceUnconfirmed
      else if verifiedBumps = totalBumps then ConfidenceSPVVerified
      else if verifiedBumps > 0 then ConfidencePartiallyVerified
      else ConfidenceUnconfirmed)"

definition confidenceMessage :: "string \<Rightarrow> int \<Rightarrow> int \<Rightarrow> string" where
  "confidenceMessage confidence verified total' =
     (if confidence = ConfidenceSPVVerified then ''all '' @ itoa verified @ '' merkle proofs verified against local headers''
      else if confidence = ConfidencePartiallyVerified
        then itoa verified @ '' of '' @ itoa total' @ '' merkle proofs verified, remainder unconfirmed''
      else if confidence = ConfidenceUnconfirmed
        then (if total' = 0 then ''no merkle proofs in BEEF '' @ [CHR 0xE2, CHR 0x80, CHR 0x94] @ '' fully unconfirmed ancestry''
              else ''merkle proofs present but could not be verified'')
      else if confidence = ConfidenceInvalid then ''BEEF validation failed''
      else [])"

section \<open>The proof store\<close>

definition prefixBeef :: bytes where "prefixBeef = ''beef:''"

datatype proof_err = ErrParseStored string | ErrStoreBEEF dberr

definition StoreBEEF :: "beef_lib \<Rightarrow> ('db, bytes) leveldb_ops \<Rightarrow> 'db \<Rightarrow> bytes \<Rightarrow> proof_err + string \<times> 'db" where
  "StoreBEEF bl ops db beef =
     (case sdk_tx bl beef of
        Inl e \<Rightarrow> Inl (ErrParseStored e)
      | Inr tx \<Rightarrow>
         (case db_put ops db (prefixBeef @ tx_id tx) beef of
            Inl e \<Rightarrow> Inl (ErrStoreBEEF e)
          | Inr db' \<Rightarrow> Inr (tx_id tx, db')))"

definition GetBEEF :: "('db, bytes) leveldb_ops \<Rightarrow> 'db \<Rightarrow> string \<Rightarrow> dberr + bytes" where
  "GetBEEF ops db txid = db_get ops db (prefixBeef @ txid)"

definition HasBEEF :: "('db, bytes) leveldb_ops \<Rightarrow> 'db \<Rightarrow> string \<Rightarrow> bool" where
  "HasBEEF ops db txid = (case db_has ops db (prefixBeef @ txid) of Inl _ \<Rightarrow> False | Inr b \<Rightarrow> b)"

definition CountBEEF :: "('db, bytes) leveldb_ops \<Rightarrow> 'db \<Rightarrow> nat" where
  "CountBEEF ops db = length (fst (db_iter ops db prefixBeef))"

section \<open>The proof fetcher\<close>

record tscProof =
  tsc_Index :: "64 word"
  tsc_TxOrID :: string
  tsc_Nodes :: "string list"

record path_element =
  pe_Offset :: "64 word"
  pe_Hash :: "bytes option"
  pe_Txid :: bool
  pe_Duplicate :: bool

fun hex_prefix :: "string \<Rightarrow> bytes" where
  \<comment> \<open>the bytes \<^verbatim>\<open>hex.DecodeString\<close> returns together with its error, which the code drops\<close>
  "hex_prefix (a # b # rest) = (case (unhex a, unhex b) of
       (Some x, Some y) \<Rightarrow> char_of (16 * x + y) # hex_prefix rest | _ \<Rightarrow> [])"
| "hex_prefix _ = []"

definition newHash :: "bytes \<Rightarrow> bytes option" where
  "newHash b = (if length b = 32 then Some b else None)"

definition tscNodeToElement :: "string \<Rightarrow> 64 word \<Rightarrow> path_element" where
  "tscNodeToElement node offset =
     (if node = ''*'' then \<lparr>pe_Offset = offset, pe_Hash = None, pe_Txid = False, pe_Duplicate = True\<rparr>
      else \<lparr>pe_Offset = offset, pe_Hash = newHash (rev (hex_prefix node)), pe_Txid = False, pe_Duplicate = False\<rparr>)"

fun tscUpper :: "string list \<Rightarrow> 64 word \<Rightarrow> path_element list list" where
  \<comment> \<open>the levels above the first\<close>
  "tscUpper [] offset = []"
| "tscUpper (n # ns) offset = [tscNodeToElement n (xor offset 1)] # tscUpper ns (offset div 2)"


definition tscPath :: "bytes option \<Rightarrow> 64 word \<Rightarrow> string list \<Rightarrow> path_element list list" where
  "tscPath txidHash index nodes =
     (case nodes of
        [] \<Rightarrow> []
      | n # ns \<Rightarrow>
         (let sibOffset = xor index 1;
              leaf = \<lparr>pe_Offset = index, pe_Hash = txidHash, pe_Txid = True, pe_Duplicate = False\<rparr>;
              sib = tscNodeToElement n sibOffset
          in (if index < sibOffset then [leaf, sib] else [sib, leaf]) # tscUpper ns (index div 2)))"

datatype get_reply = GetFailed string | GetReadFailed string | GetReply nat bytes

record 'p fetch_lib =
  fl_get :: "string \<Rightarrow> get_reply"
  fl_arc :: arc_service
  fl_info :: "bytes \<Rightarrow> int option"
  fl_tsc :: "bytes \<Rightarrow> tscProof list option"
  fl_hashFromHex :: "string \<Rightarrow> bytes option"
  fl_pathBytes :: "uint32 \<Rightarrow> path_element list list \<Rightarrow> bytes"
  fl_pathFromHex :: "string \<Rightarrow> string + 'p"
  fl_beefFromTx :: "sdk_tx \<Rightarrow> 'p \<Rightarrow> string + bytes"
  fl_codec :: tx_codec

record ProofFetcher =
  pf_arc :: "ARCClient option"
  wocBaseURL :: string

datatype fetch_err =
    ErrHTTP string | ErrRead string | ErrTxNotFound | ErrWoC nat | ErrInfo | ErrTSC | ErrNoTSC
  | ErrRawHex | ErrRawTx string | ErrUnconfirmed | ErrPath string | ErrBuild string

definition NewProofFetcher :: "ARCClient option \<Rightarrow> ProofFetcher" where
  "NewProofFetcher arc = \<lparr>pf_arc = arc, wocBaseURL = ''https://api.whatsonchain.com/v1/bsv/main''\<rparr>"

definition SetBaseURL :: "string \<Rightarrow> ProofFetcher \<Rightarrow> ProofFetcher" where
  "SetBaseURL base f = f\<lparr>wocBaseURL := base\<rparr>"

definition fetchRawTx :: "'p fetch_lib \<Rightarrow> ProofFetcher \<Rightarrow> string \<Rightarrow> fetch_err + string" where
  "fetchRawTx L f txid =
     (case fl_get L (wocBaseURL f @ ''/tx/'' @ txid @ ''/hex'') of
        GetFailed e \<Rightarrow> Inl (ErrHTTP e)
      | GetReadFailed e \<Rightarrow> Inl (ErrRead e)
      | GetReply status body \<Rightarrow>
         (if status = 404 then Inl ErrTxNotFound else if status \<noteq> 200 then Inl (ErrWoC status)
          else Inr (take (10 * 1048576) body)))"

definition fetchBlockHeight :: "'p fetch_lib \<Rightarrow> ProofFetcher \<Rightarrow> string \<Rightarrow> fetch_err + uint32" where
  "fetchBlockHeight L f txid =
     (case (case pf_arc f of None \<Rightarrow> None | Some c \<Rightarrow>
              (case QueryStatus (fl_arc L) c txid of
                 Inr resp \<Rightarrow> if arc_BlockHeight resp > 0 then Some (arc_BlockHeight resp) else None
               | Inl _ \<Rightarrow> None)) of
        Some h \<Rightarrow> Inr h
      | None \<Rightarrow>
         (case fl_get L (wocBaseURL f @ ''/tx/'' @ txid) of
            GetFailed e \<Rightarrow> Inl (ErrHTTP e)
          | GetReadFailed e \<Rightarrow> Inl (ErrRead e)
          | GetReply status body \<Rightarrow>
             (if status \<noteq> 200 then Inl (ErrWoC status)
              else case fl_info L (take 1048576 body) of
                None \<Rightarrow> Inl ErrInfo
              | Some bh \<Rightarrow> if bh \<le> 0 then Inr 0 else Inr (of_int bh))))"

definition fetchMerkleProofFromWoC :: "'p fetch_lib \<Rightarrow> ProofFetcher \<Rightarrow> string \<Rightarrow> uint32 \<Rightarrow> fetch_err + string" where
  "fetchMerkleProofFromWoC L f txid blockHeight =
     (case fl_get L (wocBaseURL f @ ''/tx/'' @ txid @ ''/proof/tsc'') of
        GetFailed e \<Rightarrow> Inl (ErrHTTP e)
      | GetReadFailed e \<Rightarrow> Inl (ErrRead e)
      | GetReply status body \<Rightarrow>
         (if status \<noteq> 200 then Inl (ErrWoC status)
          else case fl_tsc L (take 1048576 body) of
            None \<Rightarrow> Inl ErrTSC
          | Some [] \<Rightarrow> Inl ErrNoTSC
          | Some (p # _) \<Rightarrow>
             Inr (hex_encode (fl_pathBytes L blockHeight
               (tscPath (fl_hashFromHex L (tsc_TxOrID p)) (tsc_Index p) (tsc_Nodes p))))))"

definition fetchMerkleProof :: "'p fetch_lib \<Rightarrow> ProofFetcher \<Rightarrow> string \<Rightarrow> uint32 \<Rightarrow> fetch_err + string" where
  "fetchMerkleProof L f txid blockHeight =
     (case (case pf_arc f of None \<Rightarrow> None | Some c \<Rightarrow>
              (case QueryStatus (fl_arc L) c txid of
                 Inr resp \<Rightarrow> if arc_MerklePath resp \<noteq> [] then Some (arc_MerklePath resp) else None
               | Inl _ \<Rightarrow> None)) of
        Some p \<Rightarrow> Inr p
      | None \<Rightarrow> fetchMerkleProofFromWoC L f txid blockHeight)"

definition buildBEEF :: "'p fetch_lib \<Rightarrow> sdk_tx \<Rightarrow> string \<Rightarrow> fetch_err + bytes" where
  "buildBEEF L tx merklePathHex =
     (case fl_pathFromHex L merklePathHex of
        Inl e \<Rightarrow> Inl (ErrPath e)
      | Inr mp \<Rightarrow> (case fl_beefFromTx L tx mp of Inl e \<Rightarrow> Inl (ErrBuild e) | Inr b \<Rightarrow> Inr b))"

definition FetchBEEF :: "'p fetch_lib \<Rightarrow> ProofFetcher \<Rightarrow> string \<Rightarrow> fetch_err + bytes" where
  "FetchBEEF L f txid =
     (case fetchRawTx L f txid of
        Inl e \<Rightarrow> Inl e
      | Inr rawHex \<Rightarrow>
         (case hex_decode rawHex of
            None \<Rightarrow> Inl ErrRawHex
          | Some rawBytes \<Rightarrow>
             (case parse_tx (fl_codec L) rawBytes of
                Inl e \<Rightarrow> Inl (ErrRawTx e)
              | Inr tx \<Rightarrow>
                 (case fetchBlockHeight L f txid of
                    Inl e \<Rightarrow> Inl e
                  | Inr blockHeight \<Rightarrow>
                     (if blockHeight = 0 then Inl ErrUnconfirmed
                      else case fetchMerkleProof L f txid blockHeight of
                        Inl e \<Rightarrow> Inl e
                      | Inr merkleHex \<Rightarrow> buildBEEF L tx merkleHex)))))"

section \<open>Merkle roots\<close>

text \<open>
  The root a TSC proof denotes, folding its nodes from the leaf, and the root a BRC-74 path denotes,
  looking up the sibling offset on each level. \<open>H\<close> is the double SHA-256 of two concatenated nodes.
\<close>

fun tsc_root :: "(bytes \<Rightarrow> bytes) \<Rightarrow> nat \<Rightarrow> bytes \<Rightarrow> string list \<Rightarrow> bytes option" where
  "tsc_root H i w [] = Some w"
| "tsc_root H i w (n # ns) =
     (if n = ''*'' then tsc_root H (i div 2) (H (w @ w)) ns
      else case newHash (rev (hex_prefix n)) of
        None \<Rightarrow> None
      | Some s \<Rightarrow> tsc_root H (i div 2) (if odd i then H (s @ w) else H (w @ s)) ns)"

fun brc74_root :: "(bytes \<Rightarrow> bytes) \<Rightarrow> 64 word \<Rightarrow> bytes \<Rightarrow> path_element list list \<Rightarrow> bytes option" where
  "brc74_root H off w [] = Some w"
| "brc74_root H off w (lvl # lvls) =
     (case find (\<lambda>e. pe_Offset e = xor off 1) lvl of
        None \<Rightarrow> None
      | Some e \<Rightarrow>
         (if pe_Duplicate e then brc74_root H (off div 2) (H (w @ w)) lvls
          else case pe_Hash e of
            None \<Rightarrow> None
          | Some s \<Rightarrow> brc74_root H (off div 2) (if odd (unat off) then H (s @ w) else H (w @ s)) lvls))"

lemma xor_one_neq: "xor (w :: 64 word) 1 \<noteq> w"
proof
  assume "xor w 1 = w"
  then have "bit (xor w 1) 0 = bit w 0" by simp
  then show False by (simp add: bit_xor_iff)
qed

lemma tscUpper_root:
  "brc74_root H off w (tscUpper ns off) = tsc_root H (unat off) w ns"
  by (induction ns arbitrary: off w)
    (simp_all add: tscNodeToElement_def unat_div split: option.splits)

text \<open>
  C32: a WhatsOnChain proof is converted without changing what it proves. The path built from a TSC
  proof, read as BRC-74 prescribes, has exactly the root that the TSC proof denotes, for every index,
  node list (duplicates and undecodable nodes included) and transaction.
\<close>

theorem tscPath_equiv:
  "brc74_root H index txid (tscPath txidHash index nodes) = tsc_root H (unat index) txid nodes"
proof (cases nodes)
  case (Cons n ns)
  have "xor index 1 \<noteq> index" by (rule xor_one_neq)
  then show ?thesis using Cons tscUpper_root [of H "index div 2" _ ns]
    by (simp add: tscPath_def Let_def tscNodeToElement_def unat_div split: option.splits)
qed (simp add: tscPath_def)

section \<open>Verdicts\<close>

lemma judge_verified:
  assumes "rs_Confidence (fst (judgeBEEF bl tr beef)) \<in> {ConfidenceSPVVerified, ConfidencePartiallyVerified}"
  shows "rs_Valid (fst (judgeBEEF bl tr beef)) \<and> (\<exists>b. sdk_parse bl beef = Inr b \<and> bf_bumps b \<noteq> []
    \<and> sdk_verify bl b tr = Inr True)"
  using assms unfolding judgeBEEF_def Let_def
  by (auto simp: confidence_defs split: if_splits sum.splits bool.splits)

lemma judge_reason:
  "rs_Valid (fst (judgeBEEF bl tr beef)) \<longleftrightarrow> snd (judgeBEEF bl tr beef) = []"
  "rs_Valid (fst (judgeBEEF bl tr beef)) \<longleftrightarrow> rs_Confidence (fst (judgeBEEF bl tr beef)) \<noteq> ConfidenceInvalid"
  unfolding judgeBEEF_def Let_def
  by (auto simp: confidence_defs split: sum.splits bool.splits)

definition demo_beef :: sdk_beef where
  "demo_beef = \<lparr>bf_bumps = [(0, MerkleRoot demo_genesis)], bf_txs = [(''a'', Some 0), (''b'', Some 0), (''c'', None)]\<rparr>"

definition demo_beef_lib :: beef_lib where
  "demo_beef_lib = \<lparr>sdk_parse = (\<lambda>b. Inr demo_beef), sdk_tx = (\<lambda>b. Inr (demo_tx ''c'')),
     sdk_verify = (\<lambda>bf tr. Inr (list_all (\<lambda>(h, root). tr root h = Inr True) (bf_bumps bf)))\<rparr>"

interpretation demob: beef_sdk demo_beef_lib
  by unfold_locales (auto simp: demo_beef_lib_def list_all_iff)

text \<open>
  C5: an SPV verdict rests on proof of work. If the validator, reading roots from a header store
  with any history of openings, additions and rollbacks, reports a BEEF as verified, fully or partly,
  then the BEEF holds at least one merkle proof, and each one leads to the merkle root in the header at
  its height, on a chain that starts at the genesis block, is linked and meets its targets.
\<close>

theorem spv_verdict_sound:
  assumes env: "header_env ops contents w" and sdk: "beef_sdk bl"
    and "contents db0 = Map.empty" and "store_history ops w db0 s hs"
    and v: "ValidateBEEF bl (IsValidRootForHeight ops s) now st beef = (res, st')"
    and c: "rs_Confidence res \<in> {ConfidenceSPVVerified, ConfidencePartiallyVerified}"
  shows "rs_Valid res \<and> genesisHeader w = Some (hd hs) \<and> linked w (PrevBlock (hd hs)) hs
    \<and> list_all (meets_target w) (tl hs)
    \<and> (\<exists>b. sdk_parse bl beef = Inr b \<and> bf_bumps b \<noteq> []
        \<and> (\<forall>(h, root) \<in> set (bf_bumps b). unat h < length hs \<and> MerkleRoot (hs ! unat h) = root))"
proof -
  note r = header_env.history_repr [OF env assms(3,4)]
  then have rp: "repr w contents s hs" ..
  have res: "res = fst (judgeBEEF bl (IsValidRootForHeight ops s) beef)"
    using v by (simp add: ValidateBEEF_def split: prod.splits)
  with c judge_verified [of bl "IsValidRootForHeight ops s" beef] obtain b where
    b: "rs_Valid res" "sdk_parse bl beef = Inr b" "bf_bumps b \<noteq> []" "sdk_verify bl b (IsValidRootForHeight ops s) = Inr True"
    by metis
  have "unat h < length hs \<and> MerkleRoot (hs ! unat h) = root" if "(h, root) \<in> set (bf_bumps b)" for h root
    using beef_sdk.verify_sound [OF sdk b(4) that] header_env.IsValidRootForHeight_repr [OF env rp] by simp
  with b r rp show ?thesis unfolding repr_def by fast
qed

theorem spv_verdict_sound_witness:
  "\<exists>s res st'. NewStore mem_ops demo_wire [] = Inr s
     \<and> ValidateBEEF demo_beef_lib (IsValidRootForHeight mem_ops s) 0 NewValidator ''x'' = (res, st')
     \<and> rs_Confidence res = ConfidencePartiallyVerified \<and> rs_Valid res
     \<and> unat (0 :: uint32) < length [demo_genesis]"
proof -
  obtain s where s: "NewStore mem_ops demo_wire [] = Inr s" using demo_opens by blast
  have h: "store_history mem_ops demo_wire [] s [demo_genesis]"
    using s demo_genesis(1) by (rule store_history.opened)
  then have "repr demo_wire map_of s [demo_genesis]"
    using header_env.history_repr [OF demo.header_env_axioms, of "[]" s "[demo_genesis]"] by simp
  then have root: "IsValidRootForHeight mem_ops s (MerkleRoot demo_genesis) 0 = Inr True"
    using header_env.IsValidRootForHeight_repr [OF demo.header_env_axioms] by force
  define r where "r = ValidateBEEF demo_beef_lib (IsValidRootForHeight mem_ops s) 0 NewValidator ''x''"
  have c: "rs_Confidence (fst r) = ConfidencePartiallyVerified"
    using root by (simp add: r_def ValidateBEEF_def judgeBEEF_def demo_beef_lib_def demo_beef_def)
  have "ValidateBEEF demo_beef_lib (IsValidRootForHeight mem_ops s) 0 NewValidator ''x'' = (fst r, snd r)"
    by (simp add: r_def)
  from spv_verdict_sound [OF demo.header_env_axioms demob.beef_sdk_axioms _ h this] c s show ?thesis
    by (intro exI [of _ s] exI [of _ "fst r"] exI [of _ "snd r"]) (simp add: r_def)
qed

text \<open>
  A BEEF is classified by the number of its BUMPs, not by which transactions have one. Two ancestors
  in the same block share a BUMP, and a BEEF in which every ancestor is proved is then reported as
  partly verified, with an ancestor that is called unconfirmed.
\<close>

lemma shared_bump_partly_verified:
  "list_all (\<lambda>t. snd t \<noteq> None) (butlast (bf_txs demo_beef))"
  "tr (MerkleRoot demo_genesis) 0 = Inr True \<Longrightarrow>
   rs_Message (fst (ValidateBEEF demo_beef_lib tr now st ''x'')) = ''1 merkle proofs verified, 1 ancestor txs unconfirmed''"
  by (simp_all add: demo_beef_def demo_beef_lib_def ValidateBEEF_def judgeBEEF_def itoa_def digits.simps digit_def char_of_def bit_simps)

section \<open>Statistics\<close>

inductive validated :: "beef_lib \<Rightarrow> ValidationStats \<Rightarrow> (string \<Rightarrow> nat) \<Rightarrow> bool" for bl where
  \<comment> \<open>the statistics after some validations, with the number of verdicts per confidence level\<close>
  fresh: "validated bl NewValidator (\<lambda>_. 0)"
| next_beef: "validated bl st n \<Longrightarrow> ValidateBEEF bl tr now st beef = (res, st')
    \<Longrightarrow> validated bl st' (n(rs_Confidence res := Suc (n (rs_Confidence res))))"

definition read_count :: "(string \<rightharpoonup> int) \<Rightarrow> string \<Rightarrow> int" where
  "read_count m k = (case m k of None \<Rightarrow> 0 | Some n \<Rightarrow> n)"

lemma read_bump_count: "read_count (bump_count k m) c = (if c = k then wrap64 (read_count m k + 1) else read_count m c)"
  by (simp add: read_count_def bump_count_def)

definition stats_inv :: "ValidationStats \<Rightarrow> (string \<Rightarrow> nat) \<Rightarrow> bool" where
  "stats_inv st n \<longleftrightarrow> st_Total st = wrap64 (st_Valid st + st_Invalid st)
     \<and> st_Invalid st = wrap64 (int (n ConfidenceInvalid))
     \<and> (\<forall>c. read_count (st_ByConfidence st) c = wrap64 (int (n c)))"

lemma wrap64_cong: "x mod 2 ^ 64 = y mod 2 ^ 64 \<Longrightarrow> wrap64 x = wrap64 y"
  unfolding wrap64_def by (metis mod_add_left_eq)

lemma wrap64_mod: "wrap64 x mod 2 ^ 64 = x mod 2 ^ 64"
  by (simp add: wrap64_def mod_diff_left_eq)

lemma wrap64_add: "wrap64 (wrap64 a + b) = wrap64 (a + b)" "wrap64 (a + wrap64 b) = wrap64 (a + b)"
  by (rule wrap64_cong, metis mod_add_left_eq wrap64_mod) (rule wrap64_cong, metis mod_add_right_eq wrap64_mod)

lemma wrap64_add3: "wrap64 (a + (b + wrap64 c)) = wrap64 (a + (b + c))"
  using wrap64_add(2) [of "a + b" c] by (simp add: add.assoc)

lemma recordResult_inv:
  assumes "stats_inv st n" and "rs_Valid res \<longleftrightarrow> rs_Confidence res \<noteq> ConfidenceInvalid"
  shows "stats_inv (recordResult now res reason st) (n(rs_Confidence res := Suc (n (rs_Confidence res))))"
proof -
  have "wrap64 (wrap64 (int k) + 1) = wrap64 (int (Suc k))" for k by (simp add: wrap64_add add.commute)
  with assms show ?thesis
    by (auto simp: stats_inv_def recordResult_def Let_def read_bump_count wrap64_add wrap64_add3 algebra_simps)
qed

text \<open>
  the statistics an operator sees add up. After any sequence of validations the total is the sum
  of valid and invalid verdicts, the counter of every confidence level is the number of verdicts with
  that level, and the invalid counter is the counter of level \<^verbatim>\<open>invalid\<close>, each as a 64-bit integer.
\<close>

theorem spv_stats_consistent:
  assumes "validated bl st n"
  shows "st_Total (SpvStats st) = wrap64 (st_Valid (SpvStats st) + st_Invalid (SpvStats st))
    \<and> st_Invalid (SpvStats st) = wrap64 (int (n ConfidenceInvalid))
    \<and> read_count (st_ByConfidence (SpvStats st)) c = wrap64 (int (n c))"
proof -
  from assms have "stats_inv st n"
  proof induction
    case fresh
    then show ?case by (simp add: stats_inv_def NewValidator_def read_count_def wrap64_def)
  next
    case (next_beef st n tr now beef res st')
    from next_beef(2) have "res = fst (judgeBEEF bl tr beef)" "st' = recordResult now res (snd (judgeBEEF bl tr beef)) st"
      by (auto simp: ValidateBEEF_def split: prod.splits)
    with recordResult_inv [OF next_beef.IH] judge_reason(2) show ?case by metis
  qed
  then show ?thesis by (simp add: stats_inv_def SpvStats_def)
qed

theorem spv_stats_consistent_witness:
  "st_Total (SpvStats (snd (ValidateBEEF demo_beef_lib (\<lambda>_ _. Inr True) 0 NewValidator []))) = 1
   \<and> st_Invalid (SpvStats (snd (ValidateBEEF demo_beef_lib (\<lambda>_ _. Inr True) 0 NewValidator []))) = 1"
proof -
  define p where "p = ValidateBEEF demo_beef_lib (\<lambda>_ _. Inr True) 0 NewValidator []"
  have p: "ValidateBEEF demo_beef_lib (\<lambda>_ _. Inr True) 0 NewValidator [] = (fst p, snd p)" by (simp add: p_def)
  have c: "rs_Confidence (fst p) = ConfidenceInvalid" "st_Valid (snd p) = 0"
    by (simp_all add: p_def ValidateBEEF_def judgeBEEF_def recordResult_def Let_def NewValidator_def)
  from spv_stats_consistent [OF validated.next_beef [OF validated.fresh p]] c show ?thesis
    unfolding p_def [symmetric] by (simp add: SpvStats_def wrap64_def)
qed

section \<open>The store keeps what it is given\<close>

text \<open>
  a stored proof is found again under its transaction id and no other entry changes: after
  \<^verbatim>\<open>StoreBEEF\<close> returns a txid, \<^verbatim>\<open>GetBEEF\<close> with that txid returns the bytes that were stored, \<^verbatim>\<open>HasBEEF\<close>
  is true, and \<^verbatim>\<open>GetBEEF\<close> of every other id is as before.
\<close>

theorem StoreBEEF_GetBEEF:
  assumes db: "leveldb ops contents" and s: "StoreBEEF bl ops d beef = Inr (txid, d')"
  shows "GetBEEF ops d' txid = Inr beef \<and> HasBEEF ops d' txid
    \<and> (other \<noteq> txid \<longrightarrow> GetBEEF ops d' other = GetBEEF ops d other)"
proof -
  from s have p: "db_put ops d (prefixBeef @ txid) beef = Inr d'"
    by (auto simp: StoreBEEF_def split: sum.splits)
  show ?thesis
    using leveldb.put_get [OF db p] leveldb.put_spec [OF db p]
    by (simp add: GetBEEF_def HasBEEF_def leveldb.has_spec [OF db])
qed

theorem StoreBEEF_GetBEEF_witness:
  "\<exists>d'. StoreBEEF demo_beef_lib mem_ops [] ''x'' = Inr (tx_id (demo_tx ''c''), d') \<and> GetBEEF mem_ops d' (tx_id (demo_tx ''c'')) = Inr ''x''"
proof -
  have "StoreBEEF demo_beef_lib mem_ops [] ''x'' = Inr (tx_id (demo_tx ''c''), [(prefixBeef @ tx_id (demo_tx ''c''), ''x'')])"
    by (simp add: StoreBEEF_def demo_beef_lib_def mem_ops_def)
  with StoreBEEF_GetBEEF [OF mem.leveldb_axioms this] show ?thesis by blast
qed

end
