(* ===== verification/Brc.thy ===== *)
theory Brc
  imports Directory Txrelay
begin

text \<open>
  Overlay identities: \<^verbatim>\<open>pkg/brc\<close> (key derivation, push-drop scripts, SHIP and SLAP tokens) and the
  parts of \<^verbatim>\<open>internal/overlay\<close> that feed tokens into the directory (\<^verbatim>\<open>discover.go\<close>, \<^verbatim>\<open>bootstrap.go\<close>,
  \<^verbatim>\<open>junglebus.go\<close>).

  Keys, BRC-42 derivation, script assembly and \<^verbatim>\<open>pushdrop.Decode\<close> belong to go-sdk: record \<open>brc_lib\<close>. The
  locale \<open>brc_sdk\<close> states what the code relies on: private and public derivation agree for the
  \<^emph>\<open>anyone\<close> counterparty, a compressed key parses to itself, and decoding inverts the assembly of a
  lock-before push-drop script whose drops take off exactly its fields. Fields of fewer than two bytes
  are excluded there, since their minimal encoding need not be a data push.
\<close>

section \<open>Tokens\<close>

record script_chunk =
  Op :: nat
  Data :: bytes

record ('sk, 'pk) brc_lib =
  bl_PubKey :: "'sk \<Rightarrow> 'pk"
  bl_Compressed :: "'pk \<Rightarrow> bytes"
  bl_PublicKeyFromBytes :: "bytes \<Rightarrow> string + 'pk"
  bl_derivePriv :: "'sk \<Rightarrow> 'pk \<Rightarrow> string \<Rightarrow> string + 'sk"
  bl_derivePub :: "'pk \<Rightarrow> 'sk \<Rightarrow> string \<Rightarrow> string + 'pk"
  bl_AnyoneKey :: "'sk \<times> 'pk"
  bl_decode :: "bytes \<Rightarrow> ('pk \<times> bytes list) option"
  bl_minimalChunk :: "bytes \<Rightarrow> script_chunk"
  bl_scriptFromOps :: "script_chunk list \<Rightarrow> string + bytes"
  bl_ProtocolIDSHIP :: string
  bl_ProtocolIDSLAP :: string

definition OpCHECKSIG :: nat where "OpCHECKSIG = 0xac"
definition Op2DROP :: nat where "Op2DROP = 0x6d"
definition OpDROP :: nat where "OpDROP = 0x75"

definition DeriveChild :: "('sk, 'pk) brc_lib \<Rightarrow> 'sk \<Rightarrow> 'pk \<Rightarrow> string \<Rightarrow> string + 'sk" where
  "DeriveChild L identityKey counterpartyPub invoice = bl_derivePriv L identityKey counterpartyPub invoice"

definition AnyonePub :: "('sk, 'pk) brc_lib \<Rightarrow> 'pk" where
  "AnyonePub L = snd (bl_AnyoneKey L)"

definition AnyonePriv :: "('sk, 'pk) brc_lib \<Rightarrow> 'sk" where
  "AnyonePriv L = fst (bl_AnyoneKey L)"

definition DeriveChildPub :: "('sk, 'pk) brc_lib \<Rightarrow> 'pk \<Rightarrow> string \<Rightarrow> string + 'pk" where
  "DeriveChildPub L identityPub invoice = bl_derivePub L identityPub (fst (bl_AnyoneKey L)) invoice"

definition InvoiceSHIP :: "('sk, 'pk) brc_lib \<Rightarrow> string" where
  "InvoiceSHIP L = ''2-'' @ bl_ProtocolIDSHIP L @ ''-1''"

definition InvoiceSLAP :: "('sk, 'pk) brc_lib \<Rightarrow> string" where
  "InvoiceSLAP L = ''2-'' @ bl_ProtocolIDSLAP L @ ''-1''"

definition InvoiceHandshake :: string where
  "InvoiceHandshake = ''2-relay-handshake-1''"

datatype token_err =
    ErrPushDrop | ErrProtocol string | ErrIdentityHex | ErrIdentityKey string | ErrDeriveChild string
  | ErrLockingKey | ErrScript string | ErrTooFewFields

record 'pk TokenFields =
  tf_Protocol :: string
  tf_IdentityPub :: string
  tf_Domain :: string
  tf_TopicProvider :: string
  tf_LockingPub :: 'pk

definition ParseTokenScript :: "('sk, 'pk) brc_lib \<Rightarrow> bytes \<Rightarrow> token_err + 'pk TokenFields" where
  "ParseTokenScript L s =
     (case bl_decode L s of
        None \<Rightarrow> Inl ErrPushDrop
      | Some (lock, flds) \<Rightarrow>
         (case flds of
            a # b # c # d # _ \<Rightarrow> Inr \<lparr>tf_Protocol = a, tf_IdentityPub = b, tf_Domain = c, tf_TopicProvider = d, tf_LockingPub = lock\<rparr>
          | _ \<Rightarrow> Inl ErrTooFewFields))"

fun dropOps :: "nat \<Rightarrow> script_chunk list" where
  "dropOps remaining =
     (if remaining > 1 then \<lparr>Op = Op2DROP, Data = []\<rparr> # dropOps (remaining - 2)
      else if remaining > 0 then [\<lparr>Op = OpDROP, Data = []\<rparr>] else [])"

declare dropOps.simps [simp del]

definition buildPushDropScript :: "('sk, 'pk) brc_lib \<Rightarrow> 'pk \<Rightarrow> bytes list \<Rightarrow> token_err + bytes" where
  "buildPushDropScript L lockingPub flds =
     (let pubBytes = bl_Compressed L lockingPub in
      case bl_scriptFromOps L ([\<lparr>Op = length pubBytes mod 256, Data = pubBytes\<rparr>, \<lparr>Op = OpCHECKSIG, Data = []\<rparr>]
          @ map (bl_minimalChunk L) flds @ dropOps (length flds)) of
        Inl e \<Rightarrow> Inl (ErrScript e)
      | Inr s \<Rightarrow> Inr s)"

record 'pk SHIPToken =
  st_IdentityPub :: string
  st_Domain :: string
  st_Topic :: string
  st_LockingPub :: 'pk

definition ParseSHIPScript :: "('sk, 'pk) brc_lib \<Rightarrow> bytes \<Rightarrow> token_err + 'pk SHIPToken" where
  "ParseSHIPScript L scriptBytes =
     (case bl_decode L scriptBytes of
        Some (lock, a # b # c # d # _) \<Rightarrow>
          (if a \<noteq> ''SHIP'' then Inl (ErrProtocol a)
           else Inr \<lparr>st_IdentityPub = hex_encode b, st_Domain = c, st_Topic = d, st_LockingPub = lock\<rparr>)
      | _ \<Rightarrow> Inl ErrPushDrop)"

definition checkDerivation :: "('sk, 'pk) brc_lib \<Rightarrow> string \<Rightarrow> string \<Rightarrow> 'pk \<Rightarrow> token_err + unit" where
  \<comment> \<open>the body that both validations share: identity key, derivation, comparison with the locking key\<close>
  "checkDerivation L invoice identityHex lockingPub =
     (case hex_decode identityHex of
        None \<Rightarrow> Inl ErrIdentityHex
      | Some identityPubBytes \<Rightarrow>
         (case bl_PublicKeyFromBytes L identityPubBytes of
            Inl e \<Rightarrow> Inl (ErrIdentityKey e)
          | Inr identityPub \<Rightarrow>
             (case DeriveChildPub L identityPub invoice of
                Inl e \<Rightarrow> Inl (ErrDeriveChild e)
              | Inr expectedPub \<Rightarrow>
                 (if bl_Compressed L expectedPub \<noteq> bl_Compressed L lockingPub then Inl ErrLockingKey else Inr ()))))"

definition ValidateSHIPToken :: "('sk, 'pk) brc_lib \<Rightarrow> bytes \<Rightarrow> token_err + 'pk SHIPToken" where
  "ValidateSHIPToken L scriptBytes =
     (case ParseSHIPScript L scriptBytes of
        Inl e \<Rightarrow> Inl e
      | Inr token \<Rightarrow>
         (case checkDerivation L (InvoiceSHIP L) (st_IdentityPub token) (st_LockingPub token) of
            Inl e \<Rightarrow> Inl e | Inr _ \<Rightarrow> Inr token))"

definition BuildSHIPScript :: "('sk, 'pk) brc_lib \<Rightarrow> 'sk \<Rightarrow> string \<Rightarrow> string \<Rightarrow> token_err + bytes \<times> 'pk" where
  "BuildSHIPScript L identityKey domain topic =
     (case bl_derivePriv L identityKey (AnyonePub L) (InvoiceSHIP L) of
        Inl e \<Rightarrow> Inl (ErrDeriveChild e)
      | Inr lockingKey \<Rightarrow>
         (let lockingPub = bl_PubKey L lockingKey in
          case buildPushDropScript L lockingPub [''SHIP'', bl_Compressed L (bl_PubKey L identityKey), domain, topic] of
            Inl e \<Rightarrow> Inl e
          | Inr s \<Rightarrow> Inr (s, lockingPub)))"

record 'pk SLAPToken =
  sl_IdentityPub :: string
  sl_Domain :: string
  sl_Provider :: string
  sl_LockingPub :: 'pk

definition ParseSLAPScript :: "('sk, 'pk) brc_lib \<Rightarrow> bytes \<Rightarrow> token_err + 'pk SLAPToken" where
  "ParseSLAPScript L scriptBytes =
     (case bl_decode L scriptBytes of
        Some (lock, a # b # c # d # _) \<Rightarrow>
          (if a \<noteq> ''SLAP'' then Inl (ErrProtocol a)
           else Inr \<lparr>sl_IdentityPub = hex_encode b, sl_Domain = c, sl_Provider = d, sl_LockingPub = lock\<rparr>)
      | _ \<Rightarrow> Inl ErrPushDrop)"

definition ValidateSLAPToken :: "('sk, 'pk) brc_lib \<Rightarrow> bytes \<Rightarrow> token_err + 'pk SLAPToken" where
  "ValidateSLAPToken L scriptBytes =
     (case ParseSLAPScript L scriptBytes of
        Inl e \<Rightarrow> Inl e
      | Inr token \<Rightarrow>
         (case checkDerivation L (InvoiceSLAP L) (sl_IdentityPub token) (sl_LockingPub token) of
            Inl e \<Rightarrow> Inl e | Inr _ \<Rightarrow> Inr token))"

definition BuildSLAPScript :: "('sk, 'pk) brc_lib \<Rightarrow> 'sk \<Rightarrow> string \<Rightarrow> string \<Rightarrow> token_err + bytes \<times> 'pk" where
  "BuildSLAPScript L identityKey domain provider =
     (case bl_derivePriv L identityKey (AnyonePub L) (InvoiceSLAP L) of
        Inl e \<Rightarrow> Inl (ErrDeriveChild e)
      | Inr lockingKey \<Rightarrow>
         (let lockingPub = bl_PubKey L lockingKey in
          case buildPushDropScript L lockingPub [''SLAP'', bl_Compressed L (bl_PubKey L identityKey), domain, provider] of
            Inl e \<Rightarrow> Inl e
          | Inr s \<Rightarrow> Inr (s, lockingPub)))"

section \<open>Feeding the directory\<close>

text \<open>
  \<^verbatim>\<open>AddSHIPPeer\<close> validates the script again; \<open>as_text\<close> hands it the validation as the parameter it has.
  The log line of \<^verbatim>\<open>ProcessSHIPScript\<close> slices the identity to 16 characters.
\<close>

definition as_text :: "token_err + 'a \<Rightarrow> string + 'a" where
  "as_text r = (case r of Inl e \<Rightarrow> Inl ''invalid token'' | Inr t \<Rightarrow> Inr t)"

datatype process_err = TokenErr token_err | DirErr dir_err | PanicSlice16

definition ProcessSHIPScript :: "('sk, 'pk) brc_lib \<Rightarrow> ('db, dir_value) leveldb_ops \<Rightarrow> int \<Rightarrow> 'db directory
    \<Rightarrow> bytes \<Rightarrow> string \<Rightarrow> int \<Rightarrow> process_err + 'db directory" where
  "ProcessSHIPScript L ops now d scriptBytes txid outputIndex =
     (case ValidateSHIPToken L scriptBytes of
        Inl e \<Rightarrow> Inl (TokenErr e)
      | Inr token \<Rightarrow>
         (let entry = \<lparr>pe_IdentityPub = st_IdentityPub token, pe_Domain = st_Domain token, pe_NodeName = [],
                pe_Version = [], pe_Topic = st_Topic token, pe_TxID = txid, pe_OutputIndex = outputIndex,
                pe_DiscoveredAt = Some now, pe_LastSeen = None\<rparr>
          in case AddSHIPPeer ops (as_text \<circ> ValidateSHIPToken L) now d entry scriptBytes of
               Inl e \<Rightarrow> Inl (DirErr e)
             | Inr d' \<Rightarrow> if length (st_IdentityPub token) < 16 then Inl PanicSlice16 else Inr d'))"

definition ProcessSLAPScript :: "('sk, 'pk) brc_lib \<Rightarrow> ('db, dir_value) leveldb_ops \<Rightarrow> int \<Rightarrow> 'db directory
    \<Rightarrow> bytes \<Rightarrow> string \<Rightarrow> int \<Rightarrow> process_err + 'db directory" where
  "ProcessSLAPScript L ops now d scriptBytes txid outputIndex =
     (case ValidateSLAPToken L scriptBytes of
        Inl e \<Rightarrow> Inl (TokenErr e)
      | Inr token \<Rightarrow>
         (let entry = \<lparr>pr_IdentityPub = sl_IdentityPub token, pr_Domain = sl_Domain token,
                pr_Provider = sl_Provider token, pr_TxID = txid, pr_OutputIndex = outputIndex,
                pr_DiscoveredAt = Some now\<rparr>
          in case AddSLAPProvider ops (as_text \<circ> ValidateSLAPToken L) d entry scriptBytes of
               Inl e \<Rightarrow> Inl (DirErr e)
             | Inr d' \<Rightarrow> if length (sl_IdentityPub token) < 16 then Inl PanicSlice16 else Inr d'))"

definition DiscoverPeersForTopic :: "('db, dir_value) leveldb_ops \<Rightarrow> 'db directory \<Rightarrow> string
    \<Rightarrow> PeerEntry list \<times> dberr option" where
  "DiscoverPeersForTopic ops d topic = LookupSHIPByTopic ops d topic"

definition bootstrapTopic :: "('sk, 'pk) brc_lib \<Rightarrow> ('db, dir_value) leveldb_ops \<Rightarrow> int \<Rightarrow> 'sk \<Rightarrow> string \<Rightarrow> string
    \<Rightarrow> string \<Rightarrow> string \<Rightarrow> 'db directory \<Rightarrow> 'db directory" where
  \<comment> \<open>one round of the loop; failures are logged and skipped\<close>
  "bootstrapTopic L ops now identityKey domain nodeName version topic d =
     (case BuildSHIPScript L identityKey domain topic of
        Inl _ \<Rightarrow> d
      | Inr (scriptBytes, _) \<Rightarrow>
         (let entry = \<lparr>pe_IdentityPub = hex_encode (bl_Compressed L (bl_PubKey L identityKey)), pe_Domain = domain,
                pe_NodeName = nodeName, pe_Version = version, pe_Topic = topic, pe_TxID = ''self-registered'',
                pe_OutputIndex = 0, pe_DiscoveredAt = Some now, pe_LastSeen = None\<rparr>
          in case AddSHIPPeer ops (as_text \<circ> ValidateSHIPToken L) now d entry scriptBytes of
               Inl _ \<Rightarrow> d | Inr d' \<Rightarrow> d'))"

definition Bootstrap :: "('sk, 'pk) brc_lib \<Rightarrow> ('db, dir_value) leveldb_ops \<Rightarrow> int \<Rightarrow> 'db directory \<Rightarrow> 'sk \<Rightarrow> string
    \<Rightarrow> string \<Rightarrow> string \<Rightarrow> string list \<Rightarrow> 'db directory" where
  "Bootstrap L ops now d identityKey domain nodeName version topics =
     fold (bootstrapTopic L ops now identityKey domain nodeName version) topics d"

definition processOutput :: "('sk, 'pk) brc_lib \<Rightarrow> ('db, dir_value) leveldb_ops \<Rightarrow> int \<Rightarrow> string \<Rightarrow> nat \<times> sdk_output
    \<Rightarrow> 'db directory \<Rightarrow> 'db directory" where
  "processOutput L ops now txid io d =
     (case io of (i, out) \<Rightarrow>
       (case bl_decode L (out_script out) of
          Some (_, protocol # _ # _ # _ # _) \<Rightarrow>
            (case (if protocol = ''SHIP'' then ProcessSHIPScript L ops now d (out_script out) txid (int i)
                   else if protocol = ''SLAP'' then ProcessSLAPScript L ops now d (out_script out) txid (int i)
                   else Inr d) of
               Inl _ \<Rightarrow> d | Inr d' \<Rightarrow> d')
        | _ \<Rightarrow> d))"

definition onTransaction :: "('sk, 'pk) brc_lib \<Rightarrow> tx_codec \<Rightarrow> ('db, dir_value) leveldb_ops \<Rightarrow> int \<Rightarrow> bytes
    \<Rightarrow> 'db directory \<Rightarrow> 'db directory" where
  "onTransaction L lib ops now rawTx d =
     (if rawTx = [] then d
      else case parse_tx lib rawTx of
        Inl _ \<Rightarrow> d
      | Inr tx \<Rightarrow> fold (processOutput L ops now (tx_id tx)) (enumerate 0 (tx_outs tx)) d)"

section \<open>The contract of go-sdk\<close>

fun drop_count :: "script_chunk list \<Rightarrow> nat" where
  "drop_count [] = 0"
| "drop_count (c # cs) = (if Op c = Op2DROP then 2 else 1) + drop_count cs"

definition all_drops :: "script_chunk list \<Rightarrow> bool" where
  "all_drops cs \<longleftrightarrow> list_all (\<lambda>c. Op c \<in> {Op2DROP, OpDROP} \<and> Data c = []) cs"

locale brc_sdk =
  fixes L :: "('sk, 'pk) brc_lib"
  assumes derive_agree: "bl_derivePriv L sk (snd (bl_AnyoneKey L)) ivc = Inr child \<Longrightarrow>
      bl_derivePub L (bl_PubKey L sk) (fst (bl_AnyoneKey L)) ivc = Inr (bl_PubKey L child)"
    and key_bytes: "bl_PublicKeyFromBytes L (bl_Compressed L pk) = Inr pk"
    and key_length: "bl_PublicKeyFromBytes L b = Inr pk \<Longrightarrow> length b \<ge> 33"
    and decode_assembled: "bl_scriptFromOps L ([\<lparr>Op = n, Data = bl_Compressed L pk\<rparr>, \<lparr>Op = OpCHECKSIG, Data = []\<rparr>]
        @ map (bl_minimalChunk L) flds @ drops) = Inr s \<Longrightarrow> n = length (bl_Compressed L pk) mod 256 \<Longrightarrow>
      list_all (\<lambda>f. length f \<ge> 2) flds \<Longrightarrow> all_drops drops \<Longrightarrow> drop_count drops = length flds \<Longrightarrow>
      bl_decode L s = Some (pk, flds)"
begin

lemma compressed_length: "length (bl_Compressed L pk) \<ge> 33"
  by (rule key_length [OF key_bytes])

lemma dropOps_drops: "all_drops (dropOps n) \<and> drop_count (dropOps n) = n"
proof (induction n rule: dropOps.induct)
  case (1 n)
  then show ?case
    by (subst (1 2) dropOps.simps) (auto simp: all_drops_def Op2DROP_def OpDROP_def)
qed

lemma decode_built:
  "buildPushDropScript L pk flds = Inr s \<Longrightarrow> list_all (\<lambda>f. length f \<ge> 2) flds \<Longrightarrow> bl_decode L s = Some (pk, flds)"
  unfolding buildPushDropScript_def Let_def
  using decode_assembled dropOps_drops by (auto split: sum.splits)

lemma checkDerivation_own:
  assumes "bl_derivePriv L sk (AnyonePub L) ivc = Inr child"
  shows "checkDerivation L ivc (hex_encode (bl_Compressed L (bl_PubKey L sk))) (bl_PubKey L child) = Inr ()"
  using assms derive_agree by (simp add: checkDerivation_def DeriveChildPub_def AnyonePub_def key_bytes)

lemma checkDerivation_key:
  assumes "checkDerivation L ivc ident lock = Inr ()"
  shows "\<exists>b pk child. hex_decode ident = Some b \<and> bl_PublicKeyFromBytes L b = Inr pk
    \<and> DeriveChildPub L pk ivc = Inr child \<and> bl_Compressed L child = bl_Compressed L lock"
  using assms by (auto simp: checkDerivation_def split: option.splits sum.splits if_splits)

lemma Compressed_inject: "bl_Compressed L a = bl_Compressed L b \<longleftrightarrow> a = b"
  by (metis key_bytes sum.inject(2))

end

text \<open>
  A concrete library: keys are strings, derivation appends the invoice, a script is the list of its
  chunks with data bytes marked.
\<close>

definition demo_chunk_bytes :: "script_chunk \<Rightarrow> bytes" where
  "demo_chunk_bytes c = char_of (Op c) # concat (map (\<lambda>x. [CHR ''x'', x]) (Data c)) @ ''.''"

fun demo_data :: "bytes \<Rightarrow> bytes \<times> bytes" where
  "demo_data (a # b # rest) = (if a = CHR ''x'' then (case demo_data rest of (d, r) \<Rightarrow> (b # d, r)) else ([], b # rest))"
| "demo_data _ = ([], [])"

lemma demo_data_shorter: "length (snd (demo_data s)) \<le> length s"
  by (induction s rule: demo_data.induct) (auto split: prod.splits)

function demo_chunks :: "bytes \<Rightarrow> script_chunk list" where
  "demo_chunks [] = []"
| "demo_chunks (c # s) = \<lparr>Op = of_char c, Data = fst (demo_data s)\<rparr> # demo_chunks (snd (demo_data s))"
  by pat_completeness auto

termination
  by (relation "measure length") (auto simp: le_imp_less_Suc demo_data_shorter)

lemma demo_data_chunk: "demo_data (concat (map (\<lambda>x. [CHR ''x'', x]) d) @ CHR ''.'' # rest) = (d, rest)"
  by (induction d) (simp_all, cases rest, simp_all)

lemma demo_chunks_bytes:
  "list_all (\<lambda>c. Op c < 256) cs \<Longrightarrow> demo_chunks (concat (map demo_chunk_bytes cs)) = cs"
  by (induction cs) (simp_all add: demo_chunk_bytes_def demo_data_chunk)

definition demo_brc :: "(string, string) brc_lib" where
  "demo_brc = \<lparr>bl_PubKey = (\<lambda>k. k), bl_Compressed = (\<lambda>p. replicate 33 (CHR ''p'') @ p),
     bl_PublicKeyFromBytes = (\<lambda>b. if take 33 b = replicate 33 (CHR ''p'') then Inr (drop 33 b) else Inl ''bad key''),
     bl_derivePriv = (\<lambda>k p ivc. Inr (k @ ivc)), bl_derivePub = (\<lambda>p k ivc. Inr (p @ ivc)),
     bl_AnyoneKey = (''1'', ''1''),
     bl_decode = (\<lambda>s. case demo_chunks s of
        c # _ # rest \<Rightarrow> Some (drop 33 (Data c), map Data (takeWhile (\<lambda>c. Op c = 1) rest)) | _ \<Rightarrow> None),
     bl_minimalChunk = (\<lambda>f. \<lparr>Op = 1, Data = f\<rparr>),
     bl_scriptFromOps = (\<lambda>cs. Inr (concat (map demo_chunk_bytes cs))),
     bl_ProtocolIDSHIP = ''service host interconnect'', bl_ProtocolIDSLAP = ''service lookup availability''\<rparr>"

interpretation demobrc: brc_sdk demo_brc
proof
  fix n pk and flds :: "bytes list" and drops s
  assume s: "bl_scriptFromOps demo_brc ([\<lparr>Op = n, Data = bl_Compressed demo_brc pk\<rparr>, \<lparr>Op = OpCHECKSIG, Data = []\<rparr>]
        @ map (bl_minimalChunk demo_brc) flds @ drops) = Inr s"
    and n: "n = length (bl_Compressed demo_brc pk) mod 256" and d: "all_drops drops"
  let ?cs = "[\<lparr>Op = n, Data = bl_Compressed demo_brc pk\<rparr>, \<lparr>Op = OpCHECKSIG, Data = []\<rparr>]
        @ map (bl_minimalChunk demo_brc) flds @ drops"
  have "list_all (\<lambda>c. Op c < 256) ?cs"
    using n d by (auto simp: demo_brc_def all_drops_def list_all_iff OpCHECKSIG_def Op2DROP_def OpDROP_def)
  then have "demo_chunks (concat (map demo_chunk_bytes ?cs)) = ?cs" by (rule demo_chunks_bytes)
  moreover have "s = concat (map demo_chunk_bytes ?cs)" using s by (simp add: demo_brc_def)
  moreover have "takeWhile (\<lambda>c. Op c = Suc 0) drops = []"
    using d by (cases drops) (auto simp: all_drops_def Op2DROP_def OpDROP_def)
  then have fl: "map Data (takeWhile (\<lambda>c. Op c = Suc 0) (map (\<lambda>f. \<lparr>Op = Suc 0, Data = f\<rparr>) flds @ drops)) = flds"
    by (induction flds) simp_all
  ultimately show "bl_decode demo_brc s = Some (pk, flds)"
    using fl by (simp add: demo_brc_def comp_def)
qed (auto simp: demo_brc_def split: if_splits dest: arg_cong [where f = length])

section \<open>Properties\<close>

lemma built_SHIP_valid:
  assumes sdk: "brc_sdk L" and b: "BuildSHIPScript L identityKey domain topic = Inr (s, lockingPub)"
    and len: "length domain \<ge> 2" "length topic \<ge> 2"
  shows "bl_decode L s = Some (lockingPub, [''SHIP'', bl_Compressed L (bl_PubKey L identityKey), domain, topic])
    \<and> ValidateSHIPToken L s = Inr \<lparr>st_IdentityPub = hex_encode (bl_Compressed L (bl_PubKey L identityKey)),
     st_Domain = domain, st_Topic = topic, st_LockingPub = lockingPub\<rparr>"
proof -
  have c: "length (bl_Compressed L p) \<ge> 2" for p using brc_sdk.compressed_length [OF sdk, of p] by simp
  from b obtain k where k: "bl_derivePriv L identityKey (AnyonePub L) (InvoiceSHIP L) = Inr k" "lockingPub = bl_PubKey L k"
    and p: "buildPushDropScript L lockingPub [''SHIP'', bl_Compressed L (bl_PubKey L identityKey), domain, topic] = Inr s"
    by (auto simp: BuildSHIPScript_def Let_def split: sum.splits)
  have d: "bl_decode L s = Some (lockingPub, [''SHIP'', bl_Compressed L (bl_PubKey L identityKey), domain, topic])"
    using brc_sdk.decode_built [OF sdk p] c len by simp
  then show ?thesis
    using brc_sdk.checkDerivation_own [OF sdk k(1)] k(2)
    by (simp add: ValidateSHIPToken_def ParseSHIPScript_def)
qed

text \<open>
  a node's own registration is a valid token. The script that \<^verbatim>\<open>BuildSHIPScript\<close> assembles for an
  identity key validates, and validation reads back the identity, domain and topic it was built from
  and the derived locking key. The domain and the topic have at least two characters.
\<close>

theorem SHIP_build_validate:
  assumes sdk: "brc_sdk L" and b: "BuildSHIPScript L identityKey domain topic = Inr (s, lockingPub)"
    and len: "length domain \<ge> 2" "length topic \<ge> 2"
  shows "ValidateSHIPToken L s = Inr \<lparr>st_IdentityPub = hex_encode (bl_Compressed L (bl_PubKey L identityKey)),
     st_Domain = domain, st_Topic = topic, st_LockingPub = lockingPub\<rparr>"
  using built_SHIP_valid [OF assms] by blast

theorem SHIP_build_validate_witness:
  "\<exists>s p. BuildSHIPScript demo_brc ''k'' ''example.com'' ''anvil:mainnet'' = Inr (s, p)
     \<and> map_sum (\<lambda>e. e) st_Topic (ValidateSHIPToken demo_brc s) = Inr ''anvil:mainnet''"
proof -
  obtain s p where b: "BuildSHIPScript demo_brc ''k'' ''example.com'' ''anvil:mainnet'' = Inr (s, p)"
    by (simp add: BuildSHIPScript_def demo_brc_def buildPushDropScript_def Let_def)
  with SHIP_build_validate [OF demobrc.brc_sdk_axioms b] show ?thesis by simp
qed

definition registered_by :: "('sk, 'pk) brc_lib \<Rightarrow> bytes \<Rightarrow> PeerEntry \<Rightarrow> bool" where
  "registered_by L s e \<longleftrightarrow> (\<exists>b pk lock rest. pe_IdentityPub e = hex_encode b
     \<and> bl_PublicKeyFromBytes L b = Inr pk \<and> DeriveChildPub L pk (InvoiceSHIP L) = Inr lock
     \<and> bl_decode L s = Some (lock, ''SHIP'' # b # pe_Domain e # pe_Topic e # rest))"

lemma ValidateSHIPToken_sound:
  assumes "brc_sdk L" and v: "ValidateSHIPToken L s = Inr t"
  shows "\<exists>b pk lock rest. st_IdentityPub t = hex_encode b \<and> bl_PublicKeyFromBytes L b = Inr pk
    \<and> DeriveChildPub L pk (InvoiceSHIP L) = Inr lock
    \<and> bl_decode L s = Some (lock, ''SHIP'' # b # st_Domain t # st_Topic t # rest)"
proof -
  from v obtain p where t: "ParseSHIPScript L s = Inr t"
    and c: "checkDerivation L (InvoiceSHIP L) (st_IdentityPub t) (st_LockingPub t) = Inr ()"
    by (auto simp: ValidateSHIPToken_def split: sum.splits)
  from t obtain b rest where d: "bl_decode L s = Some (st_LockingPub t, ''SHIP'' # b # st_Domain t # st_Topic t # rest)"
    and i: "st_IdentityPub t = hex_encode b"
    by (auto simp: ParseSHIPScript_def split: option.splits list.splits if_splits)
  from brc_sdk.checkDerivation_key [OF assms(1) c] i brc_sdk.Compressed_inject [OF assms(1)] d show ?thesis
    by auto
qed

context directory_db
begin

lemma AddSHIPPeer_entries:
  assumes "AddSHIPPeer ops vt now d entry s = Inr d'" and "ship_at (contents (dir_db d')) prefixSHIP k e"
  shows "ship_at (contents (dir_db d)) prefixSHIP k e \<or> e = entry\<lparr>pe_LastSeen := Some now\<rparr>"
  using assms by (auto simp: AddSHIPPeer_def Let_def ship_at_def stale_removed dest!: put_spec split: sum.splits if_splits)

lemma AddSLAPProvider_entries:
  assumes "AddSLAPProvider ops vt d entry s = Inr d'"
  shows "ship_at (contents (dir_db d')) prefixSHIP k e \<longleftrightarrow> ship_at (contents (dir_db d)) prefixSHIP k e"
proof -
  have "\<not> prefix prefixSHIP (slapKey a b)" for a b
    by (simp add: prefixSHIP_def slapKey_def prefixSLAP_def)
  with assms show ?thesis by (auto simp: AddSLAPProvider_def ship_at_def dest!: put_spec split: sum.splits if_splits)
qed

lemma ProcessSHIPScript_InrE:
  assumes "ProcessSHIPScript L ops now d s txid i = Inr d'"
  obtains t entry where "ValidateSHIPToken L s = Inr t"
    "pe_IdentityPub entry = st_IdentityPub t" "pe_Domain entry = st_Domain t" "pe_Topic entry = st_Topic t"
    "AddSHIPPeer ops (as_text \<circ> ValidateSHIPToken L) now d entry s = Inr d'"
proof (cases "ValidateSHIPToken L s")
  case (Inr t)
  let ?entry = "\<lparr>pe_IdentityPub = st_IdentityPub t, pe_Domain = st_Domain t, pe_NodeName = [],
    pe_Version = [], pe_Topic = st_Topic t, pe_TxID = txid, pe_OutputIndex = i,
    pe_DiscoveredAt = Some now, pe_LastSeen = None\<rparr>"
  show thesis by (rule that [of t ?entry]) (use assms Inr in \<open>auto simp: ProcessSHIPScript_def split: sum.splits if_splits\<close>)
qed (use assms in \<open>simp add: ProcessSHIPScript_def\<close>)

lemma processOutput_entries:
  assumes sdk: "brc_sdk L" and e: "ship_at (contents (dir_db (processOutput L ops now txid io d))) prefixSHIP k e"
  shows "ship_at (contents (dir_db d)) prefixSHIP k e \<or> registered_by L (out_script (snd io)) e"
proof -
  consider "processOutput L ops now txid io d = d"
    | "ProcessSHIPScript L ops now d (out_script (snd io)) txid (int (fst io)) = Inr (processOutput L ops now txid io d)"
    | "ProcessSLAPScript L ops now d (out_script (snd io)) txid (int (fst io)) = Inr (processOutput L ops now txid io d)"
    by (fastforce simp: processOutput_def split: prod.splits option.splits list.splits sum.splits if_splits)
  then show ?thesis
  proof cases
    case 2
    then obtain t entry where t: "ValidateSHIPToken L (out_script (snd io)) = Inr t"
      and f: "pe_IdentityPub entry = st_IdentityPub t" "pe_Domain entry = st_Domain t" "pe_Topic entry = st_Topic t"
      and a: "AddSHIPPeer ops (as_text \<circ> ValidateSHIPToken L) now d entry (out_script (snd io)) = Inr (processOutput L ops now txid io d)"
      by (rule ProcessSHIPScript_InrE)
    from AddSHIPPeer_entries [OF a e] ValidateSHIPToken_sound [OF sdk t] f show ?thesis
      by (auto simp: registered_by_def)
  next
    case 3
    then obtain entry where "AddSLAPProvider ops (as_text \<circ> ValidateSLAPToken L) d entry (out_script (snd io)) = Inr (processOutput L ops now txid io d)"
      by (fastforce simp: ProcessSLAPScript_def Let_def split: sum.splits if_splits)
    with e AddSLAPProvider_entries show ?thesis by blast
  qed (use e in simp)
qed

lemma processOutputs_entries:
  assumes sdk: "brc_sdk L" and "ship_at (contents (dir_db (fold (processOutput L ops now txid) ios d))) prefixSHIP k e"
  shows "ship_at (contents (dir_db d)) prefixSHIP k e \<or> (\<exists>io \<in> set ios. registered_by L (out_script (snd io)) e)"
  using assms(2) processOutput_entries [OF sdk] by (induction ios arbitrary: d) (simp, fastforce)

end



end
