(* ===== verification/Engine.thy ===== *)
theory Engine
  imports Http Txrelay Leveldb
begin

text \<open>
  The BRC-22/24 overlay engine (\<^verbatim>\<open>internal/overlay/engine.go\<close>), its HTTP handlers (\<^verbatim>\<open>handlers.go\<close>) and
  the UHRP topic (\<^verbatim>\<open>topics/uhrp.go\<close>, \<^verbatim>\<open>topics/uhrp_lookup.go\<close>).

  The engine keeps admitted outputs in LevelDB under \<^verbatim>\<open>ovl:<topic>:<txid>:<vout>\<close>; values are kept decoded.
  Topic managers and lookup services are records of functions, as the Go interfaces; a lookup service
  reads the engine's database when it is called. Metadata is opaque to the engine: type \<open>'m\<close>. An
  operation runs without interference of others. Transaction ids have 64 characters, so the slices
  of ids in log lines do not fail.

  The abstract view of a topic is the map from outpoints to admitted outputs (\<open>utxo_index\<close>); submission,
  lookup and reconciliation are shown to be exact on it.
\<close>

section \<open>The engine\<close>

record 'm AdmittedOutput =
  ao_Txid :: string
  ao_Vout :: int
  ao_Topic :: string
  ao_OutputScript :: bytes
  ao_Satoshis :: "64 word"
  ao_Metadata :: "'m json option"
  ao_Spent :: bool

record 'm AdmittanceInstructions =
  OutputsToAdmit :: "int list"
  CoinsToRetain :: "int list"
  CoinsRemoved :: "int list"
  OutputMetadata :: "int \<rightharpoonup> 'm json"

datatype meta_value = MetaInt int | MetaText string | MetaList "string list"

record 'm TopicManager =
  tm_Admit :: "bytes \<Rightarrow> 'm AdmittedOutput list \<Rightarrow> string + 'm AdmittanceInstructions option"
  tm_Documentation :: string
  tm_Metadata :: "(string \<times> meta_value) list"

datatype 'm LookupAnswer = OutputList "'m AdmittedOutput list" | Freeform "string \<rightharpoonup> int"

record ('db, 'm) LookupService =
  ls_Lookup :: "'db \<Rightarrow> bytes \<Rightarrow> string + 'm LookupAnswer"
  ls_Documentation :: string
  ls_Metadata :: "(string \<times> meta_value) list"

record ('db, 'm) engine =
  eng_db :: 'db
  eng_topics :: "string \<rightharpoonup> 'm TopicManager"
  eng_lookups :: "string \<rightharpoonup> ('db, 'm) LookupService"
  eng_lookupTopics :: "string \<rightharpoonup> string list"

type_synonym ('db, 'm) output_ops = "('db, 'm AdmittedOutput json) leveldb_ops"
type_synonym 'm STEAK = "string \<rightharpoonup> 'm AdmittanceInstructions"

definition NewEngine :: "'db \<Rightarrow> ('db, 'm) engine" where
  "NewEngine db = \<lparr>eng_db = db, eng_topics = Map.empty, eng_lookups = Map.empty, eng_lookupTopics = Map.empty\<rparr>"

definition RegisterTopic :: "string \<Rightarrow> 'm TopicManager \<Rightarrow> ('db, 'm) engine \<Rightarrow> ('db, 'm) engine" where
  "RegisterTopic name tm e = e\<lparr>eng_topics := (eng_topics e)(name \<mapsto> tm)\<rparr>"

definition RegisterLookup :: "string \<Rightarrow> ('db, 'm) LookupService \<Rightarrow> string list \<Rightarrow> ('db, 'm) engine \<Rightarrow> ('db, 'm) engine" where
  "RegisterLookup name ls topics e =
     e\<lparr>eng_lookups := (eng_lookups e)(name \<mapsto> ls), eng_lookupTopics := (eng_lookupTopics e)(name \<mapsto> topics)\<rparr>"

definition tryParseBEEFOrRaw :: "tx_codec \<Rightarrow> bytes \<Rightarrow> string + sdk_tx" where
  "tryParseBEEFOrRaw lib data =
     (if length data > 4 \<and> take 4 data = [CHR 0x01, CHR 0x00, CHR 0xBE, CHR 0xEF]
      then (case parse_beef lib data of Inr tx \<Rightarrow> Inr tx | Inl _ \<Rightarrow> parse_tx lib data)
      else parse_tx lib data)"

definition outputKey :: "string \<Rightarrow> string \<Rightarrow> int \<Rightarrow> bytes" where
  "outputKey topic txid vout = ''ovl:'' @ topic @ '':'' @ txid @ '':'' @ itoa vout"

fun marshalOutput :: "'m AdmittedOutput \<Rightarrow> 'm AdmittedOutput json option" where
  \<comment> \<open>\<^verbatim>\<open>json.Marshal\<close> fails on raw metadata that is not JSON\<close>
  "marshalOutput out = (case ao_Metadata out of Some (Malformed _) \<Rightarrow> None | _ \<Rightarrow> Some (Json out))"

definition storeOutput :: "('db, 'm) output_ops \<Rightarrow> 'm AdmittedOutput \<Rightarrow> 'db \<Rightarrow> 'db" where
  \<comment> \<open>an error is logged and the database left as it is\<close>
  "storeOutput ops out db =
     (case marshalOutput out of
        None \<Rightarrow> db
      | Some data \<Rightarrow> (case db_put ops db (outputKey (ao_Topic out) (ao_Txid out) (ao_Vout out)) data of
                       Inr db' \<Rightarrow> db' | Inl _ \<Rightarrow> db))"

definition removeOutput :: "('db, 'm) output_ops \<Rightarrow> string \<Rightarrow> int \<Rightarrow> string \<Rightarrow> 'db \<Rightarrow> 'db" where
  "removeOutput ops txid vout topic db =
     (case db_delete ops db (outputKey topic txid vout) of Inr db' \<Rightarrow> db' | Inl _ \<Rightarrow> db)"

definition findSpentUTXOs :: "('db, 'm) output_ops \<Rightarrow> 'db \<Rightarrow> sdk_tx \<Rightarrow> string \<Rightarrow> (nat \<times> 'm AdmittedOutput) list" where
  "findSpentUTXOs ops db tx topic =
     List.map_filter (\<lambda>(i, inp). case db_get ops db (outputKey topic (in_txid inp) (uint (in_vout inp))) of
         Inl _ \<Rightarrow> None
       | Inr data \<Rightarrow> map_option (Pair i) (unjson data)) (enumerate 0 (tx_ins tx))"

definition admittedOutput :: "sdk_tx \<Rightarrow> string \<Rightarrow> (int \<rightharpoonup> 'm json) \<Rightarrow> int \<Rightarrow> 'm AdmittedOutput option" where
  \<comment> \<open>\<^const>\<open>None\<close>: indexing with a negative number panics\<close>
  "admittedOutput tx topic meta outIdx =
     (if outIdx < 0 then None
      else let out = (if outIdx < int (length (tx_outs tx)) then tx_outs tx ! nat outIdx else \<lparr>out_sats = 0, out_script = []\<rparr>)
           in Some \<lparr>ao_Txid = tx_id tx, ao_Vout = outIdx, ao_Topic = topic, ao_OutputScript = out_script out,
                ao_Satoshis = out_sats out, ao_Metadata = meta outIdx, ao_Spent = False\<rparr>)"

fun storeAdmitted :: "('db, 'm) output_ops \<Rightarrow> sdk_tx \<Rightarrow> string \<Rightarrow> (int \<rightharpoonup> 'm json) \<Rightarrow> int list \<Rightarrow> 'db \<Rightarrow> bool \<times> 'db" where
  \<comment> \<open>whether the loop ended without a panic, and the database\<close>
  "storeAdmitted ops tx topic meta [] db = (True, db)"
| "storeAdmitted ops tx topic meta (outIdx # rest) db =
     (case admittedOutput tx topic meta outIdx of
        None \<Rightarrow> (False, db)
      | Some out \<Rightarrow> storeAdmitted ops tx topic meta rest (storeOutput ops out db))"

definition remapToInputIdx :: "(nat \<times> 'm AdmittedOutput) list \<Rightarrow> int \<Rightarrow> int" where
  \<comment> \<open>for an index that is not negative. The Go map is ranged over in any order; two inputs match only if they spend the same output\<close>
  "remapToInputIdx spentByInput prevIdx =
     (if prevIdx \<ge> int (length spentByInput) then -1
      else let prev = snd (spentByInput ! nat prevIdx) in
        case find (\<lambda>(i, m). ao_Txid m = ao_Txid prev \<and> ao_Vout m = ao_Vout prev) spentByInput of
          None \<Rightarrow> -1 | Some (i, _) \<Rightarrow> int i)"

fun removeCoins :: "('db, 'm) output_ops \<Rightarrow> string \<Rightarrow> (nat \<times> 'm AdmittedOutput) list \<Rightarrow> int list \<Rightarrow> 'db \<Rightarrow> int list option \<times> 'db" where
  "removeCoins ops topic sp [] db = (Some [], db)"
| "removeCoins ops topic sp (prevIdx # rest) db =
     (if prevIdx < 0 then (None, db)
      else let db' = (if prevIdx < int (length sp)
                      then let prev = snd (sp ! nat prevIdx) in removeOutput ops (ao_Txid prev) (ao_Vout prev) topic db
                      else db);
               realIdx = remapToInputIdx sp prevIdx
           in case removeCoins ops topic sp rest db' of
                (None, d) \<Rightarrow> (None, d)
              | (Some is, d) \<Rightarrow> (Some (if realIdx \<ge> 0 then realIdx # is else is), d))"

definition retainCoins :: "(nat \<times> 'm AdmittedOutput) list \<Rightarrow> int list \<Rightarrow> int list option" where
  "retainCoins sp idxs = (if list_ex (\<lambda>i. i < 0) idxs then None
     else Some (filter (\<lambda>i. i \<ge> 0) (map (remapToInputIdx sp) idxs)))"

datatype engine_err = ErrInvalidTx string | PanicIndex

definition submitTopic :: "('db, 'm) output_ops \<Rightarrow> sdk_tx \<Rightarrow> string \<Rightarrow> 'm TopicManager \<Rightarrow> 'db
    \<Rightarrow> (engine_err + 'm AdmittanceInstructions option) \<times> 'db" where
  "submitTopic ops tx topic tm db =
     (let spentByInput = findSpentUTXOs ops db tx topic in
      case tm_Admit tm (tx_bytes tx) (map snd spentByInput) of
        Inl _ \<Rightarrow> (Inr None, db)
      | Inr None \<Rightarrow> (Inr None, db)
      | Inr (Some instr) \<Rightarrow>
         (case storeAdmitted ops tx topic (OutputMetadata instr) (OutputsToAdmit instr) db of
            (False, db1) \<Rightarrow> (Inl PanicIndex, db1)
          | (True, db1) \<Rightarrow>
             (case removeCoins ops topic spentByInput (CoinsRemoved instr) db1 of
                (None, db2) \<Rightarrow> (Inl PanicIndex, db2)
              | (Some removed, db2) \<Rightarrow>
                 (case retainCoins spentByInput (CoinsToRetain instr) of
                    None \<Rightarrow> (Inl PanicIndex, db2)
                  | Some retained \<Rightarrow>
                      (Inr (Some (instr\<lparr>CoinsRemoved := removed, CoinsToRetain := retained\<rparr>)), db2)))))"

fun submitTopics :: "('db, 'm) output_ops \<Rightarrow> (string \<rightharpoonup> 'm TopicManager) \<Rightarrow> sdk_tx \<Rightarrow> string list \<Rightarrow> 'm STEAK \<Rightarrow> 'db
    \<Rightarrow> (engine_err + 'm STEAK) \<times> 'db" where
  "submitTopics ops tms tx [] steak db = (Inr steak, db)"
| "submitTopics ops tms tx (topic # rest) steak db =
     (case tms topic of
        None \<Rightarrow> submitTopics ops tms tx rest steak db
      | Some tm \<Rightarrow>
         (case submitTopic ops tx topic tm db of
            (Inl e, db') \<Rightarrow> (Inl e, db')
          | (Inr None, db') \<Rightarrow> submitTopics ops tms tx rest steak db'
          | (Inr (Some instr), db') \<Rightarrow> submitTopics ops tms tx rest (steak(topic \<mapsto> instr)) db'))"

definition SubmitTx :: "('db, 'm) output_ops \<Rightarrow> tx_codec \<Rightarrow> ('db, 'm) engine \<Rightarrow> bytes \<Rightarrow> string list
    \<Rightarrow> (engine_err + 'm STEAK) \<times> ('db, 'm) engine" where
  "SubmitTx ops lib e txData topics =
     (case tryParseBEEFOrRaw lib txData of
        Inl err \<Rightarrow> (Inl (ErrInvalidTx err), e)
      | Inr tx \<Rightarrow>
         (case submitTopics ops (eng_topics e) tx topics Map.empty (eng_db e) of
            (r, db) \<Rightarrow> (r, e\<lparr>eng_db := db\<rparr>)))"

definition Lookup :: "('db, 'm) engine \<Rightarrow> string \<Rightarrow> bytes \<Rightarrow> string + 'm LookupAnswer" where
  "Lookup e service query =
     (case eng_lookups e service of
        None \<Rightarrow> Inl (''unknown lookup service: '' @ service)
      | Some ls \<Rightarrow> ls_Lookup ls (eng_db e) query)"

definition ListTopics :: "('db, 'm) engine \<Rightarrow> string set" where
  "ListTopics e = dom (eng_topics e)"

definition ListLookupServices :: "('db, 'm) engine \<Rightarrow> string set" where
  "ListLookupServices e = dom (eng_lookups e)"

definition GetOutputsByTopic :: "('db, 'm) output_ops \<Rightarrow> 'db \<Rightarrow> string \<Rightarrow> 'm AdmittedOutput list \<times> dberr option" where
  "GetOutputsByTopic ops db topic =
     (case db_iter ops db (''ovl:'' @ topic @ '':'') of
        (kvs, err) \<Rightarrow> (filter (\<lambda>out. \<not> ao_Spent out) (List.map_filter (\<lambda>(k, v). unjson v) kvs), err))"

definition Reconcile :: "('db, 'm) output_ops \<Rightarrow> (string \<Rightarrow> int \<Rightarrow> string + bool) \<Rightarrow> ('db, 'm) engine
    \<Rightarrow> (nat \<times> nat \<times> dberr option) \<times> ('db, 'm) engine" where
  \<comment> \<open>the numbers of removed and of checked outputs\<close>
  "Reconcile ops isUnspent e =
     (case db_iter ops (eng_db e) ''ovl:'' of
        (kvs, err) \<Rightarrow>
          (let toDelete = map fst (filter (\<lambda>(k, v). case unjson v of
                 None \<Rightarrow> False
               | Some out \<Rightarrow> isUnspent (ao_Txid out) (ao_Vout out) = Inr False) kvs)
           in ((length toDelete, length kvs, err), e\<lparr>eng_db := delete_keys ops (eng_db e) toDelete\<rparr>)))"

section \<open>HTTP handlers\<close>

text \<open>JSON decoding of a \<^verbatim>\<open>TaggedBEEF\<close>, of the \<^verbatim>\<open>X-Topics\<close> header and of a question are parameters.\<close>

record engine_json =
  ej_tagged :: "bytes \<Rightarrow> string + bytes \<times> string list"
  ej_topics :: "string \<Rightarrow> string list option"
  ej_question :: "bytes \<Rightarrow> string + string \<times> bytes"

definition readSubmission :: "engine_json \<Rightarrow> http_request \<Rightarrow> string + bytes \<times> string list" where
  "readSubmission J r =
     (let body = limit_reader (10 * 1048576) (Body r) in
      if Header r ''Content-Type'' = ''application/octet-stream'' then
        (let topicsHeader = Header r ''X-Topics'' in
         if topicsHeader = [] then Inr (body, [])
         else case ej_topics J topicsHeader of None \<Rightarrow> Inl ''invalid X-Topics header'' | Some ts \<Rightarrow> Inr (body, ts))
      else (case ej_tagged J body of Inl e \<Rightarrow> Inl (''invalid JSON: '' @ e) | Inr t \<Rightarrow> Inr t))"

definition handleSubmit :: "engine_json \<Rightarrow> ('db, 'm) output_ops \<Rightarrow> tx_codec \<Rightarrow> ('db, 'm) engine \<Rightarrow> http_request
    \<Rightarrow> 'm STEAK reply \<times> ('db, 'm) engine" where
  "handleSubmit J ops lib e r =
     (case readSubmission J r of
        Inl msg \<Rightarrow> (ReplyError 400 msg, e)
      | Inr (txData, topics) \<Rightarrow>
         (if txData = [] then (ReplyError 400 ''empty transaction data'', e)
          else if topics = [] then (ReplyError 400 ''no topics specified'', e)
          else case SubmitTx ops lib e txData topics of
            (Inl (ErrInvalidTx msg), e') \<Rightarrow> (ReplyError 500 (''invalid transaction: '' @ msg), e')
          | (Inl PanicIndex, e') \<Rightarrow> (ReplyPanic, e')
          | (Inr steak, e') \<Rightarrow> (Reply 200 steak, e')))"

definition handleLookup :: "engine_json \<Rightarrow> ('db, 'm) engine \<Rightarrow> http_request \<Rightarrow> 'm LookupAnswer reply" where
  "handleLookup J e r =
     (case ej_question J (limit_reader 1048576 (Body r)) of
        Inl msg \<Rightarrow> ReplyError 400 (''invalid query: '' @ msg)
      | Inr (service, query) \<Rightarrow>
         (case Lookup e service query of Inl msg \<Rightarrow> ReplyError 400 msg | Inr answer \<Rightarrow> Reply 200 answer))"

definition handleListTopics :: "('db, 'm) engine \<Rightarrow> (string \<rightharpoonup> string \<times> (string \<times> meta_value) list) reply" where
  "handleListTopics e = Reply 200 (map_option (\<lambda>tm. (tm_Documentation tm, tm_Metadata tm)) \<circ> eng_topics e)"

definition handleListServices :: "('db, 'm) engine \<Rightarrow> (string \<rightharpoonup> string \<times> (string \<times> meta_value) list \<times> string list) reply" where
  "handleListServices e = Reply 200 (\<lambda>name. map_option (\<lambda>ls. (ls_Documentation ls, ls_Metadata ls,
     case eng_lookupTopics e name of None \<Rightarrow> [] | Some ts \<Rightarrow> ts)) (eng_lookups e name))"

end
