(* ===== verification/Uhrp.thy ===== *)
theory Uhrp
  imports Engine
begin

text \<open>
  The UHRP topic of the overlay engine: \<^verbatim>\<open>internal/overlay/topics/uhrp.go\<close> (the topic manager and the
  script format) and \<^verbatim>\<open>uhrp_lookup.go\<close> (the lookup service), and what the engine guarantees with them.
  Text fields are valid UTF-8 and \<open>to_lower\<close> is \<^verbatim>\<open>strings.ToLower\<close> on ASCII.
\<close>

section \<open>Scripts\<close>

record UHRPEntry =
  ue_ContentHash :: string
  ue_URL :: string
  ue_ContentType :: string

definition UHRPTopicName :: string where "UHRPTopicName = ''tm_uhrp''"
definition UHRPProtocolID :: string where "UHRPProtocolID = ''UHRP''"
definition UHRPLookupServiceName :: string where "UHRPLookupServiceName = ''ls_uhrp''"

function parsePushDataFields :: "bytes \<Rightarrow> bytes list" where
  "parsePushDataFields [] = []"
| "parsePushDataFields (c # s) =
     (let op = (of_char c :: nat) in
      if op = 0x00 then [] # parsePushDataFields s
      else if op \<le> 0x4b then
        (if op > length s then [] else take op s # parsePushDataFields (drop op s))
      else if op = 0x4c then
        (case s of
           [] \<Rightarrow> []
         | n # s' \<Rightarrow> (let k = of_char n in if k > length s' then [] else take k s' # parsePushDataFields (drop k s')))
      else if op = 0x4d then
        (case s of
           a # b # s' \<Rightarrow> (let k = of_char a + 256 * of_char b in
              if k > length s' then [] else take k s' # parsePushDataFields (drop k s'))
         | _ \<Rightarrow> [])
      else [])"
  by pat_completeness auto

termination
  by (relation "measure length") auto

definition parseUHRPOutput :: "bytes \<Rightarrow> UHRPEntry option" where
  "parseUHRPOutput s =
     (if length s < 6 then None
      else if s ! 0 \<noteq> CHR 0x00 \<or> s ! 1 \<noteq> CHR 0x6a then None
      else case parsePushDataFields (drop 2 s) of
        proto # hashField # opt \<Rightarrow>
          (if proto \<noteq> UHRPProtocolID then None
           else case (if length hashField = 32 then Some (hex_encode hashField)
                      else if length hashField = 64 then Some hashField else None) of
             None \<Rightarrow> None
           | Some contentHash \<Rightarrow>
               Some \<lparr>ue_ContentHash = contentHash, ue_URL = (case opt of u # _ \<Rightarrow> u | [] \<Rightarrow> []),
                  ue_ContentType = (case opt of _ # t # _ \<Rightarrow> t | _ \<Rightarrow> [])\<rparr>)
      | _ \<Rightarrow> None)"

definition HashContent :: "(bytes \<Rightarrow> bytes) \<Rightarrow> bytes \<Rightarrow> string" where
  "HashContent sha256 data = hex_encode (sha256 data)"

definition BuildUHRPScript :: "string \<Rightarrow> string \<Rightarrow> string \<Rightarrow> bytes option" where
  "BuildUHRPScript contentHash url contentType =
     (case hex_decode contentHash of
        None \<Rightarrow> None
      | Some hashBytes \<Rightarrow>
         (if length hashBytes \<noteq> 32 then None
          else Some ([CHR 0x00, CHR 0x6a]
            @ char_of (length UHRPProtocolID) # UHRPProtocolID
            @ char_of (length hashBytes) # hashBytes
            @ (if url = [] then [] else
                (if length url \<le> 75 then [char_of (length url)] else [CHR 0x4c, char_of (length url)]) @ url)
            @ (if contentType = [] then [] else char_of (length contentType) # contentType))))"

section \<open>The topic manager\<close>

definition advertised :: "sdk_output list \<Rightarrow> (int \<times> UHRPEntry) list" where
  "advertised outs = List.map_filter (\<lambda>(i, out). map_option (Pair (int i)) (parseUHRPOutput (out_script out))) (enumerate 0 outs)"

definition UHRP_Admit :: "tx_codec \<Rightarrow> bytes \<Rightarrow> UHRPEntry AdmittedOutput list \<Rightarrow> string + UHRPEntry AdmittanceInstructions option" where
  "UHRP_Admit lib txData previousUTXOs =
     (case parse_tx lib txData of
        Inl e \<Rightarrow> Inl (''invalid transaction: '' @ e)
      | Inr tx \<Rightarrow>
         (let ads = advertised (tx_outs tx);
              outputsToAdmit = map fst ads;
              coinsRemoved = map int [0..<length previousUTXOs]
          in if outputsToAdmit = [] \<and> coinsRemoved = [] then Inr None
             else Inr (Some \<lparr>OutputsToAdmit = outputsToAdmit, CoinsToRetain = [], CoinsRemoved = coinsRemoved,
                    OutputMetadata = map_option Json \<circ> map_of ads\<rparr>)))"

definition NewUHRPTopicManager :: "tx_codec \<Rightarrow> UHRPEntry TopicManager" where
  "NewUHRPTopicManager lib = \<lparr>tm_Admit = UHRP_Admit lib,
     tm_Documentation = ''UHRP (BRC-26): Universal Hash Resolution Protocol. Tracks content availability advertisements '' @ [CHR 0xE2, CHR 0x80, CHR 0x94] @ '' maps SHA-256 file hashes to hosting locations.'',
     tm_Metadata = [(''brc'', MetaInt 26), (''protocol'', MetaText UHRPProtocolID), (''purpose'', MetaText ''content-availability-advertisement'')]\<rparr>"

section \<open>The lookup service\<close>

record UHRPLookupQuery =
  uq_ContentHash :: string
  uq_List :: string

definition uhrpMeta :: "UHRPEntry AdmittedOutput \<Rightarrow> UHRPEntry option" where
  "uhrpMeta out = Option.bind (ao_Metadata out) unjson"

definition count_step :: "UHRPEntry AdmittedOutput \<Rightarrow> (string \<rightharpoonup> int) \<Rightarrow> (string \<rightharpoonup> int)" where
  "count_step out m = (case uhrpMeta out of None \<Rightarrow> m | Some e \<Rightarrow>
     m(ue_ContentHash e \<mapsto> (case m (ue_ContentHash e) of None \<Rightarrow> 0 | Some n \<Rightarrow> n) + 1))"

definition UHRP_Lookup :: "('db, UHRPEntry) output_ops \<Rightarrow> (bytes \<Rightarrow> string + UHRPLookupQuery) \<Rightarrow> 'db \<Rightarrow> bytes
    \<Rightarrow> string + UHRPEntry LookupAnswer" where
  "UHRP_Lookup ops decode db queryRaw =
     (case decode queryRaw of
        Inl e \<Rightarrow> Inl (''invalid UHRP query: '' @ e)
      | Inr q \<Rightarrow>
         (case GetOutputsByTopic ops db UHRPTopicName of
            (_, Some err) \<Rightarrow> Inl ''database error''
          | (outputs, None) \<Rightarrow>
             (if uq_ContentHash q \<noteq> [] then
                (let hash = to_lower (uq_ContentHash q) in
                 Inr (OutputList (filter (\<lambda>out. case uhrpMeta out of None \<Rightarrow> False | Some e \<Rightarrow> to_lower (ue_ContentHash e) = hash) outputs)))
              else if uq_List q = ''all'' then Inr (OutputList outputs)
              else if uq_List q = ''hashes'' then Inr (Freeform (fold count_step outputs Map.empty))
              else Inl ''UHRP query must specify content_hash or list'')))"

definition NewUHRPLookupService :: "('db, UHRPEntry) output_ops \<Rightarrow> (bytes \<Rightarrow> string + UHRPLookupQuery) \<Rightarrow> ('db, UHRPEntry) LookupService" where
  "NewUHRPLookupService ops decode = \<lparr>ls_Lookup = UHRP_Lookup ops decode,
     ls_Documentation = ''UHRP Lookup (BRC-26): Resolve content by SHA-256 hash. Query by hash to find hosting locations, or list all advertised content.'',
     ls_Metadata = [(''brc'', MetaInt 26), (''service'', MetaText UHRPLookupServiceName), (''queries'', MetaList [''content_hash'', ''list''])]\<rparr>"

section \<open>Scripts read back\<close>

definition push :: "bytes \<Rightarrow> bytes" where
  \<comment> \<open>a push of at most 255 bytes in its shortest form\<close>
  "push f = (if length f \<le> 75 then [char_of (length f)] else [CHR 0x4c, char_of (length f)]) @ f"

lemma parsePushDataFields_push:
  assumes "f \<noteq> []" "length f \<le> 255"
  shows "parsePushDataFields (push f @ s) = f # parsePushDataFields s"
  using assms by (auto simp: push_def Let_def)

lemma parse_short_push: "f \<noteq> [] \<Longrightarrow> length f \<le> 75 \<Longrightarrow>
  parsePushDataFields (char_of (length f) # f @ s) = f # parsePushDataFields s"
  using parsePushDataFields_push [of f s] by (simp add: push_def)

lemma parse_built:
  assumes h: "hex_decode contentHash = Some hb" "length hb = 32"
    and b: "BuildUHRPScript contentHash url contentType = Some s"
    and tail: "parsePushDataFields ((if url = [] then [] else
        (if length url \<le> 75 then [char_of (length url)] else [CHR 0x4c, char_of (length url)]) @ url)
        @ (if contentType = [] then [] else char_of (length contentType) # contentType)) = opt"
  shows "parseUHRPOutput s = Some \<lparr>ue_ContentHash = hex_encode hb, ue_URL = (case opt of u # _ \<Rightarrow> u | [] \<Rightarrow> []),
    ue_ContentType = (case opt of _ # t # _ \<Rightarrow> t | _ \<Rightarrow> [])\<rparr>"
proof -
  define P where "P = UHRPProtocolID"
  have P: "P \<noteq> []" "length P \<le> 75" by (simp_all add: P_def UHRPProtocolID_def)
  have hb: "hb \<noteq> []" "length hb \<le> 75" using h(2) by auto
  from b h have s: "s = CHR 0x00 # CHR 0x6a # char_of (length P) # P @ char_of (length hb) # hb
      @ (if url = [] then [] else (if length url \<le> 75 then [char_of (length url)] else [CHR 0x4c, char_of (length url)]) @ url)
      @ (if contentType = [] then [] else char_of (length contentType) # contentType)"
    by (simp add: BuildUHRPScript_def P_def)
  have f: "parsePushDataFields (drop 2 s) = P # hb # opt"
    unfolding s tail [symmetric] by (simp only: drop_Suc_Cons drop0 numeral_2_eq_2 parse_short_push [OF P] parse_short_push [OF hb])
  have "length s \<ge> 6" using s h(2) by simp
  with f s h(2) show ?thesis by (simp add: parseUHRPOutput_def P_def)
qed

text \<open>
  Advertisements read back. The script built for a content hash, with a URL of at most 255 bytes and
  a content type of at most 75 bytes, parses to the hash (in lower case), the URL and the content
  type, provided that a content type comes with a URL.
\<close>

theorem UHRP_build_parse:
  assumes "BuildUHRPScript contentHash url contentType = Some s"
    and "length url \<le> 255" "length contentType \<le> 75" "contentType \<noteq> [] \<longrightarrow> url \<noteq> []"
  shows "\<exists>hb. hex_decode contentHash = Some hb
    \<and> parseUHRPOutput s = Some \<lparr>ue_ContentHash = hex_encode hb, ue_URL = url, ue_ContentType = contentType\<rparr>"
proof -
  from assms(1) obtain hb where h: "hex_decode contentHash = Some hb" "length hb = 32"
    by (auto simp: BuildUHRPScript_def split: option.splits if_splits)
  let ?ct = "if contentType = [] then [] else char_of (length contentType) # contentType"
  have ct: "parsePushDataFields ?ct = (if contentType = [] then [] else [contentType])"
    using assms(3) parse_short_push [of contentType "[]"] by simp
  have "parsePushDataFields ((if url = [] then [] else push url) @ ?ct)
      = (if url = [] then [] else [url]) @ parsePushDataFields ?ct"
    using assms(2) parsePushDataFields_push [of url ?ct] by auto
  with ct assms(4) have "parsePushDataFields ((if url = [] then [] else push url) @ ?ct)
      = (if url = [] then [] else if contentType = [] then [url] else [url, contentType])"
    by auto
  from parse_built [OF h assms(1) this [unfolded push_def]] assms(4) h show ?thesis
    by (cases "url = []") auto
qed

theorem UHRP_build_parse_witness:
  "\<exists>s hb. BuildUHRPScript (concat (replicate 32 ''aB'')) ''u'' ''t'' = Some s
    \<and> parseUHRPOutput s = Some \<lparr>ue_ContentHash = hex_encode hb, ue_URL = ''u'', ue_ContentType = ''t''\<rparr>"
proof -
  have "hex_decode (concat (replicate n ''aB'')) = Some (replicate n (CHR 0xAB))" for n
    by (induction n) (simp_all add: unhex_def char_of_def bit_simps)
  then obtain s where s: "BuildUHRPScript (concat (replicate 32 ''aB'')) ''u'' ''t'' = Some s"
    by (simp add: BuildUHRPScript_def)
  with UHRP_build_parse [OF s] show ?thesis by auto
qed

text \<open>
  Without a URL the content type takes its place: the fields are positional and an empty URL pushes
  nothing.
\<close>

lemma content_type_read_as_url:
  assumes "BuildUHRPScript contentHash [] contentType = Some s" "contentType \<noteq> []" "length contentType \<le> 75"
  shows "\<exists>e. parseUHRPOutput s = Some e \<and> ue_URL e = contentType \<and> ue_ContentType e = []"
proof -
  from assms(1) obtain hb where h: "hex_decode contentHash = Some hb" "length hb = 32"
    by (auto simp: BuildUHRPScript_def split: option.splits if_splits)
  have "parsePushDataFields (char_of (length contentType) # contentType) = [contentType]"
    using assms(2,3) parse_short_push [of contentType "[]"] by simp
  with parse_built [OF h assms(1)] assms(2) show ?thesis by simp
qed

lemma long_url_not_read_back:
  assumes b: "BuildUHRPScript contentHash url contentType = Some s" and len: "length url > 255"
    and e: "parseUHRPOutput s = Some e"
  shows "ue_URL e \<noteq> url"
proof -
  from b obtain hb where h: "hex_decode contentHash = Some hb" "length hb = 32"
    by (auto simp: BuildUHRPScript_def split: option.splits if_splits)
  define ct where "ct = (if contentType = [] then [] else char_of (length contentType) # contentType)"
  have mod: "length url mod 256 \<le> length (url @ ct)" using mod_less_eq_dividend [of "length url" 256] by (simp add: trans_le_add1)
  have ne: "url \<noteq> []" "\<not> length url \<le> 75" using len by auto
  define opt where "opt = parsePushDataFields (drop (length url mod 256) (url @ ct))"
  have opt: "parsePushDataFields ((if url = [] then [] else
        (if length url \<le> 75 then [char_of (length url)] else [CHR 0x4c, char_of (length url)]) @ url) @ ct)
      = take (length url mod 256) (url @ ct) # opt"
    using ne mod by (simp add: Let_def opt_def)
  have "length (ue_URL e) \<le> 255"
    using parse_built [OF h b opt [unfolded ct_def]] e len by (auto simp: min_def)
  with len show ?thesis by auto
qed

section \<open>The index as a map of outpoints\<close>

type_synonym outpoint = "string \<times> int"

definition utxo_index :: "(bytes \<rightharpoonup> 'm AdmittedOutput json) \<Rightarrow> string \<Rightarrow> outpoint \<rightharpoonup> 'm AdmittedOutput" where
  "utxo_index m topic = (\<lambda>(txid, vout). Option.bind (m (outputKey topic txid vout)) unjson)"

definition index_ok :: "(bytes \<rightharpoonup> 'm AdmittedOutput json) \<Rightarrow> string \<Rightarrow> bool" where
  \<comment> \<open>every entry in the range of the topic is a live output, filed under its own outpoint\<close>
  "index_ok m topic \<longleftrightarrow> (\<forall>k v. m k = Some v \<longrightarrow> prefix (''ovl:'' @ topic @ '':'') k \<longrightarrow>
     (\<exists>out. v = Json out \<and> k = outputKey topic (ao_Txid out) (ao_Vout out) \<and> \<not> ao_Spent out))"

definition spends :: "sdk_tx \<Rightarrow> outpoint set" where
  "spends tx = (\<lambda>inp. (in_txid inp, uint (in_vout inp))) ` set (tx_ins tx)"

definition uhrpOutput :: "sdk_tx \<Rightarrow> int \<Rightarrow> UHRPEntry \<Rightarrow> UHRPEntry AdmittedOutput" where
  "uhrpOutput tx v entry = \<lparr>ao_Txid = tx_id tx, ao_Vout = v, ao_Topic = UHRPTopicName,
     ao_OutputScript = out_script (tx_outs tx ! nat v), ao_Satoshis = out_sats (tx_outs tx ! nat v),
     ao_Metadata = Some (Json entry), ao_Spent = False\<rparr>"

definition adverts :: "sdk_tx \<Rightarrow> outpoint \<rightharpoonup> UHRPEntry AdmittedOutput" where
  "adverts tx = (\<lambda>(txid, v). if txid = tx_id tx \<and> 0 \<le> v \<and> v < int (length (tx_outs tx))
     then map_option (uhrpOutput tx v) (parseUHRPOutput (out_script (tx_outs tx ! nat v))) else None)"

definition submit_spec :: "sdk_tx \<Rightarrow> (outpoint \<rightharpoonup> UHRPEntry AdmittedOutput) \<Rightarrow> (outpoint \<rightharpoonup> UHRPEntry AdmittedOutput)" where
  \<comment> \<open>what a submission means: the advertisements join, the spent entries leave\<close>
  "submit_spec tx A = (A ++ adverts tx) |` (- (dom A \<inter> spends tx))"

lemma outputKey_inject [simp]: "outputKey t a i = outputKey t b j \<longleftrightarrow> a = b \<and> i = j"
  by (simp add: outputKey_def last_colon_inject)

lemma outputKey_prefix [simp]: "prefix (''ovl:'' @ t @ '':'') (outputKey t a i)" "prefix ''ovl:'' (outputKey t a i)"
  by (simp_all add: outputKey_def prefix_def)

lemma index_ok_entry:
  assumes "index_ok m topic" "utxo_index m topic (txid, vout) = Some out"
  shows "m (outputKey topic txid vout) = Some (Json out)" "ao_Txid out = txid" "ao_Vout out = vout" "\<not> ao_Spent out"
proof -
  from assms(2) obtain v where v: "m (outputKey topic txid vout) = Some v" "unjson v = Some out"
    by (auto simp: utxo_index_def bind_eq_Some_conv)
  from assms(1) v(1) obtain o' where "v = Json o'" "outputKey topic txid vout = outputKey topic (ao_Txid o') (ao_Vout o')" "\<not> ao_Spent o'"
    unfolding index_ok_def using outputKey_prefix(1) by blast
  with v show "m (outputKey topic txid vout) = Some (Json out)" "ao_Txid out = txid" "ao_Vout out = vout" "\<not> ao_Spent out"
    by simp_all
qed

lemma index_ok_lookup:
  assumes "index_ok m topic"
  shows "m (outputKey topic txid vout) = map_option Json (utxo_index m topic (txid, vout))"
proof (cases "m (outputKey topic txid vout)")
  case (Some v)
  with assms obtain out where "v = Json out" unfolding index_ok_def using outputKey_prefix(1) by blast
  with Some show ?thesis by (simp add: utxo_index_def)
qed (simp add: utxo_index_def)

lemma advertised_mem:
  "(v, e) \<in> set (advertised outs) \<longleftrightarrow> 0 \<le> v \<and> v < int (length outs) \<and> parseUHRPOutput (out_script (outs ! nat v)) = Some e"
proof -
  have "(v, e) \<in> set (advertised outs) \<longleftrightarrow> (\<exists>i < length outs. v = int i \<and> parseUHRPOutput (out_script (outs ! i)) = Some e)"
    unfolding advertised_def set_map_filter by (force simp: in_set_enumerate_eq intro!: bexI [of _ "(_, outs ! _)"])
  then show ?thesis by (metis nat_int nat_less_iff of_nat_0_le_iff of_nat_less_iff zero_le_imp_eq_int)
qed

lemma map_filter_fst_distinct:
  "distinct (map fst xs) \<Longrightarrow> distinct (map fst (List.map_filter (\<lambda>(i, x). map_option (Pair (f i)) (g x)) xs))" if "inj f"
  using that by (induction xs) (force simp: List.map_filter_simps inj_eq set_map_filter image_iff split: option.splits)+

lemma map_of_advertised: "map_of (advertised outs) v =
    (if 0 \<le> v \<and> v < int (length outs) then parseUHRPOutput (out_script (outs ! nat v)) else None)"
proof -
  have "distinct (map fst (advertised outs))"
    unfolding advertised_def by (rule map_filter_fst_distinct) (simp_all add: inj_def)
  then have "map_of (advertised outs) v = Some e \<longleftrightarrow> (v, e) \<in> set (advertised outs)" for e by simp
  then show ?thesis using advertised_mem [of v _ outs] by (metis (no_types, lifting) not_None_eq option.inject)
qed

section \<open>The engine implements the specification\<close>

lemma admittedOutput_fields:
  "admittedOutput tx topic meta i = Some out \<Longrightarrow>
   ao_Topic out = topic \<and> ao_Txid out = tx_id tx \<and> ao_Vout out = i \<and> ao_Metadata out = meta i \<and> \<not> ao_Spent out"
  by (auto simp: admittedOutput_def Let_def split: if_splits)

definition coin :: "nat \<times> 'm AdmittedOutput \<Rightarrow> outpoint" where
  "coin m = (ao_Txid (snd m), ao_Vout (snd m))"

lemma outpoints_of:
  assumes key: "\<And>op out. A op = Some out \<Longrightarrow> (ao_Txid out, ao_Vout out) = op"
  shows "(\<lambda>out. (ao_Txid out, ao_Vout out)) ` {out. \<exists>op \<in> S. A op = Some out} = S \<inter> dom A"
proof (intro set_eqI iffI)
  fix op
  assume "op \<in> S \<inter> dom A"
  then obtain out where "op \<in> S" "A op = Some out" by blast
  with key [OF this(2)] show "op \<in> (\<lambda>out. (ao_Txid out, ao_Vout out)) ` {out. \<exists>op \<in> S. A op = Some out}"
    by (intro image_eqI [of _ _ out]) auto
qed (use key in blast)

locale engine_db = leveldb ops contents
  for ops :: "('db, 'm) output_ops" and contents :: "'db \<Rightarrow> (bytes \<rightharpoonup> 'm AdmittedOutput json)" +
  assumes rel: "reliable ops"
begin

lemma storeOutput_contents:
  assumes "ao_Metadata out = Some (Json x)"
  shows "contents (storeOutput ops out db) = (contents db)(outputKey (ao_Topic out) (ao_Txid out) (ao_Vout out) \<mapsto> Json out)"
proof -
  obtain db' where "db_put ops db (outputKey (ao_Topic out) (ao_Txid out) (ao_Vout out)) (Json out) = Inr db'"
    using reliable_put [OF rel] by blast
  with assms show ?thesis by (simp add: storeOutput_def put_spec)
qed

lemma removeOutput_contents: "contents (removeOutput ops txid vout topic db) = (contents db)(outputKey topic txid vout := None)"
proof -
  obtain db' where "db_delete ops db (outputKey topic txid vout) = Inr db'" using reliable_delete [OF rel] by blast
  then show ?thesis by (simp add: removeOutput_def delete_spec)
qed

lemma storeAdmitted_contents:
  assumes "\<forall>i \<in> set idxs. admittedOutput tx topic meta i = Some (out i) \<and> (\<exists>x. meta i = Some (Json x))"
  shows "fst (storeAdmitted ops tx topic meta idxs db)
    \<and> contents (snd (storeAdmitted ops tx topic meta idxs db)) (outputKey topic t i)
      = (if t = tx_id tx \<and> i \<in> set idxs then Some (Json (out i)) else contents db (outputKey topic t i))
    \<and> ((\<forall>t i. k \<noteq> outputKey topic t i) \<longrightarrow> contents (snd (storeAdmitted ops tx topic meta idxs db)) k = contents db k)"
  using assms
proof (induction idxs arbitrary: db)
  case (Cons j idxs)
  then obtain x where j: "admittedOutput tx topic meta j = Some (out j)" "meta j = Some (Json x)" by auto
  then have f: "ao_Topic (out j) = topic" "ao_Txid (out j) = tx_id tx" "ao_Vout (out j) = j" "ao_Metadata (out j) = Some (Json x)"
    using admittedOutput_fields [OF j(1)] by simp_all
  have "contents (storeOutput ops (out j) db) = (contents db)(outputKey topic (tx_id tx) j \<mapsto> Json (out j))"
    using storeOutput_contents [OF f(4)] f by simp
  with Cons.IH [of "storeOutput ops (out j) db"] Cons.prems j(1) show ?case by auto
qed simp

lemma removeCoins_contents:
  assumes "\<forall>i \<in> set idxs. 0 \<le> i \<and> i < int (length sp)"
  shows "fst (removeCoins ops topic sp idxs db) \<noteq> None
    \<and> contents (snd (removeCoins ops topic sp idxs db)) (outputKey topic t i)
      = (if (t, i) \<in> (\<lambda>j. coin (sp ! nat j)) ` set idxs then None else contents db (outputKey topic t i))
    \<and> ((\<forall>t i. k \<noteq> outputKey topic t i) \<longrightarrow> contents (snd (removeCoins ops topic sp idxs db)) k = contents db k)"
  using assms
proof (induction idxs arbitrary: db)
  case (Cons j idxs)
  let ?db = "removeOutput ops (ao_Txid (snd (sp ! nat j))) (ao_Vout (snd (sp ! nat j))) topic db"
  from Cons.IH [of ?db] Cons.prems show ?case
    by (auto simp: Let_def removeOutput_contents coin_def split: prod.splits option.splits)
qed simp

lemma findSpent_set:
  "snd ` set (findSpentUTXOs ops db tx topic)
   = {out. \<exists>op \<in> spends tx. utxo_index (contents db) topic op = Some out}"
proof -
  have "snd ` set (findSpentUTXOs ops db tx topic)
    = {out. \<exists>inp \<in> snd ` set (enumerate 0 (tx_ins tx)). utxo_index (contents db) topic (in_txid inp, uint (in_vout inp)) = Some out}"
    by (force simp: findSpentUTXOs_def set_map_filter get_spec utxo_index_def bind_eq_Some_conv image_iff split: option.splits)
  also have "snd ` set (enumerate 0 (tx_ins tx)) = set (tx_ins tx)" by (metis list.set_map map_snd_enumerate)
  finally show ?thesis by (auto simp: spends_def)
qed

lemma removed_coins:
  assumes "index_ok (contents db) topic"
  shows "(\<lambda>j. coin (findSpentUTXOs ops db tx topic ! nat j)) ` set (map int [0..<length (findSpentUTXOs ops db tx topic)])
    = spends tx \<inter> dom (utxo_index (contents db) topic)"
proof -
  let ?sp = "findSpentUTXOs ops db tx topic"
  have "(\<lambda>j. coin (?sp ! nat j)) ` set (map int [0..<length ?sp]) = coin ` set ?sp"
    by (force simp: set_conv_nth image_iff)
  also have "\<dots> = (\<lambda>out. (ao_Txid out, ao_Vout out)) ` snd ` set ?sp" by (simp add: coin_def image_image)
  also have "\<dots> = spends tx \<inter> dom (utxo_index (contents db) topic)"
    unfolding findSpent_set by (rule outpoints_of) (use index_ok_entry [OF assms] in \<open>auto simp: split_paired_all\<close>)
  finally show ?thesis .
qed

end

interpretation demoe: engine_db mem_ops map_of
  by (intro engine_db.intro mem.leveldb_axioms engine_db_axioms.intro mem_reliable)

lemma UHRP_Admit_instr:
  assumes "parse_tx lib b = Inr tx"
  shows "UHRP_Admit lib b prev = Inr (if advertised (tx_outs tx) = [] \<and> prev = [] then None
    else Some \<lparr>OutputsToAdmit = map fst (advertised (tx_outs tx)), CoinsToRetain = [],
      CoinsRemoved = map int [0..<length prev], OutputMetadata = map_option Json \<circ> map_of (advertised (tx_outs tx))\<rparr>)"
  using assms by (simp add: UHRP_Admit_def Let_def)

lemma admitted_advert:
  assumes "i \<in> set (map fst (advertised (tx_outs tx)))"
  shows "\<exists>e. admittedOutput tx UHRPTopicName (map_option Json \<circ> map_of (advertised (tx_outs tx))) i = Some (uhrpOutput tx i e)
    \<and> adverts tx (tx_id tx, i) = Some (uhrpOutput tx i e)"
  using assms
  by (auto simp: advertised_mem admittedOutput_def uhrpOutput_def adverts_def map_of_advertised Let_def)

lemma adverts_key: "adverts tx (t, i) \<noteq> None \<longleftrightarrow> t = tx_id tx \<and> i \<in> set (map fst (advertised (tx_outs tx)))"
proof -
  have "i \<in> set (map fst (advertised (tx_outs tx))) \<longleftrightarrow> (\<exists>e. (i, e) \<in> set (advertised (tx_outs tx)))" by force
  then show ?thesis by (auto simp: adverts_def advertised_mem)
qed

locale uhrp_env = engine_db ops contents
  for ops :: "('db, UHRPEntry) output_ops" and contents :: "'db \<Rightarrow> (bytes \<rightharpoonup> UHRPEntry AdmittedOutput json)"
begin

abbreviation index :: "'db \<Rightarrow> outpoint \<rightharpoonup> UHRPEntry AdmittedOutput" where
  "index db \<equiv> utxo_index (contents db) UHRPTopicName"

lemma admitted_contents:
  fixes tx db
  defines "meta \<equiv> map_option Json \<circ> map_of (advertised (tx_outs tx))"
  defines "r \<equiv> storeAdmitted ops tx UHRPTopicName meta (map fst (advertised (tx_outs tx))) db"
  shows "fst r \<and> contents (snd r) (outputKey UHRPTopicName t i)
      = (case adverts tx (t, i) of Some out \<Rightarrow> Some (Json out) | None \<Rightarrow> contents db (outputKey UHRPTopicName t i))
    \<and> ((\<forall>t i. k \<noteq> outputKey UHRPTopicName t i) \<longrightarrow> contents (snd r) k = contents db k)"
proof -
  let ?out = "\<lambda>i. the (adverts tx (tx_id tx, i))"
  have ok: "admittedOutput tx UHRPTopicName meta i = Some (?out i) \<and> (\<exists>x. meta i = Some (Json x))"
    if "i \<in> set (map fst (advertised (tx_outs tx)))" for i
  proof -
    from that have "map_of (advertised (tx_outs tx)) i \<noteq> None" by (simp add: map_of_eq_None_iff)
    with admitted_advert [OF that] show ?thesis by (auto simp: meta_def)
  qed
  have "fst r \<and> contents (snd r) (outputKey UHRPTopicName t i)
      = (if t = tx_id tx \<and> i \<in> set (map fst (advertised (tx_outs tx))) then Some (Json (?out i)) else contents db (outputKey UHRPTopicName t i))
    \<and> ((\<forall>t i. k \<noteq> outputKey UHRPTopicName t i) \<longrightarrow> contents (snd r) k = contents db k)"
    unfolding r_def by (rule storeAdmitted_contents) (use ok in blast)
  then show ?thesis using adverts_key [of tx t i] by (auto split: option.splits)
qed

lemma submitTopic_contents:
  assumes p: "parse_tx lib (tx_bytes tx) = Inr tx" and ok: "index_ok (contents db) UHRPTopicName"
    and s: "submitTopic ops tx UHRPTopicName (NewUHRPTopicManager lib) db = (r, db')"
  shows "(\<exists>i. r = Inr i) \<and> contents db' (outputKey UHRPTopicName t i) = map_option Json (submit_spec tx (index db) (t, i))
    \<and> ((\<forall>t i. k \<noteq> outputKey UHRPTopicName t i) \<longrightarrow> contents db' k = contents db k)"
proof -
  let ?sp = "findSpentUTXOs ops db tx UHRPTopicName" and ?ads = "advertised (tx_outs tx)"
  have old: "contents db (outputKey UHRPTopicName t i) = map_option Json (index db (t, i))" by (rule index_ok_lookup [OF ok])
  have rm: "(\<lambda>j. coin (?sp ! nat j)) ` set (map int [0..<length ?sp]) = spends tx \<inter> dom (index db)"
    by (rule removed_coins [OF ok])
  have adm: "tm_Admit (NewUHRPTopicManager lib) (tx_bytes tx) (map snd ?sp) = Inr (if ?ads = [] \<and> ?sp = [] then None
      else Some \<lparr>OutputsToAdmit = map fst ?ads, CoinsToRetain = [], CoinsRemoved = map int [0..<length ?sp],
        OutputMetadata = map_option Json \<circ> map_of ?ads\<rparr>)"
    using UHRP_Admit_instr [OF p] by (simp add: NewUHRPTopicManager_def)
  show ?thesis
  proof (cases "?ads = [] \<and> ?sp = []")
    case True
    then have "adverts tx (t, i) = None" using adverts_key [of tx t i] by auto
    moreover have "(t, i) \<notin> spends tx \<inter> dom (index db)" using rm True by simp
    ultimately have "submit_spec tx (index db) (t, i) = index db (t, i)"
      by (simp add: submit_spec_def restrict_map_def map_add_def) (simp add: domIff)
    with s adm True old show ?thesis by (auto simp: submitTopic_def Let_def)
  next
    case False
    let ?st = "storeAdmitted ops tx UHRPTopicName (map_option Json \<circ> map_of ?ads) (map fst ?ads) db"
    let ?rc = "removeCoins ops UHRPTopicName ?sp (map int [0..<length ?sp]) (snd ?st)"
    note st = admitted_contents [of tx db t i k]
    have rc: "fst ?rc \<noteq> None \<and> contents (snd ?rc) (outputKey UHRPTopicName t i)
        = (if (t, i) \<in> spends tx \<inter> dom (index db) then None else contents (snd ?st) (outputKey UHRPTopicName t i))
      \<and> ((\<forall>t i. k \<noteq> outputKey UHRPTopicName t i) \<longrightarrow> contents (snd ?rc) k = contents (snd ?st) k)"
      unfolding rm [symmetric] by (rule removeCoins_contents) auto
    have "(\<exists>x. r = Inr x) \<and> db' = snd ?rc"
      using s adm False st rc by (auto simp: submitTopic_def Let_def retainCoins_def split: prod.splits option.splits bool.splits)
    moreover have "submit_spec tx (index db) (t, i) = (if (t, i) \<in> spends tx \<inter> dom (index db) then None
        else case adverts tx (t, i) of None \<Rightarrow> index db (t, i) | Some out \<Rightarrow> Some out)"
      by (simp add: submit_spec_def restrict_map_def map_add_def Int_commute)
    ultimately show ?thesis using st rc old by (auto split: option.splits)
  qed
qed

lemma spec_entry:
  assumes "index_ok (contents db) UHRPTopicName" "submit_spec tx (index db) (t, i) = Some out"
  shows "ao_Txid out = t \<and> ao_Vout out = i \<and> \<not> ao_Spent out"
proof -
  from assms(2) have "adverts tx (t, i) = Some out \<or> index db (t, i) = Some out"
    by (auto simp: submit_spec_def restrict_map_def map_add_def split: if_splits option.splits)
  then show ?thesis
    using index_ok_entry [OF assms(1)] by (auto simp: adverts_def uhrpOutput_def split: if_splits)
qed

lemma submit_refines:
  assumes p: "parse_tx lib (tx_bytes tx) = Inr tx" and ok: "index_ok (contents db) UHRPTopicName"
    and s: "submitTopic ops tx UHRPTopicName (NewUHRPTopicManager lib) db = (r, db')"
  shows "index db' = submit_spec tx (index db) \<and> index_ok (contents db') UHRPTopicName"
proof
  note c = submitTopic_contents [OF p ok s]
  show "index db' = submit_spec tx (index db)"
  proof
    fix op
    show "index db' op = submit_spec tx (index db) op"
      using c [of "fst op" "snd op"] by (cases op) (auto simp: utxo_index_def Option.bind_map_option comp_def)
  qed
  show "index_ok (contents db') UHRPTopicName"
    unfolding index_ok_def
  proof (intro allI impI)
    fix k v
    assume k: "contents db' k = Some v" and pre: "prefix (''ovl:'' @ UHRPTopicName @ '':'') k"
    show "\<exists>out. v = Json out \<and> k = outputKey UHRPTopicName (ao_Txid out) (ao_Vout out) \<and> \<not> ao_Spent out"
    proof (cases "\<exists>t i. k = outputKey UHRPTopicName t i")
      case True
      then obtain t i where ti: "k = outputKey UHRPTopicName t i" by blast
      with k c [of t i] obtain out where "v = Json out" "submit_spec tx (index db) (t, i) = Some out" by auto
      with spec_entry [OF ok] ti show ?thesis by blast
    next
      case False
      with c [of _ _ k] k have "contents db k = Some v" by auto
      with ok pre show ?thesis by (auto simp: index_ok_def)
    qed
  qed
qed

end

context engine_db
begin

lemma outputs_of_topic:
  assumes ok: "index_ok (contents db) topic"
  shows "set (fst (GetOutputsByTopic ops db topic)) = ran (utxo_index (contents db) topic)
    \<and> distinct (fst (GetOutputsByTopic ops db topic)) \<and> snd (GetOutputsByTopic ops db topic) = None"
proof -
  let ?p = "''ovl:'' @ topic @ '':''"
  define kvs where "kvs = fst (db_iter ops db ?p)"
  have mem: "(k, v) \<in> set kvs \<longleftrightarrow> contents db k = Some v \<and> prefix ?p k" for k v
    unfolding kvs_def by (rule iter_mem)
  have kv: "\<exists>out. kv = (outputKey topic (ao_Txid out) (ao_Vout out), Json out) \<and> \<not> ao_Spent out" if "kv \<in> set kvs" for kv
    using that ok mem [of "fst kv" "snd kv"] unfolding index_ok_def by (metis prod.collapse)
  define outs where "outs = List.map_filter (\<lambda>(k, v). unjson v) kvs"
  have g: "GetOutputsByTopic ops db topic = (filter (\<lambda>out. \<not> ao_Spent out) outs, None)"
    by (simp add: GetOutputsByTopic_def outs_def kvs_def case_prod_unfold iter_ok)
  have all: "kvs = map (\<lambda>out. (outputKey topic (ao_Txid out) (ao_Vout out), Json out)) outs \<and> list_all (\<lambda>out. \<not> ao_Spent out) outs"
    using kv unfolding outs_def by (induction kvs) (force simp: List.map_filter_simps)+
  have "distinct (map fst kvs)" unfolding kvs_def by (rule iter_distinct)
  then have d: "distinct outs" using all by (metis distinct_map)
  have f: "filter (\<lambda>out. \<not> ao_Spent out) outs = outs" using all by (simp add: list_all_iff filter_id_conv)
  have "out \<in> set outs \<longleftrightarrow> out \<in> ran (utxo_index (contents db) topic)" for out
  proof
    assume "out \<in> set outs"
    with all have "(outputKey topic (ao_Txid out) (ao_Vout out), Json out) \<in> set kvs" by auto
    with mem have "utxo_index (contents db) topic (ao_Txid out, ao_Vout out) = Some out" by (simp add: utxo_index_def)
    then show "out \<in> ran (utxo_index (contents db) topic)" by (auto simp: ran_def)
  next
    assume "out \<in> ran (utxo_index (contents db) topic)"
    then obtain t i where ti: "utxo_index (contents db) topic (t, i) = Some out" by (auto simp: ran_def)
    have "(outputKey topic t i, Json out) \<in> set kvs" using mem index_ok_entry(1) [OF ok ti] outputKey_prefix(1) by blast
    with all show "out \<in> set outs" by auto
  qed
  with g d f show ?thesis by auto
qed

lemma Reconcile_contents:
  "contents (eng_db (snd (Reconcile ops isUnspent e))) k
   = (if prefix ''ovl:'' k \<and> (\<exists>out. Option.bind (contents (eng_db e) k) unjson = Some out
        \<and> isUnspent (ao_Txid out) (ao_Vout out) = Inr False) then None else contents (eng_db e) k)"
proof -
  define kvs where "kvs = fst (db_iter ops (eng_db e) ''ovl:'')"
  define td where "td = map fst (filter (\<lambda>(k, v). case unjson v of None \<Rightarrow> False
      | Some out \<Rightarrow> isUnspent (ao_Txid out) (ao_Vout out) = Inr False) kvs)"
  have "k \<in> set td \<longleftrightarrow> (\<exists>v out. (k, v) \<in> set kvs \<and> unjson v = Some out \<and> isUnspent (ao_Txid out) (ao_Vout out) = Inr False)"
    unfolding td_def by (force split: option.splits)
  also have "\<dots> \<longleftrightarrow> prefix ''ovl:'' k \<and> (\<exists>out. Option.bind (contents (eng_db e) k) unjson = Some out
        \<and> isUnspent (ao_Txid out) (ao_Vout out) = Inr False)"
    unfolding kvs_def iter_mem by (auto simp: bind_eq_Some_conv)
  finally have td: "k \<in> set td \<longleftrightarrow> prefix ''ovl:'' k \<and> (\<exists>out. Option.bind (contents (eng_db e) k) unjson = Some out
        \<and> isUnspent (ao_Txid out) (ao_Vout out) = Inr False)" .
  have "eng_db (snd (Reconcile ops isUnspent e)) = delete_keys ops (eng_db e) td"
    using iter_pair [of "eng_db e" "''ovl:''"] by (simp add: Reconcile_def Let_def td_def kvs_def split: prod.splits)
  then show ?thesis by (simp add: delete_keys_contents [OF rel] td)
qed

end

section \<open>Properties\<close>

interpretation demou: uhrp_env mem_ops map_of
  by (intro uhrp_env.intro demoe.engine_db_axioms)

definition demo_advert :: "UHRPEntry AdmittedOutput" where
  "demo_advert = \<lparr>ao_Txid = ''t'', ao_Vout = 0, ao_Topic = UHRPTopicName, ao_OutputScript = [], ao_Satoshis = 1,
     ao_Metadata = Some (Json \<lparr>ue_ContentHash = ''ab'', ue_URL = [], ue_ContentType = []\<rparr>), ao_Spent = False\<rparr>"

definition demo_index :: "(bytes \<times> UHRPEntry AdmittedOutput json) list" where
  "demo_index = [(outputKey UHRPTopicName ''t'' 0, Json demo_advert)]"

lemma demo_index:
  "index_ok (map_of demo_index) UHRPTopicName"
  "utxo_index (map_of demo_index) UHRPTopicName = [(''t'', 0) \<mapsto> demo_advert]"
  "ran (utxo_index (map_of demo_index) UHRPTopicName) = {demo_advert}"
proof -
  show "index_ok (map_of demo_index) UHRPTopicName" by (simp add: index_ok_def demo_index_def demo_advert_def)
  show u: "utxo_index (map_of demo_index) UHRPTopicName = [(''t'', 0) \<mapsto> demo_advert]"
    by (auto simp: utxo_index_def demo_index_def fun_eq_iff)
  show "ran (utxo_index (map_of demo_index) UHRPTopicName) = {demo_advert}" unfolding u by simp
qed

definition uhrpEngine :: "('db, UHRPEntry) output_ops \<Rightarrow> tx_codec \<Rightarrow> (bytes \<Rightarrow> string + UHRPLookupQuery) \<Rightarrow> 'db \<Rightarrow> ('db, UHRPEntry) engine" where
  \<comment> \<open>the engine as the node sets it up\<close>
  "uhrpEngine ops lib decode db = RegisterLookup UHRPLookupServiceName (NewUHRPLookupService ops decode) [UHRPTopicName]
     (RegisterTopic UHRPTopicName (NewUHRPTopicManager lib) (NewEngine db))"

lemma uhrpEngine_submit:
  assumes "tryParseBEEFOrRaw lib txData = Inr tx"
  shows "snd (SubmitTx ops lib (uhrpEngine ops lib decode db) txData [UHRPTopicName])
    = uhrpEngine ops lib decode (snd (submitTopic ops tx UHRPTopicName (NewUHRPTopicManager lib) db))"
  using assms
  by (auto simp: SubmitTx_def uhrpEngine_def RegisterLookup_def RegisterTopic_def NewEngine_def split: prod.splits sum.splits option.splits)

text \<open>
  C8: the engine maintains the UHRP index as specified. A submission to the UHRP topic, as BEEF or as a
  raw transaction, adds exactly the transaction's advertisements, each with its script, value and
  metadata, removes exactly the indexed outputs that the transaction spends, and leaves every other
  outpoint as it was; the well-formedness of the index is kept.
\<close>

theorem uhrp_submit_refines:
  assumes db: "uhrp_env ops contents" and "tryParseBEEFOrRaw lib txData = Inr tx" "parse_tx lib (tx_bytes tx) = Inr tx"
    and ok: "index_ok (contents d) UHRPTopicName"
    and s: "SubmitTx ops lib (uhrpEngine ops lib decode d) txData [UHRPTopicName] = (r, e')"
  shows "(\<exists>steak. r = Inr steak) \<and> e' = uhrpEngine ops lib decode (eng_db e')
    \<and> utxo_index (contents (eng_db e')) UHRPTopicName = submit_spec tx (utxo_index (contents d) UHRPTopicName)
    \<and> index_ok (contents (eng_db e')) UHRPTopicName"
proof -
  obtain q d' where st: "submitTopic ops tx UHRPTopicName (NewUHRPTopicManager lib) d = (q, d')" by force
  have e': "e' = uhrpEngine ops lib decode d'"
    using uhrpEngine_submit [OF assms(2), of ops decode d] s st by simp
  then have "eng_db e' = d'" by (simp add: uhrpEngine_def RegisterLookup_def RegisterTopic_def NewEngine_def)
  moreover have "\<exists>steak. r = Inr steak"
  proof -
    obtain i where "q = Inr i" using uhrp_env.submitTopic_contents [OF db assms(3) ok st] by blast
    with s st assms(2) show ?thesis
      by (cases i) (auto simp: SubmitTx_def uhrpEngine_def RegisterLookup_def RegisterTopic_def NewEngine_def)
  qed
  ultimately show ?thesis using uhrp_env.submit_refines [OF db assms(3) ok st] e' by simp
qed

theorem uhrp_submit_refines_witness:
  "\<exists>s r e' out. BuildUHRPScript (concat (replicate 32 ''ab'')) [] [] = Some s
    \<and> SubmitTx mem_ops demo_codec (uhrpEngine mem_ops demo_codec (\<lambda>_. Inl []) []) (CHR ''a'' # s) [UHRPTopicName] = (r, e')
    \<and> utxo_index (map_of (eng_db e')) UHRPTopicName (hex_encode (CHR ''a'' # s), 0) = Some out"
proof -
  have hd: "hex_decode (concat (replicate n ''ab'')) = Some (replicate n (CHR 0xAB))" for n
    by (induction n) (simp_all add: unhex_def char_of_def bit_simps)
  then obtain s where s: "BuildUHRPScript (concat (replicate 32 ''ab'')) [] [] = Some s" by (simp add: BuildUHRPScript_def)
  from parse_built [OF hd _ s] obtain entry where p: "parseUHRPOutput s = Some entry" by simp
  let ?tx = "demo_tx (CHR ''a'' # s)"
  have ad: "adverts ?tx (hex_encode (CHR ''a'' # s), 0) = Some (uhrpOutput ?tx 0 entry)"
    using p by (simp add: adverts_def demo_tx_def)
  obtain r e' where sub: "SubmitTx mem_ops demo_codec (uhrpEngine mem_ops demo_codec (\<lambda>_. Inl []) []) (CHR ''a'' # s) [UHRPTopicName] = (r, e')"
    by force
  have "utxo_index (map_of (eng_db e')) UHRPTopicName = submit_spec ?tx (utxo_index (map_of []) UHRPTopicName)"
    using uhrp_submit_refines [OF demou.uhrp_env_axioms _ _ _ sub, of ?tx]
    by (simp add: tryParseBEEFOrRaw_def demo_codec_def demo_tx_def index_ok_def)
  then have "utxo_index (map_of (eng_db e')) UHRPTopicName (hex_encode (CHR ''a'' # s), 0) = Some (uhrpOutput ?tx 0 entry)"
    using ad by (simp add: submit_spec_def restrict_map_def map_add_def utxo_index_def dom_def del: hex_encode.simps)
  with s sub show ?thesis by blast
qed

text \<open>
  a lookup by content hash is exact. On a well-formed index the answer lists, once each, precisely
  the indexed outputs whose metadata has that hash, in either case of letters.
\<close>

theorem uhrp_lookup_exact:
  assumes db: "uhrp_env ops contents" and ok: "index_ok (contents d) UHRPTopicName"
    and q: "decode query = Inr q" "uq_ContentHash q \<noteq> []"
  shows "\<exists>outs. Lookup (uhrpEngine ops lib decode d) UHRPLookupServiceName query = Inr (OutputList outs) \<and> distinct outs
    \<and> set outs = {out \<in> ran (utxo_index (contents d) UHRPTopicName).
        \<exists>entry. uhrpMeta out = Some entry \<and> to_lower (ue_ContentHash entry) = to_lower (uq_ContentHash q)}"
proof -
  have "engine_db ops contents" using db by (rule uhrp_env.axioms)
  from engine_db.outputs_of_topic [OF this ok] obtain outs where
    g: "GetOutputsByTopic ops d UHRPTopicName = (outs, None)" "set outs = ran (utxo_index (contents d) UHRPTopicName)" "distinct outs"
    by (metis prod.collapse)
  then have "Lookup (uhrpEngine ops lib decode d) UHRPLookupServiceName query
      = Inr (OutputList (filter (\<lambda>out. case uhrpMeta out of None \<Rightarrow> False | Some e \<Rightarrow> to_lower (ue_ContentHash e) = to_lower (uq_ContentHash q)) outs))"
    using q by (simp add: Lookup_def uhrpEngine_def RegisterLookup_def RegisterTopic_def NewEngine_def NewUHRPLookupService_def UHRP_Lookup_def Let_def)
  with g(2,3) show ?thesis by (auto split: option.splits)
qed

theorem uhrp_lookup_exact_witness:
  "\<exists>outs. Lookup (uhrpEngine mem_ops demo_codec (\<lambda>_. Inr \<lparr>uq_ContentHash = ''AB'', uq_List = []\<rparr>) demo_index) UHRPLookupServiceName [] = Inr (OutputList outs)
    \<and> set outs = {demo_advert}"
proof -
  obtain outs where "Lookup (uhrpEngine mem_ops demo_codec (\<lambda>_. Inr \<lparr>uq_ContentHash = ''AB'', uq_List = []\<rparr>) demo_index) UHRPLookupServiceName [] = Inr (OutputList outs)"
    "set outs = {out \<in> ran (utxo_index (map_of demo_index) UHRPTopicName).
        \<exists>entry. uhrpMeta out = Some entry \<and> to_lower (ue_ContentHash entry) = to_lower ''AB''}"
    using uhrp_lookup_exact [OF demou.uhrp_env_axioms demo_index(1), of "\<lambda>_. Inr \<lparr>uq_ContentHash = ''AB'', uq_List = []\<rparr>" "[]"
        "\<lparr>uq_ContentHash = ''AB'', uq_List = []\<rparr>" demo_codec]
    by auto
  moreover have "to_lower ''AB'' = to_lower ''ab''" by (simp add: to_lower_def lower_char_def char_of_def bit_simps)
  moreover have "uhrpMeta demo_advert = Some \<lparr>ue_ContentHash = ''ab'', ue_URL = [], ue_ContentType = []\<rparr>"
    by (simp add: demo_advert_def uhrpMeta_def)
  ultimately show ?thesis unfolding demo_index(3) by auto
qed

text \<open>
  reconciliation removes what the chain says is spent and nothing else. After \<^verbatim>\<open>Reconcile\<close> an outpoint
  of a topic is indexed if and only if it was before and the checker did not answer that it is spent;
  outputs about which the checker fails are kept, and keys outside the engine's range are not touched.
\<close>

theorem Reconcile_exact:
  assumes db: "engine_db ops contents"
  shows "utxo_index (contents (eng_db (snd (Reconcile ops isUnspent e)))) topic op =
      (case utxo_index (contents (eng_db e)) topic op of
         None \<Rightarrow> None
       | Some out \<Rightarrow> if isUnspent (ao_Txid out) (ao_Vout out) = Inr False then None else Some out)
    \<and> (prefix ''ovl:'' k \<or> contents (eng_db (snd (Reconcile ops isUnspent e))) k = contents (eng_db e) k)"
proof -
  have pre: "prefix ''ovl:'' (outputKey t a i)" for t a i by (rule outputKey_prefix)
  show ?thesis
    by (cases op) (auto simp: utxo_index_def engine_db.Reconcile_contents [OF db] pre split: option.splits)
qed

theorem Reconcile_exact_witness:
  "utxo_index (map_of (eng_db (snd (Reconcile mem_ops (\<lambda>_ _. Inr False) (uhrpEngine mem_ops demo_codec (\<lambda>_. Inl []) demo_index))))) UHRPTopicName (''t'', 0) = None
   \<and> utxo_index (map_of (eng_db (snd (Reconcile mem_ops (\<lambda>_ _. Inl ''down'') (uhrpEngine mem_ops demo_codec (\<lambda>_. Inl []) demo_index))))) UHRPTopicName (''t'', 0)
      = Some demo_advert"
proof -
  have d: "eng_db (uhrpEngine mem_ops demo_codec (\<lambda>_. Inl []) demo_index) = demo_index"
    by (simp add: uhrpEngine_def RegisterLookup_def RegisterTopic_def NewEngine_def)
  note R = Reconcile_exact [OF demoe.engine_db_axioms, of _ "uhrpEngine mem_ops demo_codec (\<lambda>_. Inl []) demo_index" UHRPTopicName "(''t'', 0)", unfolded d demo_index(2)]
  from R [of "\<lambda>_ _. Inr False"] R [of "\<lambda>_ _. Inl ''down''"] show ?thesis by simp
qed

text \<open>
  The engine forgets what was spent: submitting an old transaction again, after the submission of the
  transaction that spends its advertisement, lists the spent advertisement again.
\<close>

lemma spent_advert_listed_again:
  assumes db: "uhrp_env ops contents" and tx: "tryParseBEEFOrRaw lib txData = Inr tx" "parse_tx lib (tx_bytes tx) = Inr tx"
    and ok: "index_ok (contents d) UHRPTopicName" and ad: "adverts tx op = Some out" "op \<notin> spends tx"
  shows "utxo_index (contents (eng_db (snd (SubmitTx ops lib (uhrpEngine ops lib decode d) txData [UHRPTopicName])))) UHRPTopicName op = Some out"
proof -
  obtain q d' where st: "submitTopic ops tx UHRPTopicName (NewUHRPTopicManager lib) d = (q, d')" by force
  have "eng_db (snd (SubmitTx ops lib (uhrpEngine ops lib decode d) txData [UHRPTopicName])) = d'"
    unfolding uhrpEngine_submit [OF tx(1)] st by (simp add: uhrpEngine_def RegisterLookup_def RegisterTopic_def NewEngine_def)
  with uhrp_env.submit_refines [OF db tx(2) ok st] ad show ?thesis
    by (simp add: submit_spec_def restrict_map_def)
qed

end
