(* ===== verification/Watcher.thy ===== *)
theory Watcher
  imports Leveldb
begin

text \<open>
  \<^verbatim>\<open>internal/mempool\<close>: the sharded transaction index (\<^verbatim>\<open>index.go\<close>) and the address watcher (\<^verbatim>\<open>watcher.go\<close>).

  Parameters: \<open>parseAddr\<close> is go-sdk's \<^verbatim>\<open>NewAddressFromString\<close> (the public key hash), \<open>decode\<close> the decoder of
  wire transactions. A Go channel is a number; \<open>queues\<close> holds what is buffered in each of them and a send
  in a \<^verbatim>\<open>select\<close> with a default branch is dropped when the buffer is full. Operations that lock, release
  and lock again are one step here. \<open>now\<close> is the clock in seconds.
\<close>

section \<open>The index\<close>

record TxMeta =
  FirstSeen :: int
  TxSize :: uint32

record txIndex =
  shards :: "nat \<Rightarrow> (bytes \<times> TxMeta) list"
  idx_count :: int

definition NewIndex :: txIndex where
  "NewIndex = \<lparr>shards = (\<lambda>_. []), idx_count = 0\<rparr>"

definition shardOf :: "bytes \<Rightarrow> nat" where
  "shardOf txid = of_char (hd txid)"

definition AddIndex :: "txIndex \<Rightarrow> bytes \<Rightarrow> TxMeta \<Rightarrow> bool \<times> txIndex" where
  "AddIndex idx txid meta =
     (let i = shardOf txid; s = shards idx i in
      if map_of s txid \<noteq> None then (False, idx)
      else (True, \<lparr>shards = (shards idx)(i := (txid, meta) # s), idx_count = idx_count idx + 1\<rparr>))"

definition HasIndex :: "txIndex \<Rightarrow> bytes \<Rightarrow> bool" where
  "HasIndex idx txid \<longleftrightarrow> map_of (shards idx (shardOf txid)) txid \<noteq> None"

definition RemoveIndex :: "txIndex \<Rightarrow> bytes \<Rightarrow> txIndex" where
  "RemoveIndex idx txid =
     (let i = shardOf txid; s = shards idx i in
      if map_of s txid \<noteq> None
      then \<lparr>shards = (shards idx)(i := AList.delete txid s), idx_count = idx_count idx - 1\<rparr>
      else idx)"

definition CountIndex :: "txIndex \<Rightarrow> int" where
  "CountIndex idx = idx_count idx"

definition CountByShard :: "txIndex \<Rightarrow> nat \<Rightarrow> nat" where
  "CountByShard idx p = length (shards idx p)"

definition ExpireBefore :: "int \<Rightarrow> txIndex \<Rightarrow> nat \<times> txIndex" where
  "ExpireBefore cutoff idx =
     (let evicted = sum_list (map (\<lambda>i. length (filter (\<lambda>e. FirstSeen (snd e) < cutoff) (shards idx i))) [0..<256])
      in (evicted, \<lparr>shards = (\<lambda>i. if i < 256 then filter (\<lambda>e. \<not> FirstSeen (snd e) < cutoff) (shards idx i) else shards idx i),
            idx_count = idx_count idx - int evicted\<rparr>))"

record IndexStats =
  ix_Total :: nat
  ix_Shards :: nat
  ix_Largest :: nat

definition stats_step :: "nat \<Rightarrow> IndexStats \<Rightarrow> IndexStats" where
  "stats_step n st =
     (if n > 0 then \<lparr>ix_Total = ix_Total st + n, ix_Shards = ix_Shards st + 1, ix_Largest = (if n > ix_Largest st then n else ix_Largest st)\<rparr>
      else st)"

definition GetStats :: "txIndex \<Rightarrow> IndexStats" where
  "GetStats idx = fold (\<lambda>i. stats_step (CountByShard idx i)) [0..<256] \<lparr>ix_Total = 0, ix_Shards = 0, ix_Largest = 0\<rparr>"

section \<open>The watcher\<close>

record WatchHit =
  wh_TxID :: string
  wh_Vout :: int
  wh_Address :: string
  wh_Satoshis :: int
  wh_ScriptHex :: string
  wh_Timestamp :: int
  wh_Spent :: bool
  wh_SpentBy :: string

record wire_txin =
  ti_Hash :: string
  ti_Index :: uint32

record wire_txout =
  to_Value :: int
  to_PkScript :: bytes

record wire_tx =
  TxIn :: "wire_txin list"
  TxOut :: "wire_txout list"

type_synonym chan = nat

record 'db watcher =
  watches :: "(bytes \<times> string) list"
  utxos :: "(string \<times> string) list"
  subs :: "string \<rightharpoonup> chan set"
  allCh :: "chan set"
  queues :: "chan \<Rightarrow> WatchHit list"
  wdb :: "'db option"
  hits :: int
  wspends :: int

record watch_env =
  parseAddr :: "string \<Rightarrow> string + bytes"
  decodeWire :: "bytes \<Rightarrow> wire_tx option"

type_synonym 'db hit_ops = "('db, WatchHit json) leveldb_ops"

definition prefixUTXO :: bytes where "prefixUTXO = ''wu:''"

definition utxoKey :: "string \<Rightarrow> int \<Rightarrow> string" where
  "utxoKey txid vout = txid @ '':'' @ itoa vout"

definition hitKey :: "string \<Rightarrow> string \<Rightarrow> int \<Rightarrow> bytes" where
  "hitKey address txid vout = prefixUTXO @ address @ '':'' @ txid @ '':'' @ itoa vout"

definition load_step :: "bytes \<times> WatchHit json \<Rightarrow> (string \<times> string) list \<Rightarrow> (string \<times> string) list" where
  "load_step kv m = (case unjson (snd kv) of
      None \<Rightarrow> m
    | Some hit \<Rightarrow> if wh_Spent hit then m else AList.update (utxoKey (wh_TxID hit) (wh_Vout hit)) (wh_Address hit) m)"

definition loadUTXOs :: "'db hit_ops \<Rightarrow> 'db \<Rightarrow> (string \<times> string) list" where
  "loadUTXOs ops db = fold load_step (fst (db_iter ops db prefixUTXO)) []"

definition NewWatcher :: "'db hit_ops \<Rightarrow> 'db option \<Rightarrow> 'db watcher" where
  "NewWatcher ops db = \<lparr>watches = [], utxos = (case db of None \<Rightarrow> [] | Some d \<Rightarrow> loadUTXOs ops d),
     subs = Map.empty, allCh = {}, queues = (\<lambda>_. []), wdb = db, hits = 0, wspends = 0\<rparr>"

datatype watch_err = ErrAddress string | ErrHashLength nat

definition AddWatch :: "watch_env \<Rightarrow> string \<Rightarrow> 'db watcher \<Rightarrow> watch_err + 'db watcher" where
  "AddWatch E address w =
     (case parseAddr E address of
        Inl e \<Rightarrow> Inl (ErrAddress e)
      | Inr pkh \<Rightarrow> if length pkh \<noteq> 20 then Inl (ErrHashLength (length pkh)) else Inr (w\<lparr>watches := AList.update pkh address (watches w)\<rparr>))"

definition RemoveWatch :: "watch_env \<Rightarrow> string \<Rightarrow> 'db watcher \<Rightarrow> 'db watcher" where
  "RemoveWatch E address w =
     (case parseAddr E address of
        Inl _ \<Rightarrow> w
      | Inr pkh \<Rightarrow> if length pkh \<noteq> 20 then w else w\<lparr>watches := AList.delete pkh (watches w)\<rparr>)"

definition ListWatch :: "'db watcher \<Rightarrow> string list" where
  "ListWatch w = map snd (watches w)"

definition CountWatch :: "'db watcher \<Rightarrow> nat" where
  "CountWatch w = length (watches w)"

definition Hits :: "'db watcher \<Rightarrow> int" where "Hits w = hits w"
definition Spends :: "'db watcher \<Rightarrow> int" where "Spends w = wspends w"

definition SubscribeWatch :: "string \<Rightarrow> chan \<Rightarrow> 'db watcher \<Rightarrow> 'db watcher" where
  "SubscribeWatch address ch w =
     (if address = [] then w\<lparr>allCh := insert ch (allCh w)\<rparr>
      else w\<lparr>subs := (subs w)(address \<mapsto> insert ch (case subs w address of None \<Rightarrow> {} | Some s \<Rightarrow> s))\<rparr>)"

definition UnsubscribeWatch :: "string \<Rightarrow> chan \<Rightarrow> 'db watcher \<Rightarrow> 'db watcher" where
  "UnsubscribeWatch address ch w =
     (if address = [] then w\<lparr>allCh := allCh w - {ch}\<rparr>
      else let s = (case subs w address of None \<Rightarrow> {} | Some s \<Rightarrow> s) - {ch}
           in w\<lparr>subs := (subs w)(address := if s = {} then None else Some s)\<rparr>)"

definition History :: "'db hit_ops \<Rightarrow> 'db watcher \<Rightarrow> string \<Rightarrow> int \<Rightarrow> WatchHit list" where
  "History ops w address limit =
     (case wdb w of
        None \<Rightarrow> []
      | Some db \<Rightarrow>
         (let found = List.map_filter (\<lambda>(k, v). unjson v) (fst (db_iter ops db (prefixUTXO @ address @ '':'')));
              sorted = sort_key (\<lambda>h. - wh_Timestamp h) found
          in if limit > 0 \<and> int (length sorted) > limit then take (nat limit) sorted else sorted))"

definition offer :: "nat \<Rightarrow> 'a \<Rightarrow> chan \<Rightarrow> 'a list \<Rightarrow> 'a list" where
  \<comment> \<open>a non-blocking send to a channel with buffer \<open>cap\<close>\<close>
  "offer cap x ch q = (if length q < cap then q @ [x] else q)"

definition chanCap :: nat where "chanCap = 16"

definition notifyWatch :: "WatchHit \<Rightarrow> 'db watcher \<Rightarrow> 'db watcher" where
  "notifyWatch hit w =
     (let targets = (case subs w (wh_Address hit) of None \<Rightarrow> {} | Some s \<Rightarrow> s);
          q1 = (\<lambda>ch. if ch \<in> targets then offer chanCap hit ch (queues w ch) else queues w ch);
          q2 = (\<lambda>ch. if ch \<in> allCh w then offer chanCap hit ch (q1 ch) else q1 ch)
      in w\<lparr>queues := q2\<rparr>)"

definition persist :: "'db hit_ops \<Rightarrow> WatchHit \<Rightarrow> 'db watcher \<Rightarrow> 'db watcher" where
  "persist ops hit w =
     (case wdb w of
        None \<Rightarrow> w
      | Some db \<Rightarrow>
         (case db_put ops db (hitKey (wh_Address hit) (wh_TxID hit) (wh_Vout hit)) (Json hit) of
            Inl _ \<Rightarrow> w | Inr db' \<Rightarrow> w\<lparr>wdb := Some db'\<rparr>))"

definition persistSpend :: "'db hit_ops \<Rightarrow> WatchHit \<Rightarrow> 'db watcher \<Rightarrow> 'db watcher" where
  "persistSpend ops hit w =
     (case wdb w of
        None \<Rightarrow> w
      | Some db \<Rightarrow>
         (let k = hitKey (wh_Address hit) (wh_TxID hit) (wh_Vout hit) in
          case db_get ops db k of
            Inl _ \<Rightarrow> w
          | Inr existing \<Rightarrow>
             (case unjson existing of
                None \<Rightarrow> w
              | Some orig \<Rightarrow>
                 (case db_put ops db k (Json (orig\<lparr>wh_Spent := True, wh_SpentBy := wh_SpentBy hit\<rparr>)) of
                    Inl _ \<Rightarrow> w | Inr db' \<Rightarrow> w\<lparr>wdb := Some db'\<rparr>))))"

definition extractP2PKHHash160 :: "bytes \<Rightarrow> bytes option" where
  "extractP2PKHHash160 s =
     (if length s = 25 \<and> s ! 0 = CHR 0x76 \<and> s ! 1 = CHR 0xa9 \<and> s ! 2 = CHR 0x14 \<and> s ! 23 = CHR 0x88 \<and> s ! 24 = CHR 0xac
      then Some (take 20 (drop 3 s)) else None)"

definition checkOutput :: "'db hit_ops \<Rightarrow> int \<Rightarrow> string \<Rightarrow> nat \<times> wire_txout \<Rightarrow> 'db watcher \<Rightarrow> 'db watcher" where
  "checkOutput ops now txid vo w =
     (case vo of (vout, out) \<Rightarrow>
       (case extractP2PKHHash160 (to_PkScript out) of
          None \<Rightarrow> w
        | Some key \<Rightarrow>
           (case map_of (watches w) key of
              None \<Rightarrow> w
            | Some addr \<Rightarrow>
               (let hit = \<lparr>wh_TxID = txid, wh_Vout = int vout, wh_Address = addr, wh_Satoshis = to_Value out,
                      wh_ScriptHex = hex_encode (to_PkScript out), wh_Timestamp = now, wh_Spent = False, wh_SpentBy = []\<rparr>
                in notifyWatch hit (persist ops hit
                     (w\<lparr>hits := hits w + 1, utxos := AList.update (utxoKey txid (int vout)) addr (utxos w)\<rparr>))))))"

definition checkInput :: "'db hit_ops \<Rightarrow> int \<Rightarrow> string \<Rightarrow> wire_txin \<Rightarrow> 'db watcher \<Rightarrow> 'db watcher" where
  "checkInput ops now txid inp w =
     (let prevTxid = ti_Hash inp; prevVout = uint (ti_Index inp); k = utxoKey prevTxid prevVout in
      case map_of (utxos w) k of
        None \<Rightarrow> w
      | Some addr \<Rightarrow>
         (let spendHit = \<lparr>wh_TxID = prevTxid, wh_Vout = prevVout, wh_Address = addr, wh_Satoshis = 0,
                wh_ScriptHex = [], wh_Timestamp = now, wh_Spent = True, wh_SpentBy = txid\<rparr>
          in notifyWatch spendHit (persistSpend ops spendHit
               (w\<lparr>wspends := wspends w + 1, utxos := AList.delete k (utxos w)\<rparr>))))"

definition CheckTx :: "watch_env \<Rightarrow> 'db hit_ops \<Rightarrow> int \<Rightarrow> string \<Rightarrow> bytes \<Rightarrow> 'db watcher \<Rightarrow> 'db watcher" where
  "CheckTx E ops now txid raw w =
     (if watches w = [] \<and> utxos w = [] then w
      else case decodeWire E raw of
        None \<Rightarrow> w
      | Some tx \<Rightarrow> fold (checkInput ops now txid) (TxIn tx) (fold (checkOutput ops now txid) (enumerate 0 (TxOut tx)) w))"

section \<open>The index is a set with a count\<close>

definition entries :: "(nat \<Rightarrow> 'a list) \<Rightarrow> nat" where
  "entries f = (\<Sum>i < 256. length (f i))"

definition shard_ok :: "txIndex \<Rightarrow> bool" where
  \<comment> \<open>every shard holds distinct ids that belong to it, and the counter is their number\<close>
  "shard_ok idx \<longleftrightarrow> (\<forall>i. distinct (map fst (shards idx i)) \<and> (\<forall>x \<in> set (shards idx i). shardOf (fst x) = i))
     \<and> (\<forall>i \<ge> 256. shards idx i = []) \<and> idx_count idx = int (entries (shards idx))"

definition indexed :: "txIndex \<Rightarrow> bytes \<rightharpoonup> TxMeta" where
  "indexed idx txid = map_of (shards idx (shardOf txid)) txid"

lemma shardOf_lt: "shardOf txid < 256"
  unfolding shardOf_def by (rule of_char_bound)

lemma entries_upd: "i < 256 \<Longrightarrow> entries (f(i := s)) + length (f i) = entries f + length s"
  by (simp add: entries_def sum.remove [of "{..<256}" i])

lemma set_delete_subset: "set (AList.delete k s) \<subseteq> set s"
  by (induction s) auto

lemma length_delete: "distinct (map fst s) \<Longrightarrow> map_of s k \<noteq> None \<Longrightarrow> Suc (length (AList.delete k s)) = length s"
proof (induction s)
  case (Cons kv s)
  then show ?case by (cases "fst kv = k") (auto simp: delete_id map_of_eq_None_iff)
qed simp

lemma NewIndex_ok: "shard_ok NewIndex"
  by (simp add: shard_ok_def NewIndex_def entries_def)

lemma AddIndex_ok:
  assumes "shard_ok idx"
  shows "shard_ok (snd (AddIndex idx txid meta))"
proof (cases "map_of (shards idx (shardOf txid)) txid")
  case None
  have "txid \<notin> fst ` set (shards idx (shardOf txid))" using None by (simp add: map_of_eq_None_iff)
  moreover have "shardOf txid < 256" by (rule shardOf_lt)
  ultimately show ?thesis
    using assms None entries_upd [OF shardOf_lt, of "shards idx" txid "(txid, meta) # shards idx (shardOf txid)"]
    by (auto simp: AddIndex_def shard_ok_def Let_def)
qed (use assms in \<open>simp add: AddIndex_def Let_def\<close>)

lemma RemoveIndex_ok:
  assumes "shard_ok idx"
  shows "shard_ok (RemoveIndex idx txid)"
proof (cases "map_of (shards idx (shardOf txid)) txid")
  case (Some m)
  let ?s = "shards idx (shardOf txid)"
  have lt: "shardOf txid < 256" by (rule shardOf_lt)
  have d: "distinct (map fst ?s)" using assms by (simp add: shard_ok_def)
  have "entries ((shards idx)(shardOf txid := AList.delete txid ?s)) + 1 = entries (shards idx)"
    using entries_upd [OF lt, of "shards idx" "AList.delete txid ?s"] length_delete [OF d, of txid] Some by simp
  with Some assms lt show ?thesis
    by (auto simp: RemoveIndex_def shard_ok_def Let_def distinct_delete dest: subsetD [OF set_delete_subset])
qed (use assms in \<open>simp add: RemoveIndex_def Let_def\<close>)

lemma ExpireBefore_ok:
  assumes "shard_ok idx"
  shows "shard_ok (snd (ExpireBefore cutoff idx))"
proof -
  let ?P = "\<lambda>x. FirstSeen (snd x) < cutoff"
  have split: "length (filter ?P xs) + length (filter (\<lambda>x. \<not> ?P x) xs) = length xs" for xs :: "(bytes \<times> TxMeta) list"
    by (rule sum_length_filter_compl)
  have "entries (\<lambda>i. if i < 256 then filter (\<lambda>x. \<not> ?P x) (shards idx i) else shards idx i)
      + (\<Sum>i < 256. length (filter ?P (shards idx i))) = entries (shards idx)"
    unfolding entries_def by (simp add: split add.commute flip: sum.distrib)
  moreover have "sum_list (map (\<lambda>i. length (filter ?P (shards idx i))) [0..<256]) = (\<Sum>i < 256. length (filter ?P (shards idx i)))"
    by (simp add: interv_sum_list_conv_sum_set_nat atLeast0LessThan)
  ultimately have "int (entries (\<lambda>i. if i < 256 then filter (\<lambda>x. \<not> ?P x) (shards idx i) else shards idx i))
      = int (entries (shards idx)) - int (sum_list (map (\<lambda>i. length (filter ?P (shards idx i))) [0..<256]))"
    by linarith
  moreover have "distinct (map fst (filter Q (shards idx i)))" for Q i
    using assms by (simp add: shard_ok_def distinct_map_filter)
  ultimately show ?thesis
    using assms by (auto simp: ExpireBefore_def shard_ok_def Let_def)
qed

lemma map_of_filter:
  "distinct (map fst s) \<Longrightarrow> map_of (filter (\<lambda>x. Q (snd x)) s) k = (case map_of s k of None \<Rightarrow> None | Some v \<Rightarrow> if Q v then Some v else None)"
  by (induction s) (auto simp: map_of_eq_None_iff rev_image_eqI split: option.splits)

lemma indexed_ops:
  "indexed NewIndex = Map.empty"
  "indexed (snd (AddIndex idx t m)) = (if indexed idx t = None then (indexed idx)(t \<mapsto> m) else indexed idx)"
  "indexed (RemoveIndex idx t) = (indexed idx)(t := None)"
  "shard_ok idx \<Longrightarrow> indexed (snd (ExpireBefore c idx)) = (\<lambda>t. case indexed idx t of None \<Rightarrow> None | Some m \<Rightarrow> if FirstSeen m < c then None else Some m)"
proof -
  show "indexed NewIndex = Map.empty" by (simp add: indexed_def NewIndex_def fun_eq_iff)
  show "indexed (snd (AddIndex idx t m)) = (if indexed idx t = None then (indexed idx)(t \<mapsto> m) else indexed idx)"
    by (auto simp: indexed_def AddIndex_def Let_def fun_eq_iff)
  show "indexed (RemoveIndex idx t) = (indexed idx)(t := None)"
    by (auto simp: indexed_def RemoveIndex_def Let_def fun_eq_iff delete_conv')
  assume ok: "shard_ok idx"
  have "map_of (filter (\<lambda>x. \<not> FirstSeen (snd x) < c) (shards idx i)) t
      = (case map_of (shards idx i) t of None \<Rightarrow> None | Some m \<Rightarrow> if FirstSeen m < c then None else Some m)" for t i
    using ok map_of_filter [of "shards idx i" "\<lambda>m. \<not> FirstSeen m < c" t] by (simp add: shard_ok_def split: option.splits)
  then show "indexed (snd (ExpireBefore c idx)) = (\<lambda>t. case indexed idx t of None \<Rightarrow> None | Some m \<Rightarrow> if FirstSeen m < c then None else Some m)"
    by (simp add: indexed_def ExpireBefore_def Let_def fun_eq_iff shardOf_lt)
qed

lemma card_indexed:
  assumes "shard_ok idx"
  shows "card (dom (indexed idx)) = entries (shards idx)"
proof -
  let ?D = "\<lambda>i. fst ` set (shards idx i)"
  have home: "shardOf t = i" if "t \<in> ?D i" for t i using assms that by (auto simp: shard_ok_def)
  have mem: "t \<in> dom (indexed idx) \<longleftrightarrow> t \<in> ?D (shardOf t)" for t
    unfolding domIff indexed_def map_of_eq_None_iff by blast
  have "t \<in> dom (indexed idx) \<longleftrightarrow> t \<in> (\<Union>i < 256. ?D i)" for t
  proof
    show "t \<in> (\<Union>i < 256. ?D i)" if "t \<in> dom (indexed idx)"
      by (rule UN_I [of "shardOf t"]) (use that mem shardOf_lt in simp_all)
    show "t \<in> dom (indexed idx)" if "t \<in> (\<Union>i < 256. ?D i)"
    proof -
      from that obtain i where "t \<in> ?D i" by (rule UN_E)
      then show ?thesis using home mem by simp
    qed
  qed
  then have "dom (indexed idx) = (\<Union>i < 256. ?D i)" by (rule set_eqI)
  moreover have "card (\<Union>i < 256. ?D i) = (\<Sum>i < 256. card (?D i))"
  proof (rule card_UN_disjoint)
    show "\<forall>i \<in> {..<256}. \<forall>j \<in> {..<256}. i \<noteq> j \<longrightarrow> ?D i \<inter> ?D j = {}" using home by (metis disjoint_iff)
  qed simp_all
  moreover have "card (?D i) = length (shards idx i)" for i
    using assms distinct_card [of "map fst (shards idx i)"] by (simp add: shard_ok_def)
  ultimately show ?thesis by (simp add: entries_def)
qed

lemma GetStats_total: "ix_Total (GetStats idx) = entries (shards idx)"
proof -
  have "ix_Total (fold (\<lambda>i. stats_step (CountByShard idx i)) is st) = ix_Total st + sum_list (map (\<lambda>i. length (shards idx i)) is)" for "is" st
    by (induction "is" arbitrary: st) (simp_all add: stats_step_def CountByShard_def)
  then show ?thesis
    by (simp add: GetStats_def entries_def interv_sum_list_conv_sum_set_nat atLeast0LessThan)
qed

datatype index_op = IAdd bytes TxMeta | IRemove bytes | IExpire int

fun index_step :: "index_op \<Rightarrow> txIndex \<Rightarrow> txIndex" where
  "index_step (IAdd t m) idx = snd (AddIndex idx t m)"
| "index_step (IRemove t) idx = RemoveIndex idx t"
| "index_step (IExpire c) idx = snd (ExpireBefore c idx)"

fun index_spec :: "index_op \<Rightarrow> (bytes \<rightharpoonup> TxMeta) \<Rightarrow> (bytes \<rightharpoonup> TxMeta)" where
  "index_spec (IAdd t m) A = (if A t = None then A(t \<mapsto> m) else A)"
| "index_spec (IRemove t) A = A(t := None)"
| "index_spec (IExpire c) A = (\<lambda>t. case A t of None \<Rightarrow> None | Some m \<Rightarrow> if FirstSeen m < c then None else Some m)"

lemma index_step_refines: "shard_ok idx \<Longrightarrow> shard_ok (index_step x idx) \<and> indexed (index_step x idx) = index_spec x (indexed idx)"
  by (cases x) (simp_all add: AddIndex_ok RemoveIndex_ok ExpireBefore_ok indexed_ops)

lemma index_run_refines:
  "shard_ok idx \<Longrightarrow> shard_ok (fold index_step xs idx) \<and> indexed (fold index_step xs idx) = fold index_spec xs (indexed idx)"
  by (induction xs arbitrary: idx) (simp_all add: index_step_refines)

text \<open>
  256 shards behave as one map. After any sequence of additions, removals and expiries of an index
  that started empty, membership is that of a single map under the same operations, and the atomic
  counter, the total of the statistics and the number of indexed transactions agree.
\<close>

theorem index_refines_map:
  fixes xs :: "index_op list"
  defines "idx \<equiv> fold index_step xs NewIndex" and "A \<equiv> fold index_spec xs Map.empty"
  shows "(HasIndex idx txid \<longleftrightarrow> A txid \<noteq> None) \<and> CountIndex idx = int (card (dom A)) \<and> int (ix_Total (GetStats idx)) = CountIndex idx"
proof -
  have r: "shard_ok idx" "indexed idx = A"
    using index_run_refines [OF NewIndex_ok, of xs] by (simp_all add: idx_def A_def indexed_ops)
  then show ?thesis
    using card_indexed [OF r(1)] by (simp add: HasIndex_def CountIndex_def GetStats_total shard_ok_def flip: r(2)) (simp add: indexed_def)
qed

section \<open>What a restart finds\<close>

text \<open>
  \<open>T\<close> names the transaction behind an id: the monitor hashes the raw bytes, so one id always comes with
  the same transaction. \<open>V\<close> is the set of addresses that an operator watches: one spelling per public
  key hash (the mainnet form, say), without colons.
\<close>

definition owner :: "(string \<Rightarrow> wire_tx) \<Rightarrow> string \<Rightarrow> int \<Rightarrow> bytes option" where
  "owner T txid vout = (if 0 \<le> vout \<and> vout < int (length (TxOut (T txid)))
     then extractP2PKHHash160 (to_PkScript (TxOut (T txid) ! nat vout)) else None)"

definition good_addrs :: "watch_env \<Rightarrow> string set \<Rightarrow> bool" where
  "good_addrs E V \<longleftrightarrow> (\<forall>a \<in> V. CHR '':'' \<notin> set a) \<and> (\<forall>a \<in> V. \<forall>b \<in> V. \<forall>h. parseAddr E a = Inr h \<longrightarrow> parseAddr E b = Inr h \<longrightarrow> a = b)"

definition records_ok :: "watch_env \<Rightarrow> (string \<Rightarrow> wire_tx) \<Rightarrow> string set \<Rightarrow> (bytes \<rightharpoonup> WatchHit json) \<Rightarrow> bool" where
  \<comment> \<open>every record is filed under its own address and outpoint, and pays that address\<close>
  "records_ok E T V m \<longleftrightarrow> (\<forall>k v. m k = Some v \<longrightarrow> prefix prefixUTXO k \<longrightarrow>
     (\<exists>hit h. v = Json hit \<and> k = hitKey (wh_Address hit) (wh_TxID hit) (wh_Vout hit) \<and> wh_Address hit \<in> V
        \<and> owner T (wh_TxID hit) (wh_Vout hit) = Some h \<and> parseAddr E (wh_Address hit) = Inr h))"

definition unspent_at :: "(bytes \<rightharpoonup> WatchHit json) \<Rightarrow> string \<Rightarrow> string \<Rightarrow> int \<Rightarrow> bool" where
  "unspent_at m addr txid vout \<longleftrightarrow> (\<exists>hit. m (hitKey addr txid vout) = Some (Json hit) \<and> \<not> wh_Spent hit)"

definition tracks :: "string set \<Rightarrow> (bytes \<rightharpoonup> WatchHit json) \<Rightarrow> (string \<rightharpoonup> string) \<Rightarrow> bool" where
  \<comment> \<open>the outputs in memory are the unspent records\<close>
  "tracks V m u \<longleftrightarrow> (\<forall>txid vout addr. u (utxoKey txid vout) = Some addr \<longleftrightarrow> addr \<in> V \<and> unspent_at m addr txid vout)
     \<and> (\<forall>k. u k \<noteq> None \<longrightarrow> (\<exists>txid vout. k = utxoKey txid vout))"

lemma utxoKey_inject [simp]: "utxoKey t i = utxoKey t' i' \<longleftrightarrow> t = t' \<and> i = i'"
  by (simp add: utxoKey_def last_colon_inject)

lemma hitKey_inject:
  assumes "CHR '':'' \<notin> set a" "CHR '':'' \<notin> set b"
  shows "hitKey a t i = hitKey b t' i' \<longleftrightarrow> a = b \<and> t = t' \<and> i = i'"
proof -
  have "a @ CHR '':'' # x = b @ CHR '':'' # y \<longleftrightarrow> a = b \<and> x = y" for x y
    using assms by (auto simp: append_eq_append_conv2 Cons_eq_append_conv append_eq_Cons_conv)
  then have "hitKey a t i = hitKey b t' i' \<longleftrightarrow> a = b \<and> t @ CHR '':'' # itoa i = t' @ CHR '':'' # itoa i'"
    by (simp add: hitKey_def)
  then show ?thesis unfolding last_colon_inject .
qed

lemma hitKey_prefix [simp]: "prefix prefixUTXO (hitKey a t i)"
  by (simp add: hitKey_def)

lemma record_owner:
  assumes "good_addrs E V" "records_ok E T V m" "m (hitKey a t i) = Some v" "a \<in> V"
  shows "\<exists>hit h. v = Json hit \<and> wh_Address hit = a \<and> wh_TxID hit = t \<and> wh_Vout hit = i \<and> owner T t i = Some h \<and> parseAddr E a = Inr h"
proof -
  from assms(2,3) obtain hit h where h: "v = Json hit" "hitKey a t i = hitKey (wh_Address hit) (wh_TxID hit) (wh_Vout hit)"
    "wh_Address hit \<in> V" "owner T (wh_TxID hit) (wh_Vout hit) = Some h" "parseAddr E (wh_Address hit) = Inr h"
    unfolding records_ok_def using hitKey_prefix by blast
  then have "a = wh_Address hit \<and> t = wh_TxID hit \<and> i = wh_Vout hit"
    using assms(1,4) hitKey_inject by (simp add: good_addrs_def)
  with h show ?thesis by auto
qed

lemma one_owner:
  assumes "good_addrs E V" "records_ok E T V m" "a \<in> V" "b \<in> V" "m (hitKey a t i) = Some v" "m (hitKey b t i) = Some v'"
  shows "a = b"
  using record_owner [OF assms(1,2,5,3)] record_owner [OF assms(1,2,6,4)] assms(1,3,4) by (auto simp: good_addrs_def)

lemma records_ok_put:
  assumes "records_ok E T V m" "wh_Address hit \<in> V" "owner T (wh_TxID hit) (wh_Vout hit) = Some h" "parseAddr E (wh_Address hit) = Inr h"
  shows "records_ok E T V (m(hitKey (wh_Address hit) (wh_TxID hit) (wh_Vout hit) \<mapsto> Json hit))"
  using assms by (auto simp: records_ok_def)

lemma tracks_hit:
  assumes g: "good_addrs E V" and r: "records_ok E T V m" and tr: "tracks V m u"
    and hit: "wh_Address hit \<in> V" "owner T (wh_TxID hit) (wh_Vout hit) = Some h" "parseAddr E (wh_Address hit) = Inr h" "\<not> wh_Spent hit"
  shows "tracks V (m(hitKey (wh_Address hit) (wh_TxID hit) (wh_Vout hit) \<mapsto> Json hit)) (u(utxoKey (wh_TxID hit) (wh_Vout hit) \<mapsto> wh_Address hit))"
proof -
  let ?m = "m(hitKey (wh_Address hit) (wh_TxID hit) (wh_Vout hit) \<mapsto> Json hit)"
  have r': "records_ok E T V ?m" by (rule records_ok_put [OF r hit(1,2,3)])
  have key: "hitKey a t i = hitKey (wh_Address hit) (wh_TxID hit) (wh_Vout hit) \<longleftrightarrow> a = wh_Address hit \<and> t = wh_TxID hit \<and> i = wh_Vout hit"
    if "a \<in> V" for a t i using g hit(1) that by (intro hitKey_inject) (auto simp: good_addrs_def)
  have "(u(utxoKey (wh_TxID hit) (wh_Vout hit) \<mapsto> wh_Address hit)) (utxoKey t i) = Some a \<longleftrightarrow> a \<in> V \<and> unspent_at ?m a t i" for t i a
  proof (cases "t = wh_TxID hit \<and> i = wh_Vout hit")
    case True
    have "a = wh_Address hit" if "a \<in> V" "unspent_at ?m a t i"
      using that True one_owner [OF g r' that(1) hit(1), of t i] by (auto simp: unspent_at_def split: if_splits)
    with True hit show ?thesis by (auto simp: unspent_at_def)
  next
    case False
    then have "a \<in> V \<Longrightarrow> unspent_at ?m a t i \<longleftrightarrow> unspent_at m a t i" using key by (auto simp: unspent_at_def)
    with False tr show ?thesis by (auto simp: tracks_def)
  qed
  with tr show ?thesis by (auto simp: tracks_def)
qed

lemma tracks_spend:
  assumes g: "good_addrs E V" and r: "records_ok E T V m" and tr: "tracks V m u" and u: "u (utxoKey t i) = Some a"
    and m: "m (hitKey a t i) = Some (Json orig)" and sp: "wh_Spent hit"
  shows "tracks V (m(hitKey a t i \<mapsto> Json hit)) (u(utxoKey t i := None))"
proof -
  let ?m = "m(hitKey a t i \<mapsto> Json hit)"
  have a: "a \<in> V" using tr u by (auto simp: tracks_def)
  have "(u(utxoKey t i := None)) (utxoKey t' j) = Some b \<longleftrightarrow> b \<in> V \<and> unspent_at ?m b t' j" for t' j b
  proof (cases "t' = t \<and> j = i")
    case True
    have "\<not> unspent_at ?m b t i" if "b \<in> V"
      using that sp one_owner [OF g r a that m] by (auto simp: unspent_at_def)
    with True show ?thesis by auto
  next
    case False
    have "hitKey b t' j \<noteq> hitKey a t i" if "b \<in> V"
      using that a g False hitKey_inject [of b a t' j t i] by (auto simp: good_addrs_def)
    then have "b \<in> V \<Longrightarrow> unspent_at ?m b t' j \<longleftrightarrow> unspent_at m b t' j" by (auto simp: unspent_at_def)
    with False tr show ?thesis by (auto simp: tracks_def)
  qed
  with tr show ?thesis by (auto simp: tracks_def)
qed

inductive watcher_history :: "watch_env \<Rightarrow> 'db hit_ops \<Rightarrow> (string \<Rightarrow> wire_tx) \<Rightarrow> string set \<Rightarrow> 'db \<Rightarrow> 'db watcher \<Rightarrow> bool"
  for E :: watch_env and ops :: "'db hit_ops" and T :: "string \<Rightarrow> wire_tx" and V :: "string set" and db0 :: 'db where
  start: "watcher_history E ops T V db0 (NewWatcher ops (Some db0))"
| add: "watcher_history E ops T V db0 w \<Longrightarrow> a \<in> V \<Longrightarrow> AddWatch E a w = Inr w' \<Longrightarrow> watcher_history E ops T V db0 w'"
| remove: "watcher_history E ops T V db0 w \<Longrightarrow> watcher_history E ops T V db0 (RemoveWatch E a w)"
| check: "watcher_history E ops T V db0 w \<Longrightarrow> decodeWire E raw \<in> {None, Some (T txid)}
    \<Longrightarrow> watcher_history E ops T V db0 (CheckTx E ops now txid raw w)"
| subscribe: "watcher_history E ops T V db0 w \<Longrightarrow> watcher_history E ops T V db0 (SubscribeWatch a ch w)"
| unsubscribe: "watcher_history E ops T V db0 w \<Longrightarrow> watcher_history E ops T V db0 (UnsubscribeWatch a ch w)"
| restart: "watcher_history E ops T V db0 w \<Longrightarrow> watcher_history E ops T V db0 (NewWatcher ops (wdb w))"

lemma fold_update_functional:
  assumes "\<forall>x \<in> set ps. \<forall>y \<in> set ps. fst x = fst y \<longrightarrow> snd x = snd y"
    and "\<forall>x \<in> set ps. map_of acc (fst x) \<in> {None, Some (snd x)}"
  shows "map_of (fold (\<lambda>x. AList.update (fst x) (snd x)) ps acc) k = Some a \<longleftrightarrow> map_of acc k = Some a \<or> (k, a) \<in> set ps"
  using assms
proof (induction ps arbitrary: acc)
  case (Cons p ps)
  then have "map_of (fold (\<lambda>x. AList.update (fst x) (snd x)) ps (AList.update (fst p) (snd p) acc)) k = Some a
      \<longleftrightarrow> map_of (AList.update (fst p) (snd p) acc) k = Some a \<or> (k, a) \<in> set ps"
  proof (intro Cons.IH ballI)
    fix x
    assume x: "x \<in> set ps"
    have "fst x = fst p \<longrightarrow> snd x = snd p" using Cons.prems(1) x by (meson list.set_intros)
    moreover have "map_of acc (fst x) \<in> {None, Some (snd x)}" using Cons.prems(2) x by (meson list.set_intros(2))
    ultimately show "map_of (AList.update (fst p) (snd p) acc) (fst x) \<in> {None, Some (snd x)}" by (auto simp: update_conv')
  qed (use Cons.prems(1) in \<open>meson list.set_intros(2)\<close>)
  moreover have "map_of acc (fst p) \<in> {None, Some (snd p)}" using Cons.prems(2) by (meson list.set_intros(1))
  ultimately show ?case by (cases p) (auto simp: update_conv')
qed simp

definition unspent_pair :: "bytes \<times> WatchHit json \<Rightarrow> (string \<times> string) option" where
  "unspent_pair kv = (case unjson (snd kv) of None \<Rightarrow> None
     | Some hit \<Rightarrow> if wh_Spent hit then None else Some (utxoKey (wh_TxID hit) (wh_Vout hit), wh_Address hit))"

lemma load_step_pairs: "fold load_step kvs acc = fold (\<lambda>x. AList.update (fst x) (snd x)) (List.map_filter unspent_pair kvs) acc"
  by (induction kvs arbitrary: acc) (auto simp: load_step_def unspent_pair_def List.map_filter_simps split: option.splits)

lemma notifyWatch_fields [simp]:
  "wdb (notifyWatch hit w) = wdb w" "utxos (notifyWatch hit w) = utxos w" "watches (notifyWatch hit w) = watches w"
  by (simp_all add: notifyWatch_def Let_def)

locale watcher_db = leveldb ops contents
  for ops :: "'db hit_ops" and contents :: "'db \<Rightarrow> (bytes \<rightharpoonup> WatchHit json)" +
  assumes rel: "reliable ops"
begin

definition winv :: "watch_env \<Rightarrow> (string \<Rightarrow> wire_tx) \<Rightarrow> string set \<Rightarrow> 'db watcher \<Rightarrow> bool" where
  "winv E T V w \<longleftrightarrow> (\<exists>d. wdb w = Some d \<and> records_ok E T V (contents d) \<and> tracks V (contents d) (map_of (utxos w)))
     \<and> (\<forall>h a. map_of (watches w) h = Some a \<longrightarrow> a \<in> V \<and> parseAddr E a = Inr h)"

lemma loadUTXOs_tracks:
  assumes g: "good_addrs E V" and r: "records_ok E T V (contents d)"
  shows "tracks V (contents d) (map_of (loadUTXOs ops d))"
proof -
  define kvs where "kvs = fst (db_iter ops d prefixUTXO)"
  have mem: "(k, a) \<in> set (List.map_filter unspent_pair kvs)
      \<longleftrightarrow> (\<exists>t i. k = utxoKey t i \<and> a \<in> V \<and> unspent_at (contents d) a t i)" for k a
  proof
    assume "(k, a) \<in> set (List.map_filter unspent_pair kvs)"
    then obtain key v where "(key, v) \<in> set kvs" and p: "unspent_pair (key, v) = Some (k, a)"
      by (auto simp: set_map_filter)
    then have c: "contents d key = Some v" "prefix prefixUTXO key" by (simp_all add: kvs_def iter_mem)
    from p obtain hit where hit: "v = Json hit" "\<not> wh_Spent hit" "k = utxoKey (wh_TxID hit) (wh_Vout hit)" "a = wh_Address hit"
      by (cases v) (auto simp: unspent_pair_def split: if_splits)
    with r c have "key = hitKey a (wh_TxID hit) (wh_Vout hit) \<and> a \<in> V" by (auto simp: records_ok_def)
    with hit c show "\<exists>t i. k = utxoKey t i \<and> a \<in> V \<and> unspent_at (contents d) a t i" by (auto simp: unspent_at_def)
  next
    assume "\<exists>t i. k = utxoKey t i \<and> a \<in> V \<and> unspent_at (contents d) a t i"
    then obtain t i hit where h: "k = utxoKey t i" "a \<in> V" "contents d (hitKey a t i) = Some (Json hit)" "\<not> wh_Spent hit"
      by (auto simp: unspent_at_def)
    from record_owner [OF g r h(3,2)] h have "unspent_pair (hitKey a t i, Json hit) = Some (k, a)"
      by (auto simp: unspent_pair_def)
    moreover have "(hitKey a t i, Json hit) \<in> set kvs" using h(3) by (simp add: kvs_def iter_mem)
    ultimately show "(k, a) \<in> set (List.map_filter unspent_pair kvs)" by (force simp: set_map_filter)
  qed
  have fn: "\<forall>x \<in> set (List.map_filter unspent_pair kvs). \<forall>y \<in> set (List.map_filter unspent_pair kvs). fst x = fst y \<longrightarrow> snd x = snd y"
  proof (intro ballI impI)
    fix x y
    assume "x \<in> set (List.map_filter unspent_pair kvs)" "y \<in> set (List.map_filter unspent_pair kvs)" and eq: "fst x = fst y"
    then obtain t i t' i' where "fst x = utxoKey t i" "snd x \<in> V" "unspent_at (contents d) (snd x) t i"
      "fst y = utxoKey t' i'" "snd y \<in> V" "unspent_at (contents d) (snd y) t' i'"
      using mem [of "fst x" "snd x"] mem [of "fst y" "snd y"] unfolding prod.collapse by blast
    with eq one_owner [OF g r, of "snd x" "snd y" t i] show "snd x = snd y" by (auto simp: unspent_at_def)
  qed
  have "map_of (loadUTXOs ops d) k = Some a \<longleftrightarrow> (\<exists>t i. k = utxoKey t i \<and> a \<in> V \<and> unspent_at (contents d) a t i)" for k a
    using fold_update_functional [OF fn, of "[]" k a] mem
    by (simp add: loadUTXOs_def load_step_pairs flip: kvs_def)
  then show ?thesis unfolding tracks_def by (metis not_None_eq utxoKey_inject)
qed

lemma winv_NewWatcher:
  "good_addrs E V \<Longrightarrow> records_ok E T V (contents d) \<Longrightarrow> winv E T V (NewWatcher ops (Some d))"
  by (simp add: winv_def NewWatcher_def loadUTXOs_tracks)

lemma winv_checkOutput:
  assumes g: "good_addrs E V" and w: "winv E T V w" and vo: "fst vo < length (TxOut (T txid))" "snd vo = TxOut (T txid) ! fst vo"
  shows "winv E T V (checkOutput ops now txid vo w)"
proof (cases "extractP2PKHHash160 (to_PkScript (snd vo))")
  case None
  with w show ?thesis by (simp add: checkOutput_def case_prod_unfold)
next
  case (Some h)
  show ?thesis
  proof (cases "map_of (watches w) h")
    case None
    with Some w show ?thesis by (simp add: checkOutput_def case_prod_unfold)
  next
    case (Some a)
    let ?hit = "\<lparr>wh_TxID = txid, wh_Vout = int (fst vo), wh_Address = a, wh_Satoshis = to_Value (snd vo),
      wh_ScriptHex = hex_encode (to_PkScript (snd vo)), wh_Timestamp = now, wh_Spent = False, wh_SpentBy = []\<rparr>"
    from w obtain d where d: "wdb w = Some d" "records_ok E T V (contents d)" "tracks V (contents d) (map_of (utxos w))"
      by (auto simp: winv_def)
    obtain d' where put: "db_put ops d (hitKey a txid (int (fst vo))) (Json ?hit) = Inr d'" using reliable_put [OF rel] by blast
    have a: "a \<in> V" "parseAddr E a = Inr h" using w Some by (auto simp: winv_def)
    have ow: "owner T txid (int (fst vo)) = Some h" using vo \<open>extractP2PKHHash160 _ = Some h\<close> by (simp add: owner_def)
    have c: "contents d' = (contents d)(hitKey a txid (int (fst vo)) \<mapsto> Json ?hit)" by (rule put_spec [OF put])
    have "records_ok E T V (contents d')" using records_ok_put [OF d(2), of ?hit h] a ow c by simp
    moreover have "tracks V (contents d') ((map_of (utxos w))(utxoKey txid (int (fst vo)) \<mapsto> a))"
      using tracks_hit [OF g d(2,3), of ?hit h] a ow c by simp
    moreover have "checkOutput ops now txid vo w = notifyWatch ?hit (w\<lparr>hits := hits w + 1, utxos := AList.update (utxoKey txid (int (fst vo))) a (utxos w), wdb := Some d'\<rparr>)"
      using Some \<open>extractP2PKHHash160 _ = Some h\<close> d(1) put by (simp add: checkOutput_def case_prod_unfold persist_def)
    ultimately show ?thesis using w by (simp add: winv_def update_conv')
  qed
qed

lemma winv_checkInput:
  assumes g: "good_addrs E V" and w: "winv E T V w"
  shows "winv E T V (checkInput ops now txid inp w)"
proof (cases "map_of (utxos w) (utxoKey (ti_Hash inp) (uint (ti_Index inp)))")
  case None
  with w show ?thesis by (simp add: checkInput_def)
next
  case (Some a)
  let ?t = "ti_Hash inp" and ?i = "uint (ti_Index inp)"
  let ?hit = "\<lparr>wh_TxID = ?t, wh_Vout = ?i, wh_Address = a, wh_Satoshis = 0, wh_ScriptHex = [], wh_Timestamp = now, wh_Spent = True, wh_SpentBy = txid\<rparr>"
  from w obtain d where d: "wdb w = Some d" "records_ok E T V (contents d)" "tracks V (contents d) (map_of (utxos w))"
    by (auto simp: winv_def)
  from d(3) Some obtain orig where o: "a \<in> V" "contents d (hitKey a ?t ?i) = Some (Json orig)"
    by (auto simp: tracks_def unspent_at_def)
  let ?new = "orig\<lparr>wh_Spent := True, wh_SpentBy := txid\<rparr>"
  obtain d' where put: "db_put ops d (hitKey a ?t ?i) (Json ?new) = Inr d'" using reliable_put [OF rel] by blast
  have c: "contents d' = (contents d)(hitKey a ?t ?i \<mapsto> Json ?new)" by (rule put_spec [OF put])
  obtain h where f: "wh_Address orig = a" "wh_TxID orig = ?t" "wh_Vout orig = ?i" "owner T ?t ?i = Some h" "parseAddr E a = Inr h"
    using record_owner [OF g d(2) o(2,1)] by auto
  have "records_ok E T V (contents d')" using records_ok_put [OF d(2), of ?new h] f o c by simp
  moreover have "tracks V (contents d') ((map_of (utxos w))(utxoKey ?t ?i := None))"
    using tracks_spend [OF g d(2,3) Some o(2), of ?new] c by simp
  moreover have "checkInput ops now txid inp w = notifyWatch ?hit (w\<lparr>wspends := wspends w + 1, utxos := AList.delete (utxoKey ?t ?i) (utxos w), wdb := Some d'\<rparr>)"
    using Some d(1) o put by (simp add: checkInput_def Let_def persistSpend_def get_found)
  ultimately show ?thesis using w by (simp add: winv_def delete_conv')
qed

lemma winv_CheckTx:
  assumes g: "good_addrs E V" and w: "winv E T V w" and raw: "decodeWire E raw \<in> {None, Some (T txid)}"
  shows "winv E T V (CheckTx E ops now txid raw w)"
proof -
  have "winv E T V (fold (checkOutput ops now txid) vos w)"
    if "\<forall>vo \<in> set vos. fst vo < length (TxOut (T txid)) \<and> snd vo = TxOut (T txid) ! fst vo" "winv E T V w" for vos w
    using that by (induction vos arbitrary: w) (simp_all add: winv_checkOutput [OF g])
  moreover have "\<forall>vo \<in> set (enumerate 0 (TxOut (T txid))). fst vo < length (TxOut (T txid)) \<and> snd vo = TxOut (T txid) ! fst vo"
    by (simp add: in_set_enumerate_eq)
  moreover have "winv E T V (fold (checkInput ops now txid) ins w)" if "winv E T V w" for ins w
    using that by (induction ins arbitrary: w) (simp_all add: winv_checkInput [OF g])
  ultimately show ?thesis using w raw by (auto simp: CheckTx_def)
qed

lemma history_winv:
  assumes g: "good_addrs E V" and "contents db0 = Map.empty" and "watcher_history E ops T V db0 w"
  shows "winv E T V w"
  using assms(3)
proof induction
  case start
  then show ?case using assms(2) by (intro winv_NewWatcher [OF g]) (simp add: records_ok_def)
next
  case (add w a w')
  then show ?case by (auto simp: AddWatch_def winv_def update_conv' split: sum.splits if_splits)
next
  case (remove w a)
  then show ?case by (auto simp: RemoveWatch_def winv_def delete_conv' split: sum.splits if_splits)
next
  case (check w raw txid now)
  then show ?case by (intro winv_CheckTx [OF g])
next
  case (restart w)
  then obtain d where "wdb w = Some d" "records_ok E T V (contents d)" by (auto simp: winv_def)
  then show ?case by (simp add: winv_NewWatcher [OF g])
qed (auto simp: winv_def SubscribeWatch_def UnsubscribeWatch_def Let_def)

lemma restart_exact:
  assumes g: "good_addrs E V" and w: "winv E T V w"
  shows "map_of (utxos (NewWatcher ops (wdb w))) = map_of (utxos w)"
proof
  fix k
  from w obtain d where d: "wdb w = Some d" "records_ok E T V (contents d)" and tr: "tracks V (contents d) (map_of (utxos w))"
    by (auto simp: winv_def)
  have tr': "tracks V (contents d) (map_of (loadUTXOs ops d))" by (rule loadUTXOs_tracks [OF g d(2)])
  have "map_of (loadUTXOs ops d) k = map_of (utxos w) k"
  proof (cases "\<exists>t i. k = utxoKey t i")
    case True
    then obtain t i where "k = utxoKey t i" by blast
    with tr tr' show ?thesis unfolding tracks_def by (metis not_None_eq)
  next
    case False
    with tr tr' show ?thesis unfolding tracks_def by (metis not_None_eq)
  qed
  then show "map_of (utxos (NewWatcher ops (wdb w))) k = map_of (utxos w) k" using d(1) by (simp add: NewWatcher_def)
qed

end

interpretation demowatch: watcher_db mem_ops map_of
  by (intro watcher_db.intro mem.leveldb_axioms watcher_db_axioms.intro mem_reliable)


definition demo_script :: bytes where
  "demo_script = [CHR 0x76, CHR 0xa9, CHR 0x14] @ replicate 20 (CHR ''h'') @ [CHR 0x88, CHR 0xac]"

definition demo_wtx :: wire_tx where
  "demo_wtx = \<lparr>TxIn = [], TxOut = [\<lparr>to_Value = 5, to_PkScript = demo_script\<rparr>]\<rparr>"

definition demo_watch_env :: watch_env where
  "demo_watch_env = \<lparr>parseAddr = (\<lambda>a. if a = ''A'' then Inr (replicate 20 (CHR ''h'')) else Inl ''bad''), decodeWire = (\<lambda>_. Some demo_wtx)\<rparr>"

lemma demo_script_hash: "extractP2PKHHash160 demo_script = Some (replicate 20 (CHR ''h''))"
  by (simp add: extractP2PKHHash160_def demo_script_def numeral_eq_Suc)

lemma demo_checked:
  "map_of (utxos (CheckTx demo_watch_env mem_ops now ''t'' raw ((NewWatcher mem_ops (Some []))\<lparr>watches := [(replicate 20 (CHR ''h''), ''A'')]\<rparr>)))
     (utxoKey ''t'' 0) = Some ''A''"
  by (simp add: CheckTx_def demo_watch_env_def demo_wtx_def checkOutput_def demo_script_hash persist_def mem_ops_def
      NewWatcher_def loadUTXOs_def mem_iter_def Let_def)


text \<open>
  A funding transaction that is seen again, for instance after it left the index, is tracked again,
  also if its output was recorded as spent in between.
\<close>

lemma seen_again_tracked_again:
  assumes "extractP2PKHHash160 (to_PkScript out) = Some h" "map_of (watches w) h = Some a"
  shows "map_of (utxos (checkOutput ops now txid (i, out) w)) (utxoKey txid (int i)) = Some a"
  using assms by (simp add: checkOutput_def persist_def update_conv' Let_def split: option.splits sum.splits)

text \<open>The buffers stay within their capacity: a subscriber that does not read loses hits, it never delays the watcher.\<close>

lemma queues_bounded: "length (queues w ch) \<le> chanCap \<Longrightarrow> length (queues (notifyWatch hit w) ch) \<le> chanCap"
  by (auto simp: notifyWatch_def Let_def offer_def)

end
