(* ===== verification/Api.thy ===== *)
theory Api
  imports Payment Rate_Limit Spv Brc Watcher
begin

text \<open>
  The REST server of \<^verbatim>\<open>internal/api\<close>: the middleware chains (\<^verbatim>\<open>server.go\<close>, \<^verbatim>\<open>token_gate.go\<close>), the handlers of
  \<^verbatim>\<open>handlers.go\<close> and \<^verbatim>\<open>handlers_mempool.go\<close>, the event hub of \<^verbatim>\<open>sse.go\<close> and the discovery documents.

  A handler takes the server state and a request and returns the reply and the new state. What is not
  part of the repository comes in the record \<open>api_env\<close>: databases, go-sdk, ARC and WhatsOnChain, JSON
  decoding of request bodies, and the hand-over of an envelope to gossip (\<^verbatim>\<open>BroadcastEnvelope\<close> on the
  manager, see theory \<^verbatim>\<open>Gossip\<close>). A nil envelope store is a store with the flag \<open>storeConfigured\<close> off; the
  gates then have no resolver. \<open>now\<close> is the clock in nanoseconds.
\<close>

section \<open>State\<close>

record envelopeHub =
  hub_subs :: "string \<rightharpoonup> chan set"
  hub_queues :: "chan \<Rightarrow> envelope list"
  seqID :: int

record ('e, 'd, 'p, 'w, 'n, 'g) server =
  envelopeStore :: "'e envelope_store"
  storeConfigured :: bool
  overlayDirectory :: "'d directory option"
  proofStore :: 'p
  validator :: "ValidationStats option"
  proofFetcher :: "ProofFetcher option"
  broadcaster :: "Broadcaster option"
  gossipMgr :: "'g option"
  rateLimiter :: "rate_limiter option"
  paymentGate :: "'n PaymentGate option"
  tokenGate :: bool
  authToken :: string
  nodeName :: string
  explorerOrigin :: string
  publicURL :: string
  sseHub :: envelopeHub
  mempoolWatcher :: "'w watcher option"

record ('e, 'd, 'p, 'w, 'n, 'g, 'sk, 'pk, 'sig, 'mp, 'bk, 'bp) api_env =
  ae_ops :: "('e, envelope json) leveldb_ops"
  ae_dir_ops :: "('d, dir_value) leveldb_ops"
  ae_proof_ops :: "('p, bytes) leveldb_ops"
  ae_hit_ops :: "'w hit_ops"
  ae_crypto :: "('sk, 'pk, 'sig) crypto"
  ae_pay :: "'n pay_env"
  ae_beef :: beef_lib
  ae_tracker :: tracker
  ae_fetch :: "'mp fetch_lib"
  ae_brc :: "('bk, 'bp) brc_lib"
  ae_watch :: watch_env
  ae_broadcast :: "envelope \<Rightarrow> 'g \<Rightarrow> 'g"
  ae_envelope :: "bytes \<Rightarrow> envelope json"
  ae_beef_json :: "bytes \<Rightarrow> string option"
  ae_register_json :: "bytes \<Rightarrow> (string \<times> string \<times> int) option"
  ae_deregister_json :: "bytes \<Rightarrow> (string \<times> string) option"
  ae_addresses_json :: "bytes \<Rightarrow> string list option"
  ae_listing_json :: "string \<Rightarrow> (string \<times> string) option"

section \<open>Token gating\<close>

datatype token_gate_err =
    ErrTokenFormat | ErrAuthPubkey | ErrAuthPubkeyParse | ErrSigHex | ErrSigDER | ErrTokenSignature | ErrTimestamp | ErrTokenWindow

definition validityWindow :: int where
  \<comment> \<open>seconds\<close>
  "validityWindow = 300"

definition NewTokenGate :: "bool \<Rightarrow> bool \<Rightarrow> bool" where
  "NewTokenGate hasRes enabled \<longleftrightarrow> enabled \<and> hasRes"

definition verifyToken :: "('sk, 'pk, 'sig) crypto \<Rightarrow> int \<Rightarrow> string \<Rightarrow> string \<Rightarrow> string \<Rightarrow> token_gate_err + unit" where
  "verifyToken c now token topic authPubkeyHex =
     (if CHR '':'' \<notin> set token then Inl ErrTokenFormat
      else let (sigHex, timestampStr) = cut (CHR '':'') token in
        case hex_decode authPubkeyHex of
          None \<Rightarrow> Inl ErrAuthPubkey
        | Some pubBytes \<Rightarrow>
           (if length pubBytes \<noteq> 33 then Inl ErrAuthPubkey
            else case ec_pub_from_bytes c pubBytes of
              None \<Rightarrow> Inl ErrAuthPubkeyParse
            | Some pub \<Rightarrow>
               (case hex_decode sigHex of
                  None \<Rightarrow> Inl ErrSigHex
                | Some sigBytes \<Rightarrow>
                   (case ec_from_der c sigBytes of
                      None \<Rightarrow> Inl ErrSigDER
                    | Some sig \<Rightarrow>
                       (if \<not> ec_verify c sig (sha256 c (topic @ '':'' @ timestampStr)) pub then Inl ErrTokenSignature
                        else case sscanf_d timestampStr of
                          None \<Rightarrow> Inl ErrTimestamp
                        | Some ts \<Rightarrow>
                           (let nowSecs = now div 1000000000 in
                            if wrap64 (nowSecs - ts) > validityWindow \<or> wrap64 (ts - nowSecs) > 60
                            then Inl ErrTokenWindow else Inr ()))))))"

datatype mw = Pass http_request "X402Receipt option" | Stop nat string | StopChallenge X402Challenge | StopPreflight

definition TokenMiddleware :: "('db, envelope json) leveldb_ops \<Rightarrow> ('sk, 'pk, 'sig) crypto \<Rightarrow> int \<Rightarrow> 'db envelope_store \<Rightarrow> http_request \<Rightarrow> mw" where
  "TokenMiddleware ops c now store r =
     (let topic = query_get (RawQuery r) ''topic'' in
      if topic = [] then Pass r None
      else case Resolve ops now store topic of
        None \<Rightarrow> Pass r None
      | Some mon \<Rightarrow>
         (if Model mon \<noteq> ''token'' then Pass r None
          else let tokenHeader = Header r ''X-App-Token'' in
            if tokenHeader = [] then Stop 401 ''this topic requires X-App-Token credential''
            else case verifyToken c now tokenHeader topic (AuthPubkey mon) of
              Inl _ \<Rightarrow> Stop 403 ''invalid token''
            | Inr _ \<Rightarrow> Pass (authed r) None))"

section \<open>Middleware chains\<close>

definition cors :: "http_request \<Rightarrow> bool" where
  \<comment> \<open>whether the request is handed on; the headers it adds to every reply are the same for all requests\<close>
  "cors r \<longleftrightarrow> Method r \<noteq> ''OPTIONS''"

definition runRateLimit :: "int \<Rightarrow> http_request \<Rightarrow> ('e, 'd, 'p, 'w, 'n, 'g) server \<Rightarrow> mw \<times> ('e, 'd, 'p, 'w, 'n, 'g) server" where
  "runRateLimit now r s =
     (case rateLimiter s of
        None \<Rightarrow> (Pass r None, s)
      | Some rl \<Rightarrow>
         (case Middleware now rl r of
            (Denied st msg, rl') \<Rightarrow> (Stop st msg, s\<lparr>rateLimiter := Some rl'\<rparr>)
          | (_, rl') \<Rightarrow> (Pass r None, s\<lparr>rateLimiter := Some rl'\<rparr>)))"

definition runTokenGate :: "('e, 'd, 'p, 'w, 'n, 'g, 'sk, 'pk, 'sig, 'mp, 'bk, 'bp) api_env \<Rightarrow> int \<Rightarrow> http_request \<Rightarrow> ('e, 'd, 'p, 'w, 'n, 'g) server \<Rightarrow> mw" where
  "runTokenGate A now r s =
     (if tokenGate s then TokenMiddleware (ae_ops A) (ae_crypto A) now (envelopeStore s) r else Pass r None)"

fun pay_mw :: "pay_out \<Rightarrow> mw" where
  "pay_mw (PayNext r rc) = Pass r rc"
| "pay_mw (PayChallenge ch) = StopChallenge ch"
| "pay_mw (PayError st e) = Stop st ''payment''"

definition runPaymentGate :: "('e, 'd, 'p, 'w, 'n, 'g, 'sk, 'pk, 'sig, 'mp, 'bk, 'bp) api_env \<Rightarrow> int \<Rightarrow> http_request \<Rightarrow> ('e, 'd, 'p, 'w, 'n, 'g) server
    \<Rightarrow> mw \<times> ('e, 'd, 'p, 'w, 'n, 'g) server" where
  "runPaymentGate A now r s =
     (case paymentGate s of
        None \<Rightarrow> (Pass r None, s)
      | Some pg \<Rightarrow>
         (case PaymentMiddleware (ae_pay A) (ae_ops A) now (envelopeStore s) pg r of
            (out, pg') \<Rightarrow> (pay_mw out, s\<lparr>paymentGate := Some pg'\<rparr>)))"

definition openRead :: "('e, 'd, 'p, 'w, 'n, 'g, 'sk, 'pk, 'sig, 'mp, 'bk, 'bp) api_env \<Rightarrow> int \<Rightarrow> http_request \<Rightarrow> ('e, 'd, 'p, 'w, 'n, 'g) server
    \<Rightarrow> mw \<times> ('e, 'd, 'p, 'w, 'n, 'g) server" where
  \<comment> \<open>CORS, then the rate limiter, then the token gate, then the payment gate\<close>
  "openRead A now r s =
     (if \<not> cors r then (StopPreflight, s)
      else case runRateLimit now r s of
        (Pass r1 _, s1) \<Rightarrow>
          (case runTokenGate A now r1 s1 of
             Pass r2 _ \<Rightarrow> runPaymentGate A now r2 s1
           | stop \<Rightarrow> (stop, s1))
      | (stop, s1) \<Rightarrow> (stop, s1))"

definition bearerToken :: "http_request \<Rightarrow> string" where
  "bearerToken r =
     (let token = Header r ''X-Anvil-Auth''; auth = Header r ''Authorization'' in
      if token = [] then (if length auth > 7 \<and> take 7 auth = ''Bearer '' then drop 7 auth else []) else token)"

definition authOrPay :: "('e, 'd, 'p, 'w, 'n, 'g, 'sk, 'pk, 'sig, 'mp, 'bk, 'bp) api_env \<Rightarrow> int \<Rightarrow> http_request \<Rightarrow> ('e, 'd, 'p, 'w, 'n, 'g) server
    \<Rightarrow> mw \<times> ('e, 'd, 'p, 'w, 'n, 'g) server" where
  "authOrPay A now r s =
     (if Method r = ''OPTIONS'' then (StopPreflight, s)
      else let token = bearerToken r in
        if token \<noteq> [] \<and> authToken s \<noteq> [] \<and> token = authToken s then (Pass (authed r) None, s)
        else if paymentGate s \<noteq> None then runPaymentGate A now r s
        else let body = limit_reader 1048576 (Body r) in
          case (if body = [] then None else UnmarshalEnvelope (ae_envelope A body)) of
            Some env \<Rightarrow>
              (if Signature env \<noteq> [] \<and> Pubkey env \<noteq> [] \<and> Validate (ae_crypto A) env = Inr ()
               then (Pass (r\<lparr>Body := body\<rparr>) None, s)
               else (Stop 401 ''unauthorized'', s))
          | None \<Rightarrow> (Stop 401 ''unauthorized'', s))"

section \<open>The event hub\<close>

definition newEnvelopeHub :: envelopeHub where
  "newEnvelopeHub = \<lparr>hub_subs = Map.empty, hub_queues = (\<lambda>_. []), seqID = 0\<rparr>"

definition hubTargets :: "envelopeHub \<Rightarrow> string \<Rightarrow> chan set" where
  "hubTargets h topic = (case hub_subs h topic of None \<Rightarrow> {} | Some chs \<Rightarrow> chs)"

definition subscribe :: "string \<Rightarrow> chan \<Rightarrow> envelopeHub \<Rightarrow> envelopeHub" where
  "subscribe topic ch h = h\<lparr>hub_subs := (hub_subs h)(topic \<mapsto> insert ch (hubTargets h topic))\<rparr>"

definition unsubscribe :: "string \<Rightarrow> chan \<Rightarrow> envelopeHub \<Rightarrow> envelopeHub" where
  "unsubscribe topic ch h =
     (let chs = hubTargets h topic - {ch} in h\<lparr>hub_subs := (hub_subs h)(topic := if chs = {} then None else Some chs)\<rparr>)"

definition notify :: "envelope \<Rightarrow> envelopeHub \<Rightarrow> envelopeHub" where
  "notify env h = h\<lparr>hub_queues := (\<lambda>ch. if ch \<in> hubTargets h (Topic env) then offer chanCap env ch (hub_queues h ch) else hub_queues h ch)\<rparr>"

definition nextID :: "envelopeHub \<Rightarrow> int \<times> envelopeHub" where
  "nextID h = (wrap64 (seqID h + 1), h\<lparr>seqID := wrap64 (seqID h + 1)\<rparr>)"

definition subscriberCount :: "envelopeHub \<Rightarrow> string list \<Rightarrow> nat" where
  \<comment> \<open>over the topics that have subscribers\<close>
  "subscriberCount h topics = sum_list (map (\<lambda>t. card (hubTargets h t)) topics)"

definition NotifyEnvelope :: "envelope \<Rightarrow> ('e, 'd, 'p, 'w, 'n, 'g) server \<Rightarrow> ('e, 'd, 'p, 'w, 'n, 'g) server" where
  "NotifyEnvelope env s = s\<lparr>sseHub := notify env (sseHub s)\<rparr>"

section \<open>Data envelopes\<close>

definition isAuthed :: "('e, 'd, 'p, 'w, 'n, 'g) server \<Rightarrow> http_request \<Rightarrow> bool" where
  "isAuthed s r \<longleftrightarrow> Header r ''X-Anvil-Authed'' = ''true''
     \<or> (authToken s \<noteq> [] \<and> Header r ''Authorization'' = ''Bearer '' @ authToken s)"

definition paidNotice :: string where
  "paidNotice = ''[paid content '' @ [CHR 0xE2, CHR 0x80, CHR 0x94] @ '' access via HTTP 402]''"

definition isPaid :: "envelope \<Rightarrow> bool" where
  "isPaid env \<longleftrightarrow> (case Monetization env of None \<Rightarrow> False | Some mon \<Rightarrow> PriceSats mon > 0)"

definition redact :: "bool \<Rightarrow> envelope \<Rightarrow> envelope" where
  "redact auth env = (if \<not> auth \<and> isPaid env then env\<lparr>Payload := paidNotice\<rparr> else env)"

definition scanInt :: "string \<Rightarrow> int \<Rightarrow> int" where
  \<comment> \<open>\<^verbatim>\<open>fmt.Sscanf(s, "%d", &v)\<close> with the error ignored\<close>
  "scanInt s v = (case sscanf_d s of None \<Rightarrow> v | Some n \<Rightarrow> n)"

definition queryLimit :: "string \<Rightarrow> int \<Rightarrow> int \<Rightarrow> int" where
  "queryLimit l dflt maxLimit =
     (if l = [] then dflt else let n = scanInt l dflt in if n \<le> 0 \<or> n > maxLimit then dflt else n)"

definition handleQueryData :: "('e, 'd, 'p, 'w, 'n, 'g, 'sk, 'pk, 'sig, 'mp, 'bk, 'bp) api_env \<Rightarrow> int \<Rightarrow> ('e, 'd, 'p, 'w, 'n, 'g) server \<Rightarrow> http_request
    \<Rightarrow> (string \<times> envelope list) reply" where
  "handleQueryData A now s r =
     (if \<not> storeConfigured s then ReplyError 503 ''envelope store not configured''
      else let topic = query_get (RawQuery r) ''topic'' in
        if topic = [] then ReplyError 400 ''topic query parameter required''
        else let limit = queryLimit (query_get (RawQuery r) ''limit'') 100 1000;
                 since = (let q = query_get (RawQuery r) ''since'' in if q = [] then 0 else scanInt q 0)
             in case QueryByTopic (ae_ops A) now (envelopeStore s) topic limit of
                  Inl _ \<Rightarrow> ReplyError 500 ''query error''
                | Inr envs \<Rightarrow>
                    (let envs' = (if since > 0 then filter (\<lambda>env. envelope.Timestamp env > since) envs else envs)
                     in Reply 200 (topic, map (redact (isAuthed s r)) envs')))"

definition handlePostData :: "('e, 'd, 'p, 'w, 'n, 'g, 'sk, 'pk, 'sig, 'mp, 'bk, 'bp) api_env \<Rightarrow> int \<Rightarrow> ('e, 'd, 'p, 'w, 'n, 'g) server \<Rightarrow> http_request
    \<Rightarrow> (string \<times> bool \<times> string) reply \<times> ('e, 'd, 'p, 'w, 'n, 'g) server" where
  "handlePostData A now s r =
     (if \<not> storeConfigured s then (ReplyError 503 ''envelope store not configured'', s)
      else case UnmarshalEnvelope (ae_envelope A (limit_reader 1048576 (Body r))) of
        None \<Rightarrow> (ReplyError 400 ''invalid envelope JSON'', s)
      | Some env \<Rightarrow>
         (case Ingest (ae_ops A) (ae_crypto A) now (envelopeStore s) env of
            Inl PanicSlice \<Rightarrow> (ReplyPanic, s)
          | Inl _ \<Rightarrow> (ReplyError 422 ''rejected'', s)
          | Inr st \<Rightarrow>
             (let env' = env\<lparr>ReceivedAt := Some now\<rparr>;
                  s1 = s\<lparr>envelopeStore := st, gossipMgr := map_option (ae_broadcast A env') (gossipMgr s)\<rparr>;
                  s2 = s1\<lparr>sseHub := notify env' (sseHub s1)\<rparr>
              in case Key (ae_crypto A) env' of
                   None \<Rightarrow> (ReplyPanic, s2)
                 | Some k \<Rightarrow> (Reply 200 (Topic env, Durable env, k), s2))))"

definition handleDeleteData :: "('e, 'd, 'p, 'w, 'n, 'g, 'sk, 'pk, 'sig, 'mp, 'bk, 'bp) api_env \<Rightarrow> ('e, 'd, 'p, 'w, 'n, 'g) server \<Rightarrow> http_request
    \<Rightarrow> (string \<times> string) reply \<times> ('e, 'd, 'p, 'w, 'n, 'g) server" where
  "handleDeleteData A s r =
     (if \<not> storeConfigured s then (ReplyError 503 ''envelope store not configured'', s)
      else let topic = query_get (RawQuery r) ''topic''; key = query_get (RawQuery r) ''key'' in
        if topic = [] \<or> key = [] then (ReplyError 400 ''topic and key required (query params)'', s)
        else case Delete (ae_ops A) (envelopeStore s) topic key of
          Inl _ \<Rightarrow> (ReplyError 500 ''delete error'', s)
        | Inr (deleted, st) \<Rightarrow>
            (if deleted then (Reply 200 (topic, key), s\<lparr>envelopeStore := st\<rparr>)
             else (ReplyError 404 ''envelope not found'', s\<lparr>envelopeStore := st\<rparr>)))"

text \<open>
  \<^verbatim>\<open>handleSubscribe\<close> runs until the client leaves: opening the stream, one round of its loop, and the
  deferred clean-up. The comment line that answers \<^verbatim>\<open>Last-Event-ID\<close> is the first component of the reply.
\<close>

definition handleSubscribe :: "bool \<Rightarrow> chan \<Rightarrow> ('e, 'd, 'p, 'w, 'n, 'g) server \<Rightarrow> http_request
    \<Rightarrow> (string option \<times> bool) reply \<times> ('e, 'd, 'p, 'w, 'n, 'g) server" where
  "handleSubscribe canFlush ch s r =
     (let topic = query_get (RawQuery r) ''topic'' in
      if topic = [] then (ReplyError 400 ''topic query parameter required'', s)
      else if \<not> canFlush then (ReplyError 500 ''streaming not supported'', s)
      else let lastID = Header r ''Last-Event-ID'' in
        (Reply 200 (if lastID = [] then None else Some lastID, isAuthed s r), s\<lparr>sseHub := subscribe topic ch (sseHub s)\<rparr>))"

definition subscribeStep :: "bool \<Rightarrow> chan \<Rightarrow> ('e, 'd, 'p, 'w, 'n, 'g) server
    \<Rightarrow> (int \<times> envelope) option \<times> ('e, 'd, 'p, 'w, 'n, 'g) server" where
  "subscribeStep auth ch s =
     (case hub_queues (sseHub s) ch of
        [] \<Rightarrow> (None, s)
      | env # rest \<Rightarrow>
         (let h = (sseHub s)\<lparr>hub_queues := (hub_queues (sseHub s))(ch := rest)\<rparr>
          in case nextID h of (i, h') \<Rightarrow> (Some (i, redact auth env), s\<lparr>sseHub := h'\<rparr>)))"

definition subscribeClose :: "chan \<Rightarrow> http_request \<Rightarrow> ('e, 'd, 'p, 'w, 'n, 'g) server \<Rightarrow> ('e, 'd, 'p, 'w, 'n, 'g) server" where
  "subscribeClose ch r s = s\<lparr>sseHub := unsubscribe (query_get (RawQuery r) ''topic'') ch (sseHub s)\<rparr>"

section \<open>BEEF and broadcast\<close>

definition contains :: "string \<Rightarrow> string \<Rightarrow> bool" where
  \<comment> \<open>\<^verbatim>\<open>strings.Contains\<close>\<close>
  "contains s t \<longleftrightarrow> sublist t s"

definition readBEEF :: "('e, 'd, 'p, 'w, 'n, 'g, 'sk, 'pk, 'sig, 'mp, 'bk, 'bp) api_env \<Rightarrow> http_request \<Rightarrow> string + bytes" where
  "readBEEF A r =
     (let body = limit_reader (10 * 1048576) (Body r) in
      if body = [] then Inl ''empty request body''
      else if contains (Header r ''Content-Type'') ''application/json'' then
        (case ae_beef_json A body of
           None \<Rightarrow> Inl ''invalid JSON''
         | Some beefHex \<Rightarrow> (case hex_decode beefHex of None \<Rightarrow> Inl ''invalid hex in beef field'' | Some b \<Rightarrow> Inr b))
      else Inr body)"

datatype beef_reply = BeefBinary bytes | BeefJSON string string string

definition serveBEEF :: "('e, 'd, 'p, 'w, 'n, 'g, 'sk, 'pk, 'sig, 'mp, 'bk, 'bp) api_env \<Rightarrow> int \<Rightarrow> ('e, 'd, 'p, 'w, 'n, 'g) server \<Rightarrow> http_request \<Rightarrow> string \<Rightarrow> bytes
    \<Rightarrow> beef_reply reply \<times> ('e, 'd, 'p, 'w, 'n, 'g) server" where
  \<comment> \<open>the end of \<^verbatim>\<open>handleGetBEEF\<close>\<close>
  "serveBEEF A now s r txid beefBytes =
     (if contains (Header r ''Accept'') ''application/octet-stream'' then (Reply 200 (BeefBinary beefBytes), s)
      else case validator s of
        None \<Rightarrow> (Reply 200 (BeefJSON txid (hex_encode beefBytes) []), s)
      | Some st \<Rightarrow>
         (case ValidateBEEF (ae_beef A) (ae_tracker A) now st beefBytes of
            (res, st') \<Rightarrow> (Reply 200 (BeefJSON txid (hex_encode beefBytes) (rs_Confidence res)), s\<lparr>validator := Some st'\<rparr>)))"

definition validateFetched :: "('e, 'd, 'p, 'w, 'n, 'g, 'sk, 'pk, 'sig, 'mp, 'bk, 'bp) api_env \<Rightarrow> int \<Rightarrow> ('e, 'd, 'p, 'w, 'n, 'g) server \<Rightarrow> bytes
    \<Rightarrow> bool \<times> ('e, 'd, 'p, 'w, 'n, 'g) server" where
  "validateFetched A now s fetched =
     (case validator s of
        None \<Rightarrow> (True, s)
      | Some st \<Rightarrow>
         (case ValidateBEEF (ae_beef A) (ae_tracker A) now st fetched of
            (res, st') \<Rightarrow> (rs_Confidence res \<noteq> ConfidenceInvalid, s\<lparr>validator := Some st'\<rparr>)))"

definition handleGetBEEF :: "('e, 'd, 'p, 'w, 'n, 'g, 'sk, 'pk, 'sig, 'mp, 'bk, 'bp) api_env \<Rightarrow> int \<Rightarrow> ('e, 'd, 'p, 'w, 'n, 'g) server \<Rightarrow> http_request \<Rightarrow> string
    \<Rightarrow> beef_reply reply \<times> ('e, 'd, 'p, 'w, 'n, 'g) server" where
  "handleGetBEEF A now s r txid =
     (if length txid \<noteq> 64 then (ReplyError 400 ''txid must be 64 hex characters'', s)
      else case GetBEEF (ae_proof_ops A) (proofStore s) txid of
        Inr beefBytes \<Rightarrow> serveBEEF A now s r txid beefBytes
      | Inl _ \<Rightarrow>
         (case proofFetcher s of
            None \<Rightarrow> (ReplyError 404 ''no BEEF envelope found for this txid'', s)
          | Some f \<Rightarrow>
             (case FetchBEEF (ae_fetch A) f txid of
                Inl _ \<Rightarrow> (ReplyError 404 ''no BEEF available'', s)
              | Inr fetched \<Rightarrow>
                 (case validateFetched A now s fetched of
                    (False, s1) \<Rightarrow> (ReplyError 404 ''fetched proof failed local header verification'', s1)
                  | (True, s1) \<Rightarrow>
                     (let s2 = (case StoreBEEF (ae_beef A) (ae_proof_ops A) (proofStore s1) fetched of
                            Inl _ \<Rightarrow> s1 | Inr (_, db) \<Rightarrow> s1\<lparr>proofStore := db\<rparr>)
                      in serveBEEF A now s2 r txid fetched)))))"

record ARCStatus =
  as_Submitted :: bool
  as_TxStatus :: string
  as_Error :: string

record BroadcastResponse =
  bp_TxID :: string
  bp_Confidence :: string
  bp_Stored :: bool
  bp_Mempool :: bool
  bp_ARC :: "ARCStatus option"
  bp_Message :: string

definition arcStatus :: "('e, 'd, 'p, 'w, 'n, 'g, 'sk, 'pk, 'sig, 'mp, 'bk, 'bp) api_env \<Rightarrow> Broadcaster \<Rightarrow> string \<Rightarrow> ARCStatus" where
  "arcStatus A b txid =
     (case GetTx (mempool b) txid of
        None \<Rightarrow> \<lparr>as_Submitted = False, as_TxStatus = [], as_Error = ''tx not in mempool''\<rparr>
      | Some raw \<Rightarrow>
         (case BroadcastToARC (pe_codec (ae_pay A)) (pe_arc (ae_pay A)) b raw of
            Inl e \<Rightarrow> \<lparr>as_Submitted = False, as_TxStatus = [], as_Error = ''broadcast failed''\<rparr>
          | Inr arcResult \<Rightarrow> \<lparr>as_Submitted = True, as_TxStatus = br_Status arcResult, as_Error = []\<rparr>))"

definition broadcastTx :: "('e, 'd, 'p, 'w, 'n, 'g, 'sk, 'pk, 'sig, 'mp, 'bk, 'bp) api_env \<Rightarrow> bool \<Rightarrow> bytes \<Rightarrow> BroadcastResponse
    \<Rightarrow> ('e, 'd, 'p, 'w, 'n, 'g) server \<Rightarrow> BroadcastResponse \<times> ('e, 'd, 'p, 'w, 'n, 'g) server" where
  "broadcastTx A toARC beefBytes resp s =
     (case broadcaster s of
        None \<Rightarrow> (resp, s)
      | Some b \<Rightarrow>
         (case BroadcastBEEF (pe_codec (ae_pay A)) b beefBytes of
            (r, b') \<Rightarrow>
             (let resp1 = (case r of Inl _ \<Rightarrow> resp | Inr _ \<Rightarrow> resp\<lparr>bp_Mempool := True\<rparr>);
                  resp2 = (if toARC then resp1\<lparr>bp_ARC := Some (arcStatus A b' (bp_TxID resp))\<rparr> else resp1)
              in (resp2, s\<lparr>broadcaster := Some b'\<rparr>))))"

definition storeVerified :: "('e, 'd, 'p, 'w, 'n, 'g, 'sk, 'pk, 'sig, 'mp, 'bk, 'bp) api_env \<Rightarrow> bytes \<Rightarrow> BroadcastResponse
    \<Rightarrow> ('e, 'd, 'p, 'w, 'n, 'g) server \<Rightarrow> BroadcastResponse \<times> ('e, 'd, 'p, 'w, 'n, 'g) server" where
  "storeVerified A beefBytes resp s =
     (if bp_Confidence resp \<in> {ConfidenceSPVVerified, ConfidencePartiallyVerified}
      then (case StoreBEEF (ae_beef A) (ae_proof_ops A) (proofStore s) beefBytes of
              Inl _ \<Rightarrow> (resp, s)
            | Inr (_, db) \<Rightarrow> (resp\<lparr>bp_Stored := True\<rparr>, s\<lparr>proofStore := db\<rparr>))
      else (resp, s))"

definition handleBroadcast :: "('e, 'd, 'p, 'w, 'n, 'g, 'sk, 'pk, 'sig, 'mp, 'bk, 'bp) api_env \<Rightarrow> int \<Rightarrow> ('e, 'd, 'p, 'w, 'n, 'g) server \<Rightarrow> http_request
    \<Rightarrow> BroadcastResponse reply \<times> ('e, 'd, 'p, 'w, 'n, 'g) server" where
  "handleBroadcast A now s r =
     (case readBEEF A r of
        Inl msg \<Rightarrow> (ReplyError 400 msg, s)
      | Inr beefBytes \<Rightarrow>
         (case validator s of
            None \<Rightarrow> (ReplyPanic, s)
          | Some st \<Rightarrow>
             (case ValidateBEEF (ae_beef A) (ae_tracker A) now st beefBytes of
                (res, st') \<Rightarrow>
                 (let s1 = s\<lparr>validator := Some st'\<rparr>;
                      resp = \<lparr>bp_TxID = rs_TxID res, bp_Confidence = rs_Confidence res, bp_Stored = False, bp_Mempool = False,
                              bp_ARC = None, bp_Message = rs_Message res\<rparr>
                  in if rs_Confidence res = ConfidenceInvalid then (Reply 422 resp, s1)
                     else case storeVerified A beefBytes resp s1 of
                       (resp2, s2) \<Rightarrow>
                         (case broadcastTx A (query_get (RawQuery r) ''arc'' = ''true'') beefBytes resp2 s2 of
                            (resp3, s3) \<Rightarrow> (Reply 200 resp3, s3))))))"

section \<open>Overlay, catalog and watch endpoints\<close>

definition handleOverlayLookup :: "('e, 'd, 'p, 'w, 'n, 'g, 'sk, 'pk, 'sig, 'mp, 'bk, 'bp) api_env \<Rightarrow> ('e, 'd, 'p, 'w, 'n, 'g) server \<Rightarrow> http_request
    \<Rightarrow> (string \<times> PeerEntry list) reply" where
  "handleOverlayLookup A s r =
     (case overlayDirectory s of
        None \<Rightarrow> ReplyError 503 ''overlay not configured''
      | Some d \<Rightarrow>
         (let topic = query_get (RawQuery r) ''topic'' in
          if topic = [] then ReplyError 400 ''topic query parameter required''
          else case LookupSHIPByTopic (ae_dir_ops A) d topic of
            (_, Some _) \<Rightarrow> ReplyError 500 ''lookup error''
          | (found, None) \<Rightarrow> Reply 200 (topic, found)))"

definition handleOverlayRegister :: "('e, 'd, 'p, 'w, 'n, 'g, 'sk, 'pk, 'sig, 'mp, 'bk, 'bp) api_env \<Rightarrow> int \<Rightarrow> ('e, 'd, 'p, 'w, 'n, 'g) server \<Rightarrow> http_request
    \<Rightarrow> string reply \<times> ('e, 'd, 'p, 'w, 'n, 'g) server" where
  "handleOverlayRegister A now s r =
     (case overlayDirectory s of
        None \<Rightarrow> (ReplyError 503 ''overlay not configured'', s)
      | Some d \<Rightarrow>
         (case ae_register_json A (limit_reader 1048576 (Body r)) of
            None \<Rightarrow> (ReplyError 400 ''invalid JSON'', s)
          | Some (scriptHex, txid, outputIndex) \<Rightarrow>
             (case hex_decode scriptHex of
                None \<Rightarrow> (ReplyError 400 ''invalid script hex'', s)
              | Some scriptBytes \<Rightarrow>
                 (case ProcessSHIPScript (ae_brc A) (ae_dir_ops A) now d scriptBytes txid outputIndex of
                    Inl PanicSlice16 \<Rightarrow> (ReplyPanic, s)
                  | Inl _ \<Rightarrow> (ReplyError 422 ''rejected'', s)
                  | Inr d' \<Rightarrow> (Reply 200 txid, s\<lparr>overlayDirectory := Some d'\<rparr>)))))"

definition handleOverlayDeregister :: "('e, 'd, 'p, 'w, 'n, 'g, 'sk, 'pk, 'sig, 'mp, 'bk, 'bp) api_env \<Rightarrow> ('e, 'd, 'p, 'w, 'n, 'g) server \<Rightarrow> http_request
    \<Rightarrow> string reply \<times> ('e, 'd, 'p, 'w, 'n, 'g) server" where
  "handleOverlayDeregister A s r =
     (case overlayDirectory s of
        None \<Rightarrow> (ReplyError 503 ''overlay not configured'', s)
      | Some d \<Rightarrow>
         (case ae_deregister_json A (limit_reader 1048576 (Body r)) of
            None \<Rightarrow> (ReplyError 400 ''invalid JSON'', s)
          | Some (topic, identityPub) \<Rightarrow>
             (if topic = [] \<or> identityPub = [] then (ReplyError 400 ''topic and identity_pub required'', s)
              else case RemoveSHIPPeer (ae_dir_ops A) d topic identityPub of
                Inl _ \<Rightarrow> (ReplyError 500 ''deregister error'', s)
              | Inr d' \<Rightarrow> (Reply 200 topic, s\<lparr>overlayDirectory := Some d'\<rparr>))))"

definition catalogOrigin :: "('e, 'd, 'p, 'w, 'n, 'g, 'sk, 'pk, 'sig, 'mp, 'bk, 'bp) api_env \<Rightarrow> envelope list \<Rightarrow> string \<Rightarrow> string option" where
  \<comment> \<open>the first catalog entry with that name and an origin; names are compared without regard to case\<close>
  "catalogOrigin A envs appName =
     (case List.map_filter (\<lambda>env. case ae_listing_json A (Payload env) of
          None \<Rightarrow> None
        | Some (name, origin) \<Rightarrow> if to_lower name = to_lower appName \<and> origin \<noteq> [] then Some origin else None) envs of
        [] \<Rightarrow> None | origin # _ \<Rightarrow> Some origin)"

definition contentTarget :: "('e, 'd, 'p, 'w, 'n, 'g) server \<Rightarrow> string \<Rightarrow> string" where
  "contentTarget s origin = publicURL s @ ''/content/'' @ origin"

definition handleAppRedirect :: "('e, 'd, 'p, 'w, 'n, 'g, 'sk, 'pk, 'sig, 'mp, 'bk, 'bp) api_env \<Rightarrow> int \<Rightarrow> ('e, 'd, 'p, 'w, 'n, 'g) server \<Rightarrow> string \<Rightarrow> unit reply" where
  "handleAppRedirect A now s appName =
     (if appName = [] then ReplyError 400 ''app name required''
      else if \<not> storeConfigured s then ReplyError 503 ''no envelope store''
      else case QueryByTopic (ae_ops A) now (envelopeStore s) ''anvil:catalog'' 100 of
        Inl _ \<Rightarrow> ReplyError 500 ''catalog query failed''
      | Inr envs \<Rightarrow>
         (case catalogOrigin A envs appName of
            None \<Rightarrow> ReplyError 404 ''app not found in catalog or has no content_origin''
          | Some origin \<Rightarrow> Redirect 302 (contentTarget s origin)))"

definition handleAppRedirectWithFallback :: "('e, 'd, 'p, 'w, 'n, 'g, 'sk, 'pk, 'sig, 'mp, 'bk, 'bp) api_env \<Rightarrow> int \<Rightarrow> ('e, 'd, 'p, 'w, 'n, 'g) server \<Rightarrow> string \<Rightarrow> string \<Rightarrow> unit reply" where
  "handleAppRedirectWithFallback A now s appName fallbackOrigin =
     (let found = (if storeConfigured s then
             (case QueryByTopic (ae_ops A) now (envelopeStore s) ''anvil:catalog'' 100 of
                Inl _ \<Rightarrow> None | Inr envs \<Rightarrow> catalogOrigin A envs appName) else None)
      in case found of
           Some origin \<Rightarrow> Redirect 302 (contentTarget s origin)
         | None \<Rightarrow> if fallbackOrigin \<noteq> [] then Redirect 302 (contentTarget s fallbackOrigin)
                   else ReplyError 404 ''explorer not configured'')"

fun addAll :: "watch_env \<Rightarrow> string list \<Rightarrow> 'w watcher \<Rightarrow> nat \<times> nat \<times> 'w watcher" where
  \<comment> \<open>added, failed\<close>
  "addAll E [] w = (0, 0, w)"
| "addAll E (a # as) w =
     (case AddWatch E a w of
        Inl _ \<Rightarrow> (case addAll E as w of (n, f, w') \<Rightarrow> (n, f + 1, w'))
      | Inr w1 \<Rightarrow> (case addAll E as w1 of (n, f, w') \<Rightarrow> (n + 1, f, w')))"

definition handleAddWatch :: "('e, 'd, 'p, 'w, 'n, 'g, 'sk, 'pk, 'sig, 'mp, 'bk, 'bp) api_env \<Rightarrow> ('e, 'd, 'p, 'w, 'n, 'g) server \<Rightarrow> http_request
    \<Rightarrow> (nat \<times> nat \<times> nat) reply \<times> ('e, 'd, 'p, 'w, 'n, 'g) server" where
  "handleAddWatch A s r =
     (case mempoolWatcher s of
        None \<Rightarrow> (ReplyError 503 ''mempool watcher not enabled'', s)
      | Some w \<Rightarrow>
         (case ae_addresses_json A (limit_reader 65536 (Body r)) of
            None \<Rightarrow> (ReplyError 400 ''invalid JSON'', s)
          | Some addrs \<Rightarrow>
             (if addrs = [] then (ReplyError 400 ''addresses array required'', s)
              else case addAll (ae_watch A) addrs w of
                (added, failed, w') \<Rightarrow> (Reply 200 (added, failed, CountWatch w'), s\<lparr>mempoolWatcher := Some w'\<rparr>))))"

definition handleRemoveWatch :: "('e, 'd, 'p, 'w, 'n, 'g, 'sk, 'pk, 'sig, 'mp, 'bk, 'bp) api_env \<Rightarrow> ('e, 'd, 'p, 'w, 'n, 'g) server \<Rightarrow> http_request
    \<Rightarrow> (nat \<times> nat) reply \<times> ('e, 'd, 'p, 'w, 'n, 'g) server" where
  "handleRemoveWatch A s r =
     (case mempoolWatcher s of
        None \<Rightarrow> (ReplyError 503 ''mempool watcher not enabled'', s)
      | Some w \<Rightarrow>
         (case ae_addresses_json A (limit_reader 65536 (Body r)) of
            None \<Rightarrow> (ReplyError 400 ''invalid JSON'', s)
          | Some addrs \<Rightarrow>
             (let w' = fold (RemoveWatch (ae_watch A)) addrs w
              in (Reply 200 (length addrs, CountWatch w'), s\<lparr>mempoolWatcher := Some w'\<rparr>))))"

definition handleListWatch :: "('e, 'd, 'p, 'w, 'n, 'g) server \<Rightarrow> (string list \<times> nat \<times> int \<times> int) reply" where
  "handleListWatch s =
     (case mempoolWatcher s of
        None \<Rightarrow> ReplyError 503 ''mempool watcher not enabled''
      | Some w \<Rightarrow> Reply 200 (ListWatch w, CountWatch w, Hits w, Spends w))"

definition handleWatchHistory :: "('e, 'd, 'p, 'w, 'n, 'g, 'sk, 'pk, 'sig, 'mp, 'bk, 'bp) api_env \<Rightarrow> ('e, 'd, 'p, 'w, 'n, 'g) server \<Rightarrow> http_request
    \<Rightarrow> (string \<times> WatchHit list) reply" where
  "handleWatchHistory A s r =
     (case mempoolWatcher s of
        None \<Rightarrow> ReplyError 503 ''mempool watcher not enabled''
      | Some w \<Rightarrow>
         (let address = query_get (RawQuery r) ''address'' in
          if address = [] then ReplyError 400 ''address query parameter required''
          else Reply 200 (address, History (ae_hit_ops A) w address (queryLimit (query_get (RawQuery r) ''limit'') 50 500))))"

section \<open>Discovery\<close>

record endpointInfo =
  ep_Method :: string
  ep_Path :: string
  ep_Price :: int

definition priceFor :: "('e, 'd, 'p, 'w, 'n, 'g) server \<Rightarrow> string \<Rightarrow> int" where
  "priceFor s path = (case paymentGate s of None \<Rightarrow> 0 | Some pg \<Rightarrow> priceForPath pg path)"

definition gatedEndpoints :: "('e, 'd, 'p, 'w, 'n, 'g) server \<Rightarrow> endpointInfo list" where
  \<comment> \<open>without the descriptions\<close>
  "gatedEndpoints s =
     map (\<lambda>(path, price). \<lparr>ep_Method = ''GET'', ep_Path = path, ep_Price = price\<rparr>)
       [(''/status'', priceFor s ''/status''), (''/stats'', priceFor s ''/status''), (''/headers/tip'', priceFor s ''/headers/tip''),
        (''/tx/{txid}/beef'', priceFor s ''/tx/{txid}/beef''), (''/data'', priceFor s ''/data''),
        (''/overlay/lookup'', priceFor s ''/overlay/lookup''), (''/mesh/status'', 0), (''/.well-known/anvil'', 0),
        (''/content/{txid}_{vout}'', 0)]"

definition paymentModels :: "('e, 'd, 'p, 'w, 'n, 'g) server \<Rightarrow> string list" where
  "paymentModels s = [''node_merchant'']
     @ (case paymentGate s of None \<Rightarrow> [] | Some pg \<Rightarrow>
          (if allowPassthrough pg then [''passthrough''] else []) @ (if allowSplit pg then [''split''] else []))
     @ (if tokenGate s then [''token''] else [])"

definition handleX402Discovery :: "('e, 'd, 'p, 'w, 'n, 'g) server \<Rightarrow> (string \<times> endpointInfo list \<times> string list) reply" where
  "handleX402Discovery s = Reply 200 (nodeName s, gatedEndpoints s, paymentModels s)"

end
