(* ===== verification/Api_Safety.thy ===== *)
theory Api_Safety
  imports Api Payment_Safety
begin

text \<open>
  What the REST server guarantees: who passes the gates, what is shown to whom, and what the write
  endpoints change.
\<close>

section \<open>The token window\<close>

lemma cut_parts: "cut c s = (a, b) \<Longrightarrow> c \<in> set s \<Longrightarrow> s = a @ c # b \<and> c \<notin> set a"
proof -
  assume "cut c s = (a, b)" and c: "c \<in> set s"
  then have ab: "a = takeWhile (\<lambda>x. x \<noteq> c) s" "b = drop 1 (dropWhile (\<lambda>x. x \<noteq> c) s)" by (auto simp: cut_def)
  obtain xs ys where s: "s = xs @ c # ys" "c \<notin> set xs" using split_list_first [OF c] by blast
  have "\<forall>x \<in> set xs. x \<noteq> c" using s(2) by blast
  then have "a = xs \<and> b = ys" unfolding ab s(1) by (simp add: takeWhile_append2 dropWhile_append2)
  with s show ?thesis by simp
qed

lemma window_bound:
  assumes n: "0 \<le> n" "n < 2 ^ 62" and t: "- (2 ^ 63) \<le> t" "t < 2 ^ 63"
    and w: "\<not> wrap64 (n - t) > 300" "\<not> wrap64 (t - n) > 60"
  shows "- 60 \<le> n - t \<and> n - t \<le> 300 \<or> t = n - 2 ^ 63"
proof (cases "n - t < 2 ^ 63")
  case True
  then have "wrap64 (n - t) = n - t" using n t by (intro wrap64_id) auto
  moreover have "wrap64 (t - n) = t - n" using n t True by (intro wrap64_id) auto
  ultimately show ?thesis using w by linarith
next
  case False
  show ?thesis
  proof (cases "n - t = 2 ^ 63")
    case False
    with \<open>\<not> n - t < 2 ^ 63\<close> have "n - t > 2 ^ 63" by linarith
    then have "wrap64 (t - n) = t - n + 2 ^ 64" using n t
      by (simp add: wrap64_def) (smt (verit) mod_add_self2 mod_pos_pos_trivial)
    with w n t have False by simp
    then show ?thesis ..
  qed linarith
qed


section \<open>Gates\<close>

lemma pay_mw_Pass: "pay_mw out = Pass r rc \<longleftrightarrow> out = PayNext r rc"
  by (cases out) auto

lemma PaymentMiddleware_next:
  assumes "PaymentMiddleware E ops now store pg r = (PayNext r' rc, pg')"
  shows "RawQuery r' = RawQuery r \<and> Header r' ''Authorization'' = Header r ''Authorization''
    \<and> (Header r' ''X-Anvil-Authed'' = Header r ''X-Anvil-Authed'' \<or> rc \<noteq> None \<or> snd (resolvePayees ops now store pg r))"
  using assms
  by (auto simp: PaymentMiddleware_def Let_def split: prod.splits if_splits sum.splits)

lemma resolvePayees_token:
  assumes "snd (resolvePayees ops now store pg r)"
  shows "\<exists>mon. Resolve ops now store (query_get (RawQuery r) ''topic'') = Some mon \<and> Model mon = ''token''"
  using assms by (auto simp: resolvePayees_def Let_def split: if_splits option.splits)

lemma runPaymentGate_Pass:
  assumes "runPaymentGate A now r s = (Pass r' rc, s')"
  shows "authToken s' = authToken s \<and> RawQuery r' = RawQuery r \<and> Header r' ''Authorization'' = Header r ''Authorization''
    \<and> (Header r' ''X-Anvil-Authed'' = Header r ''X-Anvil-Authed'' \<or> rc \<noteq> None
       \<or> (\<exists>mon. Resolve (ae_ops A) now (envelopeStore s) (query_get (RawQuery r) ''topic'') = Some mon \<and> Model mon = ''token''))"
proof (cases "paymentGate s")
  case None
  with assms show ?thesis by (simp add: runPaymentGate_def)
next
  case (Some pg)
  with assms obtain pg' where "PaymentMiddleware (ae_pay A) (ae_ops A) now (envelopeStore s) pg r = (PayNext r' rc, pg')"
      "s' = s\<lparr>paymentGate := Some pg'\<rparr>"
    by (auto simp: runPaymentGate_def pay_mw_Pass split: prod.splits)
  with PaymentMiddleware_next [OF this(1)] resolvePayees_token [of "ae_ops A" now "envelopeStore s" pg r] show ?thesis by auto
qed

lemma runRateLimit_Pass:
  "runRateLimit now r s = (Pass r' rc, s') \<Longrightarrow> r' = r \<and> (\<exists>rl. s' = s\<lparr>rateLimiter := rl\<rparr>)"
proof (cases "rateLimiter s")
  case None
  assume "runRateLimit now r s = (Pass r' rc, s')"
  with None have "r' = r" "s' = s\<lparr>rateLimiter := None\<rparr>" by (cases s; simp add: runRateLimit_def)+
  then show ?thesis by blast
qed (auto simp: runRateLimit_def split: prod.splits gate.splits)

lemma openRead_Pass:
  assumes "openRead A now r s = (Pass r' rc, s')"
  obtains r2 rl where "runTokenGate A now r (s\<lparr>rateLimiter := rl\<rparr>) = Pass r2 None"
    "runPaymentGate A now r2 (s\<lparr>rateLimiter := rl\<rparr>) = (Pass r' rc, s')" "Method r \<noteq> ''OPTIONS''"
proof -
  have none: "runTokenGate A now r s1 = Pass r2 x \<Longrightarrow> x = None" for s1 r2 x
    by (auto simp: runTokenGate_def TokenMiddleware_def Let_def split: if_splits option.splits sum.splits)
  from assms obtain r1 y s1 where rl: "runRateLimit now r s = (Pass r1 y, s1)"
    and rest: "(case runTokenGate A now r1 s1 of Pass r2 _ \<Rightarrow> runPaymentGate A now r2 s1 | stop \<Rightarrow> (stop, s1)) = (Pass r' rc, s')"
    and m: "Method r \<noteq> ''OPTIONS''"
    by (auto simp: openRead_def cors_def split: if_splits prod.splits mw.splits)
  from runRateLimit_Pass [OF rl] obtain x where s1: "r1 = r" "s1 = s\<lparr>rateLimiter := x\<rparr>" by blast
  from rest obtain r2 z where "runTokenGate A now r s1 = Pass r2 z" "runPaymentGate A now r2 s1 = (Pass r' rc, s')"
    unfolding s1 by (auto split: mw.splits)
  with none that s1 m show thesis by metis
qed

lemma runTokenGate_Pass:
  assumes "runTokenGate A now r s = Pass r2 None"
  shows "r2 = r \<or> r2 = authed r \<and> (\<exists>mon. Resolve (ae_ops A) now (envelopeStore s) (query_get (RawQuery r) ''topic'') = Some mon
      \<and> Model mon = ''token'' \<and> verifyToken (ae_crypto A) now (Header r ''X-App-Token'') (query_get (RawQuery r) ''topic'') (AuthPubkey mon) = Inr ())"
  using assms by (auto simp: runTokenGate_def TokenMiddleware_def Let_def split: if_splits option.splits sum.splits)

lemma token_topic_checked:
  assumes "runTokenGate A now r s = Pass r2 None" "tokenGate s"
    and "Resolve (ae_ops A) now (envelopeStore s) (query_get (RawQuery r) ''topic'') = Some mon" "Model mon = ''token''"
  shows "verifyToken (ae_crypto A) now (Header r ''X-App-Token'') (query_get (RawQuery r) ''topic'') (AuthPubkey mon) = Inr ()"
proof -
  have "query_get (RawQuery r) ''topic'' \<noteq> []" using assms(3) by (auto simp: Resolve_def)
  with assms show ?thesis
    by (auto simp: runTokenGate_def TokenMiddleware_def Let_def split: if_splits sum.splits)
qed

lemma redact_paid: "isPaid (redact auth env) \<longleftrightarrow> isPaid env"
  by (simp add: redact_def isPaid_def)

lemma query_reply_authed:
  assumes "handleQueryData A now s r = Reply 200 (topic, envs)" "env \<in> set envs" "isPaid env" "Payload env \<noteq> paidNotice"
  shows "isAuthed s r"
proof (rule ccontr)
  assume no: "\<not> isAuthed s r"
  from assms(1,2) obtain e where "env = redact (isAuthed s r) e"
    by (auto simp: handleQueryData_def Let_def split: if_splits sum.splits)
  moreover from this have "isPaid e" using assms(3) redact_paid by metis
  ultimately show False using no assms(4) by (simp add: redact_def)
qed


text \<open>
  C27: a write needs a key, a payment or a signature. A request passes \<^verbatim>\<open>authOrPay\<close> only if it presents
  the configured operator token, or the payment gate exists and hands the request on, or there is no
  payment gate and the body is an envelope whose signature is valid.
\<close>

theorem authOrPay_sound:
  assumes "authOrPay A now r s = (Pass r' rc, s')"
  shows "authToken s \<noteq> [] \<and> bearerToken r = authToken s
    \<or> (\<exists>pg pg'. paymentGate s = Some pg \<and> PaymentMiddleware (ae_pay A) (ae_ops A) now (envelopeStore s) pg r = (PayNext r' rc, pg'))
    \<or> paymentGate s = None \<and> (\<exists>env. UnmarshalEnvelope (ae_envelope A (limit_reader 1048576 (Body r))) = Some env
        \<and> Validate (ae_crypto A) env = Inr () \<and> Body r' = limit_reader 1048576 (Body r))"
  using assms
  by (auto simp: authOrPay_def runPaymentGate_def Let_def pay_mw_Pass split: if_splits option.splits prod.splits)

section \<open>Writes\<close>

text \<open>
  C33: posting data does what it answers. If \<^verbatim>\<open>POST /data\<close> answers 200, the body is an envelope with a valid
  signature, the store has ingested exactly it, it was handed to gossip once and offered to the
  subscribers of its topic; if it answers with an error, nothing has changed.
\<close>

theorem handlePostData_exact:
  assumes c: "crypto (ae_crypto A)" and h: "handlePostData A now s r = (rep, s')"
  shows "(\<exists>env st k. rep = Reply 200 (Topic env, Durable env, k)
       \<and> UnmarshalEnvelope (ae_envelope A (limit_reader 1048576 (Body r))) = Some env
       \<and> Validate (ae_crypto A) env = Inr () \<and> Key (ae_crypto A) env = Some k
       \<and> Ingest (ae_ops A) (ae_crypto A) now (envelopeStore s) env = Inr st
       \<and> s' = s\<lparr>envelopeStore := st, gossipMgr := map_option (ae_broadcast A (env\<lparr>ReceivedAt := Some now\<rparr>)) (gossipMgr s),
                sseHub := notify (env\<lparr>ReceivedAt := Some now\<rparr>) (sseHub s)\<rparr>)
    \<or> (\<exists>code msg. rep = ReplyError code msg \<and> s' = s)"
proof (cases "storeConfigured s")
  case True
  show ?thesis
  proof (cases "UnmarshalEnvelope (ae_envelope A (limit_reader 1048576 (Body r)))")
    case (Some env)
    show ?thesis
    proof (cases "Ingest (ae_ops A) (ae_crypto A) now (envelopeStore s) env")
      case (Inl e)
      have "e \<noteq> PanicSlice"
      proof
        assume "e = PanicSlice"
        with Inl have "Validate (ae_crypto A) env = Inr ()" "Key (ae_crypto A) env = None"
          by (auto simp: Ingest_def Let_def storeDurable_def storeEphemeral_def split: sum.splits if_splits option.splits)
        with crypto.Validate_key(2) [OF c] show False by fastforce
      qed
      with Inl True Some h show ?thesis by (auto simp: handlePostData_def split: store_err.splits)
    next
      case (Inr st)
      then have v: "Validate (ae_crypto A) env = Inr ()" by (auto simp: Ingest_def split: sum.splits)
      then obtain k where "Key (ae_crypto A) env = Some k" using crypto.Validate_key(2) [OF c] by blast
      with Inr True Some h v show ?thesis by (auto simp: handlePostData_def Let_def)
    qed
  qed (use True h in \<open>auto simp: handlePostData_def\<close>)
qed (use h in \<open>auto simp: handlePostData_def\<close>)

lemma ValidateBEEF_result: "fst (ValidateBEEF bl tr now st beef) = fst (judgeBEEF bl tr beef)"
  by (simp add: ValidateBEEF_def split: prod.splits)

lemma serveBEEF_store: "serveBEEF A now s r txid b = (rep, s') \<Longrightarrow> proofStore s' = proofStore s
    \<and> (rep = Reply 200 (BeefBinary b) \<or> (\<exists>conf. rep = Reply 200 (BeefJSON txid (hex_encode b) conf)))"
  by (auto simp: serveBEEF_def split: if_splits option.splits prod.splits)


text \<open>
  C35: a broadcast stores only what verified. When \<^verbatim>\<open>POST /broadcast\<close> is answered, an invalid BEEF leaves
  the proof store and the transaction pool as they were, and \<^verbatim>\<open>stored\<close> is reported only for a BEEF whose
  merkle proofs the validator confirmed and which is now in the store.
\<close>

theorem broadcast_stores_verified:
  assumes h: "handleBroadcast A now s r = (Reply code resp, s')"
  shows "\<exists>b. readBEEF A r = Inr b \<and> bp_Confidence resp = rs_Confidence (fst (judgeBEEF (ae_beef A) (ae_tracker A) b))
    \<and> (bp_Confidence resp = ConfidenceInvalid \<longrightarrow> code = 422 \<and> proofStore s' = proofStore s \<and> broadcaster s' = broadcaster s)
    \<and> (bp_Stored resp \<longrightarrow> bp_Confidence resp \<in> {ConfidenceSPVVerified, ConfidencePartiallyVerified}
        \<and> (\<exists>id. StoreBEEF (ae_beef A) (ae_proof_ops A) (proofStore s) b = Inr (id, proofStore s')))"
proof -
  from h obtain b st where b: "readBEEF A r = Inr b" "validator s = Some st"
    by (auto simp: handleBroadcast_def split: sum.splits option.splits prod.splits)
  define res where "res = fst (judgeBEEF (ae_beef A) (ae_tracker A) b)"
  obtain st' where v: "ValidateBEEF (ae_beef A) (ae_tracker A) now st b = (res, st')"
    unfolding res_def by (metis ValidateBEEF_result prod.collapse)
  let ?s1 = "s\<lparr>validator := Some st'\<rparr>"
  let ?resp = "\<lparr>bp_TxID = rs_TxID res, bp_Confidence = rs_Confidence res, bp_Stored = False, bp_Mempool = False, bp_ARC = None, bp_Message = rs_Message res\<rparr>"
  show ?thesis
  proof (cases "rs_Confidence res = ConfidenceInvalid")
    case True
    with h b v have "code = 422" "resp = ?resp" "s' = ?s1" by (simp_all add: handleBroadcast_def)
    with True b res_def show ?thesis by auto
  next
    case False
    obtain resp2 s2 where sv: "storeVerified A b ?resp ?s1 = (resp2, s2)" by force
    with h b v False have bt: "broadcastTx A (query_get (RawQuery r) ''arc'' = ''true'') b resp2 s2 = (resp, s')"
      by (auto simp: handleBroadcast_def split: prod.splits)
    have "bp_Stored resp = bp_Stored resp2 \<and> bp_Confidence resp = bp_Confidence resp2 \<and> proofStore s' = proofStore s2"
      using bt by (auto simp: broadcastTx_def Let_def split: option.splits prod.splits sum.splits if_splits)
    moreover have "bp_Confidence resp2 = rs_Confidence res
        \<and> (bp_Stored resp2 \<longrightarrow> rs_Confidence res \<in> {ConfidenceSPVVerified, ConfidencePartiallyVerified}
            \<and> (\<exists>id. StoreBEEF (ae_beef A) (ae_proof_ops A) (proofStore s) b = Inr (id, proofStore s2)))"
      using sv by (auto simp: storeVerified_def split: if_splits sum.splits prod.splits)
    ultimately show ?thesis using False b(1) by (auto simp: res_def)
  qed
qed

section \<open>What the gates do not check\<close>

text \<open>
  A client that sends \<^verbatim>\<open>X-Anvil-Authed: true\<close> itself, on a request that no gate stops, reads paid
  payloads without paying.
\<close>

lemma client_header_unlocks:
  assumes "Header r ''X-Anvil-Authed'' = ''true''" "storeConfigured s" "query_get (RawQuery r) ''topic'' \<noteq> []"
    and "query_get (RawQuery r) ''since'' = []"
    and "QueryByTopic (ae_ops A) now (envelopeStore s) (query_get (RawQuery r) ''topic'') (queryLimit (query_get (RawQuery r) ''limit'') 100 1000) = Inr envs"
  shows "handleQueryData A now s r = Reply 200 (query_get (RawQuery r) ''topic'', envs)"
proof -
  have "redact True = (\<lambda>env. env)" by (simp add: redact_def fun_eq_iff)
  with assms show ?thesis by (simp add: handleQueryData_def isAuthed_def Let_def)
qed

text \<open>
  The payment gate hands a request for a token-gated topic on, marked as authenticated, without any
  check; on \<^verbatim>\<open>POST /data\<close> no token gate stands before it.
\<close>

lemma token_topic_skips_payment:
  assumes "hasResolver pg" "query_get (RawQuery r) ''topic'' \<noteq> []"
    and "Resolve ops now store (query_get (RawQuery r) ''topic'') = Some mon" "Model mon = ''token''"
  shows "PaymentMiddleware E ops now store pg r = (PayNext (authed r) None, pg)"
  using assms by (simp add: PaymentMiddleware_def resolvePayees_def Let_def)

text \<open>A failed submission to ARC is reported as submitted.\<close>

lemma arc_failure_reported_submitted:
  assumes "GetTx (mempool b) txid = Some raw" "arcClient b = Some c" "parse_tx (pe_codec (ae_pay A)) raw = Inr tx"
    and "Submit (pe_arc (ae_pay A)) c raw = Inl e"
  shows "arcStatus A b txid = \<lparr>as_Submitted = True, as_TxStatus = ''error'', as_Error = []\<rparr>"
  using assms by (simp add: arcStatus_def BroadcastToARC_def)

text \<open>
  The price of a templated path is advertised but not charged: prices are looked up by the path of the
  request.
\<close>

lemma template_price_not_charged:
  assumes "endpointPrices pg = [''/tx/{txid}/beef'' \<mapsto> 7]" "priceSats pg = 0" "paymentGate s = Some pg"
  shows "priceFor s ''/tx/{txid}/beef'' = 7 \<and> priceForPath pg ''/tx/ab/beef'' = 0"
  using assms by (simp add: priceFor_def priceForPath_def)

section \<open>Concrete runs\<close>

definition demo_paid_env :: envelope where
  "demo_paid_env = demo_env\<lparr>Monetization := Some \<lparr>Model = ''passthrough'', PayeeLockingScriptHex = ''51'', PriceSats = 3, AuthPubkey = []\<rparr>, ReceivedAt := Some 0\<rparr>"

definition demo_server :: "(envelope json mem_db, dir_value mem_db, bytes mem_db, WatchHit json mem_db, nat WalletNonceProvider, envelope list) server" where
  "demo_server = \<lparr>envelopeStore = \<lparr>es_db = [], ephemeral = [(''k'', demo_paid_env)], maxEphemeralTTL = 100, maxDurableSize = 100\<rparr>,
     storeConfigured = True, overlayDirectory = None, proofStore = [], validator = Some NewValidator, proofFetcher = None,
     broadcaster = None, gossipMgr = Some [], rateLimiter = None, paymentGate = None, tokenGate = False, authToken = ''T'',
     nodeName = ''n'', explorerOrigin = [], publicURL = [], sseHub = newEnvelopeHub, mempoolWatcher = None\<rparr>"

definition demo_fetch :: "unit fetch_lib" where
  "demo_fetch = \<lparr>fl_get = (\<lambda>_. GetFailed ''down''), fl_arc = (\<lambda>_. RequestFailed ''down''), fl_info = (\<lambda>_. None), fl_tsc = (\<lambda>_. None),
     fl_hashFromHex = (\<lambda>_. None), fl_pathBytes = (\<lambda>_ _. []), fl_pathFromHex = (\<lambda>_. Inl ''bad''), fl_beefFromTx = (\<lambda>_ _. Inl ''bad''), fl_codec = demo_codec\<rparr>"

definition demo_api :: "(envelope json mem_db, dir_value mem_db, bytes mem_db, WatchHit json mem_db, nat WalletNonceProvider, envelope list,
    char, char, char \<times> bytes, unit, string, string) api_env" where
  "demo_api = \<lparr>ae_ops = mem_ops, ae_dir_ops = mem_ops, ae_proof_ops = mem_ops, ae_hit_ops = mem_ops, ae_crypto = demo_crypto, ae_pay = demo_pay,
     ae_beef = demo_beef_lib, ae_tracker = (\<lambda>_ _. Inr True), ae_fetch = demo_fetch, ae_brc = demo_brc, ae_watch = demo_watch_env,
     ae_broadcast = (\<lambda>env g. env # g), ae_envelope = (\<lambda>b. if b = ''e'' then Json (Sign demo_crypto demo_env (CHR ''k'')) else Malformed b),
     ae_beef_json = (\<lambda>_. None), ae_register_json = (\<lambda>_. None), ae_deregister_json = (\<lambda>_. None), ae_addresses_json = (\<lambda>_. None),
     ae_listing_json = (\<lambda>_. None)\<rparr>"

definition operator_req :: http_request where
  "operator_req = \<lparr>Method = ''GET'', Header = (\<lambda>_. [])(''Authorization'' := ''Bearer T''), RemoteAddr = [], Host = ''h'', URLPath = ''/data'',
     RawQuery = ''topic=t'', Body = ''e''\<rparr>"

lemma operator_query: "query_get (RawQuery operator_req) ''topic'' = ''t''" "query_get (RawQuery operator_req) ''limit'' = []"
  "query_get (RawQuery operator_req) ''since'' = []"
  by (simp_all add: operator_req_def query_get_def query_pair_def cut_def List.map_filter_def)

lemma operator_passes: "openRead demo_api 0 operator_req demo_server = (Pass operator_req None, demo_server)"
  by (simp add: openRead_def cors_def operator_req_def runRateLimit_def runTokenGate_def runPaymentGate_def demo_server_def)

lemma operator_reads: "handleQueryData demo_api 0 demo_server operator_req = Reply 200 (''t'', [demo_paid_env])"
proof -
  have q: "QueryByTopic mem_ops 0 (envelopeStore demo_server) ''t'' 100 = Inr [demo_paid_env]"
    by (simp add: QueryByTopic_def demo_server_def mem_ops_def mem_iter_def demo_paid_env_def demo_env_def IsExpired_def wrap64_def List.map_filter_def)
  have "isAuthed demo_server operator_req" by (simp add: isAuthed_def demo_server_def operator_req_def)
  then show ?thesis using q
    by (simp add: handleQueryData_def operator_query queryLimit_def demo_api_def redact_def Let_def) (simp add: demo_server_def)
qed


theorem authOrPay_sound_witness:
  "authOrPay demo_api 0 operator_req demo_server = (Pass (authed operator_req) None, demo_server)
   \<and> bearerToken operator_req = authToken demo_server"
proof -
  have a: "authOrPay demo_api 0 operator_req demo_server = (Pass (authed operator_req) None, demo_server)"
    by (simp add: authOrPay_def bearerToken_def operator_req_def demo_server_def Let_def)
  have "paymentGate demo_server = None" by (simp add: demo_server_def)
  moreover have "UnmarshalEnvelope (ae_envelope demo_api (limit_reader 1048576 (Body operator_req))) = Some (Sign demo_crypto demo_env (CHR ''k''))"
    by (simp add: demo_api_def operator_req_def limit_reader_def)
  ultimately have "bearerToken operator_req = authToken demo_server"
    using authOrPay_sound [OF a] by (auto simp: bearerToken_def operator_req_def demo_server_def Let_def)
  with a show ?thesis by blast
qed

theorem handlePostData_exact_witness:
  "\<exists>k s'. handlePostData demo_api 0 demo_server operator_req = (Reply 200 (''t'', False, k), s')
    \<and> gossipMgr s' = Some [(Sign demo_crypto demo_env (CHR ''k''))\<lparr>ReceivedAt := Some 0\<rparr>]"
proof -
  let ?e = "Sign demo_crypto demo_env (CHR ''k'')"
  have u: "UnmarshalEnvelope (ae_envelope demo_api (limit_reader 1048576 (Body operator_req))) = Some ?e"
    by (simp add: demo_api_def operator_req_def limit_reader_def)
  have v: "Validate demo_crypto ?e = Inr ()" by (rule democ.Sign_validates) (simp_all add: demo_env_def)
  obtain k where k: "Key demo_crypto ?e = Some k" using democ.Validate_key(2) [OF v] by blast
  have f: "Topic ?e = ''t''" "Durable ?e = False" "TTL ?e = 60" by (simp_all add: Sign_def demo_env_def)
  have ok: "\<exists>st. Ingest mem_ops demo_crypto 0 (envelopeStore demo_server) ?e = Inr st"
    using v k f by (simp add: Ingest_def storeEphemeral_def demo_server_def Let_def)
  obtain rep s' where h: "handlePostData demo_api 0 demo_server operator_req = (rep, s')" by force
  have "\<not> (\<exists>code msg. rep = ReplyError code msg)"
    using h ok u k by (auto simp: handlePostData_def demo_api_def demo_server_def Let_def)
  moreover have "crypto (ae_crypto demo_api)" by (simp add: demo_api_def democ.crypto_axioms)
  ultimately obtain k' st where "rep = Reply 200 (Topic ?e, Durable ?e, k')"
      "s' = demo_server\<lparr>envelopeStore := st, gossipMgr := map_option (ae_broadcast demo_api (?e\<lparr>ReceivedAt := Some 0\<rparr>)) (gossipMgr demo_server),
         sseHub := notify (?e\<lparr>ReceivedAt := Some 0\<rparr>) (sseHub demo_server)\<rparr>"
    using handlePostData_exact [OF _ h] u by auto
  with h f show ?thesis by (simp add: demo_server_def demo_api_def)
qed

lemma cut_at: "c \<notin> set a \<Longrightarrow> cut c (a @ c # b) = (a, b)"
proof -
  assume "c \<notin> set a"
  then have "\<forall>x \<in> set a. x \<noteq> c" by blast
  then show ?thesis by (simp add: cut_def takeWhile_append2 dropWhile_append2)
qed



theorem broadcast_stores_verified_witness:
  "\<exists>resp s'. handleBroadcast demo_api 0 demo_server operator_req = (Reply 200 resp, s') \<and> bp_Stored resp
     \<and> bp_Confidence resp = ConfidencePartiallyVerified"
proof -
  have rd: "readBEEF demo_api operator_req = Inr ''e''"
    by (simp add: readBEEF_def operator_req_def limit_reader_def contains_def)
  have arc: "query_get (RawQuery operator_req) ''arc'' = []"
    by (simp add: operator_req_def query_get_def query_pair_def cut_def List.map_filter_def)
  define res where "res = \<lparr>rs_Valid = True, rs_TxID = tx_id (demo_tx ''c''), rs_Confidence = ConfidencePartiallyVerified,
    rs_Message = itoa 1 @ '' merkle proofs verified, '' @ itoa 1 @ '' ancestor txs unconfirmed''\<rparr>"
  have j: "judgeBEEF (ae_beef demo_api) (ae_tracker demo_api) ''e'' = (res, [])"
    by (simp add: judgeBEEF_def demo_api_def demo_beef_lib_def demo_beef_def res_def)
  have c: "rs_Confidence res = ConfidencePartiallyVerified" "ConfidencePartiallyVerified \<noteq> ConfidenceInvalid"
    by (simp_all add: res_def confidence_defs)
  have st: "\<exists>db. StoreBEEF (ae_beef demo_api) (ae_proof_ops demo_api) [] ''e'' = Inr (tx_id (demo_tx ''c''), db)"
    by (simp add: StoreBEEF_def demo_api_def demo_beef_lib_def mem_ops_def)
  obtain resp s' where h: "handleBroadcast demo_api 0 demo_server operator_req = (Reply 200 resp, s')" "bp_Stored resp"
    using c st by (auto simp: handleBroadcast_def rd arc demo_server_def ValidateBEEF_def j storeVerified_def broadcastTx_def)
  have "rs_Confidence (fst (judgeBEEF (ae_beef demo_api) (ae_tracker demo_api) ''e'')) = ConfidencePartiallyVerified"
    using j c by simp
  with broadcast_stores_verified [OF h(1)] rd h show ?thesis by auto
qed

end
