(* ===== verification/Gotext.thy ===== *)
theory Gotext
  imports Http
begin

text \<open>
  More of Go's standard library: \<^verbatim>\<open>strconv.Atoi\<close>, \<^verbatim>\<open>bytes.Index\<close>, the prefix and split functions of
  \<^verbatim>\<open>strings\<close>, and slices of a byte string with Go's bounds, where a slice out of range is a panic
  (\<^term>\<open>None\<close>). They are shared by the content server, the wallet and the command line.
\<close>

section \<open>Slices\<close>

definition slice_from :: "bytes \<Rightarrow> int \<Rightarrow> bytes option" where
  \<comment> \<open>\<^verbatim>\<open>b[i:]\<close>\<close>
  "slice_from b i = (if 0 \<le> i \<and> i \<le> int (length b) then Some (drop (nat i) b) else None)"

definition slice :: "bytes \<Rightarrow> int \<Rightarrow> int \<Rightarrow> bytes option" where
  \<comment> \<open>\<^verbatim>\<open>b[i:j]\<close>\<close>
  "slice b i j = (if 0 \<le> i \<and> i \<le> j \<and> j \<le> int (length b) then Some (take (nat (j - i)) (drop (nat i) b)) else None)"

lemma slice_from_append [simp]: "slice_from (a @ b) (int (length a)) = Some b"
  by (simp add: slice_from_def)

lemma slice_append: "slice (a @ b @ c) (int (length a)) (int (length a) + int (length b)) = Some b"
  by (simp add: slice_def)

section \<open>strconv.Atoi\<close>

fun dec_digits :: "nat \<Rightarrow> string \<Rightarrow> nat option" where
  "dec_digits a [] = Some a"
| "dec_digits a (c # cs) = (case dec_val c of None \<Rightarrow> None | Some d \<Rightarrow> dec_digits (10 * a + d) cs)"

definition atoi :: "string \<Rightarrow> int option" where
  "atoi s =
     (let neg = (case s of c # _ \<Rightarrow> c = CHR ''-'' | [] \<Rightarrow> False);
          u = (case s of c # cs \<Rightarrow> if c = CHR ''-'' \<or> c = CHR ''+'' then cs else s | [] \<Rightarrow> [])
      in if u = [] then None
         else case dec_digits 0 u of
           None \<Rightarrow> None
         | Some n \<Rightarrow>
            (let v = (if neg then - int n else int n)
             in if v < - (2 ^ 63) \<or> v \<ge> 2 ^ 63 then None else Some v))"

lemma dec_digits_append: "dec_digits a (s @ t) = Option.bind (dec_digits a s) (\<lambda>n. dec_digits n t)"
  by (induction a s rule: dec_digits.induct) (auto split: option.splits)

lemma dec_val_digit [simp]: "n < 10 \<Longrightarrow> dec_val (digit n) = Some n"
  by (simp add: dec_val_def of_char_digit)

lemma dec_digits_digits: "dec_digits 0 (digits n) = Some n"
proof (induction n rule: digits.induct)
  case (1 n)
  show ?case
  proof (cases "n < 10")
    case True
    then show ?thesis by (simp add: digits.simps [of n])
  next
    case False
    with 1 have "dec_digits 0 (digits (n div 10)) = Some (n div 10)" by blast
    with False show ?thesis by (simp add: digits.simps [of n] dec_digits_append)
  qed
qed

lemma digits_no_sign: "digits n = c # cs \<Longrightarrow> c \<noteq> CHR ''-'' \<and> c \<noteq> CHR ''+''"
  using digits_of_char [of c n] by auto

lemma atoi_itoa: "- (2 ^ 63) \<le> i \<Longrightarrow> i < 2 ^ 63 \<Longrightarrow> atoi (itoa i) = Some i"
proof -
  assume i: "- (2 ^ 63) \<le> i" "i < 2 ^ 63"
  obtain c cs where d: "digits (nat \<bar>i\<bar>) = c # cs"
    using digits_nonempty neq_Nil_conv by metis
  show ?thesis
  proof (cases "i < 0")
    case True
    then have "itoa i = CHR ''-'' # digits (nat \<bar>i\<bar>)" by (simp add: itoa_def)
    with True i dec_digits_digits [of "nat \<bar>i\<bar>"] d show ?thesis by (simp add: atoi_def)
  next
    case False
    then have "itoa i = digits (nat \<bar>i\<bar>)" by (simp add: itoa_def)
    with False i dec_digits_digits [of "nat \<bar>i\<bar>"] d digits_no_sign [OF d] show ?thesis by (simp add: atoi_def)
  qed
qed

lemma atoi_range: "atoi s = Some v \<Longrightarrow> - (2 ^ 63) \<le> v \<and> v < 2 ^ 63"
  by (auto simp: atoi_def Let_def split: if_splits option.splits)

section \<open>Searching and splitting\<close>

fun bytes_index :: "bytes \<Rightarrow> bytes \<Rightarrow> nat option" where
  \<comment> \<open>\<^verbatim>\<open>bytes.Index\<close> and \<^verbatim>\<open>strings.Index\<close>: the first occurrence\<close>
  "bytes_index sub [] = (if sub = [] then Some 0 else None)"
| "bytes_index sub (x # xs) = (if prefix sub (x # xs) then Some 0 else map_option Suc (bytes_index sub xs))"

lemma bytes_index_Some:
  "bytes_index sub s = Some i \<Longrightarrow> i \<le> length s \<and> prefix sub (drop i s)"
  by (induction sub s arbitrary: i rule: bytes_index.induct) (auto split: if_splits)

lemma bytes_index_here: "prefix sub s \<Longrightarrow> bytes_index sub s = Some 0"
  by (cases s) auto

definition split_n2 :: "char \<Rightarrow> string \<Rightarrow> string \<times> string option" where
  \<comment> \<open>\<^verbatim>\<open>strings.SplitN(s, c, 2)\<close>: the first part, and the second if the separator occurs\<close>
  "split_n2 c s = (takeWhile (\<lambda>x. x \<noteq> c) s, if c \<in> set s then Some (drop 1 (dropWhile (\<lambda>x. x \<noteq> c) s)) else None)"

definition trim_prefix :: "string \<Rightarrow> string \<Rightarrow> string" where
  \<comment> \<open>\<^verbatim>\<open>strings.TrimPrefix\<close>\<close>
  "trim_prefix p s = (if prefix p s then drop (length p) s else s)"

lemma split_n2_join: "c \<notin> set a \<Longrightarrow> split_n2 c (a @ c # b) = (a, Some b)"
  by (induction a) (auto simp: split_n2_def)

end
