(* ===== verification/Content.thy ===== *)
theory Content
  imports Gotext P2p
begin

text \<open>
  \<^verbatim>\<open>internal/content/serve.go\<close>: serving inscriptions that are stored in transaction outputs. The raw
  transaction comes from the block cache, from a Bitcoin peer, from the WhatsOnChain service or from a
  whole block, in that order; the script of the requested output is cut out of it with a parser of
  its own and searched for a 1Sat Ordinal or a B protocol payload; the result is cached for a day.

  Positions and lengths are Go's 64-bit \<^verbatim>\<open>int\<close>: sums wrap, and a length of \<open>2 ^ 63\<close> or more becomes
  negative. A slice out of bounds is the error \<open>PanicContent\<close>. The HTTP service is the parameter
  \<open>ce_get\<close>, with the decoders of its JSON answers; the two peer-to-peer sources are those of theory
  \<open>P2p\<close>. They are interface values: absent, or a nil pointer inside a non-nil interface (on which every
  method call panics), or a source.
\<close>

record inscription =
  ins_ContentType :: string
  ins_Data :: bytes
  ins_FetchedAt :: int

datatype content_err =
    ErrTxHex | ErrVout | ErrTxShort | ErrInputBounds int | ErrVoutRange int int | ErrOutputBounds int
  | ErrScriptBounds int | ErrOutputMissing int | ErrNoInscription int | ErrAllSources string | PanicContent

section \<open>Cutting an output out of a transaction\<close>

definition le_bytes :: "bytes \<Rightarrow> nat" where
  \<comment> \<open>\<^verbatim>\<open>binary.LittleEndian\<close>\<close>
  "le_bytes b = foldr (\<lambda>c n. of_char c + 256 * n) b 0"

fun readVarInt :: "bytes \<Rightarrow> int \<times> int" where
  \<comment> \<open>the value, a \<^verbatim>\<open>uint64\<close>, and the number of bytes read\<close>
  "readVarInt [] = (0, 0)"
| "readVarInt (c # s) =
     (let first = (of_char c :: nat) in
      if first < 0xfd then (int first, 1)
      else if first = 0xfd then (if length s < 2 then (0, 1) else (int (le_bytes (take 2 s)), 3))
      else if first = 0xfe then (if length s < 4 then (0, 1) else (int (le_bytes (take 4 s)), 5))
      else (if length s < 8 then (0, 1) else (int (le_bytes (take 8 s)), 9)))"

fun skipInputs :: "bytes \<Rightarrow> nat \<Rightarrow> int \<Rightarrow> int \<Rightarrow> content_err + int" where
  \<comment> \<open>the number of inputs left, the index of the next one, the position\<close>
  "skipInputs tx 0 i pos = Inr pos"
| "skipInputs tx (Suc k) i pos =
     (let pos1 = wrap64 (wrap64 (pos + 32) + 4) in
      case slice_from tx pos1 of
        None \<Rightarrow> Inl PanicContent
      | Some rest \<Rightarrow>
         (case readVarInt rest of
            (scriptLen, n) \<Rightarrow>
             (let pos2 = wrap64 (wrap64 (wrap64 (pos1 + n) + wrap64 scriptLen) + 4) in
              if pos2 > int (length tx) then Inl (ErrInputBounds i) else skipInputs tx k (i + 1) pos2)))"

fun findOutput :: "bytes \<Rightarrow> int \<Rightarrow> nat \<Rightarrow> int \<Rightarrow> int \<Rightarrow> content_err + bytes" where
  "findOutput tx vout 0 i pos = Inl (ErrOutputMissing vout)"
| "findOutput tx vout (Suc k) i pos =
     (if wrap64 (pos + 8) > int (length tx) then Inl (ErrOutputBounds i)
      else let pos1 = wrap64 (pos + 8) in
        case slice_from tx pos1 of
          None \<Rightarrow> Inl PanicContent
        | Some rest \<Rightarrow>
           (case readVarInt rest of
              (scriptLen, n) \<Rightarrow>
               (let pos2 = wrap64 (pos1 + n); end = wrap64 (pos2 + wrap64 scriptLen) in
                if end > int (length tx) then Inl (ErrScriptBounds i)
                else if i = vout then (case slice tx pos2 end of None \<Rightarrow> Inl PanicContent | Some s \<Rightarrow> Inr s)
                else findOutput tx vout k (i + 1) end)))"

definition extractOutputScript :: "bytes \<Rightarrow> int \<Rightarrow> content_err + bytes" where
  "extractOutputScript tx vout =
     (if length tx < 10 then Inl ErrTxShort
      else case slice_from tx 4 of
        None \<Rightarrow> Inl PanicContent
      | Some rest \<Rightarrow>
         (case readVarInt rest of
            (inputCount, n) \<Rightarrow>
             (case skipInputs tx (nat (wrap64 inputCount)) 0 (4 + n) of
                Inl e \<Rightarrow> Inl e
              | Inr pos \<Rightarrow>
                 (case slice_from tx pos of
                    None \<Rightarrow> Inl PanicContent
                  | Some rest \<Rightarrow>
                     (case readVarInt rest of
                        (outputCount, n) \<Rightarrow>
                         (if vout \<ge> wrap64 outputCount then Inl (ErrVoutRange vout outputCount)
                          else findOutput tx vout (nat (wrap64 outputCount)) 0 (wrap64 (pos + n))))))))"

section \<open>Inscriptions\<close>

fun readPush :: "bytes \<Rightarrow> (bytes \<times> bytes) option" where
  \<comment> \<open>the pushed bytes and the rest of the script; every error is \<^term>\<open>None\<close>, the callers only test for it\<close>
  "readPush [] = None"
| "readPush (c # s) =
     (let op = (of_char c :: nat); push = (\<lambda>k s. if k > length s then None else Some (take k s, drop k s)) in
      if 1 \<le> op \<and> op \<le> 0x4b then push op s
      else if op = 0x4c then (if length s < 1 then None else push (le_bytes (take 1 s)) (drop 1 s))
      else if op = 0x4d then (if length s < 2 then None else push (le_bytes (take 2 s)) (drop 2 s))
      else if op = 0x4e then (if length s < 4 then None else push (le_bytes (take 4 s)) (drop 4 s))
      else None)"

lemma readPush_shrinks: "readPush s = Some (d, s') \<Longrightarrow> length s' < length s"
  by (cases s) (auto simp: Let_def split: if_splits)

definition ordMarker :: bytes where
  "ordMarker = [CHR 0x00, CHR 0x63, CHR 0x03, CHR 0x6f, CHR 0x72, CHR 0x64]"

function ordLoop :: "bytes \<Rightarrow> string \<Rightarrow> bytes option \<Rightarrow> (string \<times> bytes) option" where
  \<comment> \<open>the loop over the opcodes after the marker; the last argument is \<^verbatim>\<open>insc.Data\<close>, nil as \<^term>\<open>None\<close>\<close>
  "ordLoop [] ct d = map_option (Pair ct) d"
| "ordLoop (c # s) ct d =
     (let op = (of_char c :: nat) in
      if op = 0x51 then (case readPush s of None \<Rightarrow> None | Some (x, s') \<Rightarrow> ordLoop s' x d)
      else if op = 0x00 then (case readPush s of None \<Rightarrow> None | Some (x, s') \<Rightarrow> ordLoop s' ct (Some x))
      else if op = 0x68 then map_option (Pair ct) d
      else ordLoop s ct d)"
  by pat_completeness auto

termination
  by (relation "measure (length \<circ> fst)") (auto dest: readPush_shrinks [OF sym] readPush_shrinks)

definition tryParseOrdinal :: "bytes \<Rightarrow> (string \<times> bytes) option" where
  "tryParseOrdinal s =
     (case bytes_index ordMarker s of
        None \<Rightarrow> None
      | Some idx \<Rightarrow> ordLoop (drop (idx + length ordMarker) s) [] None)"

function pushList :: "bytes \<Rightarrow> bytes list" where
  "pushList s = (case readPush s of None \<Rightarrow> [] | Some (d, s') \<Rightarrow> d # pushList s')"
  by pat_completeness auto

termination
  by (relation "measure length") (auto dest: readPush_shrinks [OF sym] readPush_shrinks)

declare pushList.simps [simp del]

definition bAddr :: string where "bAddr = ''19HxigV4QyBv3tHpQVcUEQyq1pzZVdoAut''"

definition tryParseBProtocol :: "bytes \<Rightarrow> (string \<times> bytes) option" where
  "tryParseBProtocol s =
     (case bytes_index [CHR 0x6a] s of
        None \<Rightarrow> None
      | Some idx \<Rightarrow>
         (let pushes = pushList (drop (idx + 1) s) in
          if length pushes \<ge> 3 \<and> (pushes ! 0 = bAddr \<or> sublist bAddr (pushes ! 0))
          then Some (pushes ! 2, pushes ! 1) else None))"

definition parseInscription :: "int \<Rightarrow> string \<Rightarrow> string \<Rightarrow> content_err + inscription" where
  "parseInscription now rawTxHex voutStr =
     (case hex_decode rawTxHex of
        None \<Rightarrow> Inl ErrTxHex
      | Some txBytes \<Rightarrow>
         (case atoi voutStr of
            None \<Rightarrow> Inl ErrVout
          | Some vout \<Rightarrow>
             (case extractOutputScript txBytes vout of
                Inl e \<Rightarrow> Inl e
              | Inr script \<Rightarrow>
                 (case (case tryParseOrdinal script of None \<Rightarrow> tryParseBProtocol script | Some r \<Rightarrow> Some r) of
                    None \<Rightarrow> Inl (ErrNoInscription vout)
                  | Some (ct, d) \<Rightarrow> Inr \<lparr>ins_ContentType = ct, ins_Data = d, ins_FetchedAt = now\<rparr>))))"

section \<open>Fetching the transaction\<close>

datatype 'f iface = NilIface | TypedNil | Src 'f

datatype woc_reply = WocFailed | WocReply nat bytes

record 'tx content_env =
  ce_lib :: "'tx tx_lib"
  ce_dial :: "string \<Rightarrow> string + 'tx conn"
  ce_get :: "string \<Rightarrow> woc_reply"
  ce_status :: "bytes \<Rightarrow> (int \<times> string) option"
  ce_targets :: "bytes \<Rightarrow> string list option"
  ce_txBlock :: "bytes \<Rightarrow> (int \<times> string) option"
  ce_txHex :: "bytes \<Rightarrow> string option"
  ce_headerLookup :: "(int \<Rightarrow> string) option"

record 'tx content_server =
  wocURL :: string
  p2pSource :: "'tx TxFetcher iface"
  blockSource :: "BlockTxFetcher iface"
  p2pNonce :: "64 word"
  contentCache :: "(string \<times> inscription) list"
  maxAge :: int

definition NewContentServer :: "string \<Rightarrow> 'tx TxFetcher iface \<Rightarrow> BlockTxFetcher iface \<Rightarrow> 64 word \<Rightarrow> 'tx content_server" where
  "NewContentServer url p2p block nc =
     \<lparr>wocURL = (if url = [] then ''https://api.whatsonchain.com/v1/bsv/main'' else url), p2pSource = p2p, blockSource = block,
      p2pNonce = nc, contentCache = [], maxAge = 24 * 3600 * 1000000000\<rparr>"

definition blockOf :: "'tx content_env \<Rightarrow> (int \<times> string) option \<Rightarrow> string" where
  \<comment> \<open>the block hash of an answer, or that of the header at its height\<close>
  "blockOf E ans =
     (case ans of
        None \<Rightarrow> []
      | Some (height, hash) \<Rightarrow>
         (if hash \<noteq> [] then hash
          else case ce_headerLookup E of Some lookup \<Rightarrow> (if height > 0 then lookup height else []) | None \<Rightarrow> []))"

definition tryWoCStatus :: "'tx content_env \<Rightarrow> 'tx content_server \<Rightarrow> string \<Rightarrow> string" where
  "tryWoCStatus E s txid =
     (case ce_get E (wocURL s @ ''/tx/'' @ txid @ ''/status'') of
        WocFailed \<Rightarrow> []
      | WocReply status body \<Rightarrow> if status \<noteq> 200 then [] else blockOf E (ce_status E body))"

definition tryWoCProof :: "'tx content_env \<Rightarrow> 'tx content_server \<Rightarrow> string \<Rightarrow> string" where
  "tryWoCProof E s txid =
     (case ce_get E (wocURL s @ ''/tx/'' @ txid @ ''/proof/tsc'') of
        WocFailed \<Rightarrow> []
      | WocReply status body \<Rightarrow>
         (if status \<noteq> 200 then []
          else case ce_targets E body of Some (target # _) \<Rightarrow> target | _ \<Rightarrow> []))"

definition tryWoCConfirmation :: "'tx content_env \<Rightarrow> 'tx content_server \<Rightarrow> string \<Rightarrow> string" where
  "tryWoCConfirmation E s txid =
     (case ce_get E (wocURL s @ ''/tx/'' @ txid) of
        WocFailed \<Rightarrow> []
      | WocReply status body \<Rightarrow> if status \<noteq> 200 then [] else blockOf E (ce_txBlock E body))"

definition findBlockHash :: "'tx content_env \<Rightarrow> 'tx content_server \<Rightarrow> string \<Rightarrow> string" where
  "findBlockHash E s txid =
     (let a = tryWoCStatus E s txid in if a \<noteq> [] then a
      else let b = tryWoCProof E s txid in if b \<noteq> [] then b
      else tryWoCConfirmation E s txid)"

definition fetchRawTxFromWoC :: "'tx content_env \<Rightarrow> 'tx content_server \<Rightarrow> string \<Rightarrow> string option" where
  "fetchRawTxFromWoC E s txid =
     (case ce_get E (wocURL s @ ''/tx/'' @ txid @ ''/hex'') of
        WocFailed \<Rightarrow> None
      | WocReply status body \<Rightarrow>
         (if status \<noteq> 200 then
            (case ce_get E (wocURL s @ ''/tx/'' @ txid) of
               WocFailed \<Rightarrow> None
             | WocReply _ body2 \<Rightarrow> ce_txHex E body2)
          else Some (trim_space body)))"

definition fromBlockCache :: "'tx content_server \<Rightarrow> string \<Rightarrow> content_err + string option" where
  "fromBlockCache s txid =
     (case blockSource s of
        NilIface \<Rightarrow> Inr None
      | TypedNil \<Rightarrow> Inl PanicContent
      | Src f \<Rightarrow> (case LookupCachedTx f txid of Inl _ \<Rightarrow> Inl PanicContent | Inr r \<Rightarrow> Inr r))"

definition fromPeer :: "'tx content_env \<Rightarrow> 'tx content_server \<Rightarrow> string \<Rightarrow> (content_err + string option) \<times> 'tx content_server" where
  "fromPeer E s txid =
     (case p2pSource s of
        NilIface \<Rightarrow> (Inr None, s)
      | TypedNil \<Rightarrow> (Inl PanicContent, s)
      | Src f \<Rightarrow>
         (case FetchRawTx (ce_lib E) (ce_dial E) (p2pNonce s) f txid of
            (r, f', nc') \<Rightarrow>
              ((case r of Inl _ \<Rightarrow> Inr None | Inr rawHex \<Rightarrow> Inr (Some rawHex)), s\<lparr>p2pSource := Src f', p2pNonce := nc'\<rparr>)))"

definition fetchBlockVia :: "'tx content_env \<Rightarrow> 'tx content_server \<Rightarrow> string \<Rightarrow> string \<Rightarrow> (p2p_err + string) \<times> 'tx content_server" where
  \<comment> \<open>a call of \<^verbatim>\<open>blockSource.FetchTxFromBlock\<close>\<close>
  "fetchBlockVia E s txid blockHash =
     (case blockSource s of
        Src f \<Rightarrow>
         (case FetchTxFromBlock (ce_lib E) (ce_dial E) (p2pNonce s) f txid blockHash of
            (r, f', nc') \<Rightarrow> (r, s\<lparr>blockSource := Src f', p2pNonce := nc'\<rparr>))
      | _ \<Rightarrow> (Inl PanicSliceBounds, s))"

definition fromBlock :: "'tx content_env \<Rightarrow> 'tx content_server \<Rightarrow> string \<Rightarrow> (content_err + string option) \<times> 'tx content_server" where
  "fromBlock E s txid =
     (if blockSource s = NilIface then (Inr None, s)
      else let blockHash = findBlockHash E s txid in
        if blockHash = [] then (Inr None, s)
        else case fetchBlockVia E s txid blockHash of
          (Inr rawHex, s') \<Rightarrow> (Inr (Some rawHex), s')
        | (Inl PanicSliceBounds, s') \<Rightarrow> (Inl PanicContent, s')
        | (Inl _, s') \<Rightarrow> (Inr None, s'))"

definition contentRawTx :: "'tx content_env \<Rightarrow> 'tx content_server \<Rightarrow> string \<Rightarrow> (content_err + string) \<times> 'tx content_server" where
  "contentRawTx E s txid =
     (case fromBlockCache s txid of
        Inl e \<Rightarrow> (Inl e, s)
      | Inr (Some rawHex) \<Rightarrow> (Inr rawHex, s)
      | Inr None \<Rightarrow>
         (case fromPeer E s txid of
            (Inl e, s1) \<Rightarrow> (Inl e, s1)
          | (Inr (Some rawHex), s1) \<Rightarrow> (Inr rawHex, s1)
          | (Inr None, s1) \<Rightarrow>
             (case fetchRawTxFromWoC E s1 txid of
                Some rawHex \<Rightarrow> (Inr rawHex, s1)
              | None \<Rightarrow>
                 (case fromBlock E s1 txid of
                    (Inl e, s2) \<Rightarrow> (Inl e, s2)
                  | (Inr (Some rawHex), s2) \<Rightarrow> (Inr rawHex, s2)
                  | (Inr None, s2) \<Rightarrow> (Inl (ErrAllSources txid), s2)))))"

section \<open>The handlers\<close>

fun oldestEntry :: "int \<Rightarrow> string \<Rightarrow> (string \<times> inscription) list \<Rightarrow> string" where
  \<comment> \<open>the loop over the cache: the key of the entry fetched first, and strictly before \<open>oldestTime\<close>;
     Go's iteration order is that of the list\<close>
  "oldestEntry oldestTime oldest [] = oldest"
| "oldestEntry oldestTime oldest ((k, v) # c) =
     (if ins_FetchedAt v < oldestTime then oldestEntry (ins_FetchedAt v) k c else oldestEntry oldestTime oldest c)"

definition evictOldest :: "int \<Rightarrow> (string \<times> inscription) list \<Rightarrow> (string \<times> inscription) list" where
  "evictOldest now c =
     (if length c > 10000 then
        (let oldest = oldestEntry now [] c in if oldest \<noteq> [] then AList.delete oldest c else c)
      else c)"

definition serveInscription :: "inscription \<Rightarrow> (string \<times> bytes) reply" where
  "serveInscription insc =
     Reply 200 (if ins_ContentType insc = [] then ''application/octet-stream'' else ins_ContentType insc, ins_Data insc)"

definition parseOrigin :: "string \<Rightarrow> string \<times> string" where
  "parseOrigin origin = (case split_n2 (CHR ''_'') origin of (txid, None) \<Rightarrow> (txid, ''0'') | (txid, Some vout) \<Rightarrow> (txid, vout))"

definition serveMiss :: "'tx content_env \<Rightarrow> int \<Rightarrow> int \<Rightarrow> 'tx content_server \<Rightarrow> string \<Rightarrow> string
    \<Rightarrow> (string \<times> bytes) reply \<times> 'tx content_server" where
  \<comment> \<open>fetch, parse, cache and serve\<close>
  "serveMiss E now now' s txid vout =
     (case contentRawTx E s txid of
        (Inl e, s1) \<Rightarrow> (if e = PanicContent then ReplyPanic else ReplyError 502 ''fetch tx'', s1)
      | (Inr rawHex, s1) \<Rightarrow>
         (case parseInscription now rawHex vout of
            Inl e \<Rightarrow> (if e = PanicContent then ReplyPanic else ReplyError 404 ''parse inscription'', s1)
          | Inr insc \<Rightarrow>
             (serveInscription insc,
              s1\<lparr>contentCache := evictOldest now' (AList.update (txid @ ''_'' @ vout) insc (contentCache s1))\<rparr>)))"

definition ServeContent :: "'tx content_env \<Rightarrow> int \<Rightarrow> int \<Rightarrow> 'tx content_server \<Rightarrow> string
    \<Rightarrow> (string \<times> bytes) reply \<times> 'tx content_server" where
  \<comment> \<open>\<open>now\<close> and \<open>now'\<close> are the clock when the request arrives and when the cache is trimmed\<close>
  "ServeContent E now now' s origin =
     (if origin = [] then (ReplyError 400 ''missing origin'', s)
      else case parseOrigin origin of
        (txid, vout) \<Rightarrow>
         (if length txid \<noteq> 64 then (ReplyError 400 ''invalid txid'', s)
          else case map_of (contentCache s) (txid @ ''_'' @ vout) of
            Some cached \<Rightarrow> if now - ins_FetchedAt cached < maxAge s then (serveInscription cached, s) else serveMiss E now now' s txid vout
          | None \<Rightarrow> serveMiss E now now' s txid vout))"

definition dummyTxid :: string where "dummyTxid = replicate 64 (CHR ''0'')"

definition BootstrapBlock :: "'tx content_env \<Rightarrow> 'tx content_server \<Rightarrow> string \<Rightarrow> string reply \<times> 'tx content_server" where
  \<comment> \<open>the error is tolerated if its text contains \<^verbatim>\<open>not found in block\<close>, which only \<open>ErrNotInBlock\<close> does\<close>
  "BootstrapBlock E s blockHash =
     (if length blockHash \<noteq> 64 then (ReplyError 400 ''invalid block hash'', s)
      else case blockSource s of
        NilIface \<Rightarrow> (ReplyError 503 ''block fetching not configured'', s)
      | _ \<Rightarrow>
         (case fetchBlockVia E s dummyTxid blockHash of
            (Inr _, s') \<Rightarrow> (Reply 200 blockHash, s')
          | (Inl ErrNotInBlock, s') \<Rightarrow> (Reply 200 blockHash, s')
          | (Inl PanicSliceBounds, s') \<Rightarrow> (ReplyPanic, s')
          | (Inl _, s') \<Rightarrow> (ReplyError 502 ''block fetch failed'', s')))"

end
