(* ===== verification/Content_Safety.thy ===== *)
theory Content_Safety
  imports Content
begin

text \<open>
  Correctness of the content server: its transaction parser agrees with the serialisation of
  transactions, inscriptions read back, and what is served comes from a transaction with the
  requested id or from the answer of the WhatsOnChain service. The parser is not safe on arbitrary
  bytes: the last section has a short transaction on which it panics and one on which it runs through
  its loop without moving forward.
\<close>

section \<open>Serialised transactions\<close>

fun le_enc :: "nat \<Rightarrow> nat \<Rightarrow> bytes" where
  "le_enc 0 n = []"
| "le_enc (Suc k) n = char_of (n mod 256) # le_enc k (n div 256)"

definition varint :: "nat \<Rightarrow> bytes" where
  "varint n = (if n < 0xfd then [char_of n] else if n < 2 ^ 16 then CHR 0xfd # le_enc 2 n
     else if n < 2 ^ 32 then CHR 0xfe # le_enc 4 n else CHR 0xff # le_enc 8 n)"

lemma length_le_enc [simp]: "length (le_enc k n) = k"
  by (induction k n rule: le_enc.induct) auto

lemma le_bytes_enc: "n < 256 ^ k \<Longrightarrow> le_bytes (le_enc k n) = n"
  by (induction k n rule: le_enc.induct) (auto simp: le_bytes_def less_mult_imp_div_less mult.commute)

lemma take_le_enc [simp]: "take k (le_enc k n @ r) = le_enc k n" "drop k (le_enc k n @ r) = r"
  by simp_all

lemma readVarInt_varint: "n < 2 ^ 64 \<Longrightarrow> readVarInt (varint n @ r) = (int n, int (length (varint n)))"
  using le_bytes_enc [of n 2] le_bytes_enc [of n 4] le_bytes_enc [of n 8]
  by (auto simp: varint_def Let_def)

lemma length_varint: "1 \<le> length (varint n)"
  by (simp add: varint_def)

text \<open>An input is its outpoint, script and sequence number, an output its value and script.\<close>

fun ser_in :: "bytes \<times> bytes \<times> bytes \<Rightarrow> bytes" where
  "ser_in (outpoint, s, sq) = outpoint @ varint (length s) @ s @ sq"

fun ser_out :: "bytes \<times> bytes \<Rightarrow> bytes" where
  "ser_out (v, s) = v @ varint (length s) @ s"

definition ser_tx :: "bytes \<Rightarrow> (bytes \<times> bytes \<times> bytes) list \<Rightarrow> (bytes \<times> bytes) list \<Rightarrow> bytes \<Rightarrow> bytes" where
  "ser_tx version ins outs locktime =
     version @ varint (length ins) @ concat (map ser_in ins) @ varint (length outs) @ concat (map ser_out outs) @ locktime"

definition wf_tx :: "bytes \<Rightarrow> (bytes \<times> bytes \<times> bytes) list \<Rightarrow> (bytes \<times> bytes) list \<Rightarrow> bytes \<Rightarrow> bool" where
  "wf_tx version ins outs locktime \<longleftrightarrow> length version = 4 \<and> length locktime = 4
     \<and> (\<forall>(p, s, q) \<in> set ins. length p = 36 \<and> length q = 4) \<and> (\<forall>(v, s) \<in> set outs. length v = 8)
     \<and> length (ser_tx version ins outs locktime) < 2 ^ 63"

lemma wrap64_len: "0 \<le> x \<Longrightarrow> x \<le> int n \<Longrightarrow> n < 2 ^ 63 \<Longrightarrow> wrap64 x = x"
  by (rule wrap64_id) (auto simp: less_le_trans)

lemma ser_ins_count: "length ins \<le> length (concat (map ser_in ins))"
proof (induction ins)
  case (Cons x ins)
  then show ?case using length_varint [of "length (fst (snd x))"] by (cases x) simp
qed simp

lemma ser_outs_count: "length outs \<le> length (concat (map ser_out outs))"
proof (induction outs)
  case (Cons x outs)
  then show ?case using length_varint [of "length (snd x)"] by (cases x) simp
qed simp

lemma skipInputs_ser:
  assumes "\<forall>(p, s, q) \<in> set ins. length p = 36 \<and> length q = 4"
    and "tx = pre @ concat (map ser_in ins) @ post" "length tx < 2 ^ 63"
  shows "skipInputs tx (length ins) i (int (length pre)) = Inr (int (length pre + length (concat (map ser_in ins))))"
  using assms
proof (induction ins arbitrary: pre i)
  case (Cons x ins)
  obtain p s q where x: "x = (p, s, q)" by (cases x)
  have l: "length p = 36" "length q = 4" using Cons.prems(1) x by auto
  let ?v = "varint (length s)"
  let ?pre = "pre @ ser_in x"
  have tx: "tx = (pre @ p) @ ?v @ s @ q @ concat (map ser_in ins) @ post" using Cons.prems(2) x by simp
  note b = wrap64_len [where n = "length tx", OF _ _ Cons.prems(3)]
  have len: "length tx = length pre + 40 + length ?v + length s + length (concat (map ser_in ins)) + length post"
    using tx l by simp
  have p1: "wrap64 (wrap64 (int (length pre) + 32) + 4) = int (length (pre @ p))" using l len by (simp add: b)
  have sl: "slice_from tx (int (length (pre @ p))) = Some (?v @ s @ q @ concat (map ser_in ins) @ post)"
    unfolding tx by (rule slice_from_append)
  have n64: "length s < 2 ^ 64" using len Cons.prems(3) by simp
  have p2: "wrap64 (wrap64 (wrap64 (int (length (pre @ p)) + int (length ?v)) + wrap64 (int (length s))) + 4) = int (length ?pre)"
    using l len x by (simp add: b)
  have le: "\<not> int (length ?pre) > int (length tx)" using len x l by simp
  have "skipInputs tx (length (x # ins)) i (int (length pre)) = skipInputs tx (length ins) (i + 1) (int (length ?pre))"
    using le by (simp only: list.size(4) add_Suc_right add_0_right skipInputs.simps(2) p1 sl Let_def option.case
        readVarInt_varint [OF n64] prod.case p2 if_False)
  also have "\<dots> = Inr (int (length ?pre + length (concat (map ser_in ins))))"
    by (rule Cons.IH) (use Cons.prems x in auto)
  finally show ?case using x by simp
qed simp

lemma findOutput_ser:
  assumes "\<forall>(v, s) \<in> set outs. length v = 8"
    and "tx = pre @ concat (map ser_out outs) @ post" "length tx < 2 ^ 63"
  shows "findOutput tx vout (length outs) i (int (length pre)) =
    (if i \<le> vout \<and> vout < i + int (length outs) then Inr (snd (outs ! nat (vout - i))) else Inl (ErrOutputMissing vout))"
  using assms
proof (induction outs arbitrary: pre i)
  case (Cons x outs)
  obtain v s where x: "x = (v, s)" by (cases x)
  have l: "length v = 8" using Cons.prems(1) x by auto
  let ?v = "varint (length s)"
  let ?pre = "pre @ ser_out x"
  have tx: "tx = (pre @ v) @ ?v @ s @ concat (map ser_out outs) @ post" using Cons.prems(2) x by simp
  note b = wrap64_len [where n = "length tx", OF _ _ Cons.prems(3)]
  have len: "length tx = length pre + 8 + length ?v + length s + length (concat (map ser_out outs)) + length post"
    using tx l by simp
  have p1: "wrap64 (int (length pre) + 8) = int (length (pre @ v))" using l len by (simp add: b)
  have sl: "slice_from tx (int (length (pre @ v))) = Some (?v @ s @ concat (map ser_out outs) @ post)"
    unfolding tx by (rule slice_from_append)
  have n64: "length s < 2 ^ 64" using len Cons.prems(3) by simp
  have p2: "wrap64 (int (length (pre @ v)) + int (length ?v)) = int (length (pre @ v @ ?v))"
    using l len by (simp add: b)
  have p3: "wrap64 (int (length (pre @ v @ ?v)) + wrap64 (int (length s))) = int (length ?pre)"
    using l len x by (simp add: b)
  have sc: "slice tx (int (length (pre @ v @ ?v))) (int (length ?pre)) = Some s"
    using slice_append [of "pre @ v @ ?v" s "concat (map ser_out outs) @ post"] tx x by (simp add: add.assoc)
  have le: "\<not> int (length (pre @ v)) > int (length tx)" "\<not> int (length ?pre) > int (length tx)" using len x l by simp_all
  have step: "findOutput tx vout (length (x # outs)) i (int (length pre)) =
      (if i = vout then Inr s else findOutput tx vout (length outs) (i + 1) (int (length ?pre)))"
    using le by (simp only: list.size(4) add_Suc_right add_0_right findOutput.simps(2) p1 sl Let_def option.case
        readVarInt_varint [OF n64] prod.case p2 p3 sc if_False)
  have IH: "findOutput tx vout (length outs) (i + 1) (int (length ?pre)) =
     (if i + 1 \<le> vout \<and> vout < i + 1 + int (length outs) then Inr (snd (outs ! nat (vout - (i + 1)))) else Inl (ErrOutputMissing vout))"
    by (rule Cons.IH) (use Cons.prems x in auto)
  have nth: "i < vout \<Longrightarrow> (x # outs) ! nat (vout - i) = outs ! nat (vout - (i + 1))"
  proof -
    assume "i < vout"
    then have "nat (vout - i) = Suc (nat (vout - (i + 1)))" by arith
    then show ?thesis by simp
  qed
  show ?case unfolding step IH using x nth by (auto simp: not_le)
qed simp

lemma extractOutputScript_ser:
  assumes "wf_tx version ins outs locktime"
  shows "extractOutputScript (ser_tx version ins outs locktime) vout =
    (if vout \<ge> int (length outs) then Inl (ErrVoutRange vout (int (length outs)))
     else if vout < 0 then Inl (ErrOutputMissing vout) else Inr (snd (outs ! nat vout)))"
proof -
  let ?tx = "ser_tx version ins outs locktime"
  let ?vi = "varint (length ins)" and ?vo = "varint (length outs)"
  let ?I = "concat (map ser_in ins)" and ?O = "concat (map ser_out outs)"
  from assms have l: "length version = 4" "length locktime = 4" "length ?tx < 2 ^ 63"
    and wi: "\<forall>(p, s, q) \<in> set ins. length p = 36 \<and> length q = 4" and wo: "\<forall>(v, s) \<in> set outs. length v = 8"
    by (auto simp: wf_tx_def)
  have tx: "?tx = version @ ?vi @ ?I @ ?vo @ ?O @ locktime" by (simp add: ser_tx_def)
  then have len: "length ?tx = 4 + length ?vi + length ?I + length ?vo + length ?O + 4" using l by simp
  note b = wrap64_len [where n = "length ?tx", OF _ _ l(3)]
  note ni = ser_ins_count [of ins] and no = ser_outs_count [of outs]
  have s4: "slice_from ?tx 4 = Some (?vi @ ?I @ ?vo @ ?O @ locktime)"
    using slice_from_append [of version "?vi @ ?I @ ?vo @ ?O @ locktime"] tx l(1) by simp
  have vi: "readVarInt (?vi @ ?I @ ?vo @ ?O @ locktime) = (int (length ins), int (length ?vi))"
    by (rule readVarInt_varint) (use len l(3) ni in simp)
  have vo: "readVarInt (?vo @ ?O @ locktime) = (int (length outs), int (length ?vo))"
    by (rule readVarInt_varint) (use len l(3) no in simp)
  have sk: "skipInputs ?tx (length ins) 0 (int (length (version @ ?vi))) = Inr (int (length (version @ ?vi) + length ?I))"
    by (rule skipInputs_ser [OF wi _ l(3)]) (simp add: tx)
  have so: "slice_from ?tx (int (length (version @ ?vi) + length ?I)) = Some (?vo @ ?O @ locktime)"
    using slice_from_append [of "version @ ?vi @ ?I" "?vo @ ?O @ locktime"] tx by (simp add: add_ac)
  have fo: "findOutput ?tx vout (length outs) 0 (int (length (version @ ?vi @ ?I @ ?vo))) =
     (if 0 \<le> vout \<and> vout < 0 + int (length outs) then Inr (snd (outs ! nat (vout - 0))) else Inl (ErrOutputMissing vout))"
    by (rule findOutput_ser [OF wo _ l(3)]) (simp add: tx)
  have w: "wrap64 (int (length ins)) = int (length ins)" "wrap64 (int (length outs)) = int (length outs)"
    "wrap64 (int (length (version @ ?vi) + length ?I) + int (length ?vo)) = int (length (version @ ?vi @ ?I @ ?vo))"
    using ni no len l(1) by (auto simp: b)
  have big: "\<not> length ?tx < 10" using len length_varint [of "length ins"] length_varint [of "length outs"] by simp
  have p4: "4 + int (length ?vi) = int (length (version @ ?vi))" using l(1) by simp
  show ?thesis
    unfolding extractOutputScript_def using big
    by (simp only: if_False s4 option.case vi prod.case w nat_int p4 sk sum.case so vo fo) auto
qed

section \<open>Inscriptions\<close>

definition push_enc :: "bytes \<Rightarrow> bytes" where
  "push_enc d = (let n = length d in
     if 1 \<le> n \<and> n \<le> 75 then char_of n # d else if n < 2 ^ 8 then CHR 0x4c # le_enc 1 n @ d
     else if n < 2 ^ 16 then CHR 0x4d # le_enc 2 n @ d else CHR 0x4e # le_enc 4 n @ d)"

lemma readPush_enc: "length d < 2 ^ 32 \<Longrightarrow> readPush (push_enc d @ r) = Some (d, r)"
  using le_bytes_enc [of "length d" 1] le_bytes_enc [of "length d" 2] le_bytes_enc [of "length d" 4]
  by (auto simp: push_enc_def Let_def)

definition ordinal_script :: "bytes \<Rightarrow> string \<Rightarrow> bytes \<Rightarrow> bytes \<Rightarrow> bytes" where
  "ordinal_script pre ct d post = pre @ ordMarker @ CHR 0x51 # push_enc ct @ CHR 0x00 # push_enc d @ CHR 0x68 # post"

lemma tryParseOrdinal_script:
  assumes "bytes_index ordMarker (ordinal_script pre ct d post) = Some (length pre)"
    and "length ct < 2 ^ 32" "length d < 2 ^ 32"
  shows "tryParseOrdinal (ordinal_script pre ct d post) = Some (ct, d)"
proof -
  have "drop (length pre + length ordMarker) (ordinal_script pre ct d post)
      = CHR 0x51 # push_enc ct @ CHR 0x00 # push_enc d @ CHR 0x68 # post"
    by (simp add: ordinal_script_def)
  with assms show ?thesis by (simp add: tryParseOrdinal_def readPush_enc)
qed

text \<open>
  C14: an inscription reads back. If an output of a transaction is an ordinal envelope with a content
  type and data, wherever in the script it starts, then asking for that output of the serialised
  transaction gives the content type and the data; asking for an output the transaction does not have
  is an error, and nothing panics.
\<close>

theorem inscription_roundtrip:
  assumes wf: "wf_tx version ins outs locktime" and i: "i < length outs"
    and s: "snd (outs ! i) = ordinal_script pre ct d post"
    and first: "bytes_index ordMarker (ordinal_script pre ct d post) = Some (length pre)"
    and len: "length ct < 2 ^ 32" "length d < 2 ^ 32"
  shows "parseInscription now (hex_encode (ser_tx version ins outs locktime)) (itoa (int i)) =
      Inr \<lparr>ins_ContentType = ct, ins_Data = d, ins_FetchedAt = now\<rparr>
    \<and> extractOutputScript (ser_tx version ins outs locktime) (int (length outs)) = Inl (ErrVoutRange (int (length outs)) (int (length outs)))
    \<and> extractOutputScript (ser_tx version ins outs locktime) vout \<noteq> Inl PanicContent"
proof -
  have "length outs \<le> length (concat (map ser_out outs))" by (rule ser_outs_count)
  also have "\<dots> \<le> length (ser_tx version ins outs locktime)" by (simp add: ser_tx_def)
  finally have "int i < 2 ^ 63" using wf i by (simp add: wf_tx_def)
  then have "atoi (itoa (int i)) = Some (int i)" by (simp add: atoi_itoa)
  then show ?thesis
    using s tryParseOrdinal_script [OF first len] i
    by (simp add: parseInscription_def extractOutputScript_ser [OF wf])
qed

theorem inscription_roundtrip_witness:
  "parseInscription 7 (hex_encode (ser_tx ''vvvv'' [] [(''12345678'', ordinal_script [] ''text/plain'' ''hi'' [])] ''llll'')) (itoa (int 0)) =
     Inr \<lparr>ins_ContentType = ''text/plain'', ins_Data = ''hi'', ins_FetchedAt = 7\<rparr>
   \<and> wf_tx ''vvvv'' [] [(''12345678'', ordinal_script [] ''text/plain'' ''hi'' [])] ''llll''
   \<and> bytes_index ordMarker (ordinal_script [] ''text/plain'' ''hi'' []) = Some (length [])"
proof -
  let ?outs = "[(''12345678'', ordinal_script [] ''text/plain'' ''hi'' [])]"
  have wf: "wf_tx ''vvvv'' [] ?outs ''llll''"
    by (simp add: wf_tx_def ser_tx_def varint_def ordinal_script_def ordMarker_def push_enc_def)
  have f: "bytes_index ordMarker (ordinal_script [] ''text/plain'' ''hi'' []) = Some (length [])"
    by (simp add: bytes_index_here ordinal_script_def)
  have "parseInscription 7 (hex_encode (ser_tx ''vvvv'' [] ?outs ''llll'')) (itoa (int 0)) =
     Inr \<lparr>ins_ContentType = ''text/plain'', ins_Data = ''hi'', ins_FetchedAt = 7\<rparr>"
    using inscription_roundtrip [OF wf, of 0 "[]" "''text/plain''" "''hi''" "[]" 7 0] f by simp
  with wf f show ?thesis by blast
qed

section \<open>Where content comes from\<close>

definition tx_verified :: "'tx tx_lib \<Rightarrow> string \<Rightarrow> string \<Rightarrow> bool" where
  \<comment> \<open>\<open>rawHex\<close> is a transaction whose hash is named by \<open>txid\<close>, in either byte order\<close>
  "tx_verified lib txid rawHex \<longleftrightarrow> (\<exists>h. serialises lib h rawHex
     \<and> (HashFromStr lib txid = Some h \<or> (\<exists>t \<in> {txid, reverseHex txid}. t = HashString lib h \<or> t = reverseHashHex (HashString lib h))))"

definition blocks_ok :: "'tx tx_lib \<Rightarrow> 'tx content_server \<Rightarrow> bool" where
  "blocks_ok lib s \<longleftrightarrow> (\<forall>f. blockSource s = Src f \<longrightarrow> cache_ok lib f)"

lemma lookupBlocks_verified:
  "\<forall>(b, m) \<in> set c. cached_txs_sound lib m \<Longrightarrow> lookupBlocks txid c = Inr (Some rawHex) \<Longrightarrow> tx_verified lib txid rawHex"
proof (induction txid c rule: lookupBlocks.induct)
  case (2 txid b m c)
  then have "cached_txs_sound lib m" by simp
  with 2 show ?case
    by (auto simp: tx_verified_def cached_txs_sound_def split: option.splits if_splits) blast+
qed simp

lemma fromBlockCache_verified:
  "blocks_ok lib s \<Longrightarrow> fromBlockCache s txid = Inr (Some rawHex) \<Longrightarrow> tx_verified lib txid rawHex"
  by (auto simp: fromBlockCache_def blocks_ok_def cache_ok_def LookupCachedTx_def
      dest!: lookupBlocks_verified split: iface.splits sum.splits)

lemma fromPeer_verified:
  assumes "fromPeer E s txid = (r, s')"
  shows "contentCache s' = contentCache s" "maxAge s' = maxAge s" "blockSource s' = blockSource s" "wocURL s' = wocURL s"
    and "r = Inr (Some rawHex) \<Longrightarrow> tx_verified (ce_lib E) txid rawHex"
  using assms
  by (auto simp: fromPeer_def tx_verified_def FetchRawTx_def Let_def
      dest!: fetchFromPeer_sound fetchFromAddresses_sound split: iface.splits prod.splits sum.splits option.splits)

lemma fetchBlockVia_ok:
  assumes "blocks_ok (ce_lib E) s" and "fetchBlockVia E s txid b = (r, s')"
  shows "blocks_ok (ce_lib E) s'" "contentCache s' = contentCache s" "maxAge s' = maxAge s" "wocURL s' = wocURL s"
    and "r = Inr rawHex \<Longrightarrow> tx_verified (ce_lib E) txid rawHex"
proof -
  have "blocks_ok (ce_lib E) s' \<and> contentCache s' = contentCache s \<and> maxAge s' = maxAge s \<and> wocURL s' = wocURL s
    \<and> (r = Inr rawHex \<longrightarrow> tx_verified (ce_lib E) txid rawHex)"
  proof (cases "blockSource s")
    case (Src f)
    obtain r' f' nc' where f': "FetchTxFromBlock (ce_lib E) (ce_dial E) (p2pNonce s) f txid b = (r', f', nc')"
      by (metis prod_cases3)
    have "cache_ok (ce_lib E) f" using assms(1) Src by (simp add: blocks_ok_def)
    from FetchTxFromBlock_cache [OF this f'] assms(2) Src f' show ?thesis
      by (auto simp: fetchBlockVia_def blocks_ok_def tx_verified_def)
  qed (use assms in \<open>auto simp: fetchBlockVia_def\<close>)
  then show "blocks_ok (ce_lib E) s'" "contentCache s' = contentCache s" "maxAge s' = maxAge s" "wocURL s' = wocURL s"
    and "r = Inr rawHex \<Longrightarrow> tx_verified (ce_lib E) txid rawHex" by auto
qed

lemma fromBlock_verified:
  assumes "blocks_ok (ce_lib E) s" and "fromBlock E s txid = (r, s')"
  shows "blocks_ok (ce_lib E) s' \<and> contentCache s' = contentCache s \<and> maxAge s' = maxAge s \<and> wocURL s' = wocURL s
    \<and> (r = Inr (Some rawHex) \<longrightarrow> tx_verified (ce_lib E) txid rawHex)"
proof (cases "blockSource s = NilIface \<or> findBlockHash E s txid = []")
  case True
  with assms show ?thesis by (auto simp: fromBlock_def Let_def split: if_splits)
next
  case False
  obtain q s1 where v: "fetchBlockVia E s txid (findBlockHash E s txid) = (q, s1)" by (metis surj_pair)
  note ok = fetchBlockVia_ok [OF assms(1) v]
  from False assms(2) v have "s' = s1 \<and> (r = Inr (Some rawHex) \<longrightarrow> q = Inr rawHex)"
    by (auto simp: fromBlock_def Let_def split: sum.splits p2p_err.splits)
  with ok(1-4) ok(5) [of rawHex] show ?thesis by blast
qed

lemma contentRawTx_sound:
  assumes ok: "blocks_ok (ce_lib E) s" and r: "contentRawTx E s txid = (r, s')"
  shows "blocks_ok (ce_lib E) s' \<and> contentCache s' = contentCache s \<and> maxAge s' = maxAge s \<and> wocURL s' = wocURL s
    \<and> (r = Inr rawHex \<longrightarrow> tx_verified (ce_lib E) txid rawHex \<or> (\<exists>s0. wocURL s0 = wocURL s \<and> fetchRawTxFromWoC E s0 txid = Some rawHex))"
proof (cases "fromBlockCache s txid")
  case (Inr o1)
  show ?thesis
  proof (cases o1)
    case None
    obtain p s1 where p: "fromPeer E s txid = (p, s1)" by (metis surj_pair)
    note fp = fromPeer_verified [OF p]
    have ok1: "blocks_ok (ce_lib E) s1" using ok fp(3) by (simp add: blocks_ok_def)
    obtain q s2 where q: "fromBlock E s1 txid = (q, s2)" by (metis surj_pair)
    note fb = fromBlock_verified [OF ok1 q, where rawHex = rawHex]
    from r Inr None p q show ?thesis using ok1 fp(1,2,4) fp(5) [of rawHex] fb
      by (auto simp: contentRawTx_def split: sum.splits option.splits)
  qed (use r Inr ok fromBlockCache_verified [OF ok] in \<open>auto simp: contentRawTx_def\<close>)
qed (use r ok in \<open>auto simp: contentRawTx_def\<close>)

lemma evictOldest_subset: "set (evictOldest now c) \<subseteq> set c"
  by (auto simp: evictOldest_def Let_def AList.delete_eq)

lemma evictOldest_distinct: "distinct (map fst c) \<Longrightarrow> distinct (map fst (evictOldest now c))"
  by (simp add: evictOldest_def Let_def distinct_delete)

lemma oldestEntry_mem:
  "oldestEntry t k c = k \<or> oldestEntry t k c \<in> fst ` set c"
  by (induction t k c rule: oldestEntry.induct) auto

lemma oldestEntry_found:
  "(k, v) \<in> set c \<Longrightarrow> ins_FetchedAt v < t \<Longrightarrow> oldestEntry t k0 c \<in> fst ` set c"
proof (induction t k0 c rule: oldestEntry.induct)
  case (2 t k0 k' v' c)
  then show ?case using oldestEntry_mem [of "ins_FetchedAt v'" k' c] by auto
qed simp

lemma evictOldest_length:
  assumes "distinct (map fst c)" "length c \<le> 10001" "[] \<notin> fst ` set c"
    and "(k, v) \<in> set c" "ins_FetchedAt v < now"
  shows "length (evictOldest now c) \<le> 10000"
proof (cases "length c > 10000")
  case True
  let ?o = "oldestEntry now [] c"
  have o: "?o \<in> fst ` set c" using oldestEntry_found [OF assms(4,5)] .
  with assms(3) have "?o \<noteq> []" by metis
  moreover from o have "length (AList.delete ?o c) < length c"
    by (auto simp: AList.delete_eq intro!: length_filter_less)
  ultimately show ?thesis using assms(2) by (simp add: evictOldest_def Let_def)
qed (simp add: evictOldest_def)

text \<open>
  A run of the server: requests for content and block bootstraps in any order. \<open>W\<close> holds what the
  WhatsOnChain service answered in the course of the run, for any transaction id; time moves forward
  between the parsing of an inscription and the trimming of the cache.
\<close>

definition woc_answers :: "'tx content_env \<Rightarrow> string \<Rightarrow> (string \<Rightarrow> string \<Rightarrow> bool) \<Rightarrow> bool" where
  "woc_answers E url W \<longleftrightarrow> (\<forall>s txid rawHex. wocURL s = url \<longrightarrow> fetchRawTxFromWoC E s txid = Some rawHex \<longrightarrow> W txid rawHex)"

inductive content_run :: "'tx tx_lib \<Rightarrow> string \<Rightarrow> (string \<Rightarrow> string \<Rightarrow> bool) \<Rightarrow> 'tx content_server \<Rightarrow> bool"
  for lib url W where
  start: "(\<And>f. block = Src f \<Longrightarrow> f = NewBlockTxFetcher addrs) \<Longrightarrow> url \<noteq> [] \<Longrightarrow> content_run lib url W (NewContentServer url p2p block nc)"
| serve: "content_run lib url W s \<Longrightarrow> ce_lib E = lib \<Longrightarrow> woc_answers E url W \<Longrightarrow> now < now'
    \<Longrightarrow> content_run lib url W (snd (ServeContent E now now' s origin))"
| bootstrap: "content_run lib url W s \<Longrightarrow> ce_lib E = lib \<Longrightarrow> content_run lib url W (snd (BootstrapBlock E s blockHash))"

definition entry_ok :: "'tx tx_lib \<Rightarrow> (string \<Rightarrow> string \<Rightarrow> bool) \<Rightarrow> string \<Rightarrow> string \<Rightarrow> inscription \<Rightarrow> bool" where
  "entry_ok lib W txid vout insc \<longleftrightarrow> (\<exists>rawHex. parseInscription (ins_FetchedAt insc) rawHex vout = Inr insc
     \<and> (tx_verified lib txid rawHex \<or> W txid rawHex))"

definition key_ok :: "'tx tx_lib \<Rightarrow> (string \<Rightarrow> string \<Rightarrow> bool) \<Rightarrow> string \<Rightarrow> inscription \<Rightarrow> bool" where
  "key_ok lib W k insc \<longleftrightarrow> (\<exists>txid vout. k = txid @ ''_'' @ vout \<and> length txid = 64 \<and> entry_ok lib W txid vout insc)"

definition content_inv :: "'tx tx_lib \<Rightarrow> string \<Rightarrow> (string \<Rightarrow> string \<Rightarrow> bool) \<Rightarrow> 'tx content_server \<Rightarrow> bool" where
  "content_inv lib url W s \<longleftrightarrow> blocks_ok lib s \<and> wocURL s = url \<and> maxAge s = 86400000000000
     \<and> distinct (map fst (contentCache s)) \<and> length (contentCache s) \<le> 10000
     \<and> (\<forall>k insc. (k, insc) \<in> set (contentCache s) \<longrightarrow> key_ok lib W k insc)"

lemma parseInscription_time: "parseInscription now rawHex vout = Inr insc \<Longrightarrow> ins_FetchedAt insc = now"
  by (auto simp: parseInscription_def split: option.splits sum.splits)

lemma ServeContent_cases:
  assumes s: "ServeContent E now now' s origin = (rep, s')"
  obtains (error) "\<And>x. rep \<noteq> Reply 200 x" "s' = s \<or> (\<exists>txid r. contentRawTx E s txid = (r, s'))"
  | (hit) txid vout insc where "parseOrigin origin = (txid, vout)" "length txid = 64"
      "map_of (contentCache s) (txid @ ''_'' @ vout) = Some insc" "now - ins_FetchedAt insc < maxAge s"
      "rep = serveInscription insc" "s' = s"
  | (miss) txid vout rawHex insc s1 where "parseOrigin origin = (txid, vout)" "length txid = 64"
      "contentRawTx E s txid = (Inr rawHex, s1)" "parseInscription now rawHex vout = Inr insc"
      "rep = serveInscription insc"
      "s' = s1\<lparr>contentCache := evictOldest now' (AList.update (txid @ ''_'' @ vout) insc (contentCache s1))\<rparr>"
proof -
  obtain txid vout where o: "parseOrigin origin = (txid, vout)" by (metis surj_pair)
  consider "origin = [] \<or> length txid \<noteq> 64"
    | insc where "origin \<noteq> []" "length txid = 64" "map_of (contentCache s) (txid @ ''_'' @ vout) = Some insc" "now - ins_FetchedAt insc < maxAge s"
    | "origin \<noteq> []" "length txid = 64"
        "\<And>insc. map_of (contentCache s) (txid @ ''_'' @ vout) = Some insc \<Longrightarrow> \<not> now - ins_FetchedAt insc < maxAge s"
    by blast
  then show thesis
  proof cases
    case 1
    with s o show thesis by (intro error) (auto simp: ServeContent_def split: if_splits)
  next
    case (2 insc)
    with s o show thesis by (intro hit [of txid vout insc]) (auto simp: ServeContent_def)
  next
    case 3
    obtain r s1 where r: "contentRawTx E s txid = (r, s1)" by (metis surj_pair)
    have m: "serveMiss E now now' s txid vout = (rep, s')"
      using 3 o s by (cases "map_of (contentCache s) (txid @ ''_'' @ vout)") (simp_all add: ServeContent_def)
    show thesis
    proof (cases "\<exists>rawHex insc. r = Inr rawHex \<and> parseInscription now rawHex vout = Inr insc")
      case True
      then obtain rawHex insc where "r = Inr rawHex" "parseInscription now rawHex vout = Inr insc" by blast
      with m r o 3(2) show thesis by (intro miss [of txid vout rawHex s1 insc]) (auto simp: serveMiss_def)
    next
      case False
      have "(\<forall>x. rep \<noteq> Reply 200 x) \<and> s' = s1"
        using m r False by (auto simp: serveMiss_def split: sum.splits if_splits)
      with r show thesis by (intro error) auto
    qed
  qed
qed

lemma ServeContent_inv:
  assumes inv: "content_inv lib url W s" and E: "ce_lib E = lib" "woc_answers E url W" "now < now'"
    and s: "ServeContent E now now' s origin = (rep, s')"
  shows "content_inv lib url W s'"
  using s
proof (cases rule: ServeContent_cases)
  case error
  then show ?thesis using inv contentRawTx_sound [of E s] E(1) by (auto simp: content_inv_def)
next
  case (miss txid vout rawHex insc s1)
  let ?c = "AList.update (txid @ ''_'' @ vout) insc (contentCache s1)"
  have bs: "blocks_ok (ce_lib E) s" using inv E(1) by (simp add: content_inv_def)
  note rs = contentRawTx_sound [OF bs miss(3), where rawHex = rawHex]
  have src: "tx_verified lib txid rawHex \<or> W txid rawHex"
    using rs E inv unfolding woc_answers_def content_inv_def by metis
  have t: "ins_FetchedAt insc = now" using parseInscription_time [OF miss(4)] .
  have ok: "entry_ok lib W txid vout insc" using src miss(4) t by (auto simp: entry_ok_def)
  have d: "distinct (map fst ?c)" and l: "length ?c \<le> 10001"
    using rs inv length_alist_update [of "txid @ ''_'' @ vout" insc "contentCache s1"]
    by (auto simp: content_inv_def distinct_update)
  have all: "key_ok lib W k x" if "(k, x) \<in> set ?c" for k x
  proof (cases "(k, x) = (txid @ ''_'' @ vout, insc)")
    case True
    then show ?thesis using ok miss(2) by (auto simp: key_ok_def)
  next
    case False
    with that set_alist_update [of "txid @ ''_'' @ vout" insc "contentCache s1"] have "(k, x) \<in> set (contentCache s)"
      using rs by auto
    then show ?thesis using inv by (auto simp: content_inv_def)
  qed
  then have ne: "[] \<notin> fst ` set ?c" by (fastforce simp: key_ok_def)
  have "map_of ?c (txid @ ''_'' @ vout) = Some insc" by (simp add: update_conv')
  then have mem: "(txid @ ''_'' @ vout, insc) \<in> set ?c" by (rule map_of_SomeD)
  have "length (evictOldest now' ?c) \<le> 10000"
    using evictOldest_length [OF d l ne mem] t E(3) by simp
  moreover have "key_ok lib W k x" if "(k, x) \<in> set (evictOldest now' ?c)" for k x
    using all that evictOldest_subset [of now' ?c] by blast
  ultimately show ?thesis
    using rs inv E(1) miss(6) evictOldest_distinct [OF d] by (auto simp: content_inv_def blocks_ok_def)
qed (use inv in simp)

lemma BootstrapBlock_inv:
  assumes "content_inv lib url W s" "ce_lib E = lib"
  shows "content_inv lib url W (snd (BootstrapBlock E s b))"
proof -
  obtain r s1 where v: "fetchBlockVia E s dummyTxid b = (r, s1)" by (metis surj_pair)
  have "blocks_ok (ce_lib E) s" using assms by (simp add: content_inv_def)
  note ok = fetchBlockVia_ok(1-4) [OF this v]
  have "snd (BootstrapBlock E s b) = s \<or> snd (BootstrapBlock E s b) = s1"
    using v by (auto simp: BootstrapBlock_def split: iface.splits sum.splits p2p_err.splits)
  then show ?thesis using assms ok by (auto simp: content_inv_def)
qed

lemma content_run_inv: "content_run lib url W s \<Longrightarrow> content_inv lib url W s"
proof (induction rule: content_run.induct)
  case (start block addrs p2p nc)
  have "cache_ok lib (NewBlockTxFetcher addrs)" by (simp add: cache_ok_def NewBlockTxFetcher_def)
  with start show ?case by (auto simp: content_inv_def NewContentServer_def blocks_ok_def)
next
  case (serve s E now now' origin)
  then show ?case using ServeContent_inv by (metis prod.collapse)
qed (rule BootstrapBlock_inv)

text \<open>
  C13: content is what the requested output inscribes. In every run of the server, whatever is served
  for \<^verbatim>\<open>txid_vout\<close> was parsed from output \<^verbatim>\<open>vout\<close> of a transaction that hashes to \<^verbatim>\<open>txid\<close>, or of one that
  the WhatsOnChain service returned for that id; a cached answer is less than a day old, and the
  cache never holds more than ten thousand entries.
\<close>

theorem served_content_sound:
  assumes run: "content_run lib url W s" and E: "ce_lib E = lib" "woc_answers E url W" "now < now'"
    and s: "ServeContent E now now' s origin = (Reply 200 (ct, d), s')"
  shows "(\<exists>txid vout rawHex t ct'. parseOrigin origin = (txid, vout)
      \<and> parseInscription t rawHex vout = Inr \<lparr>ins_ContentType = ct', ins_Data = d, ins_FetchedAt = t\<rparr>
      \<and> (tx_verified lib txid rawHex \<or> W txid rawHex)
      \<and> now - t < 24 * 3600 * 1000000000 \<and> ct = (if ct' = [] then ''application/octet-stream'' else ct'))
    \<and> length (contentCache s') \<le> 10000"
proof -
  note inv = content_run_inv [OF run]
  have served: "\<exists>txid vout insc. parseOrigin origin = (txid, vout) \<and> entry_ok lib W txid vout insc
      \<and> now - ins_FetchedAt insc < 24 * 3600 * 1000000000 \<and> Reply 200 (ct, d) = serveInscription insc"
    using s
  proof (cases rule: ServeContent_cases)
    case (hit txid vout insc)
    then have "(txid @ ''_'' @ vout, insc) \<in> set (contentCache s)" by (auto dest: map_of_SomeD)
    then obtain txid' vout' where k: "txid @ ''_'' @ vout = txid' @ ''_'' @ vout'" "length txid' = 64" "entry_ok lib W txid' vout' insc"
      using inv unfolding content_inv_def key_ok_def by blast
    with hit(2) have "txid' = txid" "vout' = vout" by (metis append_eq_append_conv same_append_eq)+
    with k(3) hit inv show ?thesis by (auto simp: content_inv_def)
  next
    case (miss txid vout rawHex insc s1)
    have "blocks_ok (ce_lib E) s" using inv E(1) by (simp add: content_inv_def)
    from contentRawTx_sound [OF this miss(3), where rawHex = rawHex]
    have "tx_verified lib txid rawHex \<or> W txid rawHex"
      using E inv unfolding woc_answers_def content_inv_def by metis
    with miss parseInscription_time [OF miss(4)] show ?thesis by (auto simp: entry_ok_def)
  qed metis+
  moreover have "length (contentCache s') \<le> 10000"
    using ServeContent_inv [OF inv E s] by (simp add: content_inv_def)
  ultimately show ?thesis
  proof (intro conjI, goal_cases)
    case 1
    then obtain txid vout insc where i: "parseOrigin origin = (txid, vout)" "entry_ok lib W txid vout insc"
      "now - ins_FetchedAt insc < 24 * 3600 * 1000000000" "Reply 200 (ct, d) = serveInscription insc" by blast
    from i(2) obtain rawHex where "parseInscription (ins_FetchedAt insc) rawHex vout = Inr insc"
      "tx_verified lib txid rawHex \<or> W txid rawHex" by (auto simp: entry_ok_def)
    moreover obtain ct' d' t where "insc = \<lparr>ins_ContentType = ct', ins_Data = d', ins_FetchedAt = t\<rparr>" by (cases insc)
    ultimately have "parseInscription t rawHex vout = Inr \<lparr>ins_ContentType = ct', ins_Data = d, ins_FetchedAt = t\<rparr>"
      "tx_verified lib txid rawHex \<or> W txid rawHex" "now - t < 24 * 3600 * 1000000000"
      "ct = (if ct' = [] then ''application/octet-stream'' else ct')"
      using i by (simp_all add: serveInscription_def)
    with i(1) show ?case by blast
  qed
qed

definition demo_inscribed :: bytes where
  "demo_inscribed = ser_tx ''vvvv'' [] [(''12345678'', ordinal_script [] ''text/plain'' ''hi'' [])] ''llll''"

definition demo_content_env :: "nat content_env" where
  "demo_content_env = \<lparr>ce_lib = \<lparr>TxHash = (\<lambda>_. []), TxSerialize = (\<lambda>_. None), HashString = id, HashFromStr = Some\<rparr>,
     ce_dial = (\<lambda>_. Inl ''refused''), ce_get = (\<lambda>_. WocReply 200 (hex_encode demo_inscribed)),
     ce_status = (\<lambda>_. None), ce_targets = (\<lambda>_. None), ce_txBlock = (\<lambda>_. None), ce_txHex = (\<lambda>_. None), ce_headerLookup = None\<rparr>"

lemma demo_inscribed_parse:
  "parseInscription 5 (hex_encode demo_inscribed) ''0'' = Inr \<lparr>ins_ContentType = ''text/plain'', ins_Data = ''hi'', ins_FetchedAt = 5\<rparr>"
proof -
  let ?outs = "[(''12345678'', ordinal_script [] ''text/plain'' ''hi'' [])]"
  have wf: "wf_tx ''vvvv'' [] ?outs ''llll''"
    by (simp add: wf_tx_def ser_tx_def varint_def ordinal_script_def ordMarker_def push_enc_def)
  have "bytes_index ordMarker (ordinal_script [] ''text/plain'' ''hi'' []) = Some (length [])"
    by (simp add: bytes_index_here ordinal_script_def)
  from tryParseOrdinal_script [OF this] have "tryParseOrdinal (snd (?outs ! 0)) = Some (''text/plain'', ''hi'')" by simp
  moreover have "atoi ''0'' = Some 0" by (simp add: atoi_def dec_val_def)
  ultimately show ?thesis by (simp add: parseInscription_def demo_inscribed_def extractOutputScript_ser [OF wf])
qed

lemma trim_space_hex: "hex_decode s = Some b \<Longrightarrow> trim_space s = s"
proof -
  assume h: "hex_decode s = Some b"
  have "dropWhile (\<lambda>c. c \<in> {CHR '' '', CHR 0x09, CHR 0x0A, CHR 0x0B, CHR 0x0C, CHR 0x0D}) t = t" if "set t \<subseteq> set s" for t
  proof (cases t)
    case (Cons c cs)
    then have "unhex c \<noteq> None" using that hex_decode_chars [OF h] by (auto; fastforce)
    then show ?thesis using Cons by (auto simp: unhex_def)
  qed simp
  from this [of s] this [of "rev s"] show ?thesis by (simp add: trim_space_def Let_def)
qed

theorem served_content_sound_witness:
  "\<exists>s'. ServeContent demo_content_env 5 6 (NewContentServer ''u'' NilIface NilIface 0) (replicate 64 (CHR ''a'')) = (Reply 200 (''text/plain'', ''hi''), s')
     \<and> length (contentCache s') \<le> 10000"
proof -
  let ?W = "\<lambda>txid rawHex. rawHex = hex_encode demo_inscribed"
  have run: "content_run (ce_lib demo_content_env) ''u'' ?W (NewContentServer ''u'' NilIface NilIface 0)"
    by (rule content_run.start) auto
  have W: "woc_answers demo_content_env ''u'' ?W"
    by (auto simp: woc_answers_def fetchRawTxFromWoC_def demo_content_env_def trim_space_hex [OF hex_decode_encode])
  have origin: "parseOrigin (replicate 64 (CHR ''a'')) = (replicate 64 (CHR ''a''), ''0'')"
    by (simp add: parseOrigin_def split_n2_def)
  have raw: "contentRawTx demo_content_env (NewContentServer ''u'' NilIface NilIface 0) txid
      = (Inr (hex_encode demo_inscribed), NewContentServer ''u'' NilIface NilIface 0)" for txid
    by (simp add: NewContentServer_def contentRawTx_def fromBlockCache_def fromPeer_def
        fetchRawTxFromWoC_def demo_content_env_def trim_space_hex [OF hex_decode_encode])
  obtain s' where s': "ServeContent demo_content_env 5 6 (NewContentServer ''u'' NilIface NilIface 0) (replicate 64 (CHR ''a''))
      = (Reply 200 (''text/plain'', ''hi''), s')"
    by (simp add: ServeContent_def serveMiss_def origin raw demo_inscribed_parse serveInscription_def
        NewContentServer_def [THEN arg_cong [where f = contentCache]])
  then show ?thesis using served_content_sound [OF run refl W _ s'] by auto
qed

section \<open>Where the parser and the handlers fail\<close>

text \<open>
  The length check of \<^verbatim>\<open>extractOutputScript\<close> comes after the slice: ten bytes that announce an input make
  it panic. A script length above \<open>2 ^ 63\<close> turns negative: the loop over the inputs then stays where it
  is for as many rounds as the transaction announces inputs, up to \<open>2 ^ 63 - 1\<close>.
\<close>

lemma short_tx_panics: "extractOutputScript (''vvvv'' @ CHR 0x01 # ''aaaaa'') 0 = Inl PanicContent"
  by (simp add: extractOutputScript_def slice_from_def wrap64_def)

definition stalling_tx :: bytes where
  "stalling_tx = ''vvvv'' @ varint (2 ^ 63 - 1) @ replicate 36 (CHR ''p'') @ CHR 0xff # le_enc 8 (2 ^ 64 - 49)"

lemma inputs_without_progress: "skipInputs stalling_tx k i 13 = Inr 13"
proof (induction k arbitrary: i)
  case (Suc k)
  let ?pre = "''vvvv'' @ varint (2 ^ 63 - 1) @ replicate 36 (CHR ''p'')"
  have l: "int (length ?pre) = 49" by (simp add: varint_def)
  have "length stalling_tx = 58" by (simp add: stalling_tx_def varint_def)
  moreover have "slice_from stalling_tx 49 = Some (CHR 0xff # le_enc 8 (2 ^ 64 - 49))"
    using slice_from_append [of ?pre "CHR 0xff # le_enc 8 (2 ^ 64 - 49)"] l by (simp add: stalling_tx_def)
  moreover have "readVarInt (CHR 0xff # le_enc 8 (2 ^ 64 - 49)) = (2 ^ 64 - 49, 9)"
    using le_bytes_enc [of "2 ^ 64 - 49" 8] by (simp add: Let_def)
  moreover have "wrap64 (wrap64 (13 + 32) + 4) = 49" "wrap64 (wrap64 (wrap64 (49 + 9) + wrap64 (2 ^ 64 - 49)) + 4) = 13"
    by (simp_all add: wrap64_def)
  ultimately show ?case using Suc.IH [of "i + 1"] by (simp only: skipInputs.simps Let_def option.case prod.case) simp
qed simp

text \<open>
  A second bootstrap of the same block fails: the error of the block cache says \<^verbatim>\<open>not found in cached
  block\<close>, which does not contain the text the handler looks for.
\<close>

lemma bootstrap_again_fails:
  assumes "blockSource s = Src f" "map_of (blockCache f) b = Some m" "m dummyTxid = None" "length b = 64"
  shows "fst (BootstrapBlock E s b) = ReplyError 502 ''block fetch failed''"
  using assms by (simp add: BootstrapBlock_def fetchBlockVia_def FetchTxFromBlock_def)

text \<open>
  A nil fetcher inside the interface passes the test \<^verbatim>\<open>blockSource != nil\<close>; every request that is not
  answered from the cache then panics.
\<close>

lemma typed_nil_panics:
  assumes "blockSource s = TypedNil" "contentCache s = []" "origin \<noteq> []" "length (fst (parseOrigin origin)) = 64"
  shows "ServeContent E now now' s origin = (ReplyPanic, s)"
  using assms by (cases "parseOrigin origin") (simp add: ServeContent_def serveMiss_def contentRawTx_def fromBlockCache_def)

end
