(* ===== verification/Wallet.thy ===== *)
theory Wallet
  imports Gotext Spv
begin

text \<open>
  \<^verbatim>\<open>internal/wallet\<close>: the node wallet with its invoices and HTTP handlers (\<^verbatim>\<open>wallet.go\<close>), the scanner that
  imports payments found on chain (\<^verbatim>\<open>scanner.go\<close>) and the services the wallet toolbox calls back
  (\<^verbatim>\<open>services.go\<close>).

  The wallet itself is go-wallet-toolbox: the record \<open>toolbox\<close> of its operations on a state \<open>'w\<close>. Keys
  \<open>'k\<close> and addresses \<open>'a\<close>, scripts and the decoding of request bodies are the record \<open>wallet_env\<close>. Of the
  argument types of the toolbox only the fields that the program reads or sets are kept.
\<close>

section \<open>The toolbox\<close>

datatype 'k counterparty = Anyone | Other 'k

record 'k key_args =
  ka_Protocol :: string
  ka_KeyID :: string
  ka_Counterparty :: "'k counterparty"

record wallet_output =
  wo_Txid :: string
  wo_Index :: uint32
  wo_Satoshis :: "64 word"
  wo_LockingScript :: bytes
  wo_CustomInstructions :: string

record create_args =
  ca_Description :: string
  ca_InputBEEF :: bytes
  ca_Inputs :: "(string \<times> uint32 \<times> string \<times> uint32) list"
    \<comment> \<open>outpoint, description, unlocking script length\<close>
  ca_Outputs :: "(bytes \<times> 64 word \<times> string) list"
    \<comment> \<open>locking script, satoshis, description\<close>
  ca_Labels :: "string list"
  ca_TrustSelf :: "string option"

record create_result =
  cr_Txid :: string
  cr_Signable :: "(bytes \<times> bytes) option" \<comment> \<open>transaction as BEEF, and reference\<close>

record sign_args =
  sa_Reference :: bytes
  sa_Spends :: "(uint32 \<times> bytes) list"

record internalize_args =
  ia_Tx :: bytes
  ia_Description :: string

record ('w, 'k) toolbox =
  tb_GetPublicKey :: "'w \<Rightarrow> 'k key_args \<Rightarrow> string \<Rightarrow> string + 'k"
  tb_ListOutputs :: "'w \<Rightarrow> string \<Rightarrow> string \<Rightarrow> string + wallet_output list"
  tb_CreateAction :: "'w \<Rightarrow> create_args \<Rightarrow> string \<Rightarrow> (string + create_result) \<times> 'w"
  tb_SignAction :: "'w \<Rightarrow> sign_args \<Rightarrow> string \<Rightarrow> (string + string) \<times> 'w"
  tb_InternalizeAction :: "'w \<Rightarrow> internalize_args \<Rightarrow> string \<Rightarrow> (string + bool) \<times> 'w"

record ('k, 'a) wallet_env =
  we_invoiceReq :: "bytes \<Rightarrow> (string \<times> string) option" \<comment> \<open>counterparty, description\<close>
  we_sendReq :: "bytes \<Rightarrow> (string \<times> 64 word \<times> string) option"
  we_createReq :: "bytes \<Rightarrow> create_args option"
  we_signReq :: "bytes \<Rightarrow> sign_args option"
  we_scanReq :: "bytes \<Rightarrow> string option"
  we_internalizeReq :: "bytes \<Rightarrow> internalize_args option"
  we_pubKey :: "bytes \<Rightarrow> string + 'k" \<comment> \<open>\<^verbatim>\<open>ec.PublicKeyFromBytes\<close>\<close>
  we_compressed :: "'k \<Rightarrow> bytes"
  we_keyAddress :: "'k \<Rightarrow> string + 'a" \<comment> \<open>\<^verbatim>\<open>script.NewAddressFromPublicKey\<close>\<close>
  we_parseAddress :: "string \<Rightarrow> string + 'a" \<comment> \<open>\<^verbatim>\<open>script.NewAddressFromString\<close>\<close>
  we_addressString :: "'a \<Rightarrow> string"
  we_lock :: "'a \<Rightarrow> string + bytes" \<comment> \<open>\<^verbatim>\<open>p2pkh.Lock\<close>\<close>

section \<open>The scanner\<close>

record scannedUTXO =
  u_TxHash :: string
  u_TxPos :: uint32
  u_Value :: "64 word"
  u_Height :: int

record ScanDetail = \<comment> \<open>without the error text\<close>
  sd_TxID :: string
  sd_Vout :: uint32
  sd_Satoshis :: "64 word"
  sd_Status :: string

record ScanResult =
  sr_Address :: string
  sr_UTXOsFound :: int
  sr_Internalized :: int
  sr_AlreadyKnown :: int
  sr_Errors :: int
  sr_TotalSatoshis :: "64 word"
  sr_Details :: "ScanDetail list"

record 'p scan_lib =
  sl_fetch :: "'p fetch_lib"
  sl_unspent :: "bytes \<Rightarrow> (scannedUTXO list \<times> string) option" \<comment> \<open>the decoded \<^verbatim>\<open>wocUnspentResponse\<close>\<close>
  sl_unlock :: "string option" \<comment> \<open>the error of \<^verbatim>\<open>p2pkh.Unlock\<close>\<close>
  sl_sign :: "sdk_tx \<Rightarrow> nat \<Rightarrow> sdk_tx \<Rightarrow> string + bytes" \<comment> \<open>the unlocking script of the input\<close>

record 'k scanner =
  sc_identity :: 'k \<comment> \<open>the public key of the identity\<close>
  sc_arc :: "ARCClient option"

datatype sign_outcome = SignDone | SignFailed string | SignPanic

datatype scan_err = ErrScanAddress string | ErrUTXOs fetch_err | ErrWoCMessage string | ScanPanic

definition NewScanner :: "'k \<Rightarrow> ARCClient option \<Rightarrow> 'k scanner" where
  "NewScanner identityKey arc = \<lparr>sc_identity = identityKey, sc_arc = arc\<rparr>"

definition scanURL :: string where
  "scanURL = ''https://api.whatsonchain.com/v1/bsv/main''"

definition fetchUTXOs :: "'p scan_lib \<Rightarrow> string \<Rightarrow> scan_err + scannedUTXO list" where
  "fetchUTXOs L address =
     (case fl_get (sl_fetch L) (scanURL @ ''/address/'' @ address @ ''/unspent/all'') of
        GetFailed e \<Rightarrow> Inl (ErrUTXOs (ErrHTTP e))
      | GetReadFailed e \<Rightarrow> Inl (ErrUTXOs (ErrRead e))
      | GetReply status body \<Rightarrow>
         (if status \<noteq> 200 then Inl (ErrUTXOs (ErrWoC status))
          else case sl_unspent L (take 1048576 body) of
            None \<Rightarrow> Inl (ErrUTXOs ErrInfo)
          | Some (us, err) \<Rightarrow> if err \<noteq> [] then Inl (ErrWoCMessage err) else Inr us))"


definition scanRawTx :: "'p scan_lib \<Rightarrow> string \<Rightarrow> fetch_err + string" where
  "scanRawTx L txid =
     (case fl_get (sl_fetch L) (scanURL @ ''/tx/'' @ txid @ ''/hex'') of
        GetFailed e \<Rightarrow> Inl (ErrHTTP e)
      | GetReadFailed e \<Rightarrow> Inl (ErrRead e)
      | GetReply status body \<Rightarrow>
         (if status \<noteq> 200 then Inl (ErrWoC status) else Inr (take (10 * 1048576) body)))"

function reverseLoop :: "int \<Rightarrow> int \<Rightarrow> bytes \<Rightarrow> bytes" where
  "reverseLoop i j b =
     (if i < j then reverseLoop (i + 1) (j - 1) (b[nat i := b ! nat j, nat j := b ! nat i]) else b)"
  by pat_completeness auto

termination
  by (relation "measure (\<lambda>(i, j, b). nat (j - i))") auto

declare reverseLoop.simps [simp del]

definition reverseBytes :: "bytes \<Rightarrow> bytes" where
  \<comment> \<open>in place, from both ends\<close>
  "reverseBytes b = reverseLoop 0 (int (length b) - 1) b"

definition scanNodeToElement :: "string \<Rightarrow> 64 word \<Rightarrow> path_element" where
  "scanNodeToElement node offset =
     (if node = ''*'' then \<lparr>pe_Offset = offset, pe_Hash = None, pe_Txid = False, pe_Duplicate = True\<rparr>
      else \<lparr>pe_Offset = offset, pe_Hash = newHash (reverseBytes (hex_prefix node)), pe_Txid = False, pe_Duplicate = False\<rparr>)"

function scanLevels :: "bytes option \<Rightarrow> string list \<Rightarrow> nat \<Rightarrow> 64 word \<Rightarrow> path_element list list \<Rightarrow> path_element list list" where
  \<comment> \<open>the loop over the levels; the last argument is \<^verbatim>\<open>path\<close>\<close>
  "scanLevels txidHash nodes level offset path =
     (if level < length nodes then
        (let sibOffset = xor offset 1;
             leaf = \<lparr>pe_Offset = offset, pe_Hash = txidHash, pe_Txid = True, pe_Duplicate = False\<rparr>;
             elements = (if level = 0 then
                 (if offset < sibOffset then [leaf, scanNodeToElement (nodes ! 0) sibOffset]
                  else [scanNodeToElement (nodes ! 0) sibOffset, leaf])
               else [scanNodeToElement (nodes ! level) sibOffset])
         in scanLevels txidHash nodes (level + 1) (offset div 2) (path[level := elements]))
      else path)"
  by pat_completeness auto

termination
  by (relation "measure (\<lambda>(t, ns, level, off, p). length ns - level)") auto

declare scanLevels.simps [simp del]

definition scanPath :: "bytes option \<Rightarrow> 64 word \<Rightarrow> string list \<Rightarrow> path_element list list" where
  "scanPath txidHash index nodes = scanLevels txidHash nodes 0 index (replicate (length nodes) [])"

definition scanMerkleProofFromWoC :: "'p scan_lib \<Rightarrow> string \<Rightarrow> uint32 \<Rightarrow> fetch_err + string" where
  "scanMerkleProofFromWoC L txid blockHeight =
     (case fl_get (sl_fetch L) (scanURL @ ''/tx/'' @ txid @ ''/proof/tsc'') of
        GetFailed e \<Rightarrow> Inl (ErrHTTP e)
      | GetReadFailed e \<Rightarrow> Inl (ErrRead e)
      | GetReply status body \<Rightarrow>
         (if status \<noteq> 200 then Inl (ErrWoC status)
          else case fl_tsc (sl_fetch L) (take 1048576 body) of
            None \<Rightarrow> Inl ErrTSC
          | Some [] \<Rightarrow> Inl ErrNoTSC
          | Some (p # _) \<Rightarrow>
             Inr (hex_encode (fl_pathBytes (sl_fetch L) blockHeight
               (scanPath (fl_hashFromHex (sl_fetch L) (tsc_TxOrID p)) (tsc_Index p) (tsc_Nodes p))))))"

definition scanMerkleProof :: "'p scan_lib \<Rightarrow> 'k scanner \<Rightarrow> string \<Rightarrow> uint32 \<Rightarrow> fetch_err + string" where
  "scanMerkleProof L s txid blockHeight =
     (case (case sc_arc s of None \<Rightarrow> None | Some c \<Rightarrow>
              (case QueryStatus (fl_arc (sl_fetch L)) c txid of
                 Inr resp \<Rightarrow> if arc_MerklePath resp \<noteq> [] then Some (arc_MerklePath resp) else None
               | Inl _ \<Rightarrow> None)) of
        Some p \<Rightarrow> Inr p
      | None \<Rightarrow> scanMerkleProofFromWoC L txid blockHeight)"

definition buildBEEFFromTx :: "'p scan_lib \<Rightarrow> sdk_tx \<Rightarrow> string \<Rightarrow> fetch_err + bytes" where
  "buildBEEFFromTx L tx merklePathHex =
     (case fl_pathFromHex (sl_fetch L) merklePathHex of
        Inl e \<Rightarrow> Inl (ErrPath e)
      | Inr mp \<Rightarrow> (case fl_beefFromTx (sl_fetch L) tx mp of Inl e \<Rightarrow> Inl (ErrBuild e) | Inr b \<Rightarrow> Inr b))"

definition buildKnownSet :: "('w, 'k) toolbox \<Rightarrow> 'w \<Rightarrow> string set" where
  "buildKnownSet T w =
     (case tb_ListOutputs T w ''default'' ''anvil-scanner'' of
        Inl _ \<Rightarrow> {}
      | Inr outs \<Rightarrow> set (map (\<lambda>out. wo_Txid out @ '':'' @ itoa (uint (wo_Index out))) outs))"

definition findInput :: "string \<Rightarrow> uint32 \<Rightarrow> sdk_input list \<Rightarrow> nat option" where
  \<comment> \<open>the first input that spends the outpoint\<close>
  "findInput txid pos ins =
     (let k = length (takeWhile (\<lambda>i. \<not> (in_txid i = txid \<and> in_vout i = pos)) ins)
      in if k < length ins then Some k else None)"

definition signAndComplete :: "'p scan_lib \<Rightarrow> ('w, 'k) toolbox \<Rightarrow> 'w \<Rightarrow> bytes \<times> bytes \<Rightarrow> sdk_tx \<Rightarrow> scannedUTXO
    \<Rightarrow> sign_outcome \<times> 'w" where
  "signAndComplete L T w st parsedTx utxo =
     (case parse_beef (fl_codec (sl_fetch L)) (fst st) of
        Inl e \<Rightarrow> (SignFailed (''parse signable tx from BEEF: '' @ e), w)
      | Inr stTx \<Rightarrow>
         (case findInput (tx_id parsedTx) (u_TxPos utxo) (tx_ins stTx) of
            None \<Rightarrow> (SignFailed ''could not find outpoint in signable transaction inputs'', w)
          | Some inputIndex \<Rightarrow>
             (if unat (u_TxPos utxo) \<ge> length (tx_outs parsedTx) then (SignPanic, w)
              else case sl_unlock L of
                Some e \<Rightarrow> (SignFailed (''create unlock template: '' @ e), w)
              | None \<Rightarrow>
                 (case sl_sign L stTx inputIndex parsedTx of
                    Inl e \<Rightarrow> (SignFailed (''sign: '' @ e), w)
                  | Inr unlockScript \<Rightarrow>
                     (case tb_SignAction T w \<lparr>sa_Reference = snd st, sa_Spends = [(word_of_nat inputIndex, unlockScript)]\<rparr> ''anvil-scanner'' of
                        (Inl e, w') \<Rightarrow> (SignFailed (''sign action: '' @ e), w')
                      | (Inr _, w') \<Rightarrow> (SignDone, w'))))))"


definition scanDetail :: "scannedUTXO \<Rightarrow> string \<Rightarrow> ScanDetail" where
  "scanDetail u status = \<lparr>sd_TxID = u_TxHash u, sd_Vout = u_TxPos u, sd_Satoshis = u_Value u, sd_Status = status\<rparr>"

definition scanFailed :: "scannedUTXO \<Rightarrow> ScanResult \<Rightarrow> ScanResult" where
  "scanFailed u r = r\<lparr>sr_Errors := sr_Errors r + 1, sr_Details := sr_Details r @ [scanDetail u ''error'']\<rparr>"

definition scanImported :: "scannedUTXO \<Rightarrow> ScanResult \<Rightarrow> ScanResult" where
  "scanImported u r = r\<lparr>sr_Internalized := sr_Internalized r + 1, sr_TotalSatoshis := sr_TotalSatoshis r + u_Value u,
     sr_Details := sr_Details r @ [scanDetail u ''internalized'']\<rparr>"

definition importUTXO :: "'p scan_lib \<Rightarrow> ('w, 'k) toolbox \<Rightarrow> scannedUTXO \<Rightarrow> sdk_tx \<Rightarrow> bytes \<Rightarrow> ScanResult \<Rightarrow> 'w
    \<Rightarrow> (scan_err + ScanResult) \<times> 'w" where
  \<comment> \<open>\<^verbatim>\<open>CreateAction\<close> and \<^verbatim>\<open>SignAction\<close> for a transaction whose BEEF is built\<close>
  "importUTXO L T u parsedTx beefBytes r w =
     (case slice (u_TxHash u) 0 16 of
        None \<Rightarrow> (Inl ScanPanic, w)
      | Some short \<Rightarrow>
         (case tb_CreateAction T w
             \<lparr>ca_Description = ''Import P2PKH UTXO '' @ short @ '':'' @ itoa (uint (u_TxPos u)), ca_InputBEEF = beefBytes,
              ca_Inputs = [(tx_id parsedTx, u_TxPos u, ''fund wallet from P2PKH'', 108)], ca_Outputs = [],
              ca_Labels = [''p2pkh-funding''], ca_TrustSelf = Some ''known''\<rparr> ''anvil-scanner'' of
            (Inl e, w') \<Rightarrow> (Inr (scanFailed u r), w')
          | (Inr car, w') \<Rightarrow>
             (case cr_Signable car of
                None \<Rightarrow> (Inr (scanImported u r), w')
              | Some st \<Rightarrow>
                 (case signAndComplete L T w' st parsedTx u of
                    (SignPanic, w'') \<Rightarrow> (Inl ScanPanic, w'')
                  | (SignFailed e, w'') \<Rightarrow> (Inr (scanFailed u r), w'')
                  | (SignDone, w'') \<Rightarrow> (Inr (scanImported u r), w'')))))"

definition prepareUTXO :: "'p scan_lib \<Rightarrow> 'k scanner \<Rightarrow> scannedUTXO \<Rightarrow> (sdk_tx \<times> bytes) option" where
  \<comment> \<open>raw transaction, merkle proof and BEEF; \<^term>\<open>None\<close> when one of the steps reports an error\<close>
  "prepareUTXO L s u =
     (case scanRawTx L (u_TxHash u) of
        Inl e \<Rightarrow> None
      | Inr rawTxHex \<Rightarrow>
         (case hex_decode rawTxHex of
            None \<Rightarrow> None
          | Some txBytesRaw \<Rightarrow>
             (case parse_tx (fl_codec (sl_fetch L)) txBytesRaw of
                Inl e \<Rightarrow> None
              | Inr parsedTx \<Rightarrow>
                 (case scanMerkleProof L s (u_TxHash u) (of_int (u_Height u)) of
                    Inl e \<Rightarrow> None
                  | Inr merkleHex \<Rightarrow>
                     (case buildBEEFFromTx L parsedTx merkleHex of
                        Inl e \<Rightarrow> None
                      | Inr beefBytes \<Rightarrow> Some (parsedTx, beefBytes))))))"

definition scanUTXO :: "'p scan_lib \<Rightarrow> ('w, 'k) toolbox \<Rightarrow> 'k scanner \<Rightarrow> string set \<Rightarrow> scannedUTXO \<Rightarrow> ScanResult \<Rightarrow> 'w
    \<Rightarrow> (scan_err + ScanResult) \<times> 'w" where
  "scanUTXO L T s knownSet u r w =
     (if u_TxHash u @ '':'' @ itoa (uint (u_TxPos u)) \<in> knownSet then
        (Inr (r\<lparr>sr_AlreadyKnown := sr_AlreadyKnown r + 1, sr_Details := sr_Details r @ [scanDetail u ''already_known'']\<rparr>), w)
      else if u_Height u \<le> 0 then (Inr (r\<lparr>sr_Details := sr_Details r @ [scanDetail u ''skipped'']\<rparr>), w)
      else case prepareUTXO L s u of
        None \<Rightarrow> (Inr (scanFailed u r), w)
      | Some (parsedTx, beefBytes) \<Rightarrow> importUTXO L T u parsedTx beefBytes r w)"

fun scanLoop :: "'p scan_lib \<Rightarrow> ('w, 'k) toolbox \<Rightarrow> 'k scanner \<Rightarrow> string set \<Rightarrow> scannedUTXO list \<Rightarrow> ScanResult \<Rightarrow> 'w
    \<Rightarrow> (scan_err + ScanResult) \<times> 'w" where
  "scanLoop L T s knownSet [] r w = (Inr r, w)"
| "scanLoop L T s knownSet (u # us) r w =
     (case scanUTXO L T s knownSet u r w of
        (Inl e, w') \<Rightarrow> (Inl e, w')
      | (Inr r', w') \<Rightarrow> scanLoop L T s knownSet us r' w')"

definition ScanAddress :: "'p scan_lib \<Rightarrow> ('w, 'k) toolbox \<Rightarrow> 'k scanner \<Rightarrow> string \<Rightarrow> 'w \<Rightarrow> (scan_err + ScanResult) \<times> 'w" where
  "ScanAddress L T s address w =
     (case fetchUTXOs L address of
        Inl e \<Rightarrow> (Inl e, w)
      | Inr utxos \<Rightarrow>
         (let result = \<lparr>sr_Address = address, sr_UTXOsFound = int (length utxos), sr_Internalized = 0, sr_AlreadyKnown = 0,
              sr_Errors = 0, sr_TotalSatoshis = 0, sr_Details = []\<rparr>
          in if utxos = [] then (Inr result, w) else scanLoop L T s (buildKnownSet T w) utxos result w))"

definition Scan :: "'p scan_lib \<Rightarrow> ('k, 'a) wallet_env \<Rightarrow> ('w, 'k) toolbox \<Rightarrow> 'k scanner \<Rightarrow> 'w \<Rightarrow> (scan_err + ScanResult) \<times> 'w" where
  "Scan L E T s w =
     (case we_keyAddress E (sc_identity s) of
        Inl e \<Rightarrow> (Inl (ErrScanAddress e), w)
      | Inr addr \<Rightarrow> ScanAddress L T s (we_addressString E addr) w)"


section \<open>Invoices\<close>

record Invoice =
  iv_ID :: string
  iv_Address :: string
  iv_PublicKey :: string
  iv_Description :: string
  iv_Counterparty :: string
  iv_Protocol :: string
  iv_KeyID :: string

record ('w, 'db, 'k) NodeWallet =
  nw_inner :: 'w
  nw_validator :: ValidationStats
  nw_scanner :: "'k scanner option"
  invoiceDB :: 'db
  nw_nextID :: int

datatype wallet_err = ErrStorage string | ErrWIF string | ErrMigrate string | ErrWallet string | ErrInvoiceStore string

fun recoverLoop :: "int \<Rightarrow> bytes list \<Rightarrow> int" where
  "recoverLoop maxID [] = maxID"
| "recoverLoop maxID (k # ks) =
     recoverLoop (case atoi k of None \<Rightarrow> maxID | Some i \<Rightarrow> if i > maxID then i else maxID) ks"

definition recoverID :: "('db, Invoice json) leveldb_ops \<Rightarrow> 'db \<Rightarrow> int" where
  "recoverID ops db = recoverLoop 0 (map fst (fst (db_iter ops db [])))"

definition NewWallet :: "('db, Invoice json) leveldb_ops \<Rightarrow> string option \<Rightarrow> string + 'k \<Rightarrow> string option \<Rightarrow> string + 'w
    \<Rightarrow> string + 'db \<Rightarrow> ARCClient option \<Rightarrow> wallet_err + ('w, 'db, 'k) NodeWallet" where
  \<comment> \<open>the outcomes of opening the storage, parsing the WIF, migrating, creating the toolbox wallet
     and opening the invoice store, in this order\<close>
  "NewWallet ops storage wif migrate tb db arc =
     (case storage of Some e \<Rightarrow> Inl (ErrStorage e) | None \<Rightarrow>
      case wif of Inl e \<Rightarrow> Inl (ErrWIF e) | Inr identityKey \<Rightarrow>
      case migrate of Some e \<Rightarrow> Inl (ErrMigrate e) | None \<Rightarrow>
      case tb of Inl e \<Rightarrow> Inl (ErrWallet e) | Inr w \<Rightarrow>
      case db of Inl e \<Rightarrow> Inl (ErrInvoiceStore e) | Inr d \<Rightarrow>
      Inr \<lparr>nw_inner = w, nw_validator = NewValidator,
           nw_scanner = (case arc of None \<Rightarrow> None | Some c \<Rightarrow> Some (NewScanner identityKey (Some c))),
           invoiceDB = d, nw_nextID = recoverID ops d\<rparr>)"

definition saveInvoice :: "('db, Invoice json) leveldb_ops \<Rightarrow> 'db \<Rightarrow> Invoice \<Rightarrow> dberr + 'db" where
  "saveInvoice ops db iv = db_put ops db (iv_ID iv) (Json iv)"

definition loadInvoice :: "('db, Invoice json) leveldb_ops \<Rightarrow> 'db \<Rightarrow> string \<Rightarrow> Invoice option" where
  "loadInvoice ops db i = (case db_get ops db i of Inl _ \<Rightarrow> None | Inr v \<Rightarrow> unjson v)"

definition readCounterparty :: "('k, 'a) wallet_env \<Rightarrow> string \<Rightarrow> string + 'k counterparty" where
  "readCounterparty E s =
     (if s = [] then Inr Anyone
      else case hex_decode s of
        None \<Rightarrow> Inl ''counterparty must be 33-byte compressed pubkey hex''
      | Some cpBytes \<Rightarrow>
         (if length cpBytes \<noteq> 33 then Inl ''counterparty must be 33-byte compressed pubkey hex''
          else case we_pubKey E cpBytes of
            Inl e \<Rightarrow> Inl (''invalid counterparty pubkey: '' @ e)
          | Inr k \<Rightarrow> Inr (Other k)))"

definition allocInvoice :: "('w, 'db, 'k) NodeWallet \<Rightarrow> string \<times> ('w, 'db, 'k) NodeWallet" where
  \<comment> \<open>the critical section of \<^verbatim>\<open>handleInvoice\<close>\<close>
  "allocInvoice nw = (let n = wrap64 (nw_nextID nw + 1) in (itoa n, nw\<lparr>nw_nextID := n\<rparr>))"

definition makeInvoice :: "('k, 'a) wallet_env \<Rightarrow> string \<Rightarrow> string \<times> string \<Rightarrow> 'k \<Rightarrow> 'a \<Rightarrow> Invoice" where
  "makeInvoice E invoiceID req key addr =
     \<lparr>iv_ID = invoiceID, iv_Address = we_addressString E addr, iv_PublicKey = hex_encode (we_compressed E key),
      iv_Description = snd req, iv_Counterparty = fst req, iv_Protocol = ''invoice payment'', iv_KeyID = invoiceID\<rparr>"

definition finishInvoice :: "('k, 'a) wallet_env \<Rightarrow> ('w, 'k) toolbox \<Rightarrow> ('db, Invoice json) leveldb_ops \<Rightarrow> string
    \<Rightarrow> 'k counterparty \<Rightarrow> string \<times> string \<Rightarrow> ('w, 'db, 'k) NodeWallet \<Rightarrow> Invoice reply \<times> ('w, 'db, 'k) NodeWallet" where
  \<comment> \<open>after the critical section; of the invoice the answer shows id, address, key and description\<close>
  "finishInvoice E T ops invoiceID cp req nw =
     (case tb_GetPublicKey T (nw_inner nw) \<lparr>ka_Protocol = ''invoice payment'', ka_KeyID = invoiceID, ka_Counterparty = cp\<rparr> ''anvil'' of
        Inl e \<Rightarrow> (ReplyError 500 (''derive key: '' @ e), nw)
      | Inr key \<Rightarrow>
         (case we_keyAddress E key of
            Inl e \<Rightarrow> (ReplyError 500 (''generate address: '' @ e), nw)
          | Inr addr \<Rightarrow>
             (let iv = makeInvoice E invoiceID req key addr
              in case saveInvoice ops (invoiceDB nw) iv of
                   Inl e \<Rightarrow> (ReplyError 500 ''persist invoice'', nw)
                 | Inr db \<Rightarrow> (Reply 200 iv, nw\<lparr>invoiceDB := db\<rparr>))))"

definition handleInvoice :: "('k, 'a) wallet_env \<Rightarrow> ('w, 'k) toolbox \<Rightarrow> ('db, Invoice json) leveldb_ops \<Rightarrow> bytes
    \<Rightarrow> ('w, 'db, 'k) NodeWallet \<Rightarrow> Invoice reply \<times> ('w, 'db, 'k) NodeWallet" where
  "handleInvoice E T ops body nw =
     (case we_invoiceReq E (limit_reader 1048576 body) of
        None \<Rightarrow> (ReplyError 400 ''invalid JSON'', nw)
      | Some req \<Rightarrow>
         (case readCounterparty E (fst req) of
            Inl e \<Rightarrow> (ReplyError 400 e, nw)
          | Inr cp \<Rightarrow> (case allocInvoice nw of (invoiceID, nw1) \<Rightarrow> finishInvoice E T ops invoiceID cp req nw1)))"

definition expectedScript :: "('k, 'a) wallet_env \<Rightarrow> string \<Rightarrow> bytes option" where
  "expectedScript E pub =
     (if pub = [] then None
      else case hex_decode pub of None \<Rightarrow> None | Some pkBytes \<Rightarrow>
       (case we_pubKey E pkBytes of Inl _ \<Rightarrow> None | Inr pk \<Rightarrow>
         (case we_keyAddress E pk of Inl _ \<Rightarrow> None | Inr addr \<Rightarrow>
           (case we_lock E addr of Inl _ \<Rightarrow> None | Inr ls \<Rightarrow> Some ls))))"

record invoice_status =
  is_Invoice :: Invoice
  is_Paid :: "(string \<times> 64 word) option" \<comment> \<open>txid and amount\<close>

definition handleGetInvoice :: "('k, 'a) wallet_env \<Rightarrow> ('w, 'k) toolbox \<Rightarrow> ('db, Invoice json) leveldb_ops
    \<Rightarrow> ('w, 'db, 'k) NodeWallet \<Rightarrow> string \<Rightarrow> invoice_status reply" where
  "handleGetInvoice E T ops nw i =
     (if i = [] then ReplyError 400 ''invoice id required''
      else case loadInvoice ops (invoiceDB nw) i of
        None \<Rightarrow> ReplyError 404 ''invoice not found''
      | Some iv \<Rightarrow>
         (case tb_ListOutputs T (nw_inner nw) ''default'' ''anvil'' of
            Inl e \<Rightarrow> ReplyError 500 (''list outputs: '' @ e)
          | Inr outs \<Rightarrow>
             (let script = expectedScript E (iv_PublicKey iv);
                  hit = find (\<lambda>out. script = Some (wo_LockingScript out) \<or> wo_CustomInstructions out = iv_Address iv) outs
              in Reply 200 \<lparr>is_Invoice = iv, is_Paid = map_option (\<lambda>out. (wo_Txid out, wo_Satoshis out)) hit\<rparr>)))"

section \<open>The other handlers\<close>

definition handleListOutputs :: "('w, 'k) toolbox \<Rightarrow> ('w, 'db, 'k) NodeWallet \<Rightarrow> http_request \<Rightarrow> wallet_output list reply" where
  "handleListOutputs T nw r =
     (case tb_ListOutputs T (nw_inner nw) (query_get (RawQuery r) ''basket'') ''anvil'' of
        Inl e \<Rightarrow> ReplyError 500 e
      | Inr outs \<Rightarrow> Reply 200 outs)"

definition handleSend :: "('k, 'a) wallet_env \<Rightarrow> ('w, 'k) toolbox \<Rightarrow> bytes \<Rightarrow> ('w, 'db, 'k) NodeWallet
    \<Rightarrow> (string \<times> 64 word \<times> string) reply \<times> ('w, 'db, 'k) NodeWallet" where
  "handleSend E T body nw =
     (case we_sendReq E (limit_reader 1048576 body) of
        None \<Rightarrow> (ReplyError 400 ''invalid JSON'', nw)
      | Some (dest, sats, desc) \<Rightarrow>
         (if dest = [] \<or> sats = 0 then (ReplyError 400 ''to and satoshis required'', nw)
          else case we_parseAddress E dest of
            Inl e \<Rightarrow> (ReplyError 400 (''invalid address: '' @ e), nw)
          | Inr addr \<Rightarrow>
             (case we_lock E addr of
                Inl e \<Rightarrow> (ReplyError 500 (''build script: '' @ e), nw)
              | Inr lockingScript \<Rightarrow>
                 (case tb_CreateAction T (nw_inner nw)
                     \<lparr>ca_Description = desc, ca_InputBEEF = [], ca_Inputs = [], ca_Outputs = [(lockingScript, sats, desc)],
                      ca_Labels = [], ca_TrustSelf = None\<rparr> ''anvil'' of
                    (Inl e, w) \<Rightarrow> (ReplyError 500 (''create action: '' @ e), nw\<lparr>nw_inner := w\<rparr>)
                  | (Inr car, w) \<Rightarrow>
                     (case cr_Signable car of
                        None \<Rightarrow> (Reply 200 (cr_Txid car, sats, dest), nw\<lparr>nw_inner := w\<rparr>)
                      | Some st \<Rightarrow>
                         (case tb_SignAction T w \<lparr>sa_Reference = snd st, sa_Spends = []\<rparr> ''anvil'' of
                            (Inl e, w') \<Rightarrow> (ReplyError 500 (''sign action: '' @ e), nw\<lparr>nw_inner := w'\<rparr>)
                          | (Inr txid, w') \<Rightarrow> (Reply 200 (txid, sats, dest), nw\<lparr>nw_inner := w'\<rparr>)))))))"

definition handleCreateAction :: "('k, 'a) wallet_env \<Rightarrow> ('w, 'k) toolbox \<Rightarrow> bytes \<Rightarrow> ('w, 'db, 'k) NodeWallet
    \<Rightarrow> create_result reply \<times> ('w, 'db, 'k) NodeWallet" where
  "handleCreateAction E T body nw =
     (case we_createReq E (limit_reader 1048576 body) of
        None \<Rightarrow> (ReplyError 400 ''invalid JSON'', nw)
      | Some args \<Rightarrow>
         (case tb_CreateAction T (nw_inner nw) args ''anvil'' of
            (Inl e, w) \<Rightarrow> (ReplyError 500 e, nw\<lparr>nw_inner := w\<rparr>)
          | (Inr res, w) \<Rightarrow> (Reply 200 res, nw\<lparr>nw_inner := w\<rparr>)))"

definition handleSignAction :: "('k, 'a) wallet_env \<Rightarrow> ('w, 'k) toolbox \<Rightarrow> bytes \<Rightarrow> ('w, 'db, 'k) NodeWallet
    \<Rightarrow> string reply \<times> ('w, 'db, 'k) NodeWallet" where
  "handleSignAction E T body nw =
     (case we_signReq E (limit_reader 1048576 body) of
        None \<Rightarrow> (ReplyError 400 ''invalid JSON'', nw)
      | Some args \<Rightarrow>
         (case tb_SignAction T (nw_inner nw) args ''anvil'' of
            (Inl e, w) \<Rightarrow> (ReplyError 500 e, nw\<lparr>nw_inner := w\<rparr>)
          | (Inr res, w) \<Rightarrow> (Reply 200 res, nw\<lparr>nw_inner := w\<rparr>)))"

definition handleScan :: "'p scan_lib \<Rightarrow> ('k, 'a) wallet_env \<Rightarrow> ('w, 'k) toolbox \<Rightarrow> bytes \<Rightarrow> ('w, 'db, 'k) NodeWallet
    \<Rightarrow> ScanResult reply \<times> ('w, 'db, 'k) NodeWallet" where
  "handleScan L E T body nw =
     (case nw_scanner nw of
        None \<Rightarrow> (ReplyError 503 ''scanner not available'', nw)
      | Some s \<Rightarrow>
         (let b = limit_reader 1048576 body;
              scanAddr = (if b = [] then [] else case we_scanReq E b of None \<Rightarrow> [] | Some a \<Rightarrow> a)
          in case (if scanAddr \<noteq> [] then ScanAddress L T s scanAddr (nw_inner nw) else Scan L E T s (nw_inner nw)) of
               (Inl ScanPanic, w) \<Rightarrow> (ReplyPanic, nw\<lparr>nw_inner := w\<rparr>)
             | (Inl _, w) \<Rightarrow> (ReplyError 500 ''scan failed'', nw\<lparr>nw_inner := w\<rparr>)
             | (Inr result, w) \<Rightarrow> (Reply 200 result, nw\<lparr>nw_inner := w\<rparr>)))"

definition handleInternalize :: "beef_lib \<Rightarrow> tracker \<Rightarrow> int \<Rightarrow> ('k, 'a) wallet_env \<Rightarrow> ('w, 'k) toolbox \<Rightarrow> bytes
    \<Rightarrow> ('w, 'db, 'k) NodeWallet \<Rightarrow> bool reply \<times> ('w, 'db, 'k) NodeWallet" where
  "handleInternalize bl tr now E T body nw =
     (case we_internalizeReq E (limit_reader 10485760 body) of
        None \<Rightarrow> (ReplyError 400 ''invalid JSON'', nw)
      | Some args \<Rightarrow>
         (case (if ia_Tx args \<noteq> [] then
                  (case ValidateBEEF bl tr now (nw_validator nw) (ia_Tx args) of
                     (res, st) \<Rightarrow> (rs_Confidence res = ConfidenceInvalid, nw\<lparr>nw_validator := st\<rparr>))
                else (False, nw)) of
            (True, nw1) \<Rightarrow> (ReplyError 422 ''BEEF failed SPV validation'', nw1)
          | (False, nw1) \<Rightarrow>
             (case tb_InternalizeAction T (nw_inner nw1) args ''anvil'' of
                (Inl e, w) \<Rightarrow> (ReplyError 500 e, nw1\<lparr>nw_inner := w\<rparr>)
              | (Inr acc, w) \<Rightarrow> (Reply 200 acc, nw1\<lparr>nw_inner := w\<rparr>))))"


section \<open>The services of the toolbox\<close>

record 'db AnvilServices =
  as_headerStore :: "'db header_store"
  as_proofDB :: 'db
  as_broadcaster :: "Broadcaster option"

definition NewAnvilServices :: "'db header_store \<Rightarrow> 'db \<Rightarrow> Broadcaster option \<Rightarrow> 'db AnvilServices" where
  "NewAnvilServices hs proofs b = \<lparr>as_headerStore = hs, as_proofDB = proofs, as_broadcaster = b\<rparr>"

definition ServicesIsValidRoot :: "('db, bytes) leveldb_ops \<Rightarrow> 'db AnvilServices \<Rightarrow> tracker" where
  "ServicesIsValidRoot ops s = IsValidRootForHeight ops (as_headerStore s)"

definition ServicesCurrentHeight :: "'db AnvilServices \<Rightarrow> dberr + uint32" where
  "ServicesCurrentHeight s = CurrentHeight (as_headerStore s)"

record ChainBlockHeader =
  cb_Version :: uint32
  cb_PreviousHash :: string
  cb_MerkleRoot :: string
  cb_Time :: uint32
  cb_Bits :: uint32
  cb_Nonce :: uint32
  cb_Height :: nat
  cb_Hash :: string

datatype services_err = ErrHeaderAt uint32 dberr | ErrDeserializeAt uint32 | ErrNoBroadcaster | ErrNoBEEF string | ErrBEEFBytes string

definition ChainHeaderByHeight :: "('db, bytes) leveldb_ops \<Rightarrow> wire \<Rightarrow> (bytes \<Rightarrow> string) \<Rightarrow> 'db AnvilServices \<Rightarrow> uint32
    \<Rightarrow> services_err + ChainBlockHeader" where
  \<comment> \<open>\<open>str\<close> is the textual form of a hash\<close>
  "ChainHeaderByHeight ops w str s height =
     (case HeaderAtHeight ops (as_headerStore s) height of
        Inl e \<Rightarrow> Inl (ErrHeaderAt height e)
      | Inr raw \<Rightarrow>
         (case Deserialize w raw of
            None \<Rightarrow> Inl (ErrDeserializeAt height)
          | Some hdr \<Rightarrow>
             Inr \<lparr>cb_Version = Version hdr, cb_PreviousHash = str (PrevBlock hdr), cb_MerkleRoot = str (MerkleRoot hdr),
                  cb_Time = word_of_int (Timestamp hdr), cb_Bits = Bits hdr, cb_Nonce = Nonce hdr, cb_Height = unat height,
                  cb_Hash = str (BlockHash w hdr)\<rparr>))"

definition FindChainTipHeader :: "('db, bytes) leveldb_ops \<Rightarrow> wire \<Rightarrow> (bytes \<Rightarrow> string) \<Rightarrow> 'db AnvilServices
    \<Rightarrow> services_err + ChainBlockHeader" where
  "FindChainTipHeader ops w str s = ChainHeaderByHeight ops w str s (Tip (as_headerStore s))"

record PostedTxID =
  pt_Success :: bool
  pt_TxID :: string

fun postTxs :: "tx_codec \<Rightarrow> (string \<Rightarrow> sdk_tx option) \<Rightarrow> string list \<Rightarrow> Broadcaster \<Rightarrow> PostedTxID list \<times> Broadcaster" where
  \<comment> \<open>\<open>findTx\<close> is \<^verbatim>\<open>beef.FindTransaction\<close>\<close>
  "postTxs lib findTx [] b = ([], b)"
| "postTxs lib findTx (txid # txids) b =
     (case findTx txid of
        None \<Rightarrow> (case postTxs lib findTx txids b of (rs, b') \<Rightarrow> (\<lparr>pt_Success = False, pt_TxID = txid\<rparr> # rs, b'))
      | Some tx \<Rightarrow>
         (case BroadcastRaw lib b (tx_bytes tx) of
            (Inl e, b1) \<Rightarrow> (case postTxs lib findTx txids b1 of (rs, b') \<Rightarrow> (\<lparr>pt_Success = False, pt_TxID = txid\<rparr> # rs, b'))
          | (Inr br, b1) \<Rightarrow> (case postTxs lib findTx txids b1 of (rs, b') \<Rightarrow> (\<lparr>pt_Success = True, pt_TxID = br_TxID br\<rparr> # rs, b'))))"

definition PostFromBEEF :: "tx_codec \<Rightarrow> (string \<Rightarrow> sdk_tx option) \<Rightarrow> string list \<Rightarrow> 'db AnvilServices
    \<Rightarrow> (services_err + PostedTxID list) \<times> 'db AnvilServices" where
  "PostFromBEEF lib findTx txids s =
     (case as_broadcaster s of
        None \<Rightarrow> (Inl ErrNoBroadcaster, s)
      | Some b \<Rightarrow> (case postTxs lib findTx txids b of (rs, b') \<Rightarrow> (Inr rs, s\<lparr>as_broadcaster := Some b'\<rparr>)))"

definition ServicesMerklePath :: "('db, bytes) leveldb_ops \<Rightarrow> (bytes \<Rightarrow> string + sdk_tx \<times> 'p option) \<Rightarrow> 'db AnvilServices \<Rightarrow> string
    \<Rightarrow> 'p option" where
  \<comment> \<open>\<open>fromBEEF\<close> gives the transaction with its merkle path; every error is an answer without a path\<close>
  "ServicesMerklePath ops fromBEEF s txid =
     (case GetBEEF ops (as_proofDB s) txid of
        Inl _ \<Rightarrow> None
      | Inr beefBytes \<Rightarrow> (case fromBEEF beefBytes of Inl _ \<Rightarrow> None | Inr (tx, mp) \<Rightarrow> mp))"

definition ServicesRawTx :: "('db, bytes) leveldb_ops \<Rightarrow> (bytes \<Rightarrow> string + sdk_tx \<times> 'p option) \<Rightarrow> 'db AnvilServices \<Rightarrow> string
    \<Rightarrow> string \<times> bytes option" where
  "ServicesRawTx ops fromBEEF s txid =
     (case GetBEEF ops (as_proofDB s) txid of
        Inl _ \<Rightarrow> (txid, None)
      | Inr beefBytes \<Rightarrow> (case fromBEEF beefBytes of Inl _ \<Rightarrow> (txid, None) | Inr (tx, mp) \<Rightarrow> (txid, Some (tx_bytes tx))))"

definition ServicesGetBEEF :: "('db, bytes) leveldb_ops \<Rightarrow> beef_lib \<Rightarrow> 'db AnvilServices \<Rightarrow> string \<Rightarrow> services_err + sdk_beef" where
  "ServicesGetBEEF ops bl s txid =
     (case GetBEEF ops (as_proofDB s) txid of
        Inl _ \<Rightarrow> Inl (ErrNoBEEF txid)
      | Inr beefBytes \<Rightarrow> (case sdk_parse bl beefBytes of Inl e \<Rightarrow> Inl (ErrBEEFBytes e) | Inr b \<Rightarrow> Inr b))"

definition NLockTimeIsFinal :: "'x \<Rightarrow> bool" where
  "NLockTimeIsFinal txOrLockTime = True"

definition GetStatusForTxIDs :: "('db, bytes) leveldb_ops \<Rightarrow> 'db AnvilServices \<Rightarrow> string list \<Rightarrow> (string \<times> string) list" where
  "GetStatusForTxIDs ops s txids =
     map (\<lambda>txid. (txid, if HasBEEF ops (as_proofDB s) txid then ''completed'' else ''unknown'')) txids"

end
