(* ===== verification/Wallet_Safety.thy ===== *)
theory Wallet_Safety
  imports Wallet
begin

text \<open>
  What the wallet guarantees: invoices keep their ids and contents across restarts, a scan accounts
  for every output it found, the SPV gate of internalization, and the services as views of the header
  store and the transaction pool.
\<close>

section \<open>Merkle paths of the scanner\<close>

text \<open>
  The loop over the levels builds the path that the proof fetcher of \<^verbatim>\<open>internal/spv\<close> builds; the in-place
  reversal is list reversal.
\<close>

lemma reverseLoop_length [simp]: "length (reverseLoop i j b) = length b"
  by (induction i j b rule: reverseLoop.induct) (subst reverseLoop.simps, simp)

lemma reverseLoop_nth:
  assumes "0 \<le> i" "i + j = int (length b) - 1" "k < length b"
  shows "reverseLoop i j b ! k = (if i \<le> int k \<and> int k \<le> j then b ! nat (i + j - int k) else b ! k)"
  using assms
proof (induction i j b rule: reverseLoop.induct)
  case (1 i j b)
  show ?case
  proof (cases "i < j")
    case True
    let ?b = "b[nat i := b ! nat j, nat j := b ! nat i]"
    from True 1 have b: "nat i < length b" "nat j < length b" "nat i \<noteq> nat j" by auto
    have IH: "reverseLoop (i + 1) (j - 1) ?b ! k = (if i + 1 \<le> int k \<and> int k \<le> j - 1 then ?b ! nat (i + j - int k) else ?b ! k)"
      using "1.IH" [OF True] "1.prems" by simp
    show ?thesis
    proof (cases "int k = i \<or> int k = j")
      case True
      then have "k = nat i \<or> k = nat j" by auto
      with True IH b \<open>i < j\<close> show ?thesis by (subst reverseLoop.simps) auto
    next
      case False
      then have "k \<noteq> nat i" "k \<noteq> nat j" using \<open>i < j\<close> 1 by auto
      moreover have "nat (i + j - int k) \<noteq> nat i" "nat (i + j - int k) \<noteq> nat j" if "i + 1 \<le> int k" "int k \<le> j - 1"
        using that False "1.prems"(1) by linarith+
      ultimately show ?thesis using IH True False by (subst reverseLoop.simps) auto
    qed
  next
    case False
    then have "nat (i + j - int k) = k" if "i \<le> int k" "int k \<le> j" using that by linarith
    with False show ?thesis by (subst reverseLoop.simps) auto
  qed
qed

lemma reverseBytes_rev [simp]: "reverseBytes b = rev b"
  by (rule nth_equalityI) (auto simp: reverseBytes_def reverseLoop_nth rev_nth nat_diff_distrib intro!: arg_cong [of _ _ "(!) b"])

lemma scanNode_eq: "scanNodeToElement = tscNodeToElement"
  by (intro ext) (simp add: scanNodeToElement_def tscNodeToElement_def)

lemma scanLevels_upper:
  assumes "0 < level" "length path = length nodes" "level \<le> length nodes"
  shows "scanLevels t nodes level off path = take level path @ tscUpper (drop level nodes) off"
  using assms
proof (induction "length nodes - level" arbitrary: level off path)
  case 0
  then show ?case by (subst scanLevels.simps) simp
next
  case (Suc k)
  then have "level < length nodes" by simp
  moreover have "drop level nodes = nodes ! level # drop (Suc level) nodes" using calculation by (simp add: Cons_nth_drop_Suc)
  moreover have "take (Suc level) (path[level := x]) = take level path @ [x]" for x
    using Suc.prems calculation by (simp add: take_Suc_conv_app_nth)
  ultimately show ?case using Suc by (subst scanLevels.simps) (simp add: scanNode_eq Let_def)
qed

lemma scanPath_eq: "scanPath t index nodes = tscPath t index nodes"
proof (cases nodes)
  case (Cons n ns)
  then show ?thesis
    by (simp add: scanPath_def tscPath_def Let_def scanLevels_upper scanNode_eq scanLevels.simps [of _ _ 0])
qed (simp add: scanPath_def tscPath_def scanLevels.simps)


section \<open>Scan reports\<close>

definition scan_ok :: "string \<Rightarrow> scannedUTXO list \<Rightarrow> ScanResult \<Rightarrow> bool" where
  \<comment> \<open>the report accounts for the outputs processed so far\<close>
  "scan_ok address us r \<longleftrightarrow>
     (let n = (\<lambda>st. int (length (filter (\<lambda>d. sd_Status d = st) (sr_Details r)))) in
      sr_Address r = address
    \<and> map (\<lambda>d. (sd_TxID d, sd_Vout d, sd_Satoshis d)) (sr_Details r) = map (\<lambda>u. (u_TxHash u, u_TxPos u, u_Value u)) us
    \<and> (\<forall>d \<in> set (sr_Details r). sd_Status d \<in> {''internalized'', ''already_known'', ''skipped'', ''error''})
    \<and> sr_Internalized r = n ''internalized'' \<and> sr_AlreadyKnown r = n ''already_known'' \<and> sr_Errors r = n ''error''
    \<and> sr_TotalSatoshis r = sum_list (map sd_Satoshis (filter (\<lambda>d. sd_Status d = ''internalized'') (sr_Details r))))"

lemma scan_ok_extend:
  assumes "scan_ok a us r"
  shows "scan_ok a (us @ [u]) (scanFailed u r)" "scan_ok a (us @ [u]) (scanImported u r)"
    "scan_ok a (us @ [u]) (r\<lparr>sr_AlreadyKnown := sr_AlreadyKnown r + 1, sr_Details := sr_Details r @ [scanDetail u ''already_known'']\<rparr>)"
    "scan_ok a (us @ [u]) (r\<lparr>sr_Details := sr_Details r @ [scanDetail u ''skipped'']\<rparr>)"
  using assms by (simp_all add: scan_ok_def Let_def scanFailed_def scanImported_def scanDetail_def)

lemma importUTXO_ok:
  assumes "importUTXO L T u parsedTx beef r w = (Inr r', w')" and "scan_ok a us r"
  shows "scan_ok a (us @ [u]) r' \<and> sr_UTXOsFound r' = sr_UTXOsFound r"
proof -
  from assms(1) have "r' = scanFailed u r \<or> r' = scanImported u r"
    by (auto simp: importUTXO_def split: option.splits sum.splits prod.splits sign_outcome.splits)
  then show ?thesis using scan_ok_extend [OF assms(2)] by (auto simp: scanFailed_def scanImported_def)
qed

lemma scanUTXO_ok:
  assumes "scanUTXO L T s known u r w = (Inr r', w')" and "scan_ok a us r"
  shows "scan_ok a (us @ [u]) r' \<and> sr_UTXOsFound r' = sr_UTXOsFound r"
  using assms(1) scan_ok_extend [OF assms(2)]
  by (auto simp: scanUTXO_def scanFailed_def split: if_splits option.splits dest: importUTXO_ok [OF _ assms(2)])

lemma scanLoop_ok:
  "scanLoop L T s known vs r w = (Inr r', w') \<Longrightarrow> scan_ok a us r
    \<Longrightarrow> scan_ok a (us @ vs) r' \<and> sr_UTXOsFound r' = sr_UTXOsFound r"
proof (induction L T s known vs r w arbitrary: us rule: scanLoop.induct)
  case (2 L T s known u vs r w)
  from "2.prems"(1) obtain r1 w1 where s: "scanUTXO L T s known u r w = (Inr r1, w1)"
    and rest: "scanLoop L T s known vs r1 w1 = (Inr r', w')" by (auto split: prod.splits sum.splits)
  from "2.IH" [OF s [symmetric] refl rest, of "us @ [u]"] scanUTXO_ok [OF s "2.prems"(2)] show ?case by simp
qed simp

lemma sum_status:
  assumes "\<forall>d \<in> set ds. sd_Status d \<in> {''internalized'', ''already_known'', ''skipped'', ''error''}"
  shows "length (filter (\<lambda>d. sd_Status d = ''internalized'') ds) + length (filter (\<lambda>d. sd_Status d = ''already_known'') ds)
    + length (filter (\<lambda>d. sd_Status d = ''skipped'') ds) + length (filter (\<lambda>d. sd_Status d = ''error'') ds) = length ds"
  using assms
proof (induction ds)
  case (Cons d ds)
  from Cons.prems have "sd_Status d = ''internalized'' \<or> sd_Status d = ''already_known'' \<or> sd_Status d = ''skipped'' \<or> sd_Status d = ''error''"
    by simp
  with Cons show ?case by (elim disjE) simp_all
qed simp

text \<open>
  A scan accounts for every output. When \<^verbatim>\<open>ScanAddress\<close> returns a report, the report has one detail
  per output WhatsOnChain listed, in order and with its value; the counters are the numbers of details
  with the status, they add up with the skipped ones to the number found, and the total is the sum, in
  64 bits, of the imported values.
\<close>

theorem scan_accounts:
  assumes "ScanAddress L T s address w = (Inr r, w')"
  shows "\<exists>us. fetchUTXOs L address = Inr us \<and> sr_UTXOsFound r = int (length us)
    \<and> map (\<lambda>d. (sd_TxID d, sd_Vout d, sd_Satoshis d)) (sr_Details r) = map (\<lambda>u. (u_TxHash u, u_TxPos u, u_Value u)) us
    \<and> sr_Internalized r + sr_AlreadyKnown r + sr_Errors r
        + int (length (filter (\<lambda>d. sd_Status d = ''skipped'') (sr_Details r))) = sr_UTXOsFound r
    \<and> sr_TotalSatoshis r = sum_list (map sd_Satoshis (filter (\<lambda>d. sd_Status d = ''internalized'') (sr_Details r)))"
proof -
  from assms obtain us where us: "fetchUTXOs L address = Inr us" by (auto simp: ScanAddress_def split: sum.splits)
  let ?r0 = "\<lparr>sr_Address = address, sr_UTXOsFound = int (length us), sr_Internalized = 0, sr_AlreadyKnown = 0,
      sr_Errors = 0, sr_TotalSatoshis = 0, sr_Details = []\<rparr>"
  have "scan_ok address [] ?r0" by (simp add: scan_ok_def)
  with assms us scanLoop_ok [of L T s "buildKnownSet T w" us ?r0 w r w' address "[]"]
  have r: "scan_ok address us r" "sr_UTXOsFound r = int (length us)"
    by (auto simp: ScanAddress_def Let_def split: if_splits)
  note c = r(1) [unfolded scan_ok_def Let_def]
  have "length (sr_Details r) = length us" by (rule map_eq_imp_length_eq [OF c [THEN conjunct2, THEN conjunct1]])
  moreover from c have "\<forall>d \<in> set (sr_Details r). sd_Status d \<in> {''internalized'', ''already_known'', ''skipped'', ''error''}"
    by (elim conjE)
  note sum_status [OF this]
  ultimately have "sr_Internalized r + sr_AlreadyKnown r + sr_Errors r
      + int (length (filter (\<lambda>d. sd_Status d = ''skipped'') (sr_Details r))) = sr_UTXOsFound r"
    using c r(2) by linarith
  with us c r(2) show ?thesis by blast
qed


section \<open>Invoices\<close>

text \<open>
  The requests of a node over its lifetime. Between the critical section that allocates an id and the
  end of the request other requests run; a restart, at any moment, loses the requests in flight and
  opens the wallet again on the same invoice store. \<open>P\<close> holds the requests in flight, \<open>A\<close> the invoices
  that were answered, \<open>n\<close> counts the ids that were ever allocated.
\<close>

inductive wallet_run :: "('k, 'a) wallet_env \<Rightarrow> ('w, 'k) toolbox \<Rightarrow> 'p scan_lib \<Rightarrow> ('db, Invoice json) leveldb_ops \<Rightarrow> ('db \<Rightarrow> (bytes \<rightharpoonup> Invoice json)) \<Rightarrow> ('w, 'db, 'k) NodeWallet
    \<Rightarrow> (string \<times> 'k counterparty \<times> string \<times> string) list \<Rightarrow> Invoice list \<Rightarrow> nat \<Rightarrow> bool" for E T L ops contents where
  first_start: "contents d = Map.empty \<Longrightarrow> NewWallet ops st wif mig tb (Inr d) arc = Inr nw
    \<Longrightarrow> wallet_run E T L ops contents nw [] [] 0"
| begin_invoice: "wallet_run E T L ops contents nw P A n \<Longrightarrow> we_invoiceReq E (limit_reader 1048576 body) = Some req
    \<Longrightarrow> readCounterparty E (fst req) = Inr cp \<Longrightarrow> allocInvoice nw = (i, nw')
    \<Longrightarrow> wallet_run E T L ops contents nw' ((i, cp, req) # P) A (Suc n)"
| end_invoice: "wallet_run E T L ops contents nw P A n \<Longrightarrow> (i, cp, req) \<in> set P \<Longrightarrow> finishInvoice E T ops i cp req nw = (rep, nw')
    \<Longrightarrow> wallet_run E T L ops contents nw' (remove1 (i, cp, req) P) (case rep of Reply _ iv \<Rightarrow> iv # A | _ \<Rightarrow> A) n"
| send: "wallet_run E T L ops contents nw P A n \<Longrightarrow> wallet_run E T L ops contents (snd (handleSend E T body nw)) P A n"
| create: "wallet_run E T L ops contents nw P A n \<Longrightarrow> wallet_run E T L ops contents (snd (handleCreateAction E T body nw)) P A n"
| sign: "wallet_run E T L ops contents nw P A n \<Longrightarrow> wallet_run E T L ops contents (snd (handleSignAction E T body nw)) P A n"
| scan: "wallet_run E T L ops contents nw P A n \<Longrightarrow> wallet_run E T L ops contents (snd (handleScan L E T body nw)) P A n"
| internalize: "wallet_run E T L ops contents nw P A n
    \<Longrightarrow> wallet_run E T L ops contents (snd (handleInternalize bl tr now E T body nw)) P A n"
| restart: "wallet_run E T L ops contents nw P A n \<Longrightarrow> NewWallet ops st wif mig tb (Inr (invoiceDB nw)) arc = Inr nw'
    \<Longrightarrow> wallet_run E T L ops contents nw' [] A n"

definition issued :: "int \<Rightarrow> string set" where
  "issued n = itoa ` {1..n}"

definition wallet_inv :: "('db \<Rightarrow> (bytes \<rightharpoonup> Invoice json)) \<Rightarrow> ('w, 'db, 'k) NodeWallet
    \<Rightarrow> (string \<times> 'k counterparty \<times> string \<times> string) list \<Rightarrow> Invoice list \<Rightarrow> nat \<Rightarrow> bool" where
  "wallet_inv contents nw P A n \<longleftrightarrow> 0 \<le> nw_nextID nw \<and> nw_nextID nw \<le> int n
     \<and> dom (contents (invoiceDB nw)) \<subseteq> issued (nw_nextID nw)
     \<and> fst ` set P \<subseteq> issued (nw_nextID nw) - dom (contents (invoiceDB nw)) \<and> distinct (map fst P)
     \<and> distinct (map iv_ID A) \<and> (\<forall>iv \<in> set A. contents (invoiceDB nw) (iv_ID iv) = Some (Json iv))"

lemma recoverLoop_mono: "m \<le> recoverLoop m ks"
proof (induction ks arbitrary: m)
  case (Cons k ks)
  show ?case using Cons [of "case atoi k of None \<Rightarrow> m | Some i \<Rightarrow> if i > m then i else m"]
    by (auto split: option.splits if_splits)
qed simp

lemma recoverLoop_upper: "k \<in> set ks \<Longrightarrow> atoi k = Some i \<Longrightarrow> i \<le> recoverLoop m ks"
proof (induction ks arbitrary: m)
  case (Cons k' ks)
  show ?case
  proof (cases "k = k'")
    case True
    then show ?thesis using Cons.prems recoverLoop_mono [of i ks] recoverLoop_mono [of m ks] by auto
  qed (use Cons in auto)
qed simp

lemma recoverLoop_bound: "(\<And>k i. k \<in> set ks \<Longrightarrow> atoi k = Some i \<Longrightarrow> i \<le> b) \<Longrightarrow> m \<le> b \<Longrightarrow> recoverLoop m ks \<le> b"
proof (induction ks arbitrary: m)
  case (Cons k ks)
  show ?case using Cons.prems by (auto intro!: Cons.IH split: option.splits)
qed simp

lemma distinct_remove1_key:
  "distinct (map f P) \<Longrightarrow> p \<in> set P \<Longrightarrow> distinct (map f (remove1 p P)) \<and> f p \<notin> f ` set (remove1 p P)"
  by (induction P) (auto dest: set_remove1_subset [THEN subsetD] intro: rev_image_eqI)

lemma makeInvoice_ID [simp]: "iv_ID (makeInvoice E i req key addr) = i"
  by (simp add: makeInvoice_def)

lemma finishInvoice_cases:
  assumes "finishInvoice E T ops i cp req nw = (rep, nw')"
  obtains (error) "nw' = nw" "\<And>c iv. rep \<noteq> Reply c iv"
    | (saved) iv db where "iv_ID iv = i" "saveInvoice ops (invoiceDB nw) iv = Inr db" "rep = Reply 200 iv" "nw' = nw\<lparr>invoiceDB := db\<rparr>"
proof (cases "\<exists>key addr. tb_GetPublicKey T (nw_inner nw) \<lparr>ka_Protocol = ''invoice payment'', ka_KeyID = i, ka_Counterparty = cp\<rparr> ''anvil'' = Inr key
    \<and> we_keyAddress E key = Inr addr")
  case True
  then obtain key addr where "tb_GetPublicKey T (nw_inner nw) \<lparr>ka_Protocol = ''invoice payment'', ka_KeyID = i, ka_Counterparty = cp\<rparr> ''anvil'' = Inr key"
    "we_keyAddress E key = Inr addr" by blast
  then obtain iv where iv: "iv_ID iv = i" "finishInvoice E T ops i cp req nw = (case saveInvoice ops (invoiceDB nw) iv of
      Inl e \<Rightarrow> (ReplyError 500 ''persist invoice'', nw) | Inr db \<Rightarrow> (Reply 200 iv, nw\<lparr>invoiceDB := db\<rparr>))"
    by (intro that [of "makeInvoice E i req key addr"]) (simp_all add: finishInvoice_def Let_def)
  show ?thesis
  proof (cases "saveInvoice ops (invoiceDB nw) iv")
    case (Inl e)
    with iv assms show ?thesis by (intro error) auto
  next
    case (Inr db)
    with iv assms show ?thesis by (intro saved [of iv db]) auto
  qed
next
  case False
  with assms show ?thesis by (intro error) (auto simp: finishInvoice_def split: sum.splits)
qed

locale invoice_store = leveldb ops contents
  for ops :: "('db, Invoice json) leveldb_ops" and contents
begin

lemma recoverID_exact:
  assumes "dom (contents d) \<subseteq> issued n" "0 \<le> n" "n < 2 ^ 63"
  shows "0 \<le> recoverID ops d \<and> recoverID ops d \<le> n \<and> dom (contents d) \<subseteq> issued (recoverID ops d)"
proof -
  let ?ks = "map fst (fst (db_iter ops d []))"
  have ks: "set ?ks = dom (contents d)" by (force simp: iter_set)
  have key: "\<exists>i. k = itoa i \<and> 1 \<le> i \<and> i \<le> n \<and> atoi k = Some i" if "k \<in> set ?ks" for k
  proof -
    from that ks assms(1) obtain i where "k = itoa i" "1 \<le> i" "i \<le> n" by (auto simp: issued_def)
    then show ?thesis using assms by (auto simp: atoi_itoa)
  qed
  have "recoverID ops d \<le> n"
    unfolding recoverID_def by (rule recoverLoop_bound) (use key assms in fastforce)+
  moreover have "0 \<le> recoverID ops d" unfolding recoverID_def by (rule recoverLoop_mono)
  moreover have "k \<in> issued (recoverID ops d)" if k: "k \<in> set ?ks" for k
  proof -
    from key [OF k] obtain i where i: "k = itoa i" "1 \<le> i" "atoi k = Some i" by blast
    then have "i \<le> recoverID ops d" unfolding recoverID_def using recoverLoop_upper [OF k] by blast
    with i show ?thesis by (auto simp: issued_def)
  qed
  ultimately show ?thesis using ks by blast
qed

lemma NewWallet_db:
  "NewWallet ops st wif mig tb (Inr d) arc = Inr nw \<Longrightarrow> invoiceDB nw = d \<and> nw_nextID nw = recoverID ops d"
  by (auto simp: NewWallet_def split: option.splits sum.splits)

lemma alloc_inv:
  assumes inv: "wallet_inv contents nw P A n" and "allocInvoice nw = (i, nw')" and n: "int n + 1 < 2 ^ 63"
  shows "wallet_inv contents nw' ((i, cp, req) # P) A (Suc n)"
proof -
  let ?k = "nw_nextID nw + 1"
  from inv have k: "1 \<le> ?k" "?k \<le> int n + 1" by (auto simp: wallet_inv_def)
  then have "wrap64 ?k = ?k" using n by (simp add: wrap64_def)
  with assms(2) have a: "i = itoa ?k" "nw' = nw\<lparr>nw_nextID := ?k\<rparr>" by (auto simp: allocInvoice_def Let_def)
  have "issued ?k = insert i (issued (nw_nextID nw))"
  proof -
    have "{1..?k} = insert ?k {1..nw_nextID nw}" using k by auto
    then show ?thesis by (simp add: issued_def a)
  qed
  moreover have "i \<notin> issued (nw_nextID nw)" by (auto simp: issued_def a itoa_inject)
  ultimately show ?thesis using inv k a(2) unfolding wallet_inv_def by (auto 0 3)
qed

lemma finish_inv:
  assumes inv: "wallet_inv contents nw P A n" and p: "(i, cp, req) \<in> set P"
    and f: "finishInvoice E T ops i cp req nw = (rep, nw')"
  shows "wallet_inv contents nw' (remove1 (i, cp, req) P) (case rep of Reply _ iv \<Rightarrow> iv # A | _ \<Rightarrow> A) n"
proof -
  have d: "distinct (map fst (remove1 (i, cp, req) P))" "i \<notin> fst ` set (remove1 (i, cp, req) P)"
    using inv distinct_remove1_key [of fst P, OF _ p] unfolding wallet_inv_def by auto
  have "fst ` set (remove1 (i, cp, req) P) \<subseteq> fst ` set P" by (intro image_mono set_remove1_subset)
  also have "\<dots> \<subseteq> issued (nw_nextID nw) - dom (contents (invoiceDB nw))" using inv by (simp only: wallet_inv_def)
  finally have sub: "fst ` set (remove1 (i, cp, req) P) \<subseteq> issued (nw_nextID nw) - dom (contents (invoiceDB nw))" .
  from f show ?thesis
  proof (cases rule: finishInvoice_cases)
    case error
    then have "(case rep of Reply _ iv \<Rightarrow> iv # A | _ \<Rightarrow> A) = A" by (cases rep) auto
    with error inv d sub show ?thesis by (simp add: wallet_inv_def)
  next
    case (saved iv db)
    have c: "contents db = (contents (invoiceDB nw))(i \<mapsto> Json iv)"
      using put_spec saved(1,2) by (auto simp: saveInvoice_def)
    have "i \<in> issued (nw_nextID nw)" "i \<notin> dom (contents (invoiceDB nw))" using inv p by (force simp: wallet_inv_def)+
    moreover from this(2) have "i \<notin> iv_ID ` set A" "\<forall>a \<in> set A. iv_ID a \<noteq> i" using inv by (auto simp: wallet_inv_def)
    moreover have "fst ` set (remove1 (i, cp, req) P) \<subseteq> issued (nw_nextID nw) - insert i (dom (contents (invoiceDB nw)))"
      using sub d(2) by blast
    ultimately show ?thesis using inv saved c d(1) unfolding wallet_inv_def by simp
  qed
qed

lemma other_handlers:
  "invoiceDB (snd (handleSend E T body nw)) = invoiceDB nw \<and> nw_nextID (snd (handleSend E T body nw)) = nw_nextID nw"
  "invoiceDB (snd (handleCreateAction E T body nw)) = invoiceDB nw \<and> nw_nextID (snd (handleCreateAction E T body nw)) = nw_nextID nw"
  "invoiceDB (snd (handleSignAction E T body nw)) = invoiceDB nw \<and> nw_nextID (snd (handleSignAction E T body nw)) = nw_nextID nw"
  "invoiceDB (snd (handleScan L E T body nw)) = invoiceDB nw \<and> nw_nextID (snd (handleScan L E T body nw)) = nw_nextID nw"
  "invoiceDB (snd (handleInternalize bl tr now E T body nw)) = invoiceDB nw
     \<and> nw_nextID (snd (handleInternalize bl tr now E T body nw)) = nw_nextID nw"
  by (auto simp: handleSend_def handleCreateAction_def handleSignAction_def handleScan_def handleInternalize_def Let_def
      split: option.splits sum.splits prod.splits scan_err.splits if_splits bool.splits)

lemma wallet_inv_cong:
  "invoiceDB nw' = invoiceDB nw \<and> nw_nextID nw' = nw_nextID nw \<Longrightarrow> wallet_inv contents nw P A n \<Longrightarrow> wallet_inv contents nw' P A n"
  by (simp add: wallet_inv_def)

lemma wallet_run_inv: "wallet_run E T L ops contents nw P A n \<Longrightarrow> int n < 2 ^ 63 \<Longrightarrow> wallet_inv contents nw P A n"
proof (induction rule: wallet_run.induct)
  case (first_start d st wif mig tb arc nw)
  then show ?case using NewWallet_db [OF first_start(2)] recoverID_exact [of d 0] by (auto simp: wallet_inv_def issued_def)
next
  case (begin_invoice nw P A n body req cp i nw')
  then show ?case by (intro alloc_inv [of nw]) auto
next
  case (end_invoice nw P A n i cp req rep nw')
  then show ?case by (intro finish_inv [of nw]) auto
next
  case (restart nw P A n st wif mig tb arc nw')
  then have "wallet_inv contents nw P A n" by simp
  moreover from this restart(4) have "dom (contents (invoiceDB nw)) \<subseteq> issued (nw_nextID nw)" "0 \<le> nw_nextID nw" "nw_nextID nw < 2 ^ 63"
    by (auto simp: wallet_inv_def)
  note recoverID_exact [OF this]
  ultimately show ?case using NewWallet_db [OF restart(2)] by (auto simp: wallet_inv_def)
qed (auto intro: wallet_inv_cong [OF other_handlers(1)] wallet_inv_cong [OF other_handlers(2)] wallet_inv_cong [OF other_handlers(3)]
   wallet_inv_cong [OF other_handlers(4)] wallet_inv_cong [OF other_handlers(5)])

lemma wallet_run_keeps:
  assumes "wallet_run E T L ops contents nw P A n" "int n < 2 ^ 63" "iv \<in> set A"
  shows "loadInvoice ops (invoiceDB nw) (iv_ID iv) = Some iv"
  using wallet_run_inv [OF assms(1,2)] assms(3) by (auto simp: loadInvoice_def wallet_inv_def get_spec)

end

interpretation mem_invoices: invoice_store mem_ops map_of ..

text \<open>
  C16: an invoice that was handed out is kept. Whatever requests a node serves, interleaved in any way,
  and however often it restarts, the invoices it answered have different ids, and the invoice store
  still holds each one unchanged under its id, as long as fewer than \<open>2 ^ 63\<close> ids were allocated.
\<close>

theorem invoices_kept:
  assumes "leveldb ops contents" "wallet_run E T L ops contents nw P A n" "int n < 2 ^ 63"
  shows "distinct (map iv_ID A) \<and> (\<forall>iv \<in> set A. loadInvoice ops (invoiceDB nw) (iv_ID iv) = Some iv)"
proof -
  from assms(1) have s: "invoice_store ops contents" by (simp add: invoice_store_def)
  show ?thesis
    using invoice_store.wallet_run_inv [OF s assms(2,3)] invoice_store.wallet_run_keeps [OF s assms(2,3)]
    by (auto simp: wallet_inv_def)
qed


text \<open>A run with a request, a restart, and a second request.\<close>

definition demo_utxo :: scannedUTXO where
  "demo_utxo = \<lparr>u_TxHash = replicate 64 (CHR ''a''), u_TxPos = 0, u_Value = 7, u_Height = 5\<rparr>"

definition demo_scan_lib :: "unit scan_lib" where
  "demo_scan_lib = \<lparr>sl_fetch = \<lparr>fl_get = (\<lambda>_. GetReply 200 ''00''), fl_arc = (\<lambda>_. RequestFailed []), fl_info = (\<lambda>_. Some 5),
     fl_tsc = (\<lambda>_. Some [\<lparr>tsc_Index = 0, tsc_TxOrID = [], tsc_Nodes = []\<rparr>]), fl_hashFromHex = (\<lambda>_. None), fl_pathBytes = (\<lambda>_ _. []),
     fl_pathFromHex = (\<lambda>_. Inr ()), fl_beefFromTx = (\<lambda>_ _. Inr ''beef''),
     fl_codec = \<lparr>parse_tx = (\<lambda>_. Inr \<lparr>tx_id = u_TxHash demo_utxo, tx_ins = [], tx_outs = [], tx_bytes = []\<rparr>), parse_beef = (\<lambda>_. Inl [])\<rparr>\<rparr>,
     sl_unspent = (\<lambda>_. Some ([demo_utxo, demo_utxo\<lparr>u_Height := 0\<rparr>], [])), sl_unlock = None, sl_sign = (\<lambda>_ _ _. Inl [])\<rparr>"

definition demo_wallet_env :: "(nat, string) wallet_env" where
  "demo_wallet_env = \<lparr>we_invoiceReq = (\<lambda>b. Some ([], b)), we_sendReq = (\<lambda>_. None), we_createReq = (\<lambda>_. None), we_signReq = (\<lambda>_. None),
     we_scanReq = (\<lambda>_. None), we_internalizeReq = (\<lambda>b. Some \<lparr>ia_Tx = b, ia_Description = []\<rparr>), we_pubKey = (\<lambda>_. Inr 0), we_compressed = (\<lambda>_. ''k''),
     we_keyAddress = (\<lambda>_. Inr ''1addr''), we_parseAddress = Inr, we_addressString = id, we_lock = Inr\<rparr>"

definition demo_toolbox :: "(nat, nat) toolbox" where
  "demo_toolbox = \<lparr>tb_GetPublicKey = (\<lambda>w a o'. Inr w), tb_ListOutputs = (\<lambda>w b o'. Inr []), tb_CreateAction = (\<lambda>w a o'. (Inr \<lparr>cr_Txid = ''t'', cr_Signable = None\<rparr>, w + 1)),
     tb_SignAction = (\<lambda>w a o'. (Inr ''t'', w + 1)), tb_InternalizeAction = (\<lambda>w a o'. (Inr True, w + 1))\<rparr>"

definition demo_node :: "(bytes \<times> Invoice json) list \<Rightarrow> (nat, (bytes \<times> Invoice json) list, nat) NodeWallet" where
  "demo_node d = \<lparr>nw_inner = 0, nw_validator = NewValidator, nw_scanner = None, invoiceDB = d, nw_nextID = recoverID mem_ops d\<rparr>"

lemma demo_node_new: "NewWallet mem_ops None (Inr 0) None (Inr 0) (Inr d) None = Inr (demo_node d)"
  by (simp add: NewWallet_def demo_node_def)

definition demo_invoice :: "string \<Rightarrow> string \<Rightarrow> Invoice" where
  "demo_invoice i desc = \<lparr>iv_ID = i, iv_Address = ''1addr'', iv_PublicKey = hex_encode ''k'', iv_Description = desc, iv_Counterparty = [],
     iv_Protocol = ''invoice payment'', iv_KeyID = i\<rparr>"


lemma demo_atoi: "atoi ''1'' = Some 1"
  by (simp add: atoi_def dec_val_def)

lemma demo_itoa: "itoa 1 = ''1''" "itoa 2 = ''2''"
  by (simp_all add: itoa_def digits.simps digit_def char_of_def bit_simps)

lemma demo_recover: "recoverID mem_ops [] = 0" "recoverID mem_ops [(''1'', v)] = 1"
  by (simp_all add: recoverID_def mem_ops_def mem_iter_def demo_atoi)

lemma demo_finish:
  "finishInvoice demo_wallet_env demo_toolbox mem_ops i Anyone ([], desc) nw
     = (Reply 200 (demo_invoice i desc), nw\<lparr>invoiceDB := AList.update i (Json (demo_invoice i desc)) (invoiceDB nw)\<rparr>)"
  by (simp add: finishInvoice_def demo_wallet_env_def demo_toolbox_def saveInvoice_def mem_ops_def demo_invoice_def makeInvoice_def Let_def)

lemma demo_wallet_run:
  "\<exists>nw. wallet_run demo_wallet_env demo_toolbox L mem_ops map_of nw [] [demo_invoice ''2'' ''b'', demo_invoice ''1'' ''a''] 2"
proof -
  let ?run = "wallet_run demo_wallet_env demo_toolbox L mem_ops map_of"
  have req: "we_invoiceReq demo_wallet_env (limit_reader 1048576 b) = Some ([], take 1048576 b)" for b
    by (simp add: demo_wallet_env_def limit_reader_def)
  have cp: "readCounterparty demo_wallet_env (fst ([], d)) = Inr Anyone" for d :: string by (simp add: readCounterparty_def)
  have "?run (demo_node []) [] [] 0" by (rule wallet_run.first_start [OF _ demo_node_new]) simp
  from wallet_run.begin_invoice [OF this req [of "''a''"] cp, of "''1''" "(demo_node [])\<lparr>nw_nextID := 1\<rparr>"]
  have "?run ((demo_node [])\<lparr>nw_nextID := 1\<rparr>) [(''1'', Anyone, [], ''a'')] [] 1"
    by (simp add: allocInvoice_def demo_node_def demo_recover wrap64_def demo_itoa)
  from wallet_run.end_invoice [OF this _ demo_finish]
  have "?run ((demo_node [])\<lparr>nw_nextID := 1, invoiceDB := [(''1'', Json (demo_invoice ''1'' ''a''))]\<rparr>) [] [demo_invoice ''1'' ''a''] 1"
    by (simp add: demo_node_def)
  from wallet_run.restart [OF this demo_node_new]
  have "?run (demo_node [(''1'', Json (demo_invoice ''1'' ''a''))]) [] [demo_invoice ''1'' ''a''] 1" by simp
  from wallet_run.begin_invoice [OF this req [of "''b''"] cp, of "''2''" "(demo_node [(''1'', Json (demo_invoice ''1'' ''a''))])\<lparr>nw_nextID := 2\<rparr>"]
  have "?run ((demo_node [(''1'', Json (demo_invoice ''1'' ''a''))])\<lparr>nw_nextID := 2\<rparr>) [(''2'', Anyone, [], ''b'')] [demo_invoice ''1'' ''a''] 2"
    by (simp add: allocInvoice_def demo_node_def demo_recover wrap64_def demo_itoa numeral_2_eq_2)
  from wallet_run.end_invoice [OF this _ demo_finish] show ?thesis by auto
qed

theorem invoices_kept_witness:
  "\<exists>nw A. wallet_run demo_wallet_env demo_toolbox demo_scan_lib mem_ops map_of nw [] A 2 \<and> map iv_ID A = [''2'', ''1'']
     \<and> (\<forall>iv \<in> set A. loadInvoice mem_ops (invoiceDB nw) (iv_ID iv) = Some iv)"
proof -
  let ?A = "[demo_invoice ''2'' ''b'', demo_invoice ''1'' ''a'']"
  obtain nw where r: "wallet_run demo_wallet_env demo_toolbox demo_scan_lib mem_ops map_of nw [] ?A 2"
    using demo_wallet_run by blast
  from invoices_kept [OF mem.leveldb_axioms r] have "\<forall>iv \<in> set ?A. loadInvoice mem_ops (invoiceDB nw) (iv_ID iv) = Some iv"
    by simp
  with r show ?thesis by (intro exI [of _ nw] exI [of _ ?A]) (simp add: demo_invoice_def)
qed

section \<open>The SPV gate\<close>

lemma internalize_cases:
  assumes "handleInternalize bl tr now E T body nw = (rep, nw')"
  obtains (unchanged) "nw_inner nw' = nw_inner nw" "\<And>x. rep \<noteq> Reply 200 x"
    | (called) args where "we_internalizeReq E (limit_reader 10485760 body) = Some args"
      "nw_inner nw' = snd (tb_InternalizeAction T (nw_inner nw) args ''anvil'')"
      "ia_Tx args \<noteq> [] \<Longrightarrow> rs_Confidence (fst (judgeBEEF bl tr (ia_Tx args))) \<noteq> ConfidenceInvalid"
  using assms
  by (auto simp: handleInternalize_def ValidateBEEF_def split: option.splits sum.splits prod.splits if_splits bool.splits)


theorem scan_accounts_witness:
  "\<exists>r. ScanAddress demo_scan_lib demo_toolbox (NewScanner 0 None) ''1addr'' 0 = (Inr r, 1)
     \<and> sr_UTXOsFound r = 2 \<and> sr_Internalized r = 1 \<and> sr_TotalSatoshis r = 7
     \<and> map (\<lambda>d. (sd_TxID d, sd_Vout d, sd_Satoshis d)) (sr_Details r)
       = map (\<lambda>u. (u_TxHash u, u_TxPos u, u_Value u)) [demo_utxo, demo_utxo\<lparr>u_Height := 0\<rparr>]"
proof -
  have us: "fetchUTXOs demo_scan_lib ''1addr'' = Inr [demo_utxo, demo_utxo\<lparr>u_Height := 0\<rparr>]"
    by (simp add: fetchUTXOs_def demo_scan_lib_def)
  have raw: "scanRawTx demo_scan_lib h = Inr ''00''" for h by (simp add: scanRawTx_def demo_scan_lib_def)
  obtain b where b: "hex_decode ''00'' = Some b" by (simp add: unhex_def)
  obtain tx where tx: "parse_tx (fl_codec (sl_fetch demo_scan_lib)) b = Inr tx" by (simp add: demo_scan_lib_def)
  obtain h where h: "scanMerkleProof demo_scan_lib (NewScanner (0 :: nat) None) (u_TxHash demo_utxo) (of_int (u_Height demo_utxo)) = Inr h"
    by (simp add: scanMerkleProof_def scanMerkleProofFromWoC_def NewScanner_def demo_scan_lib_def)
  obtain beef where "buildBEEFFromTx demo_scan_lib tx h = Inr beef" by (simp add: buildBEEFFromTx_def demo_scan_lib_def)
  with raw b tx h have prep: "\<exists>tx b. prepareUTXO demo_scan_lib (NewScanner (0 :: nat) None) demo_utxo = Some (tx, b)"
    by (simp add: prepareUTXO_def del: hex_decode.simps)
  obtain r where r: "ScanAddress demo_scan_lib demo_toolbox (NewScanner 0 None) ''1addr'' 0 = (Inr r, 1)"
    and "sr_Internalized r = 1" "sr_TotalSatoshis r = 7"
    using us prep by (auto simp: ScanAddress_def scanUTXO_def importUTXO_def demo_toolbox_def buildKnownSet_def slice_def demo_utxo_def
        scanImported_def)
  with scan_accounts [OF r] us show ?thesis by auto
qed




section \<open>Services\<close>

text \<open>The services show the toolbox the header store as the chain it represents.\<close>

lemma ChainHeaderByHeight_chain:
  assumes "leveldb ops contents" "repr w contents (as_headerStore s) hs" "unat height < length hs"
  shows "\<exists>h. ChainHeaderByHeight ops w str s height = Inr h \<and> cb_Height h = unat height
    \<and> cb_MerkleRoot h = str (MerkleRoot (hs ! unat height)) \<and> cb_Hash h = str (BlockHash w (hs ! unat height))
    \<and> cb_PreviousHash h = str (PrevBlock (hs ! unat height))"
proof -
  from assms(2,3) obtain raw where "contents (hs_db (as_headerStore s)) (heightToKey prefixHeader (word_of_nat (unat height))) = Some raw"
    "Deserialize w raw = Some (hs ! unat height)" by (auto simp: repr_def chain_map_def)
  then show ?thesis
    by (simp add: ChainHeaderByHeight_def HeaderAtHeight_def leveldb.get_found [OF assms(1)])
qed

lemma FindChainTipHeader_chain:
  assumes "leveldb ops contents" "repr w contents (as_headerStore s) hs"
  shows "\<exists>h. FindChainTipHeader ops w str s = Inr h \<and> cb_Hash h = str (BlockHash w (last hs))"
proof -
  from assms(2) have "length hs = Suc (unat (tip (as_headerStore s)))" "hs \<noteq> []" by (auto simp: repr_def)
  then have "unat (tip (as_headerStore s)) < length hs" "last hs = hs ! unat (tip (as_headerStore s))" by (auto simp: last_conv_nth)
  with ChainHeaderByHeight_chain [OF assms, of "tip (as_headerStore s)" str] show ?thesis
    by (auto simp: FindChainTipHeader_def Tip_def)
qed

text \<open>\<^verbatim>\<open>PostFromBEEF\<close> answers for each transaction in order and keeps the pool sound.\<close>

lemma postTxs_pool:
  assumes "mempool_ok lib (mempool b)" "postTxs lib findTx txids b = (rs, b')"
  shows "mempool_ok lib (mempool b') \<and> length rs = length txids"
  using assms
proof (induction txids arbitrary: b rs b')
  case (Cons txid txids)
  show ?case
  proof (cases "findTx txid")
    case None
    with Cons show ?thesis by (auto split: prod.splits)
  next
    case (Some tx)
    obtain r b1 where br: "BroadcastRaw lib b (tx_bytes tx) = (r, b1)" by fastforce
    then have "mempool_ok lib (mempool b1)"
      using Cons.prems(1) by (cases "parse_tx lib (tx_bytes tx)") (auto simp: BroadcastRaw_def mempool_ok_add)
    moreover obtain rs1 b2 where rest: "postTxs lib findTx txids b1 = (rs1, b2)" by fastforce
    ultimately have "mempool_ok lib (mempool b2) \<and> length rs1 = length txids" by (rule Cons.IH)
    with Some br rest Cons.prems(2) show ?thesis by (cases r) auto
  qed
qed simp

section \<open>Panics of the scanner\<close>

text \<open>
  A listed output whose transaction id has fewer than 16 characters, or whose index is not an output of
  the transaction that was returned for it, makes the scan panic.
\<close>

lemma short_txid_panics:
  assumes "length (u_TxHash u) < 16"
  shows "importUTXO L T u tx beef r w = (Inl ScanPanic, w)"
  using assms by (simp add: importUTXO_def slice_def)

lemma scanned_index_panics:
  assumes "parse_beef (fl_codec (sl_fetch L)) b = Inr stTx" "findInput (tx_id tx) (u_TxPos u) (tx_ins stTx) = Some i"
    "length (tx_outs tx) \<le> unat (u_TxPos u)"
  shows "signAndComplete L T w (b, ref) tx u = (SignPanic, w)"
  using assms by (simp add: signAndComplete_def)

end
