(* ===== verification/Status.thy ===== *)
theory Status
  imports Gossip Header_Sync Content Api "HOL-Library.Product_Lexorder"
begin

text \<open>
  The read-only pages of \<^verbatim>\<open>internal/api\<close>: node status (\<^verbatim>\<open>handlers_status.go\<close>), mesh status with its topic
  cache (\<^verbatim>\<open>mesh_status.go\<close>), the merged list of nodes (\<^verbatim>\<open>mesh_nodes.go\<close>), the well-known documents of
  \<^verbatim>\<open>server.go\<close> and the watch stream of \<^verbatim>\<open>handlers_mempool.go\<close>.

  \<open>api_node\<close> is the part of \<^verbatim>\<open>Server\<close> that these pages read beside the state of \<^theory_text>\<open>Api\<close>. A JSON object is
  a record; a member that is left out is \<^term>\<open>None\<close>. Times are nanoseconds and are shown as seconds.
  Where Go ranges over a map the order of the list is one of the possible orders.
\<close>

definition versionString :: string where "versionString = ''0.7.3''"

definition whole_secs :: "int \<Rightarrow> int" where
  \<comment> \<open>\<^verbatim>\<open>int(d.Seconds())\<close>, towards zero\<close>
  "whole_secs d = (if d \<ge> 0 then d div second else - ((- d) div second))"

section \<open>Topics\<close>

definition topicNames :: "('db, envelope json) leveldb_ops \<Rightarrow> int \<Rightarrow> 'db envelope_store \<Rightarrow> string list" where
  \<comment> \<open>the keys of \<^verbatim>\<open>Topics()\<close>\<close>
  "topicNames ops now s = remdups (map Topic (live_envelopes ops now s))"

record topicCache =
  tc_counts :: "(string \<times> int) list"
  tc_latest :: "string \<rightharpoonup> int"
  tc_updated :: "int option" \<comment> \<open>\<^term>\<open>None\<close> is the zero time\<close>
  tc_ttl :: int

definition newTopicCache :: "int \<Rightarrow> topicCache" where
  "newTopicCache t = \<lparr>tc_counts = [], tc_latest = Map.empty, tc_updated = None, tc_ttl = t\<rparr>"

definition topicCounts :: "('db, envelope json) leveldb_ops \<Rightarrow> int \<Rightarrow> 'db envelope_store \<Rightarrow> (string \<times> int) list" where
  "topicCounts ops now s = map (\<lambda>t. (t, go_lookup 0 (Topics ops now s) t)) (topicNames ops now s)"

definition topicCacheGet :: "int \<Rightarrow> (string \<times> int) list \<Rightarrow> (string \<rightharpoonup> int) \<Rightarrow> topicCache \<Rightarrow> topicCache" where
  \<comment> \<open>the cache afterwards, whose \<^verbatim>\<open>counts\<close> and \<^verbatim>\<open>latest\<close> are the answer; \<open>counts\<close> and \<open>latest\<close> are what the
     store would answer\<close>
  "topicCacheGet now counts latest tc =
     (if (case tc_updated tc of None \<Rightarrow> False | Some t \<Rightarrow> now - t < tc_ttl tc) then tc
      else tc\<lparr>tc_counts := counts, tc_latest := latest, tc_updated := Some now\<rparr>)"

section \<open>The state\<close>

record ('e, 'd, 'p, 'w, 'n, 'h, 'tx) api_node =
  an_server :: "('e, 'd, 'p, 'w, 'n, ('e, 'd directory) manager) server"
  an_headers :: "'h header_store"
  an_identityPub :: string
  an_bond :: "Checker option"
  an_content :: "'tx content_server"
  an_topicCache :: topicCache
  an_sync :: "sync_stats option"
  an_proofSource :: string

record ('e, 'd, 'p, 'h) status_env =
  se_ops :: "('e, envelope json) leveldb_ops"
  se_dir :: "('d, dir_value) leveldb_ops"
  se_proof :: "('p, bytes) leveldb_ops"
  se_hdr :: "('h, bytes) leveldb_ops"
  se_wire :: wire
  se_heartbeat :: "bytes \<Rightarrow> (string \<times> string \<times> uint32 \<times> int \<times> string list) option"
    \<comment> \<open>\<^verbatim>\<open>json.Unmarshal\<close> of a heartbeat: node, version, height, peers, topics\<close>

section \<open>Node status\<close>

record header_info =
  hi_Height :: uint32
  hi_Work :: int
  hi_Hash :: "bytes option"
  hi_Tip :: "(int \<times> int) option" \<comment> \<open>tip time and lag in seconds\<close>
  hi_Sync :: "sync_stats option"

datatype warning = StaleHeaders int | SyncFailed sync_err | NoPeers | InvalidBEEFs int

definition tipTime :: "('e, 'd, 'p, 'h) status_env \<Rightarrow> int \<Rightarrow> 'h header_store \<Rightarrow> (int \<times> int) option" where
  "tipTime E now hs =
     (case HeaderAtHeight (se_hdr E) hs (Tip hs) of
        Inl _ \<Rightarrow> None
      | Inr raw \<Rightarrow>
         (case Deserialize (se_wire E) raw of
            None \<Rightarrow> None
          | Some h \<Rightarrow> (let lag = whole_secs (now - Timestamp h * second) in Some (Timestamp h, if lag < 0 then 0 else lag))))"

definition buildHeaderStatus :: "('e, 'd, 'p, 'h) status_env \<Rightarrow> int \<Rightarrow> ('e, 'd, 'q, 'w, 'n, 'h, 'tx) api_node
    \<Rightarrow> header_info \<times> warning list" where
  "buildHeaderStatus E now s =
     (let hs = an_headers s; t = tipTime E now hs in
      (\<lparr>hi_Height = Tip hs, hi_Work = Work hs,
        hi_Hash = (case HashAtHeight (se_hdr E) (se_wire E) hs (Tip hs) of Inl _ \<Rightarrow> None | Inr h \<Rightarrow> Some h),
        hi_Tip = t, hi_Sync = an_sync s\<rparr>,
       (case t of None \<Rightarrow> [] | Some (_, lag) \<Rightarrow> if lag > 1800 then [StaleHeaders lag] else [])
       @ (case an_sync s of None \<Rightarrow> [] | Some st \<Rightarrow> (case LastError st of None \<Rightarrow> [] | Some e \<Rightarrow> [SyncFailed e]))))"

record spv_info =
  si_ProofSource :: "string option"
  si_ProofsStored :: "nat option"
  si_Validations :: "ValidationStats option"

definition buildSPVStatus :: "('e, 'd, 'p, 'h) status_env \<Rightarrow> bool \<Rightarrow> ('e, 'd, 'p, 'w, 'n, 'h, 'tx) api_node
    \<Rightarrow> spv_info option \<times> warning list" where
  \<comment> \<open>\<open>stored\<close>: whether a proof store is configured\<close>
  "buildSPVStatus E stored s =
     (let v = validator (an_server s);
          info = \<lparr>si_ProofSource = (if an_proofSource s \<noteq> [] then Some (an_proofSource s) else None),
                  si_ProofsStored = (if stored then Some (CountBEEF (se_proof E) (proofStore (an_server s))) else None),
                  si_Validations = map_option SpvStats v\<rparr>;
          warnings = (case v of None \<Rightarrow> [] | Some st \<Rightarrow> if st_Invalid (SpvStats st) > 0 then [InvalidBEEFs (st_Invalid (SpvStats st))] else [])
      in (if an_proofSource s = [] \<and> \<not> stored \<and> v = None then None else Some info, warnings))"

record mesh_info =
  mi_Peers :: nat
  mi_PeerList :: "PeerInfo list"
  mi_Recent :: "ConnectionEvent list"

record status_page =
  sp_Node :: string
  sp_Version :: string
  sp_Headers :: header_info
  sp_SPV :: "spv_info option"
  sp_Mesh :: "mesh_info option"
  sp_Warnings :: "warning list"

definition handleStatus :: "('e, 'd, 'p, 'h) status_env \<Rightarrow> int \<Rightarrow> bool \<Rightarrow> ('e, 'd, 'p, 'w, 'n, 'h, 'tx) api_node \<Rightarrow> status_page reply" where
  "handleStatus E now stored s =
     (case (buildHeaderStatus E now s, buildSPVStatus E stored s) of
        ((headersInfo, warnings), (spvInfo, spvWarnings)) \<Rightarrow>
          Reply 200 \<lparr>sp_Node = nodeName (an_server s), sp_Version = versionString, sp_Headers = headersInfo, sp_SPV = spvInfo,
            sp_Mesh = map_option (\<lambda>m. \<lparr>mi_Peers = PeerCount m, mi_PeerList = [], mi_Recent = RecentConnections m 5\<rparr>) (gossipMgr (an_server s)),
            sp_Warnings = warnings @ (if spvInfo = None then [] else spvWarnings)
              @ (case gossipMgr (an_server s) of None \<Rightarrow> [] | Some m \<Rightarrow> if PeerCount m = 0 then [NoPeers] else [])\<rparr>)"

record stats_page =
  ss_Status :: status_page
  ss_Envelopes :: "(nat \<times> nat \<times> (string \<times> int) list) option" \<comment> \<open>ephemeral, durable, topics\<close>
  ss_Overlay :: "nat option"
  ss_Bond :: "int option"
  ss_SlashWarnings :: "(string \<times> slash_warning list) list"

definition handleStats :: "('e, 'd, 'p, 'h) status_env \<Rightarrow> int \<Rightarrow> bool \<Rightarrow> ('e, 'd, 'p, 'w, 'n, 'h, 'tx) api_node
    \<Rightarrow> stats_page reply \<times> ('e, 'd, 'p, 'w, 'n, 'h, 'tx) api_node" where
  \<comment> \<open>reading the slash warnings drops the expired ones\<close>
  "handleStats E now stored s =
     (case (buildHeaderStatus E now s, buildSPVStatus E stored s) of
        ((headersInfo, warnings), (spvInfo, spvWarnings)) \<Rightarrow>
         (let sv = an_server s;
              slash = (case gossipMgr sv of None \<Rightarrow> ([], None) | Some m \<Rightarrow> (case SlashWarnings now m of (ws, m') \<Rightarrow> (ws, Some m')))
          in (Reply 200 \<lparr>ss_Status = \<lparr>sp_Node = nodeName sv, sp_Version = versionString, sp_Headers = headersInfo, sp_SPV = spvInfo,
                  sp_Mesh = map_option (\<lambda>m. \<lparr>mi_Peers = PeerCount m, mi_PeerList = PeerList now m, mi_Recent = RecentConnections m 10\<rparr>) (gossipMgr sv),
                  sp_Warnings = warnings @ (case gossipMgr sv of None \<Rightarrow> [] | Some m \<Rightarrow> if PeerCount m = 0 then [NoPeers] else [])
                    @ (if spvInfo = None then [] else spvWarnings)\<rparr>,
                ss_Envelopes = (if storeConfigured sv then Some (CountEphemeral (envelopeStore sv), CountDurable (se_ops E) (envelopeStore sv),
                    topicCounts (se_ops E) now (envelopeStore sv)) else None),
                ss_Overlay = map_option (CountSHIP (se_dir E)) (overlayDirectory sv),
                ss_Bond = (case an_bond s of None \<Rightarrow> None | Some b \<Rightarrow> if Required b then Some (MinSats b) else None),
                ss_SlashWarnings = fst slash\<rparr>,
              s\<lparr>an_server := sv\<lparr>gossipMgr := snd slash\<rparr>\<rparr>)))"

definition handleHeadersTip :: "('e, 'd, 'p, 'h) status_env \<Rightarrow> ('e, 'd, 'q, 'w, 'n, 'h, 'tx) api_node \<Rightarrow> (uint32 \<times> bytes) reply" where
  "handleHeadersTip E s =
     (case HashAtHeight (se_hdr E) (se_wire E) (an_headers s) (Tip (an_headers s)) of
        Inl _ \<Rightarrow> ReplyError 500 ''failed to get tip hash''
      | Inr hash \<Rightarrow> Reply 200 (Tip (an_headers s), hash))"

section \<open>Mesh status\<close>

record topicInfo =
  ti_Topic :: string
  ti_Count :: int
  ti_Latest :: "(int \<times> int) option" \<comment> \<open>time and age in seconds\<close>

record mesh_page =
  mp_Node :: string
  mp_Height :: uint32
  mp_Work :: int
  mp_Identity :: string
  mp_Mesh :: "mesh_info option"
  mp_Activity :: "(int \<times> int) option"
  mp_Topics :: "topicInfo list option"
  mp_ShipCount :: "nat option"

definition topicInfos :: "int \<Rightarrow> topicCache \<Rightarrow> topicInfo list" where
  "topicInfos now tc =
     map (\<lambda>(topic, count). \<lparr>ti_Topic = topic, ti_Count = count,
       ti_Latest = (case tc_latest tc topic of None \<Rightarrow> None
         | Some ts \<Rightarrow> if ts > 0 then Some (ts, now div second - ts) else None)\<rparr>) (tc_counts tc)"

definition handleMeshStatus :: "('e, 'd, 'p, 'h) status_env \<Rightarrow> int \<Rightarrow> ('e, 'd, 'q, 'w, 'n, 'h, 'tx) api_node
    \<Rightarrow> mesh_page reply \<times> ('e, 'd, 'q, 'w, 'n, 'h, 'tx) api_node" where
  \<comment> \<open>the counts are looked up at the topics of the cached counts, the start time of the process is not modelled\<close>
  "handleMeshStatus E now s =
     (let sv = an_server s;
          tc = (if storeConfigured sv then topicCacheGet now (topicCounts (se_ops E) now (envelopeStore sv))
                  (LatestByTopic (se_ops E) now (envelopeStore sv)) (an_topicCache s) else an_topicCache s)
      in (Reply 200 \<lparr>mp_Node = nodeName sv, mp_Height = Tip (an_headers s), mp_Work = Work (an_headers s), mp_Identity = an_identityPub s,
            mp_Mesh = map_option (\<lambda>m. \<lparr>mi_Peers = length (PeerList now m), mi_PeerList = PeerList now m, mi_Recent = RecentConnections m 10\<rparr>) (gossipMgr sv),
            mp_Activity = map_option Activity (gossipMgr sv),
            mp_Topics = (if storeConfigured sv then Some (topicInfos now tc) else None),
            mp_ShipCount = map_option (CountSHIP (se_dir E)) (overlayDirectory sv)\<rparr>,
          s\<lparr>an_topicCache := tc\<rparr>))"

section \<open>The merged node list\<close>

datatype last_seen = NotSeen | ZeroTime | SeenAt int

record MeshNode =
  mn_Identity :: string
  mn_Name :: string
  mn_Version :: string
  mn_URL :: string
  mn_Height :: uint32
  mn_Peers :: int
  mn_Topics :: "string list"
  mn_LastSeen :: last_seen
  mn_Self :: bool
  mn_DirectPeer :: bool
  mn_Heartbeat :: bool
  mn_Overlay :: bool
  mn_HeartbeatAge :: "int option"
  mn_ConnectedSec :: "int option"

definition newMeshNode :: "string \<Rightarrow> MeshNode" where
  "newMeshNode identity = \<lparr>mn_Identity = identity, mn_Name = [], mn_Version = [], mn_URL = [], mn_Height = 0, mn_Peers = 0, mn_Topics = [],
     mn_LastSeen = NotSeen, mn_Self = False, mn_DirectPeer = False, mn_Heartbeat = False, mn_Overlay = False,
     mn_HeartbeatAge = None, mn_ConnectedSec = None\<rparr>"

definition selfNode :: "('e, 'd, 'p, 'h) status_env \<Rightarrow> int \<Rightarrow> ('e, 'd, 'q, 'w, 'n, 'h, 'tx) api_node \<Rightarrow> MeshNode" where
  "selfNode E now s =
     (newMeshNode (an_identityPub s))\<lparr>mn_Name := nodeName (an_server s), mn_Version := versionString, mn_URL := publicURL (an_server s),
       mn_Height := Tip (an_headers s), mn_LastSeen := SeenAt (now div second), mn_Self := True,
       mn_Topics := (if storeConfigured (an_server s) then topicNames (se_ops E) now (envelopeStore (an_server s)) else []),
       mn_Peers := (case gossipMgr (an_server s) of None \<Rightarrow> 0 | Some m \<Rightarrow> int (PeerCount m))\<rparr>"

definition upsertNode :: "string \<Rightarrow> (MeshNode \<Rightarrow> MeshNode) \<Rightarrow> (string \<times> MeshNode) list \<Rightarrow> (string \<times> MeshNode) list" where
  "upsertNode identity f ns =
     AList.update identity (f (case map_of ns identity of None \<Rightarrow> newMeshNode identity | Some n \<Rightarrow> n)) ns"

definition mergePeer :: "int \<Rightarrow> PeerInfo \<Rightarrow> MeshNode \<Rightarrow> MeshNode" where
  \<comment> \<open>the connection time passes through its textual form, which has whole seconds\<close>
  "mergePeer now p n =
     (let n1 = n\<lparr>mn_DirectPeer := True, mn_Version := (if pi_Version p \<noteq> [] then pi_Version p else mn_Version n)\<rparr>
      in case pi_ConnectedAt p of
           None \<Rightarrow> n1
         | Some t \<Rightarrow>
            n1\<lparr>mn_ConnectedSec := Some (whole_secs (now - (t div second) * second)),
               mn_LastSeen := (if mn_LastSeen n = NotSeen then SeenAt (t div second) else mn_LastSeen n)\<rparr>)"

definition addPeerNode :: "int \<Rightarrow> string \<Rightarrow> PeerInfo \<Rightarrow> (string \<times> MeshNode) list \<Rightarrow> (string \<times> MeshNode) list" where
  "addPeerNode now self p ns =
     (if pi_Identity p = [] \<or> pi_Identity p = self then ns else upsertNode (pi_Identity p) (mergePeer now p) ns)"

definition heartbeatAge :: "int \<Rightarrow> envelope \<Rightarrow> int" where
  \<comment> \<open>the difference to the zero time saturates\<close>
  "heartbeatAge now env = (case ReceivedAt env of None \<Rightarrow> 9223372036 | Some t \<Rightarrow> whole_secs (now - t))"

definition mergeHeartbeat :: "int \<Rightarrow> envelope \<Rightarrow> string \<times> string \<times> uint32 \<times> int \<times> string list \<Rightarrow> MeshNode \<Rightarrow> MeshNode" where
  "mergeHeartbeat now env hb n =
     (case hb of (node, ver, height, ps, topics) \<Rightarrow>
       n\<lparr>mn_Heartbeat := True, mn_Name := (if node \<noteq> [] then node else mn_Name n), mn_Version := (if ver \<noteq> [] then ver else mn_Version n),
         mn_Height := height, mn_Peers := ps, mn_Topics := (if topics \<noteq> [] then topics else mn_Topics n),
         mn_HeartbeatAge := Some (heartbeatAge now env),
         mn_LastSeen := (case ReceivedAt env of None \<Rightarrow> ZeroTime | Some t \<Rightarrow> SeenAt (t div second))\<rparr>)"

fun addHeartbeats :: "('e, 'd, 'p, 'h) status_env \<Rightarrow> int \<Rightarrow> string \<Rightarrow> string list \<Rightarrow> envelope list \<Rightarrow> (string \<times> MeshNode) list
    \<Rightarrow> (string \<times> MeshNode) list" where
  "addHeartbeats E now self done_keys [] ns = ns"
| "addHeartbeats E now self done_keys (env # envs) ns =
     (if Pubkey env \<in> set done_keys then addHeartbeats E now self done_keys envs ns
      else addHeartbeats E now self (Pubkey env # done_keys) envs
        (if Pubkey env = self then ns
         else case se_heartbeat E (Payload env) of
           None \<Rightarrow> ns
         | Some hb \<Rightarrow> upsertNode (Pubkey env) (mergeHeartbeat now env hb) ns))"

definition mergeOverlay :: "ship_row \<Rightarrow> MeshNode \<Rightarrow> MeshNode" where
  "mergeOverlay row n =
     (case row of (identity, domain, name, ver, topic) \<Rightarrow>
       n\<lparr>mn_Overlay := True, mn_URL := (if domain \<noteq> [] then domain else mn_URL n),
         mn_Name := (if mn_Name n = [] \<and> name \<noteq> [] then name else mn_Name n),
         mn_Version := (if mn_Version n = [] \<and> ver \<noteq> [] then ver else mn_Version n)\<rparr>)"

definition addOverlayNode :: "string \<Rightarrow> ship_row \<Rightarrow> (string \<times> MeshNode) list \<Rightarrow> (string \<times> MeshNode) list" where
  "addOverlayNode self row ns = (if fst row = self then ns else upsertNode (fst row) (mergeOverlay row) ns)"

definition defaultName :: "MeshNode \<Rightarrow> MeshNode" where
  "defaultName n = (if mn_Name n = [] \<and> length (mn_Identity n) > 16 then n\<lparr>mn_Name := take 16 (mn_Identity n) @ ''...''\<rparr> else n)"

definition sortRank :: "MeshNode \<Rightarrow> nat" where
  "sortRank n = (if mn_Self n then 0 else if mn_DirectPeer n then 1 else if mn_Heartbeat n then 2 else 3)"

definition withPeers :: "int \<Rightarrow> ('e, 'd, 'q, 'w, 'n, 'h, 'tx) api_node \<Rightarrow> (string \<times> MeshNode) list \<Rightarrow> (string \<times> MeshNode) list" where
  "withPeers now s ns =
     (case gossipMgr (an_server s) of None \<Rightarrow> ns | Some m \<Rightarrow> fold (addPeerNode now (an_identityPub s)) (PeerList now m) ns)"

definition withHeartbeats :: "('e, 'd, 'p, 'h) status_env \<Rightarrow> int \<Rightarrow> ('e, 'd, 'q, 'w, 'n, 'h, 'tx) api_node \<Rightarrow> (string \<times> MeshNode) list
    \<Rightarrow> (string \<times> MeshNode) list" where
  "withHeartbeats E now s ns =
     (if storeConfigured (an_server s) then
        (case QueryByTopic (se_ops E) now (envelopeStore (an_server s)) ''mesh:heartbeat'' 100 of
           Inl _ \<Rightarrow> ns
         | Inr envs \<Rightarrow> addHeartbeats E now (an_identityPub s) [] envs ns)
      else ns)"

definition withOverlay :: "('e, 'd, 'p, 'h) status_env \<Rightarrow> ('e, 'd, 'q, 'w, 'n, 'h, 'tx) api_node \<Rightarrow> (string \<times> MeshNode) list
    \<Rightarrow> (string \<times> MeshNode) list" where
  "withOverlay E s ns =
     (case overlayDirectory (an_server s) of
        None \<Rightarrow> ns | Some d \<Rightarrow> fold (addOverlayNode (an_identityPub s)) (ForEachSHIP (se_dir E) d) ns)"

definition mergeNodes :: "('e, 'd, 'p, 'h) status_env \<Rightarrow> int \<Rightarrow> ('e, 'd, 'q, 'w, 'n, 'h, 'tx) api_node \<Rightarrow> (string \<times> MeshNode) list" where
  "mergeNodes E now s =
     withOverlay E s (withHeartbeats E now s (withPeers now s [(an_identityPub s, selfNode E now s)]))"

definition handleMeshNodes :: "('e, 'd, 'p, 'h) status_env \<Rightarrow> int \<Rightarrow> ('e, 'd, 'q, 'w, 'n, 'h, 'tx) api_node \<Rightarrow> (MeshNode list \<times> nat) reply" where
  "handleMeshNodes E now s =
     (let result = sort_key (\<lambda>n. (sortRank n, mn_Name n)) (map (defaultName \<circ> snd) (mergeNodes E now s))
      in Reply 200 (result, length result))"

section \<open>Well-known documents\<close>

record identity_page =
  ip_Node :: string
  ip_Version :: string
  ip_IdentityKey :: "string option"
  ip_MinSats :: "int option" \<comment> \<open>\<^term>\<open>None\<close>: no bond required\<close>

definition bondInfo :: "Checker option \<Rightarrow> int option" where
  "bondInfo b = (case b of None \<Rightarrow> None | Some c \<Rightarrow> if Required c then Some (MinSats c) else None)"

definition handleIdentity :: "('e, 'd, 'p, 'w, 'n, 'h, 'tx) api_node \<Rightarrow> identity_page reply" where
  "handleIdentity s =
     Reply 200 \<lparr>ip_Node = nodeName (an_server s), ip_Version = ''0.1.0'',
       ip_IdentityKey = (if an_identityPub s \<noteq> [] then Some (an_identityPub s) else None), ip_MinSats = bondInfo (an_bond s)\<rparr>"

datatype x402_info = Markdown | InfoJson identity_page "endpointInfo list"

definition infoEndpoints :: "('e, 'd, 'p, 'w, 'n, 'g) server \<Rightarrow> endpointInfo list" where
  "infoEndpoints s =
     map (\<lambda>(path, price). \<lparr>ep_Method = ''GET'', ep_Path = path, ep_Price = price\<rparr>)
       [(''/status'', priceFor s ''/status''), (''/stats'', priceFor s ''/status''), (''/data'', priceFor s ''/data''),
        (''/tx/{txid}/beef'', priceFor s ''/tx/{txid}/beef''), (''/overlay/lookup'', priceFor s ''/overlay/lookup'')]"

definition handleX402Info :: "('e, 'd, 'p, 'w, 'n, 'h, 'tx) api_node \<Rightarrow> http_request \<Rightarrow> x402_info reply" where
  "handleX402Info s r =
     (if Header r ''Accept'' = ''text/markdown'' \<or> Header r ''Accept'' = ''text/plain'' then Reply 200 Markdown
      else Reply 200 (InfoJson \<lparr>ip_Node = nodeName (an_server s), ip_Version = ''0.1'',
             ip_IdentityKey = (if an_identityPub s \<noteq> [] then Some (an_identityPub s) else None), ip_MinSats = bondInfo (an_bond s)\<rparr>
           (infoEndpoints (an_server s))))"

record capability =
  cap_Type :: string
  cap_Topic :: "(string \<times> int) option"
  cap_Access :: string
  cap_Payment :: string
  cap_Height :: "uint32 option"

record manifest =
  mf_Name :: string
  mf_Capabilities :: "capability list"
  mf_Peers :: "nat option"
  mf_KnownNodes :: "nat option"

definition handleAnvilManifest :: "('e, 'd, 'p, 'h) status_env \<Rightarrow> int \<Rightarrow> ('e, 'd, 'q, 'w, 'n, 'h, 'tx) api_node \<Rightarrow> manifest reply" where
  "handleAnvilManifest E now s =
     (let sv = an_server s;
          feeds = (if storeConfigured sv then
              map (\<lambda>(topic, count). \<lparr>cap_Type = ''data-feed'', cap_Topic = Some (topic, count), cap_Access = ''GET /data?topic='' @ topic,
                cap_Payment = (if priceFor sv ''/data'' > 0 then ''HTTP-402'' else ''free''), cap_Height = None\<rparr>)
                (topicCounts (se_ops E) now (envelopeStore sv)) else [])
      in Reply 200 \<lparr>mf_Name = nodeName sv,
           mf_Capabilities = feeds @
             [\<lparr>cap_Type = ''spv-verification'', cap_Topic = None, cap_Access = ''GET /tx/{txid}/beef'', cap_Payment = ''free'', cap_Height = None\<rparr>,
              \<lparr>cap_Type = ''header-chain'', cap_Topic = None, cap_Access = ''GET /headers/tip'', cap_Payment = ''free'', cap_Height = Some (Tip (an_headers s))\<rparr>],
           mf_Peers = map_option PeerCount (gossipMgr sv), mf_KnownNodes = map_option (CountSHIP (se_dir E)) (overlayDirectory sv)\<rparr>)"

section \<open>The watch stream\<close>

definition handleWatchSubscribe :: "bool \<Rightarrow> chan \<Rightarrow> ('e, 'd, 'p, 'w, 'n, 'g) server \<Rightarrow> http_request
    \<Rightarrow> unit reply \<times> ('e, 'd, 'p, 'w, 'n, 'g) server" where
  \<comment> \<open>up to the loop; \<open>ch\<close> is the new channel, with a buffer of \<^term>\<open>chanCap\<close>\<close>
  "handleWatchSubscribe canFlush ch s r =
     (case mempoolWatcher s of
        None \<Rightarrow> (ReplyError 503 ''mempool watcher not enabled'', s)
      | Some w \<Rightarrow>
         (if \<not> canFlush then (ReplyError 500 ''streaming not supported'', s)
          else (Reply 200 (), s\<lparr>mempoolWatcher := Some (SubscribeWatch (query_get (RawQuery r) ''address'') ch w)\<rparr>)))"

definition watchStep :: "chan \<Rightarrow> int \<Rightarrow> ('e, 'd, 'p, 'w, 'n, 'g) server \<Rightarrow> (int \<times> WatchHit) option \<times> int \<times> ('e, 'd, 'p, 'w, 'n, 'g) server" where
  \<comment> \<open>one round of the loop: the event sent, and \<^verbatim>\<open>seq\<close>\<close>
  "watchStep ch sq s =
     (case mempoolWatcher s of
        None \<Rightarrow> (None, sq, s)
      | Some w \<Rightarrow>
         (case queues w ch of
            [] \<Rightarrow> (None, sq, s)
          | hit # rest \<Rightarrow> (Some (wrap64 (sq + 1), hit), wrap64 (sq + 1), s\<lparr>mempoolWatcher := Some (w\<lparr>queues := (queues w)(ch := rest)\<rparr>)\<rparr>)))"

definition watchClose :: "chan \<Rightarrow> http_request \<Rightarrow> ('e, 'd, 'p, 'w, 'n, 'g) server \<Rightarrow> ('e, 'd, 'p, 'w, 'n, 'g) server" where
  "watchClose ch r s =
     s\<lparr>mempoolWatcher := map_option (UnsubscribeWatch (query_get (RawQuery r) ''address'') ch) (mempoolWatcher s)\<rparr>"

end
