(* ===== verification/Status_Safety.thy ===== *)
theory Status_Safety
  imports Status
begin

text \<open>
  The merged node list shows every known node once, with evidence flags that say where it was seen;
  the topic cache bounds how often the envelope store is scanned.
\<close>

section \<open>Merging\<close>

definition nodes_inv :: "string \<Rightarrow> MeshNode \<Rightarrow> string set \<Rightarrow> string set \<Rightarrow> string set \<Rightarrow> (string \<times> MeshNode) list \<Rightarrow> bool" where
  \<comment> \<open>the table after the identities \<open>D\<close> were merged as direct peers, \<open>H\<close> as heard, \<open>R\<close> as registered\<close>
  "nodes_inv self sn D H R ns \<longleftrightarrow>
     distinct (map fst ns) \<and> fst ` set ns = insert self (D \<union> H \<union> R) \<and> self \<notin> D \<union> H \<union> R \<and> map_of ns self = Some sn
     \<and> (\<forall>k n. map_of ns k = Some n \<longrightarrow> k \<noteq> self \<longrightarrow> mn_Identity n = k \<and> \<not> mn_Self n
         \<and> mn_DirectPeer n = (k \<in> D) \<and> mn_Heartbeat n = (k \<in> H) \<and> mn_Overlay n = (k \<in> R))"

definition marks :: "bool \<Rightarrow> bool \<Rightarrow> bool \<Rightarrow> (MeshNode \<Rightarrow> MeshNode) \<Rightarrow> bool" where
  "marks d h r f \<longleftrightarrow> (\<forall>n. mn_Identity (f n) = mn_Identity n \<and> mn_Self (f n) = mn_Self n \<and> mn_DirectPeer (f n) = (mn_DirectPeer n \<or> d)
     \<and> mn_Heartbeat (f n) = (mn_Heartbeat n \<or> h) \<and> mn_Overlay (f n) = (mn_Overlay n \<or> r))"

lemma marks_merge [simp]:
  "marks True False False (mergePeer now p)" "marks False True False (mergeHeartbeat now env hb)" "marks False False True (mergeOverlay row)"
  by (auto simp: marks_def mergePeer_def mergeHeartbeat_def mergeOverlay_def Let_def split: option.splits prod.splits)

lemma upsert_inv:
  assumes inv: "nodes_inv self sn D H R ns" and k: "k \<noteq> self" and f: "marks d h r f" and "d \<or> h \<or> r"
  shows "nodes_inv self sn (if d then insert k D else D) (if h then insert k H else H) (if r then insert k R else R) (upsertNode k f ns)"
proof -
  let ?n = "case map_of ns k of None \<Rightarrow> newMeshNode k | Some n \<Rightarrow> n"
  have old: "mn_Identity ?n = k" "\<not> mn_Self ?n" "mn_DirectPeer ?n = (k \<in> D)" "mn_Heartbeat ?n = (k \<in> H)" "mn_Overlay ?n = (k \<in> R)"
  proof -
    have "k \<notin> D \<union> H \<union> R" if "map_of ns k = None"
      using that inv k unfolding nodes_inv_def map_of_eq_None_iff by auto
    with inv k show "mn_Identity ?n = k" "\<not> mn_Self ?n" "mn_DirectPeer ?n = (k \<in> D)" "mn_Heartbeat ?n = (k \<in> H)" "mn_Overlay ?n = (k \<in> R)"
      by (auto simp: nodes_inv_def newMeshNode_def split: option.splits)
  qed
  have upd: "map_of (upsertNode k f ns) = (map_of ns)(k \<mapsto> f ?n)" by (simp add: upsertNode_def update_conv')
  have "fst ` set (upsertNode k f ns) = insert k (fst ` set ns)" by (simp add: upsertNode_def dom_update)
  moreover have "distinct (map fst (upsertNode k f ns))" using inv by (simp add: upsertNode_def distinct_update nodes_inv_def)
  ultimately show ?thesis
    using inv k old f assms(4) unfolding nodes_inv_def upd marks_def by auto
qed

definition direct_peers :: "string \<Rightarrow> PeerInfo list \<Rightarrow> string set" where
  "direct_peers self ps = pi_Identity ` set ps - {[], self}"

lemma peers_inv:
  "nodes_inv self sn D H R ns \<Longrightarrow> nodes_inv self sn (D \<union> direct_peers self ps) H R (fold (addPeerNode now self) ps ns)"
proof (induction ps arbitrary: D ns)
  case (Cons p ps)
  show ?case
  proof (cases "pi_Identity p = [] \<or> pi_Identity p = self")
    case True
    then have "direct_peers self (p # ps) = direct_peers self ps" "addPeerNode now self p ns = ns"
      by (auto simp: direct_peers_def addPeerNode_def)
    with Cons show ?thesis by simp
  next
    case False
    then have "D \<union> direct_peers self (p # ps) = insert (pi_Identity p) D \<union> direct_peers self ps"
      "addPeerNode now self p ns = upsertNode (pi_Identity p) (mergePeer now p) ns"
      by (auto simp: direct_peers_def addPeerNode_def)
    with Cons.IH [OF upsert_inv [OF Cons.prems _ marks_merge(1), of "pi_Identity p", simplified]] False show ?thesis by simp
  qed
qed (simp add: direct_peers_def)

definition heard :: "(bytes \<Rightarrow> 'a option) \<Rightarrow> string \<Rightarrow> envelope list \<Rightarrow> string set" where
  \<comment> \<open>the keys whose newest heartbeat can be read\<close>
  "heard parse self envs = {k. k \<noteq> self \<and> (\<exists>env. find (\<lambda>e. Pubkey e = k) envs = Some env \<and> parse (Payload env) \<noteq> None)}"

lemma heard_Cons:
  "heard parse self (env # envs) = (if Pubkey env \<noteq> self \<and> parse (Payload env) \<noteq> None then {Pubkey env} else {}) \<union> (heard parse self envs - {Pubkey env})"
  by (auto simp: heard_def split: if_splits)

lemma heartbeats_inv:
  "nodes_inv self sn D H R ns
    \<Longrightarrow> nodes_inv self sn D (H \<union> (heard (se_heartbeat E) self envs - set ks)) R (addHeartbeats E now self ks envs ns)"
proof (induction envs arbitrary: ks H ns)
  case (Cons env envs)
  show ?case
  proof (cases "Pubkey env \<in> set ks")
    case True
    then have "heard (se_heartbeat E) self (env # envs) - set ks = heard (se_heartbeat E) self envs - set ks" by (auto simp: heard_Cons)
    with Cons True show ?thesis by simp
  next
    case new: False
    let ?ks = "Pubkey env # ks"
    show ?thesis
    proof (cases "Pubkey env = self \<or> se_heartbeat E (Payload env) = None")
      case True
      then have "heard (se_heartbeat E) self (env # envs) - set ks = heard (se_heartbeat E) self envs - set ?ks"
        by (auto simp: heard_Cons)
      moreover have "addHeartbeats E now self ks (env # envs) ns = addHeartbeats E now self ?ks envs ns" using new True by auto
      ultimately show ?thesis using Cons.IH [OF Cons.prems, of ?ks] by (simp only:)
    next
      case False
      then obtain hb where hb: "se_heartbeat E (Payload env) = Some hb" "Pubkey env \<noteq> self" by auto
      then have eq: "H \<union> (heard (se_heartbeat E) self (env # envs) - set ks)
          = insert (Pubkey env) H \<union> (heard (se_heartbeat E) self envs - set ?ks)" using new by (auto simp: heard_Cons)
      from Cons.IH [OF upsert_inv [OF Cons.prems hb(2) marks_merge(2), simplified], of ?ks now env hb] new hb show ?thesis
        unfolding eq by simp
    qed
  qed
qed (simp add: heard_def)

definition registered :: "string \<Rightarrow> ship_row list \<Rightarrow> string set" where
  "registered self rows = fst ` set rows - {self}"

lemma overlay_inv:
  "nodes_inv self sn D H R ns \<Longrightarrow> nodes_inv self sn D H (R \<union> registered self rows) (fold (addOverlayNode self) rows ns)"
proof (induction rows arbitrary: R ns)
  case (Cons row rows)
  show ?case
  proof (cases "fst row = self")
    case True
    then have "registered self (row # rows) = registered self rows" by (auto simp: registered_def)
    with Cons True show ?thesis by (simp add: addOverlayNode_def)
  next
    case False
    then have "R \<union> registered self (row # rows) = insert (fst row) R \<union> registered self rows" by (auto simp: registered_def)
    with Cons.IH [OF upsert_inv [OF Cons.prems False marks_merge(3), simplified]] False show ?thesis by (simp add: addOverlayNode_def)
  qed
qed (simp add: registered_def)

text \<open>What the three sources say of a server.\<close>

definition directPeers :: "int \<Rightarrow> ('e, 'd, 'q, 'w, 'n, 'h, 'tx) api_node \<Rightarrow> string set" where
  "directPeers now s = (case gossipMgr (an_server s) of None \<Rightarrow> {} | Some m \<Rightarrow> direct_peers (an_identityPub s) (PeerList now m))"

definition heardNodes :: "('e, 'd, 'p, 'h) status_env \<Rightarrow> int \<Rightarrow> ('e, 'd, 'q, 'w, 'n, 'h, 'tx) api_node \<Rightarrow> string set" where
  "heardNodes E now s =
     (if storeConfigured (an_server s) then
        (case QueryByTopic (se_ops E) now (envelopeStore (an_server s)) ''mesh:heartbeat'' 100 of
           Inl _ \<Rightarrow> {} | Inr envs \<Rightarrow> heard (se_heartbeat E) (an_identityPub s) envs)
      else {})"

definition registeredNodes :: "('e, 'd, 'p, 'h) status_env \<Rightarrow> ('e, 'd, 'q, 'w, 'n, 'h, 'tx) api_node \<Rightarrow> string set" where
  "registeredNodes E s = (case overlayDirectory (an_server s) of None \<Rightarrow> {} | Some d \<Rightarrow> registered (an_identityPub s) (ForEachSHIP (se_dir E) d))"

lemma mergeNodes_inv:
  "nodes_inv (an_identityPub s) (selfNode E now s) (directPeers now s) (heardNodes E now s) (registeredNodes E s) (mergeNodes E now s)"
proof -
  let ?self = "an_identityPub s" and ?sn = "selfNode E now s"
  let ?n1 = "[(?self, ?sn)]"
  have "nodes_inv ?self ?sn {} {} {} ?n1" by (auto simp: nodes_inv_def)
  from peers_inv [OF this] this have a: "nodes_inv ?self ?sn (directPeers now s) {} {} (withPeers now s ?n1)"
    by (simp add: directPeers_def withPeers_def split: option.splits)
  from heartbeats_inv [OF a, of E _ "[]" now] a
  have b: "nodes_inv ?self ?sn (directPeers now s) (heardNodes E now s) {} (withHeartbeats E now s (withPeers now s ?n1))"
    by (simp add: heardNodes_def withHeartbeats_def split: sum.splits)
  from overlay_inv [OF b] b show ?thesis
    by (simp add: mergeNodes_def withOverlay_def registeredNodes_def split: option.splits)
qed

lemma defaultName_keeps [simp]:
  "mn_Identity (defaultName n) = mn_Identity n" "mn_Self (defaultName n) = mn_Self n" "mn_DirectPeer (defaultName n) = mn_DirectPeer n"
  "mn_Heartbeat (defaultName n) = mn_Heartbeat n" "mn_Overlay (defaultName n) = mn_Overlay n"
  by (simp_all add: defaultName_def)

lemma selfNode_flags [simp]:
  "mn_Identity (selfNode E now s) = an_identityPub s" "mn_Self (selfNode E now s)"
  by (simp_all add: selfNode_def newMeshNode_def)

text \<open>The reply lists the merged table, named and sorted: what one entry says, which identities there are, who comes first.\<close>

lemma merged_entry:
  assumes "(k, m) \<in> set (mergeNodes E now s)"
  shows "mn_Identity m = k \<and> (k = an_identityPub s \<and> m = selfNode E now s \<or> k \<noteq> an_identityPub s \<and> \<not> mn_Self m
    \<and> (mn_DirectPeer m \<longleftrightarrow> k \<in> directPeers now s) \<and> (mn_Heartbeat m \<longleftrightarrow> k \<in> heardNodes E now s)
    \<and> (mn_Overlay m \<longleftrightarrow> k \<in> registeredNodes E s))"
proof -
  note inv = mergeNodes_inv [of s E now]
  then have "map_of (mergeNodes E now s) k = Some m" using assms by (simp add: nodes_inv_def)
  with inv show ?thesis unfolding nodes_inv_def by (cases "k = an_identityPub s") auto
qed

lemma merged_identities:
  "map (mn_Identity \<circ> (defaultName \<circ> snd)) (mergeNodes E now s) = map fst (mergeNodes E now s)"
  by (auto intro!: map_cong dest: merged_entry)

lemma sorted_rank_name:
  "sorted_wrt (\<lambda>a b. sortRank a < sortRank b \<or> sortRank a = sortRank b \<and> mn_Name a \<le> mn_Name b)
     (sort_key (\<lambda>n. (sortRank n, mn_Name n)) ns)"
proof -
  have "sorted_wrt (\<lambda>a b. (sortRank a, mn_Name a) \<le> (sortRank b, mn_Name b)) (sort_key (\<lambda>n. (sortRank n, mn_Name n)) ns)"
    using sorted_sort_key [of "\<lambda>n. (sortRank n, mn_Name n)" ns] by (simp add: sorted_map)
  then show ?thesis by (rule sorted_wrt_mono_rel [rotated]) (auto simp: less_eq_prod_def)
qed

lemma only_self_first:
  assumes sorted: "sorted_wrt (\<lambda>a b. sortRank a < sortRank b \<or> sortRank a = sortRank b \<and> mn_Name a \<le> mn_Name b) ns"
    and self: "n \<in> set ns" "mn_Self n" and only: "\<And>m. m \<in> set ns \<Longrightarrow> mn_Self m \<Longrightarrow> m = n"
  shows "hd ns = n"
proof (cases ns)
  case (Cons h t)
  have "sortRank n = 0" using self(2) by (simp add: sortRank_def)
  then have "h = n \<or> sortRank h = 0" using sorted self(1) Cons by fastforce
  then have "h = n \<or> mn_Self h" by (auto simp: sortRank_def split: if_splits)
  then show ?thesis using only Cons by auto
qed (use self in simp)

text \<open>
  C19: the node list merges its three sources without losing or inventing a node. \<^verbatim>\<open>GET /mesh/nodes\<close> shows
  each identity once: this node first, and then, in the order of their rank and name, exactly the
  connected peers, the senders of a readable heartbeat and the registered identities; the flags of every
  other node say in which of the three sources it was found.
\<close>

theorem mesh_nodes_merged:
  assumes "handleMeshNodes E now s = Reply 200 (ns, cnt)"
  shows "cnt = length ns \<and> distinct (map mn_Identity ns)
    \<and> hd ns = defaultName (selfNode E now s) \<and> (\<forall>n \<in> set (tl ns). \<not> mn_Self n)
    \<and> sorted_wrt (\<lambda>a b. sortRank a < sortRank b \<or> sortRank a = sortRank b \<and> mn_Name a \<le> mn_Name b) ns
    \<and> mn_Identity ` set ns = insert (an_identityPub s) (directPeers now s \<union> heardNodes E now s \<union> registeredNodes E s)
    \<and> (\<forall>n \<in> set (tl ns). (mn_DirectPeer n \<longleftrightarrow> mn_Identity n \<in> directPeers now s)
        \<and> (mn_Heartbeat n \<longleftrightarrow> mn_Identity n \<in> heardNodes E now s) \<and> (mn_Overlay n \<longleftrightarrow> mn_Identity n \<in> registeredNodes E s))"
proof -
  let ?self = "an_identityPub s" and ?sn = "selfNode E now s" and ?M = "mergeNodes E now s"
  from assms have ns: "ns = sort_key (\<lambda>n. (sortRank n, mn_Name n)) (map (defaultName \<circ> snd) ?M)" "cnt = length ns"
    by (auto simp: handleMeshNodes_def Let_def)
  note inv = mergeNodes_inv [of s E now, unfolded nodes_inv_def]
  have node: "n = defaultName ?sn \<or> mn_Identity n \<noteq> ?self \<and> \<not> mn_Self n
      \<and> (mn_DirectPeer n \<longleftrightarrow> mn_Identity n \<in> directPeers now s) \<and> (mn_Heartbeat n \<longleftrightarrow> mn_Identity n \<in> heardNodes E now s)
      \<and> (mn_Overlay n \<longleftrightarrow> mn_Identity n \<in> registeredNodes E s)" if "n \<in> set ns" for n
    using that ns(1) merged_entry [of _ _ E now s] by fastforce
  have "mset (map mn_Identity ns) = mset (map (mn_Identity \<circ> (defaultName \<circ> snd)) ?M)" by (simp add: ns(1) multiset.map_comp)
  then have mset: "mset (map mn_Identity ns) = mset (map fst ?M)" by (simp only: merged_identities)
  then have d: "distinct (map mn_Identity ns)" using inv mset_eq_imp_distinct_iff by metis
  have all: "mn_Identity ` set ns = insert ?self (directPeers now s \<union> heardNodes E now s \<union> registeredNodes E s)"
    using arg_cong [OF mset, of set_mset] inv by simp
  have sorted: "sorted_wrt (\<lambda>a b. sortRank a < sortRank b \<or> sortRank a = sortRank b \<and> mn_Name a \<le> mn_Name b) ns"
    unfolding ns(1) by (rule sorted_rank_name)
  have "(?self, ?sn) \<in> set ?M" using inv by (auto dest: map_of_SomeD)
  then have self_in: "defaultName ?sn \<in> set ns" by (auto simp: ns(1) intro: rev_image_eqI)
  have h: "hd ns = defaultName ?sn" by (rule only_self_first [OF sorted self_in]) (use node in auto)
  with self_in obtain t where t: "ns = defaultName ?sn # t" by (cases ns) auto
  with d have "?self \<notin> mn_Identity ` set t" by simp
  then have "defaultName ?sn \<notin> set t" by force
  with node t have "\<forall>n \<in> set t. \<not> mn_Self n \<and> (mn_DirectPeer n \<longleftrightarrow> mn_Identity n \<in> directPeers now s)
      \<and> (mn_Heartbeat n \<longleftrightarrow> mn_Identity n \<in> heardNodes E now s) \<and> (mn_Overlay n \<longleftrightarrow> mn_Identity n \<in> registeredNodes E s)" by auto
  with ns(2) d h t sorted all show ?thesis by simp
qed

definition demo_node_server :: "(envelope json mem_db, dir_value mem_db, bytes mem_db, WatchHit json mem_db, unit,
    (envelope json mem_db, dir_value mem_db directory) manager) server" where
  "demo_node_server = \<lparr>envelopeStore = \<lparr>es_db = [], ephemeral = [], maxEphemeralTTL = 100, maxDurableSize = 100\<rparr>,
     storeConfigured = True, overlayDirectory = Some \<lparr>dir_db = [], ttl = 0\<rparr>, proofStore = [], validator = None, proofFetcher = None,
     broadcaster = None, gossipMgr = None, rateLimiter = None, paymentGate = None, tokenGate = False, authToken = ''T'',
     nodeName = ''n'', explorerOrigin = [], publicURL = [], sseHub = newEnvelopeHub, mempoolWatcher = None\<rparr>"

definition demo_api_node :: "(envelope json mem_db, dir_value mem_db, bytes mem_db, WatchHit json mem_db, unit, bytes mem_db, nat) api_node" where
  "demo_api_node = \<lparr>an_server = demo_node_server, an_headers = \<lparr>hs_db = [], tip = 0, work = 0, skipPoW = False\<rparr>, an_identityPub = ''02aa'', an_bond = None,
     an_content = NewContentServer [] NilIface NilIface 0, an_topicCache = newTopicCache 10, an_sync = None, an_proofSource = []\<rparr>"

definition demo_status_env :: "(envelope json mem_db, dir_value mem_db, bytes mem_db, bytes mem_db) status_env" where
  "demo_status_env = \<lparr>se_ops = mem_ops, se_dir = mem_ops, se_proof = mem_ops, se_hdr = mem_ops, se_wire = demo_wire, se_heartbeat = (\<lambda>_. None)\<rparr>"

theorem mesh_nodes_merged_witness:
  "\<exists>ns. handleMeshNodes demo_status_env 0 demo_api_node = Reply 200 (ns, length ns) \<and> distinct (map mn_Identity ns)
     \<and> hd ns = defaultName (selfNode demo_status_env 0 demo_api_node)
     \<and> ''02aa'' \<in> mn_Identity ` set ns"
proof -
  obtain ns where ns: "handleMeshNodes demo_status_env 0 demo_api_node = Reply 200 (ns, length ns)"
    by (auto simp: handleMeshNodes_def Let_def)
  have "an_identityPub demo_api_node = ''02aa''" by (simp add: demo_api_node_def)
  with ns mesh_nodes_merged [OF ns] show ?thesis by auto
qed

section \<open>The topic cache\<close>

text \<open>
  The cache is filled again only after its lifetime, so that the store is scanned at most once per
  lifetime, and what it answers is never older than that.
\<close>

lemma topicCacheGet_bound:
  "topicCacheGet now c l tc \<noteq> tc \<Longrightarrow> tc_updated tc = Some t \<Longrightarrow> tc_ttl tc \<le> now - t"
  "0 < tc_ttl tc \<Longrightarrow> \<exists>u. tc_updated (topicCacheGet now c l tc) = Some u \<and> now - u < tc_ttl tc"
  by (auto simp: topicCacheGet_def split: if_splits option.splits)

lemma topicNames_Topics: "set (topicNames ops now s) = dom (Topics ops now s)"
proof -
  have "dom (fold topics_step es m) = Topic ` set es \<union> dom m" for es m
    by (induction es arbitrary: m) (auto simp: topics_step_def)
  then show ?thesis by (simp add: topicNames_def Topics_def)
qed

text \<open>
  The manifest offers the header chain free of charge whatever the payment gate asks for that path.
\<close>

lemma manifest_says_free:
  "handleAnvilManifest E now s = Reply 200 m
    \<Longrightarrow> \<exists>c \<in> set (mf_Capabilities m). cap_Access c = ''GET /headers/tip'' \<and> cap_Payment c = ''free''"
  by (auto simp: handleAnvilManifest_def Let_def)

end
