(* ===== verification/Routes.thy ===== *)
theory Routes
  imports Status Wallet
begin

text \<open>
  The rest of \<^verbatim>\<open>internal/api/server.go\<close>: \<^verbatim>\<open>NewServer\<close> and the route table, with the tables that the wallet and
  the overlay engine add to the same multiplexer. A route is written as in the source, as pattern, guard and
  handler; patterns are those of Go's \<^verbatim>\<open>http.ServeMux\<close>. Requests reach it with a clean path: the redirect
  of other paths is done by \<^verbatim>\<open>net/http\<close>.
\<close>

section \<open>Construction\<close>

record ('e, 'd, 'p, 'w, 'n, 'h, 'tx) ServerConfig =
  cfg_HeaderStore :: "'h header_store"
  cfg_ProofStore :: 'p
  cfg_EnvelopeStore :: "'e envelope_store option"
  cfg_EmptyStore :: "'e envelope_store" \<comment> \<open>what stands for the nil store\<close>
  cfg_OverlayDir :: "'d directory option"
  cfg_Validator :: "ValidationStats option"
  cfg_Broadcaster :: "Broadcaster option"
  cfg_GossipMgr :: "('e, 'd directory) manager option"
  cfg_AuthToken :: string
  cfg_RateLimit :: int
  cfg_TrustProxy :: bool
  cfg_PaymentSatoshis :: int
  cfg_PayeeScriptHex :: string
  cfg_NonceProvider :: "'n option"
  cfg_AllowPassthrough :: bool
  cfg_AllowSplit :: bool
  cfg_AllowTokenGating :: bool
  cfg_MaxAppPriceSats :: int
  cfg_EndpointPrices :: "string \<rightharpoonup> int"
  cfg_ARCClient :: "ARCClient option"
  cfg_RequireMempool :: bool
  cfg_NodeName :: string
  cfg_IdentityPub :: string
  cfg_BondChecker :: "Checker option"
  cfg_P2PTxSource :: "'tx TxFetcher iface"
  cfg_P2PBlockSource :: "BlockTxFetcher iface"
  cfg_Nonce :: "64 word"
  cfg_ExplorerOrigin :: string
  cfg_PublicURL :: string
  cfg_SyncStatus :: "sync_stats option"
  cfg_SPVProofSource :: string
  cfg_Watcher :: "'w watcher option"
  cfg_ProofFetcher :: "ProofFetcher option"

definition trim_right :: "char \<Rightarrow> string \<Rightarrow> string" where
  \<comment> \<open>\<^verbatim>\<open>strings.TrimRight\<close> with one character\<close>
  "trim_right c s = rev (dropWhile (\<lambda>x. x = c) (rev s))"

definition NewServer :: "('e, 'd, 'p, 'w, 'n, 'h, 'tx) ServerConfig \<Rightarrow> ('e, 'd, 'p, 'w, 'n, 'h, 'tx) api_node" where
  "NewServer cfg =
     \<lparr>an_server =
       \<lparr>envelopeStore = (case cfg_EnvelopeStore cfg of None \<Rightarrow> cfg_EmptyStore cfg | Some s \<Rightarrow> s),
        storeConfigured = (cfg_EnvelopeStore cfg \<noteq> None), overlayDirectory = cfg_OverlayDir cfg, proofStore = cfg_ProofStore cfg,
        validator = cfg_Validator cfg, proofFetcher = cfg_ProofFetcher cfg, broadcaster = cfg_Broadcaster cfg, gossipMgr = cfg_GossipMgr cfg,
        rateLimiter = (if cfg_RateLimit cfg > 0 then Some (NewRateLimiter (cfg_RateLimit cfg) (cfg_TrustProxy cfg)) else None),
        paymentGate = NewPaymentGate \<lparr>pg_PriceSats = cfg_PaymentSatoshis cfg, pg_PayeeScriptHex = cfg_PayeeScriptHex cfg,
          pg_NonceProvider = cfg_NonceProvider cfg, pg_ChallengeTTL = 0, pg_RequireMempool = cfg_RequireMempool cfg, pg_ARCClient = cfg_ARCClient cfg,
          pg_Resolver = (cfg_EnvelopeStore cfg \<noteq> None), pg_AllowPassthrough = cfg_AllowPassthrough cfg, pg_AllowSplit = cfg_AllowSplit cfg,
          pg_MaxAppPriceSats = cfg_MaxAppPriceSats cfg, pg_EndpointPrices = cfg_EndpointPrices cfg\<rparr>,
        tokenGate = NewTokenGate (cfg_EnvelopeStore cfg \<noteq> None) (cfg_AllowTokenGating cfg), authToken = cfg_AuthToken cfg,
        nodeName = (if cfg_NodeName cfg = [] then ''anvil'' else cfg_NodeName cfg), explorerOrigin = cfg_ExplorerOrigin cfg,
        publicURL = trim_right (CHR ''/'') (cfg_PublicURL cfg), sseHub = newEnvelopeHub, mempoolWatcher = cfg_Watcher cfg\<rparr>,
      an_headers = cfg_HeaderStore cfg, an_identityPub = cfg_IdentityPub cfg, an_bond = cfg_BondChecker cfg,
      an_content = NewContentServer [] (cfg_P2PTxSource cfg) (cfg_P2PBlockSource cfg) (cfg_Nonce cfg),
      an_topicCache = newTopicCache (10 * second), an_sync = cfg_SyncStatus cfg, an_proofSource = cfg_SPVProofSource cfg\<rparr>"

section \<open>The route tables\<close>

datatype guard = Cors | OpenRead | RequireAuth | AuthOrPay

datatype handler =
    RootRedirect | HandleStatus | HandleStats | HandleMeshStatus | HandleMeshNodes | HandleHeadersTip | HandleGetBEEF | HandleQueryData
  | HandleSubscribe | HandleDeleteData | HandleOverlayLookup | HandleX402Discovery | HandleX402Info | HandleAnvilManifest | HandleIdentity
  | HandleAppRedirect | HandleExplorer | HandleBootstrapBlock | HandleServeContent | HandleAddWatch | HandleRemoveWatch | HandleListWatch
  | HandleWatchHistory | HandleWatchSubscribe | HandleBroadcast | HandlePostData | HandleNothing | HandleOverlayRegister | HandleOverlayDeregister
  | HandleInvoice | HandleGetInvoice | HandleSend | HandleInternalize | HandleListOutputs | HandleScan | HandleCreateAction | HandleSignAction
  | HandleSubmit | HandleLookup | HandleListTopics | HandleListServices

type_synonym route = "string \<times> guard \<times> handler"

definition routes :: "route list" where
  "routes = [
     (''GET /{$}'', Cors, RootRedirect),
     (''GET /status'', OpenRead, HandleStatus),
     (''GET /stats'', OpenRead, HandleStats),
     (''GET /mesh/status'', Cors, HandleMeshStatus),
     (''GET /mesh/nodes'', Cors, HandleMeshNodes),
     (''GET /headers/tip'', OpenRead, HandleHeadersTip),
     (''GET /tx/{txid}/beef'', OpenRead, HandleGetBEEF),
     (''GET /data'', OpenRead, HandleQueryData),
     (''GET /data/subscribe'', OpenRead, HandleSubscribe),
     (''DELETE /data'', RequireAuth, HandleDeleteData),
     (''GET /overlay/lookup'', OpenRead, HandleOverlayLookup),
     (''GET /.well-known/x402'', Cors, HandleX402Discovery),
     (''GET /.well-known/x402-info'', Cors, HandleX402Info),
     (''GET /.well-known/anvil'', Cors, HandleAnvilManifest),
     (''GET /.well-known/identity'', Cors, HandleIdentity),
     (''GET /app/{name}'', Cors, HandleAppRedirect),
     (''GET /explorer'', Cors, HandleExplorer),
     (''POST /bootstrap/block/{blockHash}'', RequireAuth, HandleBootstrapBlock),
     (''GET /content/{origin}'', OpenRead, HandleServeContent),
     (''POST /mempool/watch'', RequireAuth, HandleAddWatch),
     (''DELETE /mempool/watch'', RequireAuth, HandleRemoveWatch),
     (''GET /mempool/watch'', OpenRead, HandleListWatch),
     (''GET /mempool/watch/history'', OpenRead, HandleWatchHistory),
     (''GET /mempool/watch/subscribe'', OpenRead, HandleWatchSubscribe),
     (''POST /broadcast'', RequireAuth, HandleBroadcast),
     (''POST /data'', AuthOrPay, HandlePostData),
     (''OPTIONS /data'', Cors, HandleNothing),
     (''POST /overlay/register'', RequireAuth, HandleOverlayRegister),
     (''POST /overlay/deregister'', RequireAuth, HandleOverlayDeregister)]"

definition walletRoutes :: "route list" where
  "walletRoutes = [
     (''POST /wallet/invoice'', RequireAuth, HandleInvoice),
     (''GET /wallet/invoice/{id}'', RequireAuth, HandleGetInvoice),
     (''POST /wallet/send'', RequireAuth, HandleSend),
     (''POST /wallet/internalize'', RequireAuth, HandleInternalize),
     (''GET /wallet/outputs'', RequireAuth, HandleListOutputs),
     (''POST /wallet/scan'', RequireAuth, HandleScan),
     (''POST /wallet/create-action'', RequireAuth, HandleCreateAction),
     (''POST /wallet/sign-action'', RequireAuth, HandleSignAction)]"

definition overlayRoutes :: "route list" where
  "overlayRoutes = [
     (''POST /overlay/submit'', Cors, HandleSubmit),
     (''POST /overlay/query'', Cors, HandleLookup),
     (''GET /overlay/topics'', Cors, HandleListTopics),
     (''GET /overlay/services'', Cors, HandleListServices),
     (''OPTIONS /overlay/submit'', Cors, HandleNothing),
     (''OPTIONS /overlay/query'', Cors, HandleNothing)]"

section \<open>The multiplexer\<close>

datatype seg = Lit string | Wild | Dollar

definition parseSeg :: "string \<Rightarrow> seg" where
  "parseSeg s = (if s = ''{$}'' then Dollar else if s \<noteq> [] \<and> hd s = CHR ''{'' then Wild else Lit s)"

definition parsePattern :: "string \<Rightarrow> string \<times> seg list" where
  \<comment> \<open>method and segments of the path\<close>
  "parsePattern p = (case cut (CHR '' '') p of (m, path) \<Rightarrow> (m, map parseSeg (drop 1 (split_on (CHR ''/'') path))))"

fun matchSegs :: "seg list \<Rightarrow> string list \<Rightarrow> bool" where
  "matchSegs [] [] = True"
| "matchSegs (Lit l # p) (s # ss) = (l = s \<and> matchSegs p ss)"
| "matchSegs (Wild # p) (s # ss) = (s \<noteq> [] \<and> matchSegs p ss)"
| "matchSegs (Dollar # p) (s # ss) = (s = [] \<and> p = [] \<and> ss = [])"
| "matchSegs _ _ = False"

definition matchMethod :: "string \<Rightarrow> string \<Rightarrow> bool" where
  \<comment> \<open>a pattern for GET also matches HEAD\<close>
  "matchMethod m req = (m = req \<or> m = ''GET'' \<and> req = ''HEAD'')"

definition matchRoute :: "string \<Rightarrow> string \<Rightarrow> route \<Rightarrow> bool" where
  "matchRoute meth path rt =
     (case parsePattern (fst rt) of (m, segs) \<Rightarrow> matchMethod m meth \<and> matchSegs segs (drop 1 (split_on (CHR ''/'') path)))"

fun wildValue :: "seg list \<Rightarrow> string list \<Rightarrow> string" where
  \<comment> \<open>\<^verbatim>\<open>r.PathValue\<close>: every pattern has at most one wildcard\<close>
  "wildValue (Wild # p) (s # ss) = s"
| "wildValue (_ # p) (s # ss) = wildValue p ss"
| "wildValue _ _ = []"

definition pathValue :: "route \<Rightarrow> string \<Rightarrow> string" where
  "pathValue rt path = wildValue (snd (parsePattern (fst rt))) (drop 1 (split_on (CHR ''/'') path))"


section \<open>Serving a request\<close>

text \<open>
  One request at the API server: the route, its guard, and the handler on the state the guard left. Of
  the answer only the status is kept, 0 for a panic. The streams are opened, their rounds are separate
  steps. \<open>se_now'\<close> is the clock when the content cache is trimmed.
\<close>

record ('e, 'd, 'p, 'w, 'n, 'h, 'tx, 'sk, 'pk, 'sig, 'mp, 'bk, 'bp) serve_env =
  sv_api :: "('e, 'd, 'p, 'w, 'n, ('e, 'd directory) manager, 'sk, 'pk, 'sig, 'mp, 'bk, 'bp) api_env"
  sv_status :: "('e, 'd, 'p, 'h) status_env"
  sv_content :: "'tx content_env"
  sv_now :: int
  sv_now' :: int
  sv_flush :: bool
  sv_chan :: chan
  sv_stored :: bool

fun reply_status :: "'a reply \<Rightarrow> nat" where
  "reply_status (Reply c _) = c"
| "reply_status (ReplyError c _) = c"
| "reply_status (Redirect c _) = c"
| "reply_status ReplyPanic = 0"

definition runGuard :: "('e, 'd, 'p, 'w, 'n, 'g, 'sk, 'pk, 'sig, 'mp, 'bk, 'bp) api_env \<Rightarrow> int \<Rightarrow> guard \<Rightarrow> http_request \<Rightarrow> ('e, 'd, 'p, 'w, 'n, 'g) server
    \<Rightarrow> mw \<times> ('e, 'd, 'p, 'w, 'n, 'g) server" where
  "runGuard A now g r s =
     (case g of
        Cors \<Rightarrow> (if cors r then Pass r None else StopPreflight, s)
      | OpenRead \<Rightarrow> openRead A now r s
      | RequireAuth \<Rightarrow> (case requireAuth (authToken s) r of Preflight \<Rightarrow> StopPreflight | Denied st msg \<Rightarrow> Stop st msg | Next \<Rightarrow> Pass r None, s)
      | AuthOrPay \<Rightarrow> authOrPay A now r s)"

definition onServer :: "('a reply \<times> ('e, 'd, 'p, 'w, 'n, ('e, 'd directory) manager) server) \<Rightarrow> ('e, 'd, 'p, 'w, 'n, 'h, 'tx) api_node
    \<Rightarrow> nat \<times> ('e, 'd, 'p, 'w, 'n, 'h, 'tx) api_node" where
  "onServer res n = (reply_status (fst res), n\<lparr>an_server := snd res\<rparr>)"

definition onContent :: "('a reply \<times> 'tx content_server) \<Rightarrow> ('e, 'd, 'p, 'w, 'n, 'h, 'tx) api_node \<Rightarrow> nat \<times> ('e, 'd, 'p, 'w, 'n, 'h, 'tx) api_node" where
  "onContent res n = (reply_status (fst res), n\<lparr>an_content := snd res\<rparr>)"

definition runHandler :: "('e, 'd, 'p, 'w, 'n, 'h, 'tx, 'sk, 'pk, 'sig, 'mp, 'bk, 'bp) serve_env \<Rightarrow> handler \<Rightarrow> http_request \<Rightarrow> string
    \<Rightarrow> ('e, 'd, 'p, 'w, 'n, 'h, 'tx) api_node \<Rightarrow> nat \<times> ('e, 'd, 'p, 'w, 'n, 'h, 'tx) api_node" where
  \<comment> \<open>the handlers of \<^term>\<open>routes\<close>; \<open>v\<close> is the path value\<close>
  "runHandler X h r v n =
     (let A = sv_api X; E = sv_status X; now = sv_now X; s = an_server n in
      case h of
        HandleStatus \<Rightarrow> (reply_status (handleStatus E now (sv_stored X) n), n)
      | HandleStats \<Rightarrow> (case handleStats E now (sv_stored X) n of (rep, n') \<Rightarrow> (reply_status rep, n'))
      | HandleMeshStatus \<Rightarrow> (case handleMeshStatus E now n of (rep, n') \<Rightarrow> (reply_status rep, n'))
      | HandleMeshNodes \<Rightarrow> (reply_status (handleMeshNodes E now n), n)
      | HandleHeadersTip \<Rightarrow> (reply_status (handleHeadersTip E n), n)
      | HandleGetBEEF \<Rightarrow> onServer (handleGetBEEF A now s r v) n
      | HandleQueryData \<Rightarrow> (reply_status (handleQueryData A now s r), n)
      | HandleSubscribe \<Rightarrow> onServer (handleSubscribe (sv_flush X) (sv_chan X) s r) n
      | HandleDeleteData \<Rightarrow> onServer (handleDeleteData A s r) n
      | HandleOverlayLookup \<Rightarrow> (reply_status (handleOverlayLookup A s r), n)
      | HandleX402Discovery \<Rightarrow> (reply_status (handleX402Discovery s), n)
      | HandleX402Info \<Rightarrow> (reply_status (handleX402Info n r), n)
      | HandleAnvilManifest \<Rightarrow> (reply_status (handleAnvilManifest E now n), n)
      | HandleIdentity \<Rightarrow> (reply_status (handleIdentity n), n)
      | HandleAppRedirect \<Rightarrow> (reply_status (handleAppRedirect A now s v), n)
      | HandleExplorer \<Rightarrow> (reply_status (handleAppRedirectWithFallback A now s ''Anvil Explorer'' (explorerOrigin s)), n)
      | HandleBootstrapBlock \<Rightarrow> onContent (BootstrapBlock (sv_content X) (an_content n) v) n
      | HandleServeContent \<Rightarrow> onContent (ServeContent (sv_content X) now (sv_now' X) (an_content n) v) n
      | HandleAddWatch \<Rightarrow> onServer (handleAddWatch A s r) n
      | HandleRemoveWatch \<Rightarrow> onServer (handleRemoveWatch A s r) n
      | HandleListWatch \<Rightarrow> (reply_status (handleListWatch s), n)
      | HandleWatchHistory \<Rightarrow> (reply_status (handleWatchHistory A s r), n)
      | HandleWatchSubscribe \<Rightarrow> onServer (handleWatchSubscribe (sv_flush X) (sv_chan X) s r) n
      | HandleBroadcast \<Rightarrow> onServer (handleBroadcast A now s r) n
      | HandlePostData \<Rightarrow> onServer (handlePostData A now s r) n
      | HandleOverlayRegister \<Rightarrow> onServer (handleOverlayRegister A now s r) n
      | HandleOverlayDeregister \<Rightarrow> onServer (handleOverlayDeregister A s r) n
      | RootRedirect \<Rightarrow> (302, n)
      | _ \<Rightarrow> (200, n))"

definition serve :: "('e, 'd, 'p, 'w, 'n, 'h, 'tx, 'sk, 'pk, 'sig, 'mp, 'bk, 'bp) serve_env \<Rightarrow> http_request
    \<Rightarrow> ('e, 'd, 'p, 'w, 'n, 'h, 'tx) api_node \<Rightarrow> nat \<times> ('e, 'd, 'p, 'w, 'n, 'h, 'tx) api_node" where
  "serve X r n =
     (case find (matchRoute (Method r) (URLPath r)) routes of
        None \<Rightarrow> (if list_ex (\<lambda>rt. matchRoute (fst (parsePattern (fst rt))) (URLPath r) rt) routes then 405 else 404, n)
      | Some rt \<Rightarrow>
         (case runGuard (sv_api X) (sv_now X) (fst (snd rt)) r (an_server n) of
            (Pass r' _, s) \<Rightarrow> runHandler X (snd (snd rt)) r' (pathValue rt (URLPath r)) (n\<lparr>an_server := s\<rparr>)
          | (Stop st _, s) \<Rightarrow> (st, n\<lparr>an_server := s\<rparr>)
          | (StopChallenge _, s) \<Rightarrow> (402, n\<lparr>an_server := s\<rparr>)
          | (StopPreflight, s) \<Rightarrow> (204, n\<lparr>an_server := s\<rparr>)))"

end
