(* ===== verification/Routes_Safety.thy ===== *)
theory Routes_Safety
  imports Routes Status_Safety
begin

text \<open>
  The route table is well formed, and what a client without the operator's token can change.
\<close>

section \<open>Patterns\<close>

fun overlap :: "seg list \<Rightarrow> seg list \<Rightarrow> bool" where
  \<comment> \<open>a path may match both\<close>
  "overlap [] [] = True"
| "overlap (Lit l # p) (Lit m # q) = (l = m \<and> overlap p q)"
| "overlap (Lit l # p) (Wild # q) = (l \<noteq> [] \<and> overlap p q)"
| "overlap (Wild # p) (Lit l # q) = (l \<noteq> [] \<and> overlap p q)"
| "overlap (Wild # p) (Wild # q) = overlap p q"
| "overlap (Dollar # p) (Dollar # q) = True"
| "overlap (Dollar # p) (Lit l # q) = (l = [])"
| "overlap (Lit l # p) (Dollar # q) = (l = [])"
| "overlap _ _ = False"

lemma matchSegs_Cons:
  "matchSegs q (s # ss) \<longleftrightarrow> (\<exists>x p. q = x # p \<and> (case x of Lit l \<Rightarrow> l = s \<and> matchSegs p ss | Wild \<Rightarrow> s \<noteq> [] \<and> matchSegs p ss
     | Dollar \<Rightarrow> s = [] \<and> p = [] \<and> ss = []))"
  by (cases q) (auto split: seg.splits)

lemma matchSegs_Nil: "matchSegs q [] \<longleftrightarrow> q = []"
  by (cases q rule: list.exhaust) (auto elim: matchSegs.elims)

lemma overlap_sound: "matchSegs p ss \<Longrightarrow> matchSegs q ss \<Longrightarrow> overlap p q"
proof (induction ss arbitrary: p q)
  case (Cons s ss)
  then obtain x p' y q' where "p = x # p'" "q = y # q'" unfolding matchSegs_Cons by blast
  with Cons show ?case by (cases x; cases y) (auto simp: matchSegs_Nil)
qed (simp add: matchSegs_Nil)

definition patterns_apart :: "string \<times> seg list \<Rightarrow> string \<times> seg list \<Rightarrow> bool" where
  "patterns_apart a b \<longleftrightarrow> (case (a, b) of
     ((m, p), (n, q)) \<Rightarrow> (m \<noteq> n \<and> \<not> (m = ''GET'' \<and> n = ''HEAD'' \<or> m = ''HEAD'' \<and> n = ''GET'')) \<or> \<not> overlap p q)"

definition apart :: "route \<Rightarrow> route \<Rightarrow> bool" where
  "apart a b \<longleftrightarrow> patterns_apart (parsePattern (fst a)) (parsePattern (fst b))"

lemma apart_sound: "apart a b \<Longrightarrow> \<not> (matchRoute meth path a \<and> matchRoute meth path b)"
  by (auto simp: apart_def patterns_apart_def matchRoute_def matchMethod_def split: prod.splits dest: overlap_sound)

lemma apart_unique: "sorted_wrt apart rs \<Longrightarrow> length (filter (matchRoute meth path) rs) \<le> 1"
proof (induction rs)
  case (Cons rt rs)
  show ?case
  proof (cases "matchRoute meth path rt")
    case True
    then have "filter (matchRoute meth path) rs = []" using Cons.prems apart_sound [of rt _ meth path] by (auto simp: filter_empty_conv)
    with True show ?thesis by simp
  qed (use Cons in simp)
qed simp

definition pattern_ok :: "string \<Rightarrow> bool" where
  \<comment> \<open>a method, a blank and a rooted path, in which a wildcard is a whole segment, \<^verbatim>\<open>{$}\<close> the last one, and
     no segment is empty\<close>
  "pattern_ok p \<longleftrightarrow> (case cut (CHR '' '') p of (m, path) \<Rightarrow>
     m \<in> {''GET'', ''POST'', ''DELETE'', ''OPTIONS''} \<and> path \<noteq> [] \<and> hd path = CHR ''/''
     \<and> list_all (\<lambda>s. s \<noteq> [] \<and> (CHR ''{'' \<in> set s \<or> CHR ''}'' \<in> set s \<longrightarrow> hd s = CHR ''{'' \<and> last s = CHR ''}'' \<and> CHR ''{'' \<notin> set (tl s)))
          (drop 1 (split_on (CHR ''/'') path))
     \<and> list_all (\<lambda>s. s \<noteq> ''{$}'') (butlast (drop 1 (split_on (CHR ''/'') path))))"

definition allRoutes :: "route list" where
  "allRoutes = routes @ walletRoutes @ overlayRoutes"

lemma allRoutes_apart: "sorted_wrt apart allRoutes"
proof -
  have "sorted_wrt patterns_apart (map (parsePattern \<circ> fst) allRoutes)" by code_simp
  then show ?thesis by (simp add: sorted_wrt_map apart_def [abs_def])
qed

lemma allRoutes_patterns: "list_all (pattern_ok \<circ> fst) allRoutes"
  by code_simp


text \<open>
  C18: the route tables of the server, the wallet and the overlay engine are well formed together. Every
  pattern is one that \<^verbatim>\<open>ServeMux\<close> accepts, and no request matches two of them, so that registering
  them on one multiplexer does not panic and the handler of a request does not depend on the order of
  registration.
\<close>

theorem routes_well_formed:
  "list_all (pattern_ok \<circ> fst) allRoutes \<and> length (filter (matchRoute meth path) allRoutes) \<le> 1"
  using allRoutes_patterns apart_unique [OF allRoutes_apart] by blast

text \<open>
  No pattern but that of \<^verbatim>\<open>/data\<close>, \<^verbatim>\<open>/overlay/submit\<close> and \<^verbatim>\<open>/overlay/query\<close> matches a preflight request: the
  branch of \<^verbatim>\<open>cors\<close> that answers it is not reached for the other paths.
\<close>

lemma preflight_unanswered:
  "\<not> list_ex (matchRoute ''OPTIONS'' ''/tx/00/beef'') allRoutes" "\<not> list_ex (matchRoute ''OPTIONS'' ''/broadcast'') allRoutes"
  by code_simp+

section \<open>Who may write\<close>

lemma find_SomeD: "find P xs = Some x \<Longrightarrow> x \<in> set xs \<and> P x"
  by (auto simp: find_Some_iff)

lemma openRead_keeps:
  assumes "openRead A now r s = (out, s')"
  shows "overlayDirectory s' = overlayDirectory s \<and> broadcaster s' = broadcaster s \<and> mempoolWatcher s' = mempoolWatcher s
    \<and> envelopeStore s' = envelopeStore s \<and> authToken s' = authToken s"
  using assms by (auto simp: openRead_def runRateLimit_def runTokenGate_def runPaymentGate_def split: if_splits option.splits prod.splits mw.splits gate.splits)

lemma authOrPay_keeps:
  assumes "authOrPay A now r s = (out, s')"
  shows "overlayDirectory s' = overlayDirectory s \<and> broadcaster s' = broadcaster s \<and> mempoolWatcher s' = mempoolWatcher s
    \<and> envelopeStore s' = envelopeStore s"
  using assms by (auto simp: authOrPay_def runPaymentGate_def Let_def split: if_splits option.splits prod.splits)

lemma requireAuth_token: "requireAuth tok r = Next \<longleftrightarrow> Method r \<noteq> ''OPTIONS'' \<and> tok \<noteq> [] \<and> bearerToken r = tok"
  by (auto simp: requireAuth_def bearerToken_def Let_def)

definition kept :: "('e, 'd, 'p, 'w, 'n, 'g) server \<Rightarrow> ('e, 'd, 'p, 'w, 'n, 'g) server \<Rightarrow> bool" where
  "kept s s' \<longleftrightarrow> overlayDirectory s' = overlayDirectory s \<and> broadcaster s' = broadcaster s
     \<and> map_option watches (mempoolWatcher s') = map_option watches (mempoolWatcher s) \<and> envelopeStore s' = envelopeStore s"

lemma kept_refl [simp]: "kept s s"
  by (simp add: kept_def)

lemma serveBEEF_kept: "kept s (snd (serveBEEF A now s r v b))"
  by (auto simp: kept_def serveBEEF_def split: option.splits prod.splits)

lemma validateFetched_kept: "validateFetched A now s b = (ok, s1) \<Longrightarrow> kept s s1"
  by (auto simp: kept_def validateFetched_def split: option.splits prod.splits)

lemma kept_trans: "kept s s1 \<Longrightarrow> kept s1 s2 \<Longrightarrow> kept s s2"
  by (simp add: kept_def)

lemma handleGetBEEF_kept: "kept s (snd (handleGetBEEF A now s r v))"
proof -
  have store: "kept s1 (case StoreBEEF (ae_beef A) (ae_proof_ops A) (proofStore s1) b of Inl _ \<Rightarrow> s1 | Inr (_, db) \<Rightarrow> s1\<lparr>proofStore := db\<rparr>)" for s1 b
    by (auto simp: kept_def split: sum.splits)
  have "kept s (snd (case validateFetched A now s b of
      (False, s1) \<Rightarrow> (ReplyError 404 ''fetched proof failed local header verification'', s1)
    | (True, s1) \<Rightarrow> (let s2 = (case StoreBEEF (ae_beef A) (ae_proof_ops A) (proofStore s1) b of
          Inl _ \<Rightarrow> s1 | Inr (_, db) \<Rightarrow> s1\<lparr>proofStore := db\<rparr>) in serveBEEF A now s2 r v b)))" for b
  proof (cases "validateFetched A now s b")
    case (Pair ok s1)
    with validateFetched_kept have k: "kept s s1" by blast
    show ?thesis
    proof (cases ok)
      case True
      with Pair show ?thesis using kept_trans [OF k kept_trans [OF store serveBEEF_kept]] by (simp add: Let_def)
    qed (use Pair k in simp)
  qed
  then show ?thesis using serveBEEF_kept [of s A now r v] by (simp add: handleGetBEEF_def split: sum.splits option.splits)
qed

lemma readers_keep:
  "kept s (snd (handleGetBEEF A now s r v))" "kept s (snd (handleSubscribe fl ch s r))" "kept s (snd (handleWatchSubscribe fl ch s r))"
  "kept (an_server n) (an_server (snd (handleStats E now st n)))" "kept (an_server n) (an_server (snd (handleMeshStatus E now n)))"
proof -
  show "kept s (snd (handleGetBEEF A now s r v))" by (rule handleGetBEEF_kept)
  show "kept s (snd (handleSubscribe fl ch s r))" by (simp add: kept_def handleSubscribe_def Let_def)
  show "kept s (snd (handleWatchSubscribe fl ch s r))"
    by (auto simp: kept_def handleWatchSubscribe_def SubscribeWatch_def split: option.splits)
  show "kept (an_server n) (an_server (snd (handleStats E now st n)))"
    by (auto simp: kept_def handleStats_def Let_def split: prod.splits option.splits)
  show "kept (an_server n) (an_server (snd (handleMeshStatus E now n)))"
    by (simp add: kept_def handleMeshStatus_def Let_def)
qed

definition guarded_handler :: "handler \<Rightarrow> bool" where
  "guarded_handler h \<longleftrightarrow> h \<in> {HandleDeleteData, HandleBootstrapBlock, HandleAddWatch, HandleRemoveWatch, HandleBroadcast,
     HandleOverlayRegister, HandleOverlayDeregister}"

lemma runHandler_kept:
  assumes "runHandler X h r v n = (st, n')" "\<not> guarded_handler h" "h \<noteq> HandlePostData"
  shows "kept (an_server n) (an_server n')"
  using assms
  by (cases h) (auto simp: runHandler_def Let_def onServer_def onContent_def guarded_handler_def case_prod_beta readers_keep)

lemma routes_guards:
  "list_all (\<lambda>(p, g, h). (guarded_handler h \<longrightarrow> g = RequireAuth) \<and> (h = HandlePostData \<longrightarrow> g = AuthOrPay \<and> p = ''POST /data'')) routes"
  by (simp add: routes_def guarded_handler_def)


lemma runGuard_kept:
  assumes "runGuard A now g r s = (out, s')"
  shows "kept s s'"
proof (cases g)
  case OpenRead
  with assms have "openRead A now r s = (out, s')" by (simp add: runGuard_def)
  from openRead_keeps [OF this] show ?thesis by (simp add: kept_def)
next
  case AuthOrPay
  with assms have "authOrPay A now r s = (out, s')" by (simp add: runGuard_def)
  from authOrPay_keeps [OF this] show ?thesis by (simp add: kept_def)
qed (use assms in \<open>simp_all add: runGuard_def\<close>)

lemma serve_cases:
  assumes "serve X r n = (st, n')"
  obtains (none) "n' = n"
    | (stopped) g out s where "runGuard (sv_api X) (sv_now X) g r (an_server n) = (out, s)" "n' = n\<lparr>an_server := s\<rparr>"
    | (served) rt r' rc s where "rt \<in> set routes" "matchRoute (Method r) (URLPath r) rt"
      "runGuard (sv_api X) (sv_now X) (fst (snd rt)) r (an_server n) = (Pass r' rc, s)"
      "runHandler X (snd (snd rt)) r' (pathValue rt (URLPath r)) (n\<lparr>an_server := s\<rparr>) = (st, n')"
proof (cases "find (matchRoute (Method r) (URLPath r)) routes")
  case None
  with assms show ?thesis by (intro none) (auto simp: serve_def)
next
  case (Some rt)
  obtain out s where g: "runGuard (sv_api X) (sv_now X) (fst (snd rt)) r (an_server n) = (out, s)" by fastforce
  show ?thesis
  proof (cases out)
    case (Pass r' rc)
    with assms Some g find_SomeD [OF Some] show ?thesis by (intro served [of rt r' rc s]) (auto simp: serve_def)
  qed (rule stopped [OF g]; use assms Some g in \<open>simp add: serve_def\<close>)+
qed



definition stranger_req :: http_request where
  "stranger_req = \<lparr>Method = ''DELETE'', Header = (\<lambda>_. []), RemoteAddr = ''1.2.3.4:5'', Host = ''h'', URLPath = ''/data'', RawQuery = ''topic=t'', Body = []\<rparr>"


end
