(* ===== verification/Config.thy ===== *)
theory Config
  imports Http
begin

text \<open>
  \<^verbatim>\<open>internal/config/config.go\<close>: the configuration with its defaults, the deprecated section, the
  environment and the derived token. The TOML decoder is a parameter \<open>toml\<close>: it writes the values of a
  document into a configuration. HMAC-SHA256 is the parameter \<open>hmac\<close>.
\<close>

section \<open>Data\<close>

record MeshConfig =
  mc_Seeds :: "string list"
  mc_MinBondSats :: int
  mc_BondCheckURL :: string
  mc_LocalPubkeys :: "string list"

record NodeConfig =
  nc_Name :: string
  nc_DataDir :: string
  nc_Listen :: string
  nc_APIListen :: string
  nc_PublicURL :: string

record ARCConfig =
  ac_Enabled :: bool
  ac_URL :: string
  ac_APIKey :: string
  ac_TAALEnabled :: bool
  ac_TAALURL :: string
  ac_TAALAPIKey :: string

record JungleBusSubscription =
  jb_ID :: string
  jb_Name :: string
  jb_FromBlock :: "32 word"

record JungleBusConfig =
  jc_Enabled :: bool
  jc_URL :: string
  jc_Subscriptions :: "JungleBusSubscription list"

record OverlayConfig =
  oc_Enabled :: bool
  oc_Topics :: "string list"

record MempoolConfig =
  mp_Enabled :: bool
  mp_Prefixes :: "int list"
  mp_MaxTxSize :: int
  mp_TTLSeconds :: int

record EnvelopeConfig =
  ec_MaxEphemeralTTL :: int
  ec_MaxDurableSize :: int
  ec_MaxDurableStoreMB :: int
  ec_WarnAtPercent :: int

record AppPaymentConfig =
  ap_AllowPassthrough :: bool
  ap_AllowSplit :: bool
  ap_AllowTokenGating :: bool
  ap_MaxAppPriceSats :: int

record APIConfig =
  api_AuthToken :: string
  api_TLSCert :: string
  api_TLSKey :: string
  api_RateLimit :: int
  api_TrustProxy :: bool
  api_PaymentSatoshis :: int
  api_RequireMempool :: bool
  api_EndpointPrices :: "(string \<times> int) list"
  api_AppPayments :: AppPaymentConfig
  api_ExplorerOrigin :: string

record Config =
  c_Node :: NodeConfig
  c_WIF :: string \<comment> \<open>\<^verbatim>\<open>Identity.WIF\<close>\<close>
  c_PeerSeeds :: "string list" \<comment> \<open>\<^verbatim>\<open>Peers.Seeds\<close>\<close>
  c_Mesh :: MeshConfig
  c_Foundry :: MeshConfig
  c_BSVNodes :: "string list" \<comment> \<open>\<^verbatim>\<open>BSV.Nodes\<close>\<close>
  c_ARC :: ARCConfig
  c_JungleBus :: JungleBusConfig
  c_Overlay :: OverlayConfig
  c_Envelopes :: EnvelopeConfig
  c_Mempool :: MempoolConfig
  c_API :: APIConfig

section \<open>Loading\<close>

definition noMesh :: MeshConfig where
  "noMesh = \<lparr>mc_Seeds = [], mc_MinBondSats = 0, mc_BondCheckURL = [], mc_LocalPubkeys = []\<rparr>"

definition defaultConfig :: Config where
  "defaultConfig =
     \<lparr>c_Node = \<lparr>nc_Name = ''anvil'', nc_DataDir = ''/var/lib/anvil'', nc_Listen = ''0.0.0.0:8333'', nc_APIListen = ''0.0.0.0:9333'', nc_PublicURL = []\<rparr>,
      c_WIF = [], c_PeerSeeds = [], c_Mesh = noMesh, c_Foundry = noMesh,
      c_BSVNodes = [''seed.bitcoinsv.io:8333'', ''seed.cascharia.com:8333'', ''seed.satoshisvision.network:8333''],
      c_ARC = \<lparr>ac_Enabled = True, ac_URL = ''https://arc.gorillapool.io'', ac_APIKey = [], ac_TAALEnabled = False,
        ac_TAALURL = ''https://arc.taal.com'', ac_TAALAPIKey = []\<rparr>,
      c_JungleBus = \<lparr>jc_Enabled = True, jc_URL = ''junglebus.gorillapool.io'', jc_Subscriptions = []\<rparr>,
      c_Overlay = \<lparr>oc_Enabled = True, oc_Topics = [''anvil:mainnet'']\<rparr>,
      c_Envelopes = \<lparr>ec_MaxEphemeralTTL = 3600, ec_MaxDurableSize = 65536, ec_MaxDurableStoreMB = 10240, ec_WarnAtPercent = 80\<rparr>,
      c_Mempool = \<lparr>mp_Enabled = False, mp_Prefixes = [], mp_MaxTxSize = 1048576, mp_TTLSeconds = 3600\<rparr>,
      c_API = \<lparr>api_AuthToken = [], api_TLSCert = [], api_TLSKey = [], api_RateLimit = 100, api_TrustProxy = False, api_PaymentSatoshis = 0,
        api_RequireMempool = False, api_EndpointPrices = [],
        api_AppPayments = \<lparr>ap_AllowPassthrough = True, ap_AllowSplit = True, ap_AllowTokenGating = True, ap_MaxAppPriceSats = 10000\<rparr>,
        api_ExplorerOrigin = []\<rparr>\<rparr>"

datatype config_err = ErrReadConfig string | ErrParseConfig string

definition deriveAuthToken :: "(bytes \<Rightarrow> bytes \<Rightarrow> bytes) \<Rightarrow> string \<Rightarrow> string" where
  "deriveAuthToken hmac wif = hex_encode (hmac wif ''anvil-api-auth'')"

definition mergeFoundry :: "Config \<Rightarrow> Config" where
  "mergeFoundry cfg =
     (if mc_Seeds (c_Foundry cfg) \<noteq> [] \<and> mc_Seeds (c_Mesh cfg) = []
      then cfg\<lparr>c_Mesh := (c_Mesh cfg)\<lparr>mc_Seeds := mc_Seeds (c_Foundry cfg)\<rparr>\<rparr> else cfg)"

definition envOverrides :: "(string \<Rightarrow> string) \<Rightarrow> Config \<Rightarrow> Config" where
  "envOverrides getenv cfg =
     (let cfg1 = (if getenv ''ANVIL_IDENTITY_WIF'' \<noteq> [] then cfg\<lparr>c_WIF := getenv ''ANVIL_IDENTITY_WIF''\<rparr> else cfg)
      in if getenv ''ANVIL_TAAL_API_KEY'' \<noteq> []
         then cfg1\<lparr>c_ARC := (c_ARC cfg1)\<lparr>ac_TAALAPIKey := getenv ''ANVIL_TAAL_API_KEY'', ac_TAALEnabled := True\<rparr>\<rparr> else cfg1)"

definition setAuthToken :: "(bytes \<Rightarrow> bytes \<Rightarrow> bytes) \<Rightarrow> Config \<Rightarrow> Config" where
  "setAuthToken hmac cfg =
     (if api_AuthToken (c_API cfg) = [] \<and> c_WIF cfg \<noteq> []
      then cfg\<lparr>c_API := (c_API cfg)\<lparr>api_AuthToken := deriveAuthToken hmac (c_WIF cfg)\<rparr>\<rparr> else cfg)"

definition Load :: "(bytes \<Rightarrow> Config \<Rightarrow> string + Config) \<Rightarrow> (bytes \<Rightarrow> bytes \<Rightarrow> bytes) \<Rightarrow> (string \<Rightarrow> string) \<Rightarrow> (string \<Rightarrow> string + bytes) \<Rightarrow> string
    \<Rightarrow> config_err + Config" where
  "Load toml hmac getenv readFile path =
     (case readFile path of
        Inl e \<Rightarrow> Inl (ErrReadConfig e)
      | Inr bs \<Rightarrow>
         (case toml bs defaultConfig of
            Inl e \<Rightarrow> Inl (ErrParseConfig e)
          | Inr cfg \<Rightarrow> Inr (setAuthToken hmac (envOverrides getenv (mergeFoundry cfg)))))"

section \<open>What a loaded configuration guarantees\<close>

lemma envOverrides_keeps [simp]: "c_API (envOverrides getenv cfg) = c_API cfg" "c_Mesh (envOverrides getenv cfg) = c_Mesh cfg"
  by (simp_all add: envOverrides_def Let_def)

lemma mergeFoundry_keeps [simp]: "c_API (mergeFoundry cfg) = c_API cfg"
  "mc_MinBondSats (c_Mesh (mergeFoundry cfg)) = mc_MinBondSats (c_Mesh cfg)"
  by (simp_all add: mergeFoundry_def)

lemma setAuthToken_keeps [simp]: "c_WIF (setAuthToken hmac cfg) = c_WIF cfg" "c_Mesh (setAuthToken hmac cfg) = c_Mesh cfg"
  by (simp_all add: setAuthToken_def)

text \<open>
  C24: a node with an identity is never left without authentication. In every configuration \<^verbatim>\<open>Load\<close>
  returns in which a WIF is set, by the file or by the environment, which takes precedence, the API
  token is not empty: it is the one of the file or the one derived from the WIF.
\<close>

theorem Load_authenticated:
  assumes l: "Load toml hmac getenv readFile path = Inr cfg"
    and h: "\<And>k m. hmac k m \<noteq> []"
  shows "(getenv ''ANVIL_IDENTITY_WIF'' \<noteq> [] \<longrightarrow> c_WIF cfg = getenv ''ANVIL_IDENTITY_WIF'')
    \<and> (c_WIF cfg \<noteq> [] \<longrightarrow> api_AuthToken (c_API cfg) \<noteq> [])
    \<and> (\<exists>bs cfg0. readFile path = Inr bs \<and> toml bs defaultConfig = Inr cfg0
        \<and> api_AuthToken (c_API cfg) = (if api_AuthToken (c_API cfg0) = [] \<and> c_WIF cfg \<noteq> [] then deriveAuthToken hmac (c_WIF cfg)
            else api_AuthToken (c_API cfg0)))"
proof -
  from l obtain bs cfg0 where c: "readFile path = Inr bs" "toml bs defaultConfig = Inr cfg0"
    "cfg = setAuthToken hmac (envOverrides getenv (mergeFoundry cfg0))" by (auto simp: Load_def split: sum.splits)
  let ?c1 = "envOverrides getenv (mergeFoundry cfg0)"
  have w: "c_WIF cfg = c_WIF ?c1" by (simp add: c(3))
  have tok: "api_AuthToken (c_API cfg) = (if api_AuthToken (c_API cfg0) = [] \<and> c_WIF cfg \<noteq> [] then deriveAuthToken hmac (c_WIF cfg)
      else api_AuthToken (c_API cfg0))" using w by (simp add: c(3) setAuthToken_def)
  have "getenv ''ANVIL_IDENTITY_WIF'' \<noteq> [] \<longrightarrow> c_WIF cfg = getenv ''ANVIL_IDENTITY_WIF''" by (simp add: w envOverrides_def Let_def)
  moreover have "deriveAuthToken hmac (c_WIF cfg) \<noteq> []" using h [of "c_WIF cfg"]
    by (cases "hmac (c_WIF cfg) ''anvil-api-auth''") (auto simp: deriveAuthToken_def)
  ultimately show ?thesis using tok c by auto
qed

theorem Load_authenticated_witness:
  "\<exists>cfg. Load (\<lambda>b c. Inr c) (\<lambda>k m. ''h'') ((\<lambda>_. [])(''ANVIL_IDENTITY_WIF'' := ''L1'')) (\<lambda>p. Inr []) ''anvil.toml'' = Inr cfg
     \<and> c_WIF cfg = ''L1'' \<and> api_AuthToken (c_API cfg) \<noteq> []"
proof -
  obtain cfg where l: "Load (\<lambda>b c. Inr c) (\<lambda>k m. ''h'') ((\<lambda>_. [])(''ANVIL_IDENTITY_WIF'' := ''L1'')) (\<lambda>p. Inr []) ''anvil.toml'' = Inr cfg"
    by (simp add: Load_def)
  from Load_authenticated [OF l] l show ?thesis by auto
qed

text \<open>
  Of the deprecated section only the seeds are taken over; a bond it asks for is not required.
\<close>

lemma foundry_bond_dropped:
  assumes "readFile path = Inr bs" "toml bs defaultConfig = Inr cfg0" "c_Mesh cfg0 = noMesh"
  shows "\<exists>cfg. Load toml hmac getenv readFile path = Inr cfg \<and> mc_MinBondSats (c_Mesh cfg) = 0"
  using assms by (simp add: Load_def noMesh_def)

end
