(* ===== verification/Feeds.thy ===== *)
theory Feeds
  imports Envelope_Store Status
begin

text \<open>
  \<^verbatim>\<open>internal/feeds/feeds.go\<close>, the publisher of heartbeats and block tips. The two publishing loops are sequences of ticks: a heartbeat per
  tick, and per poll of the header chain at most one tip. The JSON encoders are parameters.
\<close>

section \<open>Publishing\<close>

record 'sk Publisher =
  pb_key :: 'sk
  pb_broadcast :: bool \<comment> \<open>whether a broadcast function is set\<close>
  pb_nodeName :: string
  pb_version :: string

definition NewPublisher :: "'sk \<Rightarrow> bool \<Rightarrow> string \<Rightarrow> string \<Rightarrow> 'sk Publisher" where
  "NewPublisher key bc name ver = \<lparr>pb_key = key, pb_broadcast = bc, pb_nodeName = name, pb_version = ver\<rparr>"

record 'db feed_state =
  fs_store :: "'db envelope_store"
  fs_sent :: "envelope list" \<comment> \<open>what was handed to the broadcast function\<close>

definition feedEnvelope :: "('sk, 'pk, 'sig) crypto \<Rightarrow> 'sk Publisher \<Rightarrow> int \<Rightarrow> string \<Rightarrow> string \<Rightarrow> int \<Rightarrow> envelope" where
  "feedEnvelope c p now topic payload t =
     Sign c \<lparr>Type = ''data'', Topic = topic, Payload = payload, Signature = [], Pubkey = [], TTL = t, Durable = False,
       Timestamp = now div second, NoGossip = False, Monetization = None, ReceivedAt = None\<rparr> (pb_key p)"

definition publish :: "('db, envelope json) leveldb_ops \<Rightarrow> ('sk, 'pk, 'sig) crypto \<Rightarrow> 'sk Publisher \<Rightarrow> int \<Rightarrow> string \<Rightarrow> string \<Rightarrow> int
    \<Rightarrow> 'db feed_state \<Rightarrow> 'db feed_state" where
  "publish ops c p now topic payload t st =
     (let env = feedEnvelope c p now topic payload t in
      case Ingest ops c now (fs_store st) env of
        Inl e \<Rightarrow> st
      | Inr s \<Rightarrow> \<lparr>fs_store = s, fs_sent = (if pb_broadcast p then fs_sent st @ [env\<lparr>ReceivedAt := Some now\<rparr>] else fs_sent st)\<rparr>)"

section \<open>Heartbeats\<close>

record HeartbeatPayload =
  hb_Node :: string
  hb_Version :: string
  hb_Height :: uint32
  hb_Peers :: int
  hb_Topics :: "string list"
  hb_Timestamp :: int

definition heartbeatTTL :: "int \<Rightarrow> int" where
  \<comment> \<open>the interval in nanoseconds\<close>
  "heartbeatTTL interval = (let t = wrap64 (whole_secs interval * 5) in if t < 300 then 300 else t)"

definition publishHeartbeat :: "('db, envelope json) leveldb_ops \<Rightarrow> ('sk, 'pk, 'sig) crypto \<Rightarrow> (HeartbeatPayload \<Rightarrow> string) \<Rightarrow> 'sk Publisher
    \<Rightarrow> int \<Rightarrow> int \<Rightarrow> uint32 \<Rightarrow> int \<Rightarrow> 'db feed_state \<Rightarrow> 'db feed_state" where
  \<comment> \<open>\<^verbatim>\<open>topicsFn\<close> is the store's \<^verbatim>\<open>Topics\<close>\<close>
  "publishHeartbeat ops c enc p now t height peerCount st =
     publish ops c p now ''mesh:heartbeat''
       (enc \<lparr>hb_Node = pb_nodeName p, hb_Version = pb_version p, hb_Height = height, hb_Peers = peerCount,
          hb_Topics = topicNames ops now (fs_store st), hb_Timestamp = now div second\<rparr>) t st"

fun RunHeartbeat :: "('db, envelope json) leveldb_ops \<Rightarrow> ('sk, 'pk, 'sig) crypto \<Rightarrow> (HeartbeatPayload \<Rightarrow> string) \<Rightarrow> 'sk Publisher
    \<Rightarrow> int \<Rightarrow> (int \<times> uint32 \<times> int) list \<Rightarrow> 'db feed_state \<Rightarrow> 'db feed_state" where
  \<comment> \<open>the ticks until the context ends, the first one at the start; each with time, height and number of peers\<close>
  "RunHeartbeat ops c enc p interval [] st = st"
| "RunHeartbeat ops c enc p interval ((now, height, peerCount) # ticks) st =
     RunHeartbeat ops c enc p interval ticks (publishHeartbeat ops c enc p now (heartbeatTTL interval) height peerCount st)"

section \<open>Block tips\<close>

record BlockTipPayload =
  bt_Height :: uint32
  bt_Hash :: string
  bt_Node :: string

definition truncateHash :: "string \<Rightarrow> string" where
  "truncateHash s = (if length s > 16 then take 16 s else s)"

definition pollTip :: "('db, envelope json) leveldb_ops \<Rightarrow> ('sk, 'pk, 'sig) crypto \<Rightarrow> (BlockTipPayload \<Rightarrow> string) \<Rightarrow> 'sk Publisher
    \<Rightarrow> int \<times> uint32 \<times> string \<Rightarrow> uint32 \<times> 'db feed_state \<Rightarrow> uint32 \<times> 'db feed_state" where
  \<comment> \<open>one tick: the time, the height read, and the hash \<^verbatim>\<open>hashFn\<close> gives for it; the state has \<^verbatim>\<open>lastHeight\<close>\<close>
  "pollTip ops c enc p poll ls =
     (case (poll, ls) of ((now, h, hash), (lastHeight, st)) \<Rightarrow>
       (if h > lastHeight \<and> hash \<noteq> [] then
          (h, publish ops c p now ''mesh:blocks'' (enc \<lparr>bt_Height = h, bt_Hash = hash, bt_Node = pb_nodeName p\<rparr>) 300 st)
        else (lastHeight, st)))"

definition RunBlockTip :: "('db, envelope json) leveldb_ops \<Rightarrow> ('sk, 'pk, 'sig) crypto \<Rightarrow> (BlockTipPayload \<Rightarrow> string) \<Rightarrow> 'sk Publisher
    \<Rightarrow> uint32 \<Rightarrow> (int \<times> uint32 \<times> string) list \<Rightarrow> 'db feed_state \<Rightarrow> uint32 \<times> 'db feed_state" where
  "RunBlockTip ops c enc p height polls st = fold (pollTip ops c enc p) polls (height, st)"

section \<open>What is published\<close>

definition tipEnvelope :: "('sk, 'pk, 'sig) crypto \<Rightarrow> (BlockTipPayload \<Rightarrow> string) \<Rightarrow> 'sk Publisher \<Rightarrow> int \<times> uint32 \<times> string \<Rightarrow> envelope" where
  \<comment> \<open>the envelope for the tip read by a poll\<close>
  "tipEnvelope c enc p poll =
     (case poll of (now, h, hash) \<Rightarrow>
       (feedEnvelope c p now ''mesh:blocks'' (enc \<lparr>bt_Height = h, bt_Hash = hash, bt_Node = pb_nodeName p\<rparr>) 300)\<lparr>ReceivedAt := Some now\<rparr>)"

lemma publish_cases:
  obtains (refused) "publish ops c p now topic payload t st = st"
    | (stored) s where "Ingest ops c now (fs_store st) (feedEnvelope c p now topic payload t) = Inr s"
      "publish ops c p now topic payload t st
        = \<lparr>fs_store = s, fs_sent = (if pb_broadcast p then fs_sent st @ [(feedEnvelope c p now topic payload t)\<lparr>ReceivedAt := Some now\<rparr>] else fs_sent st)\<rparr>"
  by (cases "Ingest ops c now (fs_store st) (feedEnvelope c p now topic payload t)") (auto simp: publish_def Let_def)

lemma Ingest_validates: "Ingest ops c now s env = Inr s' \<Longrightarrow> Validate c env = Inr ()"
  by (auto simp: Ingest_def split: sum.splits)

lemma pollTip_sent:
  assumes "pollTip ops c enc p poll (l, st) = (l', st')"
  obtains (quiet) "l' = l" "fs_sent st' = fs_sent st"
    | (missed) "l < l'" "fs_sent st' = fs_sent st"
    | (sent) now h hash where "poll = (now, h, hash)" "l < h" "l' = h" "hash \<noteq> []"
      "Validate c (tipEnvelope c enc p poll) = Inr ()"
      "fs_sent st' = fs_sent st @ [tipEnvelope c enc p poll]"
proof -
  obtain now h hash where p: "poll = (now, h, hash)" by (cases poll)
  show ?thesis
  proof (cases "h > l \<and> hash \<noteq> []")
    case False
    with assms p show ?thesis by (intro quiet) (auto simp: pollTip_def split: if_splits)
  next
    case True
    let ?pl = "enc \<lparr>bt_Height = h, bt_Hash = hash, bt_Node = pb_nodeName p\<rparr>"
    from True assms p have st': "l' = h" "st' = publish ops c p now ''mesh:blocks'' ?pl 300 st" by (auto simp: pollTip_def)
    show ?thesis
    proof (cases rule: publish_cases [of ops c p now "''mesh:blocks''" ?pl 300 st])
      case refused
      with st' True show ?thesis by (intro missed) auto
    next
      case (stored s)
      show ?thesis
      proof (cases "pb_broadcast p")
        case True
        with stored st' p \<open>h > l \<and> hash \<noteq> []\<close> Ingest_validates [OF stored(1)] show ?thesis by (intro sent [of now h hash]) (auto simp: tipEnvelope_def)
      next
        case False
        with stored st' True show ?thesis by (intro missed) auto
      qed
    qed
  qed
qed

text \<open>
  The mesh sees the chain grow. Whatever heights and hashes the polls read, the tips that
  \<^verbatim>\<open>RunBlockTip\<close> broadcasts are envelopes that pass validation, for polled heights that increase strictly
  from the height at the start, each with the non-empty hash that was read for it.
\<close>

theorem tips_increase:
  assumes "RunBlockTip ops c enc p height polls st = (l, st')"
  shows "\<exists>ts. fs_sent st' = fs_sent st @ map (tipEnvelope c enc p) ts
    \<and> subseq ts polls \<and> sorted_wrt (\<lambda>a b. fst (snd a) < fst (snd b)) ts
    \<and> (\<forall>(now, h, hash) \<in> set ts. height < h \<and> h \<le> l \<and> hash \<noteq> [])
    \<and> (\<forall>env \<in> set (drop (length (fs_sent st)) (fs_sent st')). Validate c env = Inr ()) \<and> height \<le> l"
  using assms unfolding RunBlockTip_def
proof (induction polls arbitrary: height st)
  case Nil
  then show ?case by (intro exI [of _ "[]"]) simp
next
  case (Cons poll polls)
  obtain l1 st1 where s: "pollTip ops c enc p poll (height, st) = (l1, st1)" by fastforce
  with Cons.prems have "fold (pollTip ops c enc p) polls (l1, st1) = (l, st')" by simp
  from Cons.IH [OF this] obtain ts where ts: "fs_sent st' = fs_sent st1 @ map (tipEnvelope c enc p) ts"
    "subseq ts polls" "sorted_wrt (\<lambda>a b. fst (snd a) < fst (snd b)) ts"
    "\<forall>(now, h, hash) \<in> set ts. l1 < h \<and> h \<le> l \<and> hash \<noteq> []"
    "\<forall>env \<in> set (drop (length (fs_sent st1)) (fs_sent st')). Validate c env = Inr ()" "l1 \<le> l" by blast
  from s show ?case
  proof (cases rule: pollTip_sent)
    case quiet
    with ts show ?thesis by (intro exI [of _ ts]) auto
  next
    case missed
    with ts show ?thesis by (intro exI [of _ ts]) force
  next
    case (sent now h hash)
    have "\<forall>(now, h', hash) \<in> set ((now, h, hash) # ts). height < h' \<and> h' \<le> l \<and> hash \<noteq> []" using sent ts(4,6) by force
    moreover have "sorted_wrt (\<lambda>a b. fst (snd a) < fst (snd b)) ((now, h, hash) # ts)" using ts(3,4) sent by auto
    moreover have "\<forall>env \<in> set (drop (length (fs_sent st)) (fs_sent st')). Validate c env = Inr ()" using sent ts(1,5) by simp
    ultimately show ?thesis using sent ts by (intro exI [of _ "(now, h, hash) # ts"]) auto
  qed
qed

theorem tips_increase_witness:
  "\<exists>l st'. RunBlockTip mem_ops demo_crypto (\<lambda>_. ''p'') \<lparr>pb_key = CHR ''k'', pb_broadcast = True, pb_nodeName = ''n'', pb_version = ''v''\<rparr> 8
       [(second, 8, ''a''), (2 * second, 10, ''b'')] \<lparr>fs_store = \<lparr>es_db = [], ephemeral = [], maxEphemeralTTL = 3600, maxDurableSize = 65536\<rparr>, fs_sent = []\<rparr> = (l, st')
     \<and> l = 10 \<and> (\<forall>env \<in> set (fs_sent st'). Validate demo_crypto env = Inr ())"
proof -
  obtain l st' where r: "RunBlockTip mem_ops demo_crypto (\<lambda>_. ''p'') \<lparr>pb_key = CHR ''k'', pb_broadcast = True, pb_nodeName = ''n'', pb_version = ''v''\<rparr> 8
       [(second, 8, ''a''), (2 * second, 10, ''b'')] \<lparr>fs_store = \<lparr>es_db = [], ephemeral = [], maxEphemeralTTL = 3600, maxDurableSize = 65536\<rparr>, fs_sent = []\<rparr> = (l, st')"
    by fastforce
  then have "l = 10" by (simp add: RunBlockTip_def pollTip_def)
  with r tips_increase [OF r] show ?thesis by auto
qed

end
