(* ===== verification/Transport.thy ===== *)
theory Transport
  imports Http
begin

text \<open>
  \<^verbatim>\<open>internal/gossip/transport.go\<close>: a mesh connection as the authentication layer sees it. The websocket
  is a sequence of events, frames and the final read error; the handler may be replaced between frames. The
  JSON codec of the messages is a pair of parameters, a handler is a function on the state \<open>'s\<close> of its
  client (its error result is dropped by the code).
\<close>

record ('m, 's) ServerWSTransport =
  ws_addr :: "string option option" \<comment> \<open>the connection, if there is one, and its remote address, if it has one\<close>
  ws_open :: bool
  ws_out :: "bytes list" \<comment> \<open>the frames sent\<close>
  ws_onDataFunc :: "('m \<Rightarrow> 's \<Rightarrow> 's) option"
  ws_done :: bool

definition NewServerWSTransport :: "string option \<Rightarrow> ('m, 's) ServerWSTransport" where
  "NewServerWSTransport addr = \<lparr>ws_addr = Some addr, ws_open = True, ws_out = [], ws_onDataFunc = None, ws_done = False\<rparr>"

definition NewWSTransportAdapter :: "(string \<Rightarrow> string + string option) \<Rightarrow> string \<Rightarrow> string + ('m, 's) ServerWSTransport" where
  "NewWSTransportAdapter dial endpoint =
     (case dial endpoint of
        Inl e \<Rightarrow> Inl (''websocket dial '' @ endpoint @ '': '' @ e)
      | Inr addr \<Rightarrow> Inr (NewServerWSTransport addr))"

definition wsRemoteAddr :: "('m, 's) ServerWSTransport \<Rightarrow> string" where
  "wsRemoteAddr t = (case ws_addr t of None \<Rightarrow> [] | Some None \<Rightarrow> [] | Some (Some a) \<Rightarrow> a)"

definition wsClose :: "('m, 's) ServerWSTransport \<Rightarrow> ('m, 's) ServerWSTransport" where
  "wsClose t = t\<lparr>ws_open := False\<rparr>"

datatype ws_err = ErrMarshal string | ErrClosed

definition wsSend :: "('m \<Rightarrow> string + bytes) \<Rightarrow> 'm \<Rightarrow> ('m, 's) ServerWSTransport \<Rightarrow> ws_err + ('m, 's) ServerWSTransport" where
  "wsSend marshal msg t =
     (case marshal msg of
        Inl e \<Rightarrow> Inl (ErrMarshal e)
      | Inr data \<Rightarrow> (if ws_open t then Inr (t\<lparr>ws_out := ws_out t @ [data]\<rparr>) else Inl ErrClosed))"

definition OnData :: "('m \<Rightarrow> 's \<Rightarrow> 's) \<Rightarrow> ('m, 's) ServerWSTransport \<Rightarrow> ('m, 's) ServerWSTransport" where
  "OnData callback t = t\<lparr>ws_onDataFunc := Some callback\<rparr>"

definition GetRegisteredOnData :: "('m, 's) ServerWSTransport \<Rightarrow> ('m \<Rightarrow> 's \<Rightarrow> 's) option" where
  "GetRegisteredOnData t = ws_onDataFunc t"

datatype ('m, 's) ws_event = Frame bytes | SetHandler "'m \<Rightarrow> 's \<Rightarrow> 's"

fun StartReceive :: "(bytes \<Rightarrow> string + 'm) \<Rightarrow> ('m, 's) ws_event list \<Rightarrow> ('m, 's) ServerWSTransport \<Rightarrow> 's \<Rightarrow> ('m, 's) ServerWSTransport \<times> 's" where
  \<comment> \<open>the events up to the read error; the handler is registered by another goroutine\<close>
  "StartReceive unmarshal [] t s = (t\<lparr>ws_done := True\<rparr>, s)"
| "StartReceive unmarshal (SetHandler h # evs) t s = StartReceive unmarshal evs (OnData h t) s"
| "StartReceive unmarshal (Frame raw # evs) t s =
     (case unmarshal raw of
        Inl e \<Rightarrow> StartReceive unmarshal evs t s
      | Inr msg \<Rightarrow>
         (case ws_onDataFunc t of
            None \<Rightarrow> StartReceive unmarshal evs t s
          | Some fn \<Rightarrow> StartReceive unmarshal evs t (fn msg s)))"

section \<open>In order, each once\<close>

fun decoded :: "(bytes \<Rightarrow> string + 'm) \<Rightarrow> bytes list \<Rightarrow> 'm list" where
  "decoded unmarshal [] = []"
| "decoded unmarshal (raw # raws) = (case unmarshal raw of Inl e \<Rightarrow> decoded unmarshal raws | Inr m \<Rightarrow> m # decoded unmarshal raws)"

lemma StartReceive_handler:
  assumes "ws_onDataFunc t = Some fn"
  shows "StartReceive unmarshal (map Frame raws) t s = (t\<lparr>ws_done := True\<rparr>, fold fn (decoded unmarshal raws) s)"
  using assms by (induction raws arbitrary: s) (auto split: sum.splits)

lemma decoded_marshalled:
  assumes "\<And>m b. marshal m = Inr b \<Longrightarrow> unmarshal b = Inr m" "list_all2 (\<lambda>m b. marshal m = Inr b) ms bs"
  shows "decoded unmarshal bs = ms"
  using assms(2) by (induction rule: list_all2_induct) (auto simp: assms(1))

fun sendAll :: "('m \<Rightarrow> string + bytes) \<Rightarrow> 'm list \<Rightarrow> ('m, 's) ServerWSTransport \<Rightarrow> ws_err + ('m, 's) ServerWSTransport" where
  "sendAll marshal [] t = Inr t"
| "sendAll marshal (m # ms) t = (case wsSend marshal m t of Inl e \<Rightarrow> Inl e | Inr t' \<Rightarrow> sendAll marshal ms t')"

lemma sendAll_frames:
  "sendAll marshal ms t = Inr t' \<Longrightarrow> \<exists>bs. ws_out t' = ws_out t @ bs \<and> list_all2 (\<lambda>m b. marshal m = Inr b) ms bs"
proof (induction ms arbitrary: t)
  case (Cons m ms)
  from Cons.prems obtain t1 where t1: "wsSend marshal m t = Inr t1" "sendAll marshal ms t1 = Inr t'" by (auto split: sum.splits)
  from t1(1) obtain b where b: "marshal m = Inr b" "ws_out t1 = ws_out t @ [b]" by (auto simp: wsSend_def split: sum.splits if_splits)
  from Cons.IH [OF t1(2)] obtain bs where "ws_out t' = ws_out t1 @ bs" "list_all2 (\<lambda>m b. marshal m = Inr b) ms bs" by blast
  with b show ?case by (intro exI [of _ "b # bs"]) simp
qed simp

text \<open>
  What one end sends and the websocket delivers reaches the other end's handler once each and in order,
  and the loop ends with its done channel closed.
\<close>

lemma transport_delivers:
  assumes codec: "\<And>m b. marshal m = Inr b \<Longrightarrow> unmarshal b = Inr m"
    and sent: "sendAll marshal ms (NewServerWSTransport addr) = Inr a"
    and h: "GetRegisteredOnData b = Some fn"
  shows "StartReceive unmarshal (map Frame (ws_out a)) b s = (b\<lparr>ws_done := True\<rparr>, fold fn ms s)"
proof -
  from sendAll_frames [OF sent] have "list_all2 (\<lambda>m b. marshal m = Inr b) ms (ws_out a)" by (auto simp: NewServerWSTransport_def)
  from decoded_marshalled [of marshal unmarshal, OF codec this] h show ?thesis by (simp add: GetRegisteredOnData_def StartReceive_handler [of b fn])
qed

end
