(* ===== verification/Host.thy ===== *)
theory Host
  imports Gotext
begin

text \<open>
  The machine the command line works on: a file system, the users and the systemd services. Every call of
  the operating system may fail; the \<^emph>\<open>world\<close> says which do, call by call, so a statement about all worlds
  covers every pattern of failures. The calls that took effect are recorded in order, which makes it
  possible to speak about the state at any moment between two of them.

  Links are followed at the end of a path. A directory on the way that is missing is not an error of its
  own: it is one more reason why the world may refuse the call.
\<close>

section \<open>State\<close>

datatype entry = File bytes | Link string | Dir

datatype sys =
    SysWrite string bytes
  | SysMkdir string
  | SysRemove string
  | SysRename string string
  | SysSymlink string string
  | SysChown bool string
  | SysUseradd string
  | SysSystemctl string string

record host =
  h_fs :: "string \<rightharpoonup> entry"
  h_users :: "string list"
  h_active :: "string list" \<comment> \<open>the services that are running\<close>
  h_trace :: "sys list"
  h_calls :: nat

record http_reply =
  hr_status :: int
  hr_body :: bytes
  hr_err :: bool \<comment> \<open>whether reading the body ends in an error\<close>

record world =
  w_fault :: "nat \<Rightarrow> nat option" \<comment> \<open>whether the n-th call fails, and after how many bytes\<close>
  w_http :: "nat \<Rightarrow> string \<Rightarrow> string + http_reply"
  w_runs :: "bytes \<Rightarrow> bool" \<comment> \<open>whether a binary runs\<close>
  w_arch :: string
  w_euid :: int
  w_tmp :: string \<comment> \<open>the name \<^verbatim>\<open>os.CreateTemp\<close> chooses\<close>

section \<open>Effects\<close>

fun fs_effect :: "sys \<Rightarrow> (string \<rightharpoonup> entry) \<Rightarrow> (string \<rightharpoonup> entry)" where
  "fs_effect (SysWrite p b) fs = fs(p \<mapsto> File b)"
| "fs_effect (SysMkdir p) fs = fs(p \<mapsto> Dir)"
| "fs_effect (SysRemove p) fs = fs(p := None)"
| "fs_effect (SysRename a b) fs = (if a = b then fs else fs(b := fs a, a := None))"
| "fs_effect (SysSymlink t p) fs = fs(p \<mapsto> Link t)"
| "fs_effect (SysChown r p) fs = fs"
| "fs_effect (SysUseradd u) fs = fs"
| "fs_effect (SysSystemctl v s) fs = fs"

fun service_effect :: "sys \<Rightarrow> string list \<Rightarrow> string list" where
  "service_effect (SysSystemctl v s) act =
     (if v = ''start'' then List.insert s act else if v = ''stop'' then removeAll s act else act)"
| "service_effect _ act = act"

fun user_effect :: "sys \<Rightarrow> string list \<Rightarrow> string list" where
  "user_effect (SysUseradd u) us = List.insert u us"
| "user_effect _ us = us"

definition effect :: "sys \<Rightarrow> host \<Rightarrow> host" where
  "effect c h = h\<lparr>h_fs := fs_effect c (h_fs h), h_users := user_effect c (h_users h), h_active := service_effect c (h_active h),
     h_trace := h_trace h @ [c]\<rparr>"

definition tick :: "host \<Rightarrow> host" where
  "tick h = h\<lparr>h_calls := Suc (h_calls h)\<rparr>"

definition fails :: "world \<Rightarrow> host \<Rightarrow> bool" where
  "fails w h \<longleftrightarrow> w_fault w (h_calls h) \<noteq> None"

section \<open>Calls\<close>

fun follow :: "nat \<Rightarrow> (string \<rightharpoonup> entry) \<Rightarrow> string \<Rightarrow> string option" where
  \<comment> \<open>\<^term>\<open>None\<close> is \<^verbatim>\<open>ELOOP\<close>\<close>
  "follow 0 fs p = None"
| "follow (Suc n) fs p = (case fs p of Some (Link t) \<Rightarrow> follow n fs t | _ \<Rightarrow> Some p)"

definition max_links :: nat where "max_links = 40"

definition read_file :: "(string \<rightharpoonup> entry) \<Rightarrow> string \<Rightarrow> bytes option" where
  "read_file fs p = (case Option.bind (follow max_links fs p) fs of Some (File b) \<Rightarrow> Some b | _ \<Rightarrow> None)"

datatype stat = StatOk | StatNotExist | StatErr

definition os_stat :: "world \<Rightarrow> string \<Rightarrow> host \<Rightarrow> stat \<times> host" where
  "os_stat w p h =
     (if fails w h then StatErr else case follow max_links (h_fs h) p of
        None \<Rightarrow> StatErr
      | Some q \<Rightarrow> if h_fs h q = None then StatNotExist else StatOk, tick h)"

fun sys_allowed :: "sys \<Rightarrow> (string \<rightharpoonup> entry) \<Rightarrow> bool" where
  \<comment> \<open>the state in which the call can succeed\<close>
  "sys_allowed (SysWrite p b) fs \<longleftrightarrow> fs p \<noteq> Some Dir"
| "sys_allowed (SysMkdir p) fs \<longleftrightarrow> fs p = None"
| "sys_allowed (SysRemove p) fs \<longleftrightarrow> fs p \<noteq> None \<and> fs p \<noteq> Some Dir"
| "sys_allowed (SysRename a b) fs \<longleftrightarrow> fs a \<noteq> None \<and> (fs b = Some Dir \<longrightarrow> a = b)"
| "sys_allowed (SysSymlink t p) fs \<longleftrightarrow> fs p = None"
| "sys_allowed _ fs \<longleftrightarrow> True"

definition syscall :: "world \<Rightarrow> sys \<Rightarrow> host \<Rightarrow> bool \<times> host" where
  "syscall w c h = (if fails w h \<or> \<not> sys_allowed c (h_fs h) then (False, tick h) else (True, effect c (tick h)))"

definition os_open :: "world \<Rightarrow> string \<Rightarrow> host \<Rightarrow> bool \<times> host" where
  \<comment> \<open>\<^verbatim>\<open>os.Open\<close>\<close>
  "os_open w p h = (\<not> fails w h \<and> read_file (h_fs h) p \<noteq> None, tick h)"

definition os_create :: "world \<Rightarrow> string \<Rightarrow> host \<Rightarrow> string option \<times> host" where
  \<comment> \<open>\<^verbatim>\<open>os.OpenFile\<close> with \<^verbatim>\<open>O_CREATE|O_WRONLY|O_TRUNC\<close>: the file that is truncated, links followed\<close>
  "os_create w p h =
     (case follow max_links (h_fs h) p of
        None \<Rightarrow> (None, tick h)
      | Some q \<Rightarrow> (case syscall w (SysWrite q []) h of (done_ok, h') \<Rightarrow> (if done_ok then Some q else None, h')))"

definition io_copy :: "world \<Rightarrow> string \<Rightarrow> bytes \<Rightarrow> bool \<Rightarrow> host \<Rightarrow> bool \<times> host" where
  \<comment> \<open>\<^verbatim>\<open>io.Copy\<close> to the open file \<open>q\<close> of \<open>b\<close>, after which the source fails if \<open>src_err\<close>; a failing write
     leaves a prefix\<close>
  "io_copy w q b src_err h =
     (case w_fault w (h_calls h) of
        Some k \<Rightarrow> (False, effect (SysWrite q (take k b)) (tick h))
      | None \<Rightarrow> (\<not> src_err, effect (SysWrite q b) (tick h)))"

definition os_writefile :: "world \<Rightarrow> string \<Rightarrow> bytes \<Rightarrow> host \<Rightarrow> bool \<times> host" where
  \<comment> \<open>\<^verbatim>\<open>os.WriteFile\<close>\<close>
  "os_writefile w p b h =
     (case os_create w p h of
        (None, h1) \<Rightarrow> (False, h1)
      | (Some q, h1) \<Rightarrow> io_copy w q b False h1)"

fun parents :: "string \<Rightarrow> string \<Rightarrow> string list" where
  \<comment> \<open>the directories on the way to a path, outermost first, then the path\<close>
  "parents pre [] = (if pre = [] then [] else [pre])"
| "parents pre (c # cs) = (if c = CHR ''/'' \<and> pre \<noteq> [] then pre # parents (pre @ [c]) cs else parents (pre @ [c]) cs)"

fun mkdirs :: "world \<Rightarrow> string list \<Rightarrow> host \<Rightarrow> host" where
  "mkdirs w [] h = h"
| "mkdirs w (d # ds) h =
     (if Option.bind (follow max_links (h_fs h) d) (h_fs h) = Some Dir then mkdirs w ds h
      else case syscall w (SysMkdir d) h of (made, h') \<Rightarrow> if made then mkdirs w ds h' else h')"

definition os_mkdirall :: "world \<Rightarrow> string \<Rightarrow> host \<Rightarrow> host" where
  \<comment> \<open>\<^verbatim>\<open>os.MkdirAll\<close>, whose error the commands ignore\<close>
  "os_mkdirall w p h = mkdirs w (parents [] p) h"

definition try_sys :: "world \<Rightarrow> sys \<Rightarrow> host \<Rightarrow> host" where
  \<comment> \<open>a call whose error is ignored\<close>
  "try_sys w c h = snd (syscall w c h)"

datatype 'a outcome = Returned 'a | Fatal string

section \<open>Paths\<close>

definition path_step :: "bool \<Rightarrow> string \<Rightarrow> string list \<Rightarrow> string list" where
  "path_step rooted e out =
     (if e = [] \<or> e = ''.'' then out
      else if e = ''..'' then
        (if out \<noteq> [] \<and> last out \<noteq> ''..'' then butlast out else if rooted then out else out @ [e])
      else out @ [e])"

fun join_path :: "string list \<Rightarrow> string" where
  "join_path [] = []"
| "join_path [e] = e"
| "join_path (e # es) = e @ ''/'' @ join_path es"

definition path_clean :: "string \<Rightarrow> string" where
  \<comment> \<open>\<^verbatim>\<open>filepath.Clean\<close>\<close>
  "path_clean p =
     (let rooted = prefix ''/'' p;
          out = fold (path_step rooted) (split_on (CHR ''/'') p) [];
          r = (if rooted then ''/'' else []) @ join_path out
      in if r = [] then ''.'' else r)"

definition path_join :: "string \<Rightarrow> string \<Rightarrow> string" where
  \<comment> \<open>\<^verbatim>\<open>filepath.Join\<close> of two elements\<close>
  "path_join a b =
     (if a = [] then (if b = [] then [] else path_clean b)
      else path_clean (if b = [] then a else a @ ''/'' @ b))"

section \<open>What happens to one path\<close>

fun touches :: "sys \<Rightarrow> string set" where
  "touches (SysWrite p b) = {p}"
| "touches (SysMkdir p) = {p}"
| "touches (SysRemove p) = {p}"
| "touches (SysRename a b) = {a, b}"
| "touches (SysSymlink t p) = {p}"
| "touches _ = {}"

lemma fs_effect_other [simp]: "p \<notin> touches c \<Longrightarrow> fs_effect c fs p = fs p"
  by (cases c) auto

lemma effect_simps [simp]: "h_fs (effect c h) = fs_effect c (h_fs h)" "h_trace (effect c h) = h_trace h @ [c]"
  "h_active (effect c h) = service_effect c (h_active h)" "h_users (effect c h) = user_effect c (h_users h)" "h_calls (effect c h) = h_calls h"
  by (simp_all add: effect_def)

lemma tick_simps [simp]: "h_fs (tick h) = h_fs h" "h_trace (tick h) = h_trace h" "h_active (tick h) = h_active h" "h_users (tick h) = h_users h"
  by (simp_all add: tick_def)

text \<open>
  A run from \<open>h0\<close> to \<open>h\<close> is \<^emph>\<open>guarded\<close> at a path by a set of entries if the file system is the effect of the
  calls it made and the path had one of these entries after each of them.
\<close>

definition replay :: "sys list \<Rightarrow> (string \<rightharpoonup> entry) \<Rightarrow> (string \<rightharpoonup> entry)" where
  "replay cs fs = fold fs_effect cs fs"

definition guarded :: "string \<Rightarrow> entry option set \<Rightarrow> host \<Rightarrow> host \<Rightarrow> bool" where
  "guarded p D h0 h \<longleftrightarrow> (\<exists>cs. h_trace h = h_trace h0 @ cs \<and> h_fs h = replay cs (h_fs h0) \<and> (\<forall>n. replay (take n cs) (h_fs h0) p \<in> D))"

lemma guarded_refl: "h_fs h p \<in> D \<Longrightarrow> guarded p D h h"
  by (auto simp: guarded_def replay_def)

lemma guarded_now: "guarded p D h0 h \<Longrightarrow> h_fs h p \<in> D"
  by (auto simp: guarded_def) (metis order_refl take_all)

lemma guarded_tick [simp]: "guarded p D h0 (tick h) = guarded p D h0 h"
  by (simp add: guarded_def)

lemma guarded_effect:
  assumes "guarded p D h0 h" "fs_effect c (h_fs h) p \<in> D"
  shows "guarded p D h0 (effect c h)"
proof -
  from assms(1) obtain cs where cs: "h_trace h = h_trace h0 @ cs" "h_fs h = replay cs (h_fs h0)" "\<forall>n. replay (take n cs) (h_fs h0) p \<in> D"
    by (auto simp: guarded_def)
  have "replay (take n (cs @ [c])) (h_fs h0) p \<in> D" for n
    using cs(2,3) assms(2) by (cases "n \<le> length cs") (auto simp: replay_def)
  with cs show ?thesis unfolding guarded_def by (intro exI [of _ "cs @ [c]"]) (simp add: replay_def)
qed

lemma guarded_quiet: "guarded p D h0 h \<Longrightarrow> p \<notin> touches c \<Longrightarrow> guarded p D h0 (effect c h)"
  using guarded_effect guarded_now by fastforce

lemma guarded_mono: "guarded p D h0 h \<Longrightarrow> D \<subseteq> D' \<Longrightarrow> guarded p D' h0 h"
  by (auto simp: guarded_def)

section \<open>The calls keep a path guarded that they do not touch\<close>

definition no_link_to :: "string \<Rightarrow> (string \<rightharpoonup> entry) \<Rightarrow> bool" where
  \<comment> \<open>no link leads to the path\<close>
  "no_link_to p fs \<longleftrightarrow> (\<forall>q. fs q \<noteq> Some (Link p))"

lemma follow_here: "(\<forall>t. fs p \<noteq> Some (Link t)) \<Longrightarrow> follow max_links fs p = Some p"
  by (auto simp: max_links_def numeral_eq_Suc split: option.splits entry.splits)

lemma follow_end: "follow n fs p = Some q \<Longrightarrow> q = p \<or> (\<exists>r. fs r = Some (Link q))"
proof (induction n fs p rule: follow.induct)
  case (2 n fs p)
  then show ?case
  proof (cases "\<exists>t. fs p = Some (Link t)")
    case True
    then obtain t where t: "fs p = Some (Link t)" by blast
    with 2 have "q = t \<or> (\<exists>r. fs r = Some (Link q))" by simp
    with t show ?thesis by blast
  qed (auto split: option.splits entry.splits)
qed simp

lemma follow_other: "follow n fs p = Some q \<Longrightarrow> p \<noteq> d \<Longrightarrow> no_link_to d fs \<Longrightarrow> q \<noteq> d"
  using follow_end [of n fs p q] by (auto simp: no_link_to_def)

lemma guarded_syscall:
  assumes "guarded p D h0 h" "syscall w c h = (r, h')" "p \<notin> touches c"
  shows "guarded p D h0 h'"
  using assms by (auto simp: syscall_def guarded_quiet split: if_splits)

lemma guarded_stat: "guarded p D h0 h \<Longrightarrow> os_stat w q h = (r, h') \<Longrightarrow> guarded p D h0 h'"
  by (auto simp: os_stat_def)

lemma guarded_open: "guarded p D h0 h \<Longrightarrow> os_open w q h = (r, h') \<Longrightarrow> guarded p D h0 h'"
  by (auto simp: os_open_def)

lemma guarded_copy: "guarded p D h0 h \<Longrightarrow> io_copy w q b e h = (r, h') \<Longrightarrow> p \<noteq> q \<Longrightarrow> guarded p D h0 h'"
  by (auto simp: io_copy_def guarded_quiet split: option.splits)

end
