(* ===== verification/Upgrade.thy ===== *)
theory Upgrade
  imports Host Status
begin

text \<open>
  \<^verbatim>\<open>cmd/anvil/upgrade.go\<close>: the comparison of versions, the resolution of a release, and \<^verbatim>\<open>anvil upgrade\<close>, which
  downloads a binary, checks that it runs, puts it in place by a rename, restarts the services and goes back to
  the old binary when none of them starts. The JSON decoder for the release is a parameter. The deferred
  removal of the temporary file happens on a normal return only: \<^verbatim>\<open>fatal\<close> leaves the process.
\<close>

section \<open>Versions\<close>

definition scan_d :: "string \<Rightarrow> (int \<times> string) option" where
  \<comment> \<open>one \<^verbatim>\<open>%d\<close> of \<^verbatim>\<open>fmt.Sscanf\<close>: the number and what is left\<close>
  "scan_d s =
     (let t = dropWhile (\<lambda>c. c \<in> {CHR '' '', CHR 0x09, CHR 0x0B, CHR 0x0C, CHR 0x0D}) s;
          neg = (case t of c # _ \<Rightarrow> c = CHR ''-'' | [] \<Rightarrow> False);
          u = (case t of c # cs \<Rightarrow> if c = CHR ''-'' \<or> c = CHR ''+'' then cs else t | [] \<Rightarrow> []);
          ds = takeWhile (\<lambda>c. dec_val c \<noteq> None) u;
          v = (case dec_digits 0 ds of None \<Rightarrow> 0 | Some n \<Rightarrow> if neg then - int n else int n)
      in if ds = [] \<or> v < - (2 ^ 63) \<or> v \<ge> 2 ^ 63 then None else Some (v, drop (length ds) u))"

definition scan_dot :: "string \<Rightarrow> string option" where
  "scan_dot s = (case s of c # cs \<Rightarrow> if c = CHR ''.'' then Some cs else None | [] \<Rightarrow> None)"

definition parseVersion :: "string \<Rightarrow> int \<times> int \<times> int" where
  \<comment> \<open>what \<^verbatim>\<open>Sscanf(v, "%d.%d.%d", ...)\<close> leaves in the three variables, its error ignored\<close>
  "parseVersion v =
     (case scan_d (trim_prefix ''v'' v) of
        None \<Rightarrow> (0, 0, 0)
      | Some (a, r) \<Rightarrow>
         (case Option.bind (scan_dot r) scan_d of
            None \<Rightarrow> (a, 0, 0)
          | Some (b, r) \<Rightarrow>
             (case Option.bind (scan_dot r) scan_d of
                None \<Rightarrow> (a, b, 0)
              | Some (c, r) \<Rightarrow> (a, b, c))))"

definition versionNewerOrEqual :: "string \<Rightarrow> string \<Rightarrow> bool" where
  "versionNewerOrEqual a b =
     (case (parseVersion a, parseVersion b) of ((a0, a1, a2), (b0, b1, b2)) \<Rightarrow>
       if a0 > b0 then True else if a0 < b0 then False
       else if a1 > b1 then True else if a1 < b1 then False
       else if a2 > b2 then True else if a2 < b2 then False
       else True)"

datatype version_check = UpToDate | AheadOfRelease | UpgradeAvailable

definition printVersionCheck :: "string \<Rightarrow> string \<Rightarrow> version_check" where
  "printVersionCheck current latest =
     (let latestClean = trim_prefix ''v'' latest in
      if current = latestClean \<or> current = latest then UpToDate
      else if versionNewerOrEqual current latestClean then AheadOfRelease
      else UpgradeAvailable)"

section \<open>Releases\<close>

definition githubAPI :: string where "githubAPI = ''https://api.github.com/repos/BSVanon/Anvil/releases/latest''"
definition githubDL :: string where "githubDL = ''https://github.com/BSVanon/Anvil/releases/download''"
definition githubLatest :: string where "githubLatest = ''https://github.com/BSVanon/Anvil/releases/latest/download''"

definition http_get :: "world \<Rightarrow> string \<Rightarrow> host \<Rightarrow> (string + http_reply) \<times> host" where
  "http_get w url h = (w_http w (h_calls h) url, tick h)"

definition binaryName :: "world \<Rightarrow> string outcome" where
  "binaryName w =
     (if w_arch w = ''amd64'' then Returned ''anvil-linux-amd64''
      else if w_arch w = ''arm64'' then Returned ''anvil-linux-arm64''
      else Fatal (''unsupported architecture: '' @ w_arch w))"

definition fetchLatestTag :: "world \<Rightarrow> (bytes \<Rightarrow> string + string) \<Rightarrow> host \<Rightarrow> string outcome \<times> host" where
  "fetchLatestTag w tagName h =
     (case http_get w githubAPI h of
        (Inl e, h1) \<Rightarrow> (Fatal (''GitHub API request failed: '' @ e), h1)
      | (Inr r, h1) \<Rightarrow>
         (if hr_status r \<noteq> 200 then (Fatal (''GitHub API returned '' @ itoa (hr_status r)), h1)
          else case tagName (hr_body r) of
            Inl e \<Rightarrow> (Fatal (''parse GitHub response: '' @ e), h1)
          | Inr tag \<Rightarrow> (if tag = [] then Fatal ''no releases found on GitHub'' else Returned tag, h1)))"

definition resolveRelease :: "world \<Rightarrow> (bytes \<Rightarrow> string + string) \<Rightarrow> string \<Rightarrow> host \<Rightarrow> (string \<times> string) outcome \<times> host" where
  "resolveRelease w tagName version h =
     (case binaryName w of
        Fatal e \<Rightarrow> (Fatal e, h)
      | Returned binary \<Rightarrow>
         (if version = ''latest'' then
            (case fetchLatestTag w tagName h of
               (Fatal e, h1) \<Rightarrow> (Fatal e, h1)
             | (Returned tag, h1) \<Rightarrow> (Returned (tag, githubLatest @ ''/'' @ binary), h1))
          else let v = (if prefix ''v'' version then version else ''v'' @ version)
            in (Returned (v, githubDL @ ''/'' @ v @ ''/'' @ binary), h)))"

definition checkForUpdate :: "world \<Rightarrow> (bytes \<Rightarrow> string + string) \<Rightarrow> host \<Rightarrow> string option" where
  \<comment> \<open>the release the log warns of\<close>
  "checkForUpdate w tagName h =
     (case fst (http_get w githubAPI h) of
        Inl e \<Rightarrow> None
      | Inr r \<Rightarrow>
         (if hr_status r \<noteq> 200 then None
          else case tagName (hr_body r) of
            Inl e \<Rightarrow> None
          | Inr tag \<Rightarrow> (if tag = [] \<or> versionNewerOrEqual versionString (trim_prefix ''v'' tag) then None else Some tag)))"

section \<open>Upgrading\<close>

record upgrade_opts =
  uo_installDir :: string
  uo_version :: string
  uo_check :: bool
  uo_force :: bool

definition upgradeDefaults :: upgrade_opts where
  "upgradeDefaults = \<lparr>uo_installDir = ''/opt/anvil'', uo_version = ''latest'', uo_check = False, uo_force = False\<rparr>"

definition copyFileE :: "world \<Rightarrow> string \<Rightarrow> string \<Rightarrow> host \<Rightarrow> string option \<times> host" where
  \<comment> \<open>the error, if any\<close>
  "copyFileE w src dst h =
     (case os_open w src h of
        (False, h1) \<Rightarrow> (Some (''open '' @ src), h1)
      | (True, h1) \<Rightarrow>
         (case os_create w dst h1 of
            (None, h2) \<Rightarrow> (Some (''create '' @ dst), h2)
          | (Some q, h2) \<Rightarrow>
             (case io_copy w q (case read_file (h_fs h2) src of None \<Rightarrow> [] | Some b \<Rightarrow> b) False h2 of
                (False, h3) \<Rightarrow> (Some (''write '' @ dst), try_sys w (SysRemove dst) h3)
              | (True, h3) \<Rightarrow> (if fails w h3 then Some ''close'' else None, tick h3))))"

definition downloadBinary :: "world \<Rightarrow> string \<Rightarrow> host \<Rightarrow> unit outcome \<times> host" where
  \<comment> \<open>to the temporary file, and the check that it runs\<close>
  "downloadBinary w url h =
     (case os_create w (w_tmp w) h of
        (None, h1) \<Rightarrow> (Fatal ''create temp file'', h1)
      | (Some q, h1) \<Rightarrow>
         (case http_get w url h1 of
            (Inl e, h2) \<Rightarrow> (Fatal (''download failed: '' @ e), h2)
          | (Inr r, h2) \<Rightarrow>
             (if hr_status r \<noteq> 200 then (Fatal (''download returned '' @ itoa (hr_status r) @ '' (URL: '' @ url @ '')''), h2)
              else case io_copy w q (hr_body r) (hr_err r) h2 of
                (False, h3) \<Rightarrow> (Fatal ''download write failed'', h3)
              | (True, h3) \<Rightarrow>
                 (if fails w h3 \<or> \<not> w_runs w (hr_body r) then (Fatal ''new binary failed to run'', tick h3)
                  else (Returned (), tick h3)))))"

fun activeOf :: "world \<Rightarrow> string list \<Rightarrow> host \<Rightarrow> string list \<times> host" where
  "activeOf w [] h = ([], h)"
| "activeOf w (svc # svcs) h =
     (case activeOf w svcs (tick h) of (r, h') \<Rightarrow> (if \<not> fails w h \<and> svc \<in> set (h_active h) then svc # r else r, h'))"

definition runningAnvilServices :: "world \<Rightarrow> host \<Rightarrow> string list \<times> host" where
  "runningAnvilServices w h = activeOf w [''anvil-a'', ''anvil-b''] h"

definition backupBinary :: "world \<Rightarrow> string \<Rightarrow> host \<Rightarrow> bool \<times> host" where
  "backupBinary w destBin h =
     (case os_stat w destBin h of
        (StatOk, h1) \<Rightarrow> (case copyFileE w destBin (destBin @ ''.bak'') h1 of (err, h2) \<Rightarrow> (err = None, h2))
      | (_, h1) \<Rightarrow> (False, h1))"

definition replaceBinary :: "world \<Rightarrow> string \<Rightarrow> host \<Rightarrow> unit outcome \<times> host" where
  "replaceBinary w destBin h =
     (case copyFileE w (w_tmp w) (destBin @ ''.new'') h of
        (Some e, h1) \<Rightarrow> (Fatal (''write staging binary failed: '' @ e), h1)
      | (None, h1) \<Rightarrow>
         (case syscall w (SysRename (destBin @ ''.new'') destBin) h1 of
            (False, h2) \<Rightarrow> (Fatal ''atomic rename failed'', try_sys w (SysRemove (destBin @ ''.new'')) h2)
          | (True, h2) \<Rightarrow> (Returned (), h2)))"

definition symlinkPath :: string where "symlinkPath = ''/usr/local/bin/anvil''"
definition symlinkTmp :: string where "symlinkTmp = ''/usr/local/bin/anvil.new''"

definition linkBinary :: "world \<Rightarrow> string \<Rightarrow> host \<Rightarrow> host" where
  "linkBinary w destBin h =
     (case syscall w (SysSymlink destBin symlinkTmp) (try_sys w (SysRemove symlinkTmp) h) of
        (False, h1) \<Rightarrow> h1
      | (True, h1) \<Rightarrow>
         (case syscall w (SysRename symlinkTmp symlinkPath) h1 of
            (False, h2) \<Rightarrow> try_sys w (SysRemove symlinkTmp) h2
          | (True, h2) \<Rightarrow> h2))"

fun startAll :: "world \<Rightarrow> string list \<Rightarrow> host \<Rightarrow> nat \<times> host" where
  \<comment> \<open>how many services did not start\<close>
  "startAll w [] h = (0, h)"
| "startAll w (svc # svcs) h =
     (case syscall w (SysSystemctl ''start'' svc) h of
        (started, h1) \<Rightarrow> (case startAll w svcs h1 of (n, h2) \<Rightarrow> (if started then n else Suc n, h2)))"

fun stopAll :: "world \<Rightarrow> string list \<Rightarrow> host \<Rightarrow> host" where
  "stopAll w [] h = h"
| "stopAll w (svc # svcs) h = stopAll w svcs (try_sys w (SysSystemctl ''stop'' svc) h)"

definition rolledBack :: string where "rolledBack = ''upgrade rolled back -- all services failed with new binary''"

definition restartServices :: "world \<Rightarrow> string \<Rightarrow> bool \<Rightarrow> string list \<Rightarrow> host \<Rightarrow> unit outcome \<times> host" where
  "restartServices w destBin backedUp services h =
     (if services = [] then (Returned (), h)
      else case startAll w services (stopAll w services h) of (startFails, h1) \<Rightarrow>
        if startFails = length services \<and> backedUp then
          (case syscall w (SysRename (destBin @ ''.bak'') destBin) h1 of
             (True, h2) \<Rightarrow> (Fatal rolledBack, snd (startAll w services h2))
           | (False, h2) \<Rightarrow> (Fatal ''rollback also failed -- manual intervention required'', h2))
        else (Returned (), h1))"

datatype upgrade_result = Checked version_check | AlreadyOn string | AheadOf string | Upgraded string bool

definition installBinary :: "world \<Rightarrow> upgrade_opts \<Rightarrow> string \<Rightarrow> host \<Rightarrow> upgrade_result outcome \<times> host" where
  \<comment> \<open>from the check of the running services to the end\<close>
  "installBinary w uo latest h =
     (let destBin = path_join (uo_installDir uo) ''anvil'' in
      case runningAnvilServices w h of (services, h1) \<Rightarrow>
      case backupBinary w destBin (os_mkdirall w (uo_installDir uo) h1) of (backedUp, h2) \<Rightarrow>
      case replaceBinary w destBin h2 of
        (Fatal e, h3) \<Rightarrow> (Fatal e, h3)
      | (Returned _, h3) \<Rightarrow>
         (case restartServices w destBin backedUp services (linkBinary w destBin h3) of
            (Fatal e, h4) \<Rightarrow> (Fatal e, h4)
          | (Returned _, h4) \<Rightarrow>
             (let h5 = (if backedUp then try_sys w (SysRemove (destBin @ ''.bak'')) h4 else h4) in
              case http_get w ''http://localhost:9333/status'' h5 of (health, h6) \<Rightarrow>
                (Returned (Upgraded latest (case health of Inl e \<Rightarrow> False | Inr r \<Rightarrow> hr_status r = 200)),
                 try_sys w (SysRemove (w_tmp w)) h6))))"

definition cmdUpgrade :: "world \<Rightarrow> (bytes \<Rightarrow> string + string) \<Rightarrow> upgrade_opts \<Rightarrow> host \<Rightarrow> upgrade_result outcome \<times> host" where
  "cmdUpgrade w tagName uo h =
     (let current = versionString in
      case resolveRelease w tagName (uo_version uo) h of
        (Fatal e, h1) \<Rightarrow> (Fatal e, h1)
      | (Returned (latest, downloadURL), h1) \<Rightarrow>
         (if uo_check uo then (Returned (Checked (printVersionCheck current latest)), h1)
          else let latestClean = trim_prefix ''v'' latest in
            if versionNewerOrEqual current latestClean \<and> \<not> uo_force uo then
              (Returned (if current = latestClean then AlreadyOn current else AheadOf latest), h1)
            else if w_euid w \<noteq> 0 then (Fatal ''anvil deploy requires root (use sudo)'', h1)
            else case downloadBinary w downloadURL h1 of
              (Fatal e, h2) \<Rightarrow> (Fatal e, h2)
            | (Returned _, h2) \<Rightarrow> installBinary w uo latest h2))"

end
