(* ===== verification/Upgrade_Safety.thy ===== *)
theory Upgrade_Safety
  imports Upgrade
begin

text \<open>
  What \<^verbatim>\<open>anvil upgrade\<close> leaves behind, whichever calls fail and wherever the machine stops: the old binary
  or the complete new one. And the order the versions are compared by.
\<close>

section \<open>What the steps leave alone\<close>

abbreviation plain :: "(string \<rightharpoonup> entry) \<Rightarrow> string \<Rightarrow> bool" where
  "plain fs p \<equiv> \<forall>t. fs p \<noteq> Some (Link t)"

named_theorems keeps

lemma guarded_create [keeps]:
  "guarded p D h0 h \<Longrightarrow> os_create w q h = (r, h') \<Longrightarrow> plain (h_fs h) q \<Longrightarrow> p \<noteq> q \<Longrightarrow> guarded p D h0 h'"
  by (auto simp: os_create_def follow_here guarded_syscall split: prod.splits)

lemma guarded_try [keeps]: "guarded p D h0 h \<Longrightarrow> p \<notin> touches c \<Longrightarrow> guarded p D h0 (try_sys w c h)"
  by (cases "syscall w c h") (simp add: try_sys_def guarded_syscall)

lemma guarded_http [keeps]: "guarded p D h0 h \<Longrightarrow> http_get w url h = (r, h') \<Longrightarrow> guarded p D h0 h'"
  by (auto simp: http_get_def)

lemma guarded_mkdirs [keeps]: "guarded p D h0 h \<Longrightarrow> p \<notin> set ds \<Longrightarrow> guarded p D h0 (mkdirs w ds h)"
  by (induction ds arbitrary: h) (auto split: prod.splits dest: guarded_syscall)

lemma guarded_activeOf [keeps]: "guarded p D h0 h \<Longrightarrow> activeOf w svcs h = (r, h') \<Longrightarrow> guarded p D h0 h'"
proof (induction svcs arbitrary: h r)
  case (Cons svc svcs)
  obtain r' h1 where "activeOf w svcs (tick h) = (r', h1)" by fastforce
  with Cons show ?case using Cons.IH [of "tick h" r'] by simp
qed simp

lemma guarded_startAll [keeps]: "guarded p D h0 h \<Longrightarrow> startAll w svcs h = (n, h') \<Longrightarrow> guarded p D h0 h'"
  by (induction svcs arbitrary: h n) (fastforce split: prod.splits dest: guarded_syscall)+

lemma guarded_stopAll [keeps]: "guarded p D h0 h \<Longrightarrow> guarded p D h0 (stopAll w svcs h)"
  by (induction svcs arbitrary: h) (simp_all add: guarded_try)

lemma guarded_copyFileE [keeps]:
  assumes g: "guarded p D h0 h" and c: "copyFileE w src dst h = (r, h')" and "plain (h_fs h) dst" "p \<noteq> dst"
  shows "guarded p D h0 h'"
proof -
  obtain a h1 where o1: "os_open w src h = (a, h1)" by fastforce
  have h1: "h_fs h1 = h_fs h" using o1 by (auto simp: os_open_def)
  note g1 = guarded_open [OF g o1]
  obtain q h2 where o2: "os_create w dst h1 = (q, h2)" by fastforce
  have g2: "guarded p D h0 h2" using guarded_create [OF g1 o2] assms h1 by auto
  have q: "q = Some x \<Longrightarrow> x = dst" for x
    using o2 assms(3) h1 follow_here [of "h_fs h1" dst] by (auto simp: os_create_def split: prod.splits if_splits)
  show ?thesis
  proof (cases "a \<and> q \<noteq> None")
    case False
    then show ?thesis using c o1 o2 g1 g2 by (cases a) (auto simp: copyFileE_def)
  next
    case True
    then have qd: "q = Some dst" using q by auto
    obtain k h3 where o3: "io_copy w dst (case read_file (h_fs h2) src of None \<Rightarrow> [] | Some b \<Rightarrow> b) False h2 = (k, h3)" by fastforce
    have g3: "guarded p D h0 h3" using guarded_copy [OF g2 o3] assms(4) by blast
    show ?thesis using c o1 o2 o3 True qd g3 assms(4) by (cases k) (auto simp: copyFileE_def guarded_try)
  qed
qed

lemma guarded_backup [keeps]:
  assumes "guarded p D h0 h" "backupBinary w d h = (r, h')" "plain (h_fs h) (d @ ''.bak'')" "p \<noteq> d @ ''.bak''"
  shows "guarded p D h0 h'"
proof -
  obtain s h1 where s: "os_stat w d h = (s, h1)" by fastforce
  have h1: "h_fs h1 = h_fs h" using s by (auto simp: os_stat_def)
  note g1 = guarded_stat [OF assms(1) s]
  show ?thesis using assms s g1 guarded_copyFileE [OF g1] h1
    by (cases s) (auto simp: backupBinary_def split: prod.splits)
qed

lemma guarded_link [keeps]:
  assumes "guarded p D h0 h" "p \<notin> {symlinkTmp, symlinkPath}"
  shows "guarded p D h0 (linkBinary w d h)"
proof -
  obtain a h1 where a: "syscall w (SysSymlink d symlinkTmp) (try_sys w (SysRemove symlinkTmp) h) = (a, h1)" by fastforce
  have g1: "guarded p D h0 h1" using guarded_syscall [OF guarded_try [OF assms(1)] a] assms(2) by auto
  obtain b h2 where b: "syscall w (SysRename symlinkTmp symlinkPath) h1 = (b, h2)" by fastforce
  have g2: "guarded p D h0 h2" using guarded_syscall [OF g1 b] assms(2) by auto
  show ?thesis using a b g1 g2 assms(2) by (cases a; cases b) (auto simp: linkBinary_def guarded_try)
qed

lemma guarded_download [keeps]:
  assumes g: "guarded p D h0 h" and d: "downloadBinary w url h = (r, h')" and pl: "plain (h_fs h) (w_tmp w)" and p: "p \<noteq> w_tmp w"
  shows "guarded p D h0 h'"
proof -
  obtain q h1 where o1: "os_create w (w_tmp w) h = (q, h1)" by fastforce
  note g1 = guarded_create [OF g o1 pl p]
  have q: "q = Some x \<Longrightarrow> x = w_tmp w" for x
    using o1 pl follow_here [of "h_fs h" "w_tmp w"] by (auto simp: os_create_def split: prod.splits if_splits)
  obtain rp h2 where o2: "http_get w url h1 = (rp, h2)" by fastforce
  note g2 = guarded_http [OF g1 o2]
  show ?thesis
  proof (cases "\<exists>x rpl. q = Some x \<and> rp = Inr rpl \<and> hr_status rpl = 200")
    case False
    then show ?thesis using d o1 o2 g1 g2 by (auto simp: downloadBinary_def split: option.splits sum.splits if_splits)
  next
    case True
    then obtain rpl where rpl: "q = Some (w_tmp w)" "rp = Inr rpl" "hr_status rpl = 200" using q by blast
    obtain k h3 where o3: "io_copy w (w_tmp w) (hr_body rpl) (hr_err rpl) h2 = (k, h3)" by fastforce
    have "guarded p D h0 h3" using guarded_copy [OF g2 o3] p by blast
    with d o1 o2 o3 rpl show ?thesis by (cases k) (auto simp: downloadBinary_def split: if_splits)
  qed
qed

section \<open>What the steps achieve\<close>

lemma guarded_same: "guarded p {h_fs h p} h h' \<Longrightarrow> h_fs h' p = h_fs h p"
  using guarded_now by fastforce

lemma copyFileE_ok:
  assumes c: "copyFileE w src dst h = (None, h')" and pl: "plain (h_fs h) dst" "plain (h_fs h) src" and ne: "src \<noteq> dst"
  obtains b where "h_fs h src = Some (File b)" "h_fs h' dst = Some (File b)"
proof -
  obtain a h1 where o1: "os_open w src h = (a, h1)" by fastforce
  obtain q h2 where o2: "os_create w dst h1 = (q, h2)" by fastforce
  have h1: "h_fs h1 = h_fs h" using o1 by (auto simp: os_open_def)
  from c o1 have a: a by (cases a) (auto simp: copyFileE_def)
  with o1 pl(2) obtain b where b: "h_fs h src = Some (File b)"
    by (auto simp: os_open_def read_file_def follow_here split: option.splits entry.splits)
  from c o1 a o2 obtain x where x: "q = Some x" by (cases q) (auto simp: copyFileE_def)
  have f: "follow max_links (h_fs h1) dst = Some dst" using follow_here [of "h_fs h1" dst] pl(1) h1 by simp
  from o2 x f have h2: "x = dst" "h_fs h2 = (h_fs h)(dst \<mapsto> File [])"
    by (auto simp: os_create_def syscall_def h1 split: if_splits)
  have r: "read_file (h_fs h2) src = Some b" using ne b h2(2) follow_here [of "h_fs h2" src] by (simp add: read_file_def)
  obtain k h3 where o3: "io_copy w dst b False h2 = (k, h3)" by fastforce
  from c o1 a o2 x h2 r o3 have k: k by (cases k) (auto simp: copyFileE_def)
  with o3 have h3: "h_fs h3 dst = Some (File b)" by (auto simp: io_copy_def split: option.splits)
  from c o1 a o2 x h2 r o3 k have "h' = tick h3" by (auto simp: copyFileE_def split: if_splits)
  with h3 b that show ?thesis by simp
qed

lemma backup_ok:
  assumes "backupBinary w d h = (True, h')" "plain (h_fs h) d" "plain (h_fs h) (d @ ''.bak'')"
  shows "h_fs h' (d @ ''.bak'') = h_fs h d"
proof -
  obtain s h1 where s: "os_stat w d h = (s, h1)" by fastforce
  have h1: "h_fs h1 = h_fs h" using s by (auto simp: os_stat_def)
  from assms(1) s have "copyFileE w d (d @ ''.bak'') h1 = (None, h')" by (cases s) (auto simp: backupBinary_def split: prod.splits)
  then show ?thesis by (rule copyFileE_ok) (use assms(2,3) h1 in simp_all)
qed

lemma download_ok:
  assumes d: "downloadBinary w url h = (Returned (), h')" and pl: "plain (h_fs h) (w_tmp w)"
  obtains n rp where "w_http w n url = Inr rp" "hr_status rp = 200" "\<not> hr_err rp" "w_runs w (hr_body rp)" "h_fs h' (w_tmp w) = Some (File (hr_body rp))"
proof -
  obtain q h1 where o1: "os_create w (w_tmp w) h = (q, h1)" by fastforce
  from d o1 obtain x where x: "q = Some x" by (cases q) (auto simp: downloadBinary_def)
  have xt: "x = w_tmp w" using o1 x follow_here [of "h_fs h" "w_tmp w"] pl by (auto simp: os_create_def split: prod.splits if_splits)
  note d1 = d [unfolded downloadBinary_def o1 x http_get_def prod.case option.case]
  have "\<not> isl (w_http w (h_calls h1) url)" using d1 by (cases "w_http w (h_calls h1) url") simp_all
  then obtain rp where rp: "w_http w (h_calls h1) url = Inr rp" by (cases "w_http w (h_calls h1) url") simp_all
  with d1 have st: "hr_status rp = 200" by (cases "hr_status rp = 200") simp_all
  obtain k h3 where o3: "io_copy w x (hr_body rp) (hr_err rp) (tick h1) = (k, h3)" by fastforce
  note d2 = d1 [unfolded rp sum.case o3 prod.case]
  with st have k: k by (cases k) simp_all
  with d2 st have ok: "w_runs w (hr_body rp)" "h' = tick h3" by (auto split: if_splits)
  from k o3 have "\<not> hr_err rp" "h_fs h3 (w_tmp w) = Some (File (hr_body rp))" by (auto simp: io_copy_def xt split: option.splits)
  with rp st ok that show ?thesis by simp
qed

lemma replace_ok:
  assumes r: "replaceBinary w d h = (r, h')" and b: "h_fs h (w_tmp w) = Some (File b)" and g: "guarded d D h0 h" "Some (File b) \<in> D"
    and pl: "plain (h_fs h) (d @ ''.new'')" "w_tmp w \<noteq> d @ ''.new''"
  shows "guarded d D h0 h'" "r = Returned () \<Longrightarrow> h_fs h' d = Some (File b)"
proof -
  obtain e h1 where c: "copyFileE w (w_tmp w) (d @ ''.new'') h = (e, h1)" by fastforce
  have g1: "guarded d D h0 h1" using guarded_copyFileE [OF g(1) c] pl by simp
  have new: "e = None \<Longrightarrow> h_fs h1 (d @ ''.new'') = Some (File b)" 
    by (rule copyFileE_ok [of w "w_tmp w" "d @ ''.new''" h h1]) (use c pl b in simp_all)
  obtain k h2 where k: "syscall w (SysRename (d @ ''.new'') d) h1 = (k, h2)" by fastforce
  have moved: "e = None \<Longrightarrow> k \<Longrightarrow> h2 = effect (SysRename (d @ ''.new'') d) (tick h1) \<and> h_fs h2 d = Some (File b)"
    using k new by (auto simp: syscall_def split: if_splits)
  have "e = None \<Longrightarrow> guarded d D h0 h2"
    using k moved guarded_effect [of d D h0 "tick h1" "SysRename (d @ ''.new'') d"] g1 g(2) new by (cases k) (auto simp: syscall_def split: if_splits)
  then show "guarded d D h0 h'" "r = Returned () \<Longrightarrow> h_fs h' d = Some (File b)"
    using r c k g1 moved by (cases e; cases k; auto simp: replaceBinary_def guarded_try)+
qed

lemma guarded_replace [keeps]:
  assumes "guarded p D h0 h" "replaceBinary w d h = (r, h')" "plain (h_fs h) (d @ ''.new'')" "p \<noteq> d" "p \<noteq> d @ ''.new''"
  shows "guarded p D h0 h'"
proof -
  obtain e h1 where c: "copyFileE w (w_tmp w) (d @ ''.new'') h = (e, h1)" by fastforce
  have g1: "guarded p D h0 h1" using guarded_copyFileE [OF assms(1) c] assms by simp
  obtain k h2 where k: "syscall w (SysRename (d @ ''.new'') d) h1 = (k, h2)" by fastforce
  have g2: "guarded p D h0 h2" using guarded_syscall [OF g1 k] assms by simp
  show ?thesis using assms c k g1 g2 by (cases e; cases k) (auto simp: replaceBinary_def guarded_try)
qed

lemma restart_ok:
  assumes r: "restartServices w d bu svcs h = (r, h')" and g: "guarded d D h0 h"
    and bak: "bu \<longrightarrow> h_fs h (d @ ''.bak'') = old" "old \<in> D"
  shows "guarded d D h0 h'" "r = Fatal rolledBack \<Longrightarrow> h_fs h' d = old" "r = Returned () \<Longrightarrow> h_fs h' d = h_fs h d"
proof -
  obtain n h1 where s: "startAll w svcs (stopAll w svcs h) = (n, h1)" by fastforce
  have keep: "guarded p D' h2 h \<Longrightarrow> guarded p D' h2 h1" for p D' h2 using guarded_startAll [OF guarded_stopAll s] .
  obtain k h2 where k: "syscall w (SysRename (d @ ''.bak'') d) h1 = (k, h2)" by fastforce
  have same: "h_fs h1 p = h_fs h p" for p using guarded_same [OF keep [OF guarded_refl]] by blast
  have moved: "k \<Longrightarrow> bu \<Longrightarrow> h_fs h2 d = old" using k bak(1) same by (auto simp: syscall_def split: if_splits)
  have g2: "bu \<Longrightarrow> guarded d D h0 h2"
    using k keep [OF g] guarded_effect [of d D h0 "tick h1" "SysRename (d @ ''.bak'') d"] bak same
    by (auto simp: syscall_def split: if_splits)
  obtain m h3 where s3: "startAll w svcs h2 = (m, h3)" by fastforce
  have "k \<Longrightarrow> bu \<Longrightarrow> h_fs h3 d = old" using guarded_same [OF guarded_startAll [OF guarded_refl s3]] moved by blast
  then show "r = Fatal rolledBack \<Longrightarrow> h_fs h' d = old"
    using r s k s3 by (cases k) (auto simp: restartServices_def rolledBack_def split: if_splits)
  show "r = Returned () \<Longrightarrow> h_fs h' d = h_fs h d"
    using r s k s3 same by (cases k) (auto simp: restartServices_def split: if_splits)
  show "guarded d D h0 h'"
    using r s k s3 g keep [OF g] g2 guarded_startAll [OF g2 s3] by (cases k) (auto simp: restartServices_def split: if_splits)
qed

section \<open>The whole command\<close>

definition releaseBinary :: "world \<Rightarrow> (bytes \<Rightarrow> string + string) \<Rightarrow> upgrade_opts \<Rightarrow> host \<Rightarrow> bytes \<Rightarrow> bool" where
  \<comment> \<open>the bytes are the complete binary of the release that was asked for, they run, and the release is newer
     or the upgrade was forced\<close>
  "releaseBinary w tagName uo h b \<longleftrightarrow>
     (\<exists>v url h1 n rp. resolveRelease w tagName (uo_version uo) h = (Returned (v, url), h1)
       \<and> (uo_force uo \<or> \<not> versionNewerOrEqual versionString (trim_prefix ''v'' v))
       \<and> w_http w n url = Inr rp \<and> hr_status rp = 200 \<and> \<not> hr_err rp \<and> hr_body rp = b \<and> w_runs w b)"

definition upgrade_layout :: "world \<Rightarrow> upgrade_opts \<Rightarrow> (string \<rightharpoonup> entry) \<Rightarrow> bool" where
  \<comment> \<open>the files of an upgrade are different ones, none is a link, and the temporary file is a new one\<close>
  "upgrade_layout w uo fs \<longleftrightarrow>
     (let d = path_join (uo_installDir uo) ''anvil''; ps = [d, d @ ''.bak'', d @ ''.new'', w_tmp w] in
       distinct (ps @ [symlinkPath, symlinkTmp]) \<and> list_all (\<lambda>p. p \<notin> set (parents [] (uo_installDir uo))) ps
       \<and> list_all (\<lambda>p. case fs p of Some (Link t) \<Rightarrow> False | _ \<Rightarrow> True) ps \<and> fs (w_tmp w) = None)"

lemma layout_facts:
  assumes "upgrade_layout w uo fs" "d = path_join (uo_installDir uo) ''anvil''"
  shows "plain fs d" "plain fs (d @ ''.bak'')" "plain fs (d @ ''.new'')" "plain fs (w_tmp w)"
    "w_tmp w \<noteq> d" "w_tmp w \<noteq> d @ ''.bak''" "w_tmp w \<noteq> d @ ''.new''" "d \<notin> {symlinkTmp, symlinkPath}" "d @ ''.bak'' \<notin> {symlinkTmp, symlinkPath}"
    "{d, d @ ''.bak'', d @ ''.new'', w_tmp w} \<inter> set (parents [] (uo_installDir uo)) = {}"
  using assms by (auto simp: upgrade_layout_def Let_def)

lemma guarded_resolve: "guarded p D h0 h \<Longrightarrow> resolveRelease w tagName v h = (r, h') \<Longrightarrow> guarded p D h0 h'"
  by (auto simp: resolveRelease_def fetchLatestTag_def http_get_def Let_def split: outcome.splits sum.splits if_splits)

lemma resolve_fs: "resolveRelease w tagName v h = (r, h') \<Longrightarrow> h_fs h' = h_fs h"
  by (auto simp: resolveRelease_def fetchLatestTag_def http_get_def Let_def split: outcome.splits sum.splits if_splits)

lemma prepare_ok:
  assumes lay: "upgrade_layout w uo fs0" and d: "d = path_join (uo_installDir uo) ''anvil''"
    and same: "\<forall>p. p \<noteq> w_tmp w \<longrightarrow> h_fs h p = fs0 p" and tmp: "h_fs h (w_tmp w) = Some (File b)"
    and s1: "runningAnvilServices w h = (svcs, h1)" and hm_def: "hm = os_mkdirall w (uo_installDir uo) h1"
    and s2: "backupBinary w d hm = (bu, h2)"
  shows "guarded d D h0 h \<Longrightarrow> guarded d D h0 h2" "h_fs h2 d = fs0 d" "h_fs h2 (d @ ''.new'') = fs0 (d @ ''.new'')"
    "h_fs h2 (w_tmp w) = Some (File b)" "bu \<longrightarrow> h_fs h2 (d @ ''.bak'') = fs0 d"
proof -
  note lf = layout_facts [OF lay d]
  have k1: "guarded p D' h' h \<Longrightarrow> guarded p D' h' h1" for p D' h' using s1 guarded_activeOf by (auto simp: runningAnvilServices_def)
  have km: "guarded p D' h' h \<Longrightarrow> p \<notin> set (parents [] (uo_installDir uo)) \<Longrightarrow> guarded p D' h' hm" for p D' h'
    using guarded_mkdirs [OF k1] by (simp add: hm_def os_mkdirall_def)
  have em: "p \<in> {d, d @ ''.bak'', d @ ''.new'', w_tmp w} \<Longrightarrow> h_fs hm p = h_fs h p" for p
    using guarded_same [OF km [OF guarded_refl]] lf(10) by blast
  have plm: "plain (h_fs hm) (d @ ''.bak'')" "plain (h_fs hm) d" using em same lf(1-3,5-7) by simp_all
  have k2: "guarded p D' h' hm \<Longrightarrow> p \<noteq> d @ ''.bak'' \<Longrightarrow> guarded p D' h' h2" for p D' h' using guarded_backup [OF _ s2 plm(1)] .
  have e2: "p \<noteq> d @ ''.bak'' \<Longrightarrow> h_fs h2 p = h_fs hm p" for p using guarded_same [OF k2 [OF guarded_refl]] by blast
  show "bu \<longrightarrow> h_fs h2 (d @ ''.bak'') = fs0 d" using backup_ok [OF _ plm(2,1), of w h2] s2 em same lf(5) by (cases bu) simp_all
  show "h_fs h2 d = fs0 d" "h_fs h2 (d @ ''.new'') = fs0 (d @ ''.new'')" "h_fs h2 (w_tmp w) = Some (File b)"
    using e2 em tmp same lf(5-7) by simp_all
  show "guarded d D h0 h \<Longrightarrow> guarded d D h0 h2" using k2 [OF km] lf(10) by simp
qed

lemma place_ok:
  assumes lay: "upgrade_layout w uo fs0" and d: "d = path_join (uo_installDir uo) ''anvil''"
    and same: "\<forall>p. p \<noteq> w_tmp w \<longrightarrow> h_fs h p = fs0 p" and tmp: "h_fs h (w_tmp w) = Some (File b)"
    and g: "guarded d D h0 h" "Some (File b) \<in> D"
    and s1: "runningAnvilServices w h = (svcs, h1)" and hm_def: "hm = os_mkdirall w (uo_installDir uo) h1"
    and s2: "backupBinary w d hm = (bu, h2)" and s3: "replaceBinary w d h2 = (r3, h3)"
  shows "guarded d D h0 h3" "r3 = Returned () \<Longrightarrow> h_fs h3 d = Some (File b)" "bu \<longrightarrow> h_fs h3 (d @ ''.bak'') = fs0 d"
proof -
  note lf = layout_facts [OF lay d] and pr = prepare_ok [OF lay d same tmp s1 hm_def s2]
  have pl: "plain (h_fs h2) (d @ ''.new'')" using pr(3) lf(3) by simp
  show "guarded d D h0 h3" using replace_ok(1) [OF s3 pr(4) pr(1) [OF g(1)] g(2) pl lf(7)] .
  show "r3 = Returned () \<Longrightarrow> h_fs h3 d = Some (File b)" using replace_ok(2) [OF s3 pr(4) pr(1) [OF g(1)] g(2) pl lf(7)] .
  have "h_fs h3 (d @ ''.bak'') = h_fs h2 (d @ ''.bak'')" using guarded_same [OF guarded_replace [OF guarded_refl s3 pl]] by simp
  with pr(5) show "bu \<longrightarrow> h_fs h3 (d @ ''.bak'') = fs0 d" by simp
qed

lemma install_ok:
  assumes i: "installBinary w uo latest h = (r, h')" and lay: "upgrade_layout w uo fs0" and d: "d = path_join (uo_installDir uo) ''anvil''"
    and same: "\<forall>p. p \<noteq> w_tmp w \<longrightarrow> h_fs h p = fs0 p" and tmp: "h_fs h (w_tmp w) = Some (File b)"
    and g: "guarded d D h0 h" "Some (File b) \<in> D" "fs0 d \<in> D"
  shows "guarded d D h0 h'" "r = Fatal rolledBack \<Longrightarrow> h_fs h' d = fs0 d" "r = Returned x \<Longrightarrow> h_fs h' d = Some (File b)"
proof -
  note lf = layout_facts [OF lay d]
  obtain svcs h1 where s1: "runningAnvilServices w h = (svcs, h1)" by fastforce
  define hm where "hm = os_mkdirall w (uo_installDir uo) h1"
  obtain bu h2 where s2: "backupBinary w d hm = (bu, h2)" by fastforce
  obtain r3 h3 where s3: "replaceBinary w d h2 = (r3, h3)" by fastforce
  note pk = place_ok [OF lay d same tmp g(1,2) s1 hm_def s2 s3]
  define hl where "hl = linkBinary w d h3"
  have gl: "guarded d D h0 hl" using guarded_link [OF pk(1) lf(8)] by (simp add: hl_def)
  have el: "h_fs hl d = h_fs h3 d" "h_fs hl (d @ ''.bak'') = h_fs h3 (d @ ''.bak'')"
    using guarded_same [OF guarded_link [OF guarded_refl lf(8)]] guarded_same [OF guarded_link [OF guarded_refl lf(9)]] by (simp_all add: hl_def)
  obtain r4 h4 where s4: "restartServices w d bu svcs hl = (r4, h4)" by fastforce
  have bakl: "bu \<longrightarrow> h_fs hl (d @ ''.bak'') = fs0 d" using pk(3) el by simp
  note ro = restart_ok [OF s4 gl bakl g(3)]
  note i1 = i [unfolded installBinary_def Let_def d [symmetric] s1 prod.case hm_def [symmetric] s2 s3]
  show "guarded d D h0 h'"
  proof (cases r3)
    case (Fatal e)
    with i1 pk(1) show ?thesis by simp
  next
    case (Returned u)
    show ?thesis
    proof (cases r4)
      case (Fatal e)
      with i1 Returned s4 ro(1) show ?thesis by (simp add: hl_def [symmetric])
    next
      case R4: (Returned u)
      with i1 Returned s4 ro(1) lf(5) show ?thesis by (auto simp: hl_def [symmetric] http_get_def intro!: guarded_try)
    qed
  qed
  show "r = Fatal rolledBack \<Longrightarrow> h_fs h' d = fs0 d"
  proof (cases r3)
    case (Fatal e)
    assume "r = Fatal rolledBack"
    with i1 Fatal s3 show ?thesis
      by (auto simp: replaceBinary_def rolledBack_def split: option.splits prod.splits bool.splits)
  next
    case (Returned u)
    assume "r = Fatal rolledBack"
    with i1 Returned s4 ro(2) show ?thesis by (cases r4) (auto simp: hl_def [symmetric] http_get_def)
  qed
  show "r = Returned x \<Longrightarrow> h_fs h' d = Some (File b)"
  proof -
    assume r: "r = Returned x"
    with i1 have r3: "r3 = Returned ()" by (cases r3) auto
    with i1 r s4 have r4: "r4 = Returned ()" by (cases r4) (auto simp: hl_def [symmetric])
    define h5 where "h5 = (if bu then try_sys w (SysRemove (d @ ''.bak'')) h4 else h4)"
    from i1 r3 r4 s4 have h': "h' = try_sys w (SysRemove (w_tmp w)) (tick h5)" by (simp add: hl_def [symmetric] http_get_def h5_def [symmetric])
    have "guarded d {h_fs h4 d} h4 h5" by (simp add: h5_def guarded_refl guarded_try)
    then have "guarded d {h_fs h4 d} h4 h'" using lf(5) by (simp add: h' guarded_try)
    with guarded_same ro(3) [OF r4] el(1) pk(2) [OF r3] show ?thesis by metis
  qed
qed

lemma cmdUpgrade_refused:
  assumes c: "cmdUpgrade w tagName uo h = (r, h')" and s1: "resolveRelease w tagName (uo_version uo) h = (rr, h1)"
    and no: "\<nexists>v url h2. rr = Returned (v, url) \<and> \<not> uo_check uo \<and> (uo_force uo \<or> \<not> versionNewerOrEqual versionString (trim_prefix ''v'' v))
      \<and> w_euid w = 0 \<and> downloadBinary w url h1 = (Returned (), h2)"
  shows "(h' = h1 \<and> r \<noteq> Fatal rolledBack \<and> (\<forall>v ok. r \<noteq> Returned (Upgraded v ok)))
    \<or> (\<exists>url e. downloadBinary w url h1 = (Fatal e, h') \<and> r = Fatal e \<and> e \<noteq> rolledBack)"
proof (cases rr)
  case (Fatal e)
  have "e \<noteq> rolledBack" using s1 Fatal
    by (auto simp: rolledBack_def resolveRelease_def binaryName_def fetchLatestTag_def Let_def split: sum.splits outcome.splits if_splits prod.splits)
  with Fatal c s1 show ?thesis by (auto simp: cmdUpgrade_def)
next
  case (Returned vu)
  obtain v url where vu: "vu = (v, url)" by fastforce
  show ?thesis
  proof (cases "uo_check uo \<or> (versionNewerOrEqual versionString (trim_prefix ''v'' v) \<and> \<not> uo_force uo) \<or> w_euid w \<noteq> 0")
    case True
    with c s1 Returned vu show ?thesis by (auto simp: cmdUpgrade_def Let_def rolledBack_def split: if_splits)
  next
    case False
    obtain x h2 where x: "downloadBinary w url h1 = (x, h2)" by fastforce
    with no False Returned vu obtain e where e: "x = Fatal e" by (cases x) auto
    with x have "e \<noteq> rolledBack" by (auto simp: rolledBack_def downloadBinary_def split: option.splits sum.splits prod.splits if_splits bool.splits)
    with c s1 Returned vu False x e show ?thesis by (auto simp: cmdUpgrade_def Let_def)
  qed
qed


section \<open>The order of versions\<close>

definition printVersion :: "nat \<times> nat \<times> nat \<Rightarrow> string" where
  "printVersion v = (case v of (a, b, c) \<Rightarrow> digits a @ ''.'' @ digits b @ ''.'' @ digits c)"

lemma digits_dec: "c \<in> set (digits n) \<Longrightarrow> dec_val c \<noteq> None"
  using digits_of_char [of c n] by (auto simp: dec_val_def)

lemma digits_hd: "\<exists>c cs. digits n = c # cs \<and> 48 \<le> (of_char c :: nat)"
  using digits_nonempty [of n] digits_of_char [of "hd (digits n)" n] by (cases "digits n") auto

lemma scan_d_digits:
  assumes n: "n < 2 ^ 63" and r: "r = [] \<or> dec_val (hd r) = None"
  shows "scan_d (digits n @ r) = Some (int n, r)"
proof -
  obtain c cs where d: "digits n = c # cs" "48 \<le> (of_char c :: nat)" using digits_hd by blast
  have c: "c \<notin> {CHR '' '', CHR 0x09, CHR 0x0B, CHR 0x0C, CHR 0x0D}" "c \<noteq> CHR ''-''" "c \<noteq> CHR ''+''" using d(2) by auto
  have t: "takeWhile (\<lambda>c. dec_val c \<noteq> None) (digits n @ r) = digits n"
    using digits_dec [of _ n] r by (cases r) (auto simp: takeWhile_append2 takeWhile_append1)
  have s: "dropWhile (\<lambda>c. c \<in> {CHR '' '', CHR 0x09, CHR 0x0B, CHR 0x0C, CHR 0x0D}) (digits n @ r) = digits n @ r" using c(1) d(1) by simp
  show ?thesis unfolding scan_d_def s Let_def
    using t d(1) c(2,3) n dec_digits_digits [of n] by auto
qed

lemma parseVersion_print:
  assumes "a < 2 ^ 63" "b < 2 ^ 63" "c < 2 ^ 63" "p \<in> {[], ''v''}"
  shows "parseVersion (p @ printVersion (a, b, c)) = (int a, int b, int c)"
proof -
  have dot: "dec_val CHR ''.'' = None" by (simp add: dec_val_def)
  have v: "trim_prefix ''v'' (p @ printVersion (a, b, c)) = printVersion (a, b, c)"
    using assms(4) digits_of_char [of "CHR ''v''" a] by (cases "digits a") (auto simp: trim_prefix_def printVersion_def digits_nonempty)
  have 1: "scan_d (printVersion (a, b, c)) = Some (int a, ''.'' @ digits b @ ''.'' @ digits c)"
    using scan_d_digits [OF assms(1), of "''.'' @ digits b @ ''.'' @ digits c"] dot by (simp add: printVersion_def)
  have 2: "scan_d (digits b @ ''.'' @ digits c) = Some (int b, ''.'' @ digits c)" using scan_d_digits [OF assms(2), of "''.'' @ digits c"] dot by simp
  have 3: "scan_d (digits c) = Some (int c, [])" using scan_d_digits [OF assms(3), of "[]"] by simp
  show ?thesis unfolding parseVersion_def v using 1 2 3 by (simp add: scan_dot_def)
qed

text \<open>
  releases are compared as semantic versions. Printed version numbers, with or without the leading v,
  are ordered by \<^verbatim>\<open>versionNewerOrEqual\<close> as their three numbers are lexicographically.
\<close>

theorem versionNewerOrEqual_lex:
  assumes "fst x < 2 ^ 63" "fst (snd x) < 2 ^ 63" "snd (snd x) < 2 ^ 63" "fst y < 2 ^ 63" "fst (snd y) < 2 ^ 63" "snd (snd y) < 2 ^ 63"
    and "p \<in> {[], ''v''}" "q \<in> {[], ''v''}"
  shows "versionNewerOrEqual (p @ printVersion x) (q @ printVersion y)
    \<longleftrightarrow> x = y \<or> (y, x) \<in> less_than <*lex*> less_than <*lex*> less_than"
  using assms by (cases x; cases y) (auto simp: versionNewerOrEqual_def parseVersion_print)

theorem versionNewerOrEqual_lex_witness:
  "versionNewerOrEqual (''v'' @ printVersion (0, 10, 1)) ([] @ printVersion (0, 9, 3))"
  using versionNewerOrEqual_lex [of "(0, 10, 1)" "(0, 9, 3)" "''v''" "[]"] by simp

lemma versionNewerOrEqual_total: "versionNewerOrEqual a b \<or> versionNewerOrEqual b a"
  by (auto simp: versionNewerOrEqual_def split: prod.splits)

lemma versionNewerOrEqual_trans: "versionNewerOrEqual a b \<Longrightarrow> versionNewerOrEqual b c \<Longrightarrow> versionNewerOrEqual a c"
  by (auto simp: versionNewerOrEqual_def split: prod.splits if_splits)

section \<open>An upgrade without failures succeeds\<close>

definition faultless :: "world \<Rightarrow> bool" where
  "faultless w \<longleftrightarrow> (\<forall>n. w_fault w n = None)"

lemma faultless_syscall: "faultless w \<Longrightarrow> sys_allowed c (h_fs h) \<Longrightarrow> syscall w c h = (True, effect c (tick h))"
  by (simp add: faultless_def syscall_def fails_def)

lemma faultless_copyFileE:
  assumes "faultless w" "h_fs h src = Some (File b)" "plain (h_fs h) dst" "h_fs h dst \<noteq> Some Dir"
  shows "fst (copyFileE w src dst h) = None"
  using assms follow_here [of "h_fs h" src] follow_here [of "h_fs h" dst]
  by (simp add: copyFileE_def os_open_def os_create_def io_copy_def syscall_def fails_def faultless_def read_file_def)

lemma faultless_replace:
  assumes f: "faultless w" and t: "h_fs h (w_tmp w) = Some (File b)" and n: "plain (h_fs h) (d @ ''.new'')" "h_fs h (d @ ''.new'') \<noteq> Some Dir"
    and d: "h_fs h d \<noteq> Some Dir" "w_tmp w \<noteq> d @ ''.new''"
  shows "fst (replaceBinary w d h) = Returned ()"
proof -
  obtain e h1 where c: "copyFileE w (w_tmp w) (d @ ''.new'') h = (e, h1)" by fastforce
  with faultless_copyFileE [OF f t n] have e: "e = None" by simp
  have "plain (h_fs h) (w_tmp w)" using t by simp
  from copyFileE_ok [OF c [unfolded e] n(1) this d(2)] have "h_fs h1 (d @ ''.new'') \<noteq> None" by auto
  moreover have "h_fs h1 d = h_fs h d" using guarded_same [OF guarded_copyFileE [OF guarded_refl c n(1)]] by simp
  ultimately show ?thesis using c e d(1) faultless_syscall [OF f] by (simp add: replaceBinary_def)
qed

lemma faultless_startAll: "faultless w \<Longrightarrow> fst (startAll w svcs h) = 0"
proof (induction svcs arbitrary: h)
  case (Cons svc svcs)
  then show ?case by (cases "startAll w svcs (effect (SysSystemctl ''start'' svc) (tick h))") (simp add: faultless_syscall, metis fst_conv)
qed simp

lemma faultless_restart: "faultless w \<Longrightarrow> fst (restartServices w d bu svcs h) = Returned ()"
  using faultless_startAll [of w svcs "stopAll w svcs h"] by (cases "startAll w svcs (stopAll w svcs h)") (auto simp: restartServices_def)

lemma faultless_install:
  assumes f: "faultless w" and lay: "upgrade_layout w uo fs0" and d: "d = path_join (uo_installDir uo) ''anvil''"
    and same: "\<forall>p. p \<noteq> w_tmp w \<longrightarrow> h_fs h p = fs0 p" and tmp: "h_fs h (w_tmp w) = Some (File b)"
    and nd: "fs0 d \<noteq> Some Dir" "fs0 (d @ ''.new'') \<noteq> Some Dir"
  shows "\<exists>ok h'. installBinary w uo v h = (Returned (Upgraded v ok), h')"
proof -
  obtain svcs h1 where s1: "runningAnvilServices w h = (svcs, h1)" by fastforce
  define hm where "hm = os_mkdirall w (uo_installDir uo) h1"
  obtain bu h2 where s2: "backupBinary w d hm = (bu, h2)" by fastforce
  note lf = layout_facts [OF lay d] and pr = prepare_ok [OF lay d same tmp s1 hm_def s2]
  have "fst (replaceBinary w d h2) = Returned ()" by (rule faultless_replace [OF f pr(4)]) (use pr lf nd in simp_all)
  then obtain h3 where s3: "replaceBinary w d h2 = (Returned (), h3)" by (cases "replaceBinary w d h2") simp
  from faultless_restart [OF f] obtain h4 where s4: "restartServices w d bu svcs (linkBinary w d h3) = (Returned (), h4)"
    by (metis prod.collapse)
  show ?thesis using s1 s2 s3 s4 by (simp add: installBinary_def Let_def d [symmetric] hm_def [symmetric] http_get_def)
qed

lemma faultless_download:
  assumes f: "faultless w" and t: "h_fs h (w_tmp w) = None"
    and r: "w_http w (Suc (h_calls h)) url = Inr rp" "hr_status rp = 200" "\<not> hr_err rp" "w_runs w (hr_body rp)"
  shows "fst (downloadBinary w url h) = Returned ()"
  using f t r follow_here [of "h_fs h" "w_tmp w"]
  by (simp add: downloadBinary_def os_create_def syscall_def faultless_def fails_def http_get_def io_copy_def tick_def)

section \<open>A run\<close>

definition demo_world :: world where
  "demo_world = \<lparr>w_fault = (\<lambda>_. None), w_http = (\<lambda>n url. Inr \<lparr>hr_status = 200, hr_body = ''new'', hr_err = False\<rparr>),
     w_runs = (\<lambda>b. b = ''new''), w_arch = ''amd64'', w_euid = 0, w_tmp = ''/tmp/anvil-upgrade-1''\<rparr>"

definition demo_host :: host where
  "demo_host = \<lparr>h_fs = [''/opt/anvil/anvil'' \<mapsto> File ''old''], h_users = [], h_active = [''anvil-a''], h_trace = [], h_calls = 0\<rparr>"

lemma demo_dest: "path_join (uo_installDir upgradeDefaults) ''anvil'' = ''/opt/anvil/anvil''"
  by code_simp

lemma demo_layout: "upgrade_layout demo_world upgradeDefaults (h_fs demo_host)"
  by code_simp

lemma demo_resolve:
  "resolveRelease demo_world (\<lambda>b. Inr ''v9.0.0'') (uo_version upgradeDefaults) demo_host
     = (Returned (''v9.0.0'', githubLatest @ ''/anvil-linux-amd64''), tick demo_host)"
  by (simp add: resolveRelease_def binaryName_def fetchLatestTag_def http_get_def demo_world_def upgradeDefaults_def)

lemma demo_upgrade:
  "\<exists>ok h'. cmdUpgrade demo_world (\<lambda>b. Inr ''v9.0.0'') upgradeDefaults demo_host = (Returned (Upgraded ''v9.0.0'' ok), h')"
proof -
  let ?u = "githubLatest @ ''/anvil-linux-amd64''"
  have f: "faultless demo_world" by (simp add: faultless_def demo_world_def)
  have fs: "h_fs (tick demo_host) = h_fs demo_host" by simp
  have t: "h_fs (tick demo_host) (w_tmp demo_world) = None" by (simp add: demo_host_def demo_world_def)
  have "fst (downloadBinary demo_world ?u (tick demo_host)) = Returned ()"
    by (rule faultless_download [OF f t, where rp = "\<lparr>hr_status = 200, hr_body = ''new'', hr_err = False\<rparr>"]) (simp_all add: demo_world_def)
  then obtain h2 where dl: "downloadBinary demo_world ?u (tick demo_host) = (Returned (), h2)"
    by (cases "downloadBinary demo_world ?u (tick demo_host)") simp
  have pl: "plain (h_fs (tick demo_host)) (w_tmp demo_world)" using t by simp
  have same: "\<forall>p. p \<noteq> w_tmp demo_world \<longrightarrow> h_fs h2 p = h_fs demo_host p"
    using guarded_same [OF guarded_download [OF guarded_refl dl pl]] fs by simp
  obtain b where b: "h_fs h2 (w_tmp demo_world) = Some (File b)" using download_ok [OF dl pl] by metis
  have "\<exists>ok h'. installBinary demo_world upgradeDefaults ''v9.0.0'' h2 = (Returned (Upgraded ''v9.0.0'' ok), h')"
    by (rule faultless_install [OF f demo_layout demo_dest [symmetric] same b]) (simp_all add: demo_host_def)
  moreover have "\<not> versionNewerOrEqual versionString ''9.0.0''" by code_simp
  ultimately show ?thesis using dl demo_resolve
    by (simp add: cmdUpgrade_def Let_def trim_prefix_def) (simp add: upgradeDefaults_def demo_world_def)
qed


text \<open>
  With the binary's own directory on the path, \<^verbatim>\<open>--install-dir /usr/local/bin\<close>, the link that is meant to point
  to the binary replaces it and points to itself.
\<close>

lemma upgrade_self_link:
  assumes "\<And>n. w_fault w n = None" "h_fs h symlinkPath = Some (File b)" "h_fs h symlinkTmp = None"
  shows "path_join ''/usr/local/bin'' ''anvil'' = symlinkPath \<and> h_fs (linkBinary w symlinkPath h) symlinkPath = Some (Link symlinkPath)"
proof -
  have "path_join ''/usr/local/bin'' ''anvil'' = symlinkPath" by code_simp
  moreover have "symlinkTmp \<noteq> symlinkPath" by code_simp
  ultimately show ?thesis using assms by (simp add: linkBinary_def syscall_def try_sys_def fails_def)
qed

end
