(* ===== verification/Deploy.thy ===== *)
theory Deploy
  imports Upgrade
begin

text \<open>
  \<^verbatim>\<open>cmd/anvil/deploy.go\<close>: \<^verbatim>\<open>anvil deploy\<close> on the machine of the upgrade command. It creates the user, the data
  directories and an identity per node, installs the running binary, writes units and configurations, starts the
  services and checks their health. Keys, the name of the host and of the running binary are parameters.
\<close>

section \<open>Helpers\<close>

definition parseNodeList :: "string \<Rightarrow> string list" where
  "parseNodeList s =
     (let t = to_lower (trim_space s) in
      if t = ''a'' then [''a''] else if t = ''b'' then [''b''] else if t = ''ab'' \<or> t = ''both'' then [''a'', ''b''] else [])"

definition nodeDataDir :: "string \<Rightarrow> string \<Rightarrow> string" where
  "nodeDataDir base node = (if node = ''a'' then path_join base ''anvil'' else path_join base ''anvil-b'')"

definition serviceName :: "string \<Rightarrow> string" where "serviceName node = ''anvil-'' @ node"

definition apiPort :: "string \<Rightarrow> string" where "apiPort node = (if node = ''b'' then ''9334'' else ''9333'')"

definition upper_char :: "char \<Rightarrow> char" where
  "upper_char c = (let n = of_char c :: nat in if 97 \<le> n \<and> n \<le> 122 then char_of (n - 32) else c)"

definition to_upper :: "string \<Rightarrow> string" where "to_upper = map upper_char"

definition envFileOf :: "string \<Rightarrow> string \<Rightarrow> string" where "envFileOf configDir node = path_join configDir (''node-'' @ node @ ''.env'')"

definition tomlPathOf :: "string \<Rightarrow> string \<Rightarrow> string" where "tomlPathOf configDir node = path_join configDir (''node-'' @ node @ ''.toml'')"

definition unitPathOf :: "string \<Rightarrow> string" where "unitPathOf node = ''/etc/systemd/system/'' @ serviceName node @ ''.service''"

fun ipv4_field :: "string \<Rightarrow> nat option" where
  \<comment> \<open>decimal, up to 255, without leading zeros\<close>
  "ipv4_field s = (case dec_digits 0 s of None \<Rightarrow> None
     | Some n \<Rightarrow> if s = [] \<or> n > 255 \<or> (length s > 1 \<and> hd s = CHR ''0'') then None else Some n)"

definition parseIPv4 :: "string \<Rightarrow> (nat \<times> nat \<times> nat \<times> nat) option" where
  \<comment> \<open>\<^verbatim>\<open>net.ParseIP\<close> on a text without colon\<close>
  "parseIPv4 s =
     (case map ipv4_field (split_on (CHR ''.'') s) of
        [Some a, Some b, Some c, Some d] \<Rightarrow> Some (a, b, c, d)
      | _ \<Rightarrow> None)"

definition isValidPublicIPv4 :: "string \<Rightarrow> bool" where
  "isValidPublicIPv4 ip =
     (if ip = [] \<or> CHR '':'' \<in> set ip \<or> CHR ''<'' \<in> set ip then False
      else case parseIPv4 ip of
        None \<Rightarrow> False
      | Some (a, b, c, d) \<Rightarrow>
         \<not> (a = 127 \<or> (a = 10 \<or> (a = 172 \<and> 16 \<le> b \<and> b \<le> 31) \<or> (a = 192 \<and> b = 168)) \<or> (a = 169 \<and> b = 254)
           \<or> (a = 224 \<and> b = 0 \<and> c = 0) \<or> (a = 0 \<and> b = 0 \<and> c = 0 \<and> d = 0)))"

record deploy_env =
  de_world :: world
  de_key :: "nat \<Rightarrow> string + (string \<times> string)" \<comment> \<open>a new key: WIF and public key; the call number stands for the randomness\<close>
  de_wifPub :: "string \<Rightarrow> bytes option" \<comment> \<open>\<^verbatim>\<open>PrivateKeyFromWif\<close> and the compressed public key\<close>
  de_hostname :: "string option"
  de_selfBin :: string

fun detectFrom :: "world \<Rightarrow> string list \<Rightarrow> host \<Rightarrow> string \<times> host" where
  "detectFrom w [] h = ([], h)"
| "detectFrom w (url # urls) h =
     (case http_get w url h of
        (Inl e, h1) \<Rightarrow> detectFrom w urls h1
      | (Inr r, h1) \<Rightarrow> (let ip = trim_space (hr_body r) in if isValidPublicIPv4 ip then (ip, h1) else detectFrom w urls h1))"

definition detectPublicIP :: "world \<Rightarrow> host \<Rightarrow> string \<times> host" where
  "detectPublicIP w h = detectFrom w [''https://ifconfig.me/ip'', ''https://api.ipify.org'', ''https://icanhazip.com''] h"

fun wifName :: "(string \<Rightarrow> bytes option) \<Rightarrow> string list \<Rightarrow> string option" where
  "wifName wifPub [] = None"
| "wifName wifPub (l0 # ls) =
     (let l = trim_space l0 in
      if prefix ''ANVIL_IDENTITY_WIF='' l then
        (case wifPub (trim_prefix ''ANVIL_IDENTITY_WIF='' l) of
           None \<Rightarrow> wifName wifPub ls
         | Some pk \<Rightarrow> (let pubHex = hex_encode pk in if length pubHex \<ge> 8 then Some (''anvil-'' @ take 8 pubHex) else wifName wifPub ls))
      else wifName wifPub ls)"

definition autoNodeName :: "deploy_env \<Rightarrow> string \<Rightarrow> string \<Rightarrow> host \<Rightarrow> string \<times> host" where
  "autoNodeName E node configDir h =
     (let data = (if fails (de_world E) h then None else read_file (h_fs h) (envFileOf configDir node));
          fallback = (case de_hostname E of Some n \<Rightarrow> if n \<noteq> [] then n else ''anvil-node'' | None \<Rightarrow> ''anvil-node'')
      in (case data of
            None \<Rightarrow> fallback
          | Some d \<Rightarrow> (case wifName (de_wifPub E) (split_on (CHR 0x0A) d) of None \<Rightarrow> fallback | Some n \<Rightarrow> n), tick h))"

section \<open>Templates\<close>

definition text_lines :: "string list \<Rightarrow> string" where
  "text_lines ls = concat (map (\<lambda>l. l @ [CHR 0x0A]) ls)"

definition quoted :: "string \<Rightarrow> string" where "quoted s = CHR 0x22 # s @ [CHR 0x22]"

definition renderUnit :: "string \<Rightarrow> string \<Rightarrow> string \<Rightarrow> string \<Rightarrow> string" where
  "renderUnit node configDir dataDir installDir =
     text_lines
       ([''[Unit]'', ''Description=Anvil '' @ (if node = ''b'' then ''One (peer node)'' else ''Prime (seed node)''), ''After=network-online.target'']
        @ (if node = ''b'' then [''After=anvil-a.service''] else [])
        @ [''Wants=network-online.target'', [], ''[Service]'', ''Type=simple'', ''User=anvil'', ''Group=anvil'', ''WorkingDirectory='' @ installDir,
           ''ExecStart='' @ installDir @ ''/anvil -config '' @ configDir @ ''/node-'' @ node @ ''.toml'',
           ''EnvironmentFile='' @ configDir @ ''/node-'' @ node @ ''.env'',
           ''Restart=on-failure'', ''RestartSec=5'', ''KillMode=control-group'', ''KillSignal=SIGTERM'', ''TimeoutStopSec=30'', ''FinalKillSignal=SIGKILL'',
           ''LimitNOFILE=65536'', [], ''# Security hardening'', ''ProtectSystem=strict'', ''ProtectHome=true'', ''ReadWritePaths='' @ dataDir,
           ''NoNewPrivileges=true'', [], ''[Install]'', ''WantedBy=multi-user.target''])"

definition meshSeeds :: "string \<Rightarrow> string \<Rightarrow> string" where
  "meshSeeds node seedPeer =
     (if seedPeer \<noteq> [] then ''seeds = ['' @ quoted seedPeer @ '']''
      else if node = ''b'' then ''seeds = ['' @ quoted ''ws://127.0.0.1:8333'' @ '']'' else ''seeds = []'')"

definition configText :: "string \<Rightarrow> string \<Rightarrow> string \<Rightarrow> string \<Rightarrow> string \<Rightarrow> string \<Rightarrow> string" where
  \<comment> \<open>\<open>publicURLLine\<close> ends with a newline of its own when it is not empty\<close>
  "configText node name dataDir ports publicURLLine seeds =
     text_lines [''# Anvil Node '' @ to_upper node, ''[node]'', ''name = '' @ quoted name, ''data_dir = '' @ quoted dataDir]
     @ ports @ publicURLLine @
     text_lines [[], ''[mesh]'', seeds, [], ''[bsv]'', ''nodes = ['' @ quoted ''seed.bitcoinsv.io:8333'' @ '']'', [],
       ''[arc]'', ''enabled = true'', ''url = '' @ quoted ''https://arc.gorillapool.io'', [],
       ''[junglebus]'', ''enabled = true'', ''url = '' @ quoted ''junglebus.gorillapool.io'', [],
       ''[overlay]'', ''enabled = true'', ''topics = ['' @ quoted ''anvil:mainnet'' @ '']'', [],
       ''[envelopes]'', ''max_ephemeral_ttl = 3600'', ''max_durable_size = 65536'', [],
       ''[api]'', ''explorer_origin = '' @ quoted ''ce15872085966376ffe4479ecf32d88fc6be026aed0246054bf7bfaab2ea756a_0'',
       ''rate_limit = 100'', ''payment_satoshis = 0'', ''trust_proxy = false'', [],
       ''[api.app_payments]'', ''allow_passthrough = true'', ''allow_split = true'', ''allow_token_gating = true'', ''max_app_price_sats = 10000'']"

definition renderConfig :: "deploy_env \<Rightarrow> string \<Rightarrow> string \<Rightarrow> string \<Rightarrow> string \<Rightarrow> string \<Rightarrow> string \<Rightarrow> host \<Rightarrow> string \<times> host" where
  "renderConfig E node dataDir seedPeer nm purl configDir h =
     (let meshPort = (if node = ''b'' then ''8334'' else ''8333''); port = (if node = ''b'' then ''9334'' else ''9333'') in
      case (if nm = [] then autoNodeName E node configDir h else (nm, h)) of (name, h1) \<Rightarrow>
      case (if purl \<noteq> [] then (''public_url = '' @ quoted purl @ [CHR 0x0A], h1)
            else case detectPublicIP (de_world E) h1 of (ip, h2) \<Rightarrow>
              (if ip \<noteq> [] then ''public_url = '' @ quoted (''http://'' @ ip @ '':'' @ port) @ [CHR 0x0A] else [], h2)) of (publicURLLine, h2) \<Rightarrow>
        (configText node name dataDir
          (text_lines [''listen = '' @ quoted (''0.0.0.0:'' @ meshPort), ''api_listen = '' @ quoted (''0.0.0.0:'' @ port)])
          publicURLLine (meshSeeds node seedPeer), h2))"

section \<open>Steps\<close>

definition ensureUser :: "world \<Rightarrow> string \<Rightarrow> bool \<Rightarrow> host \<Rightarrow> host" where
  "ensureUser w username dryRun h =
     (if username \<in> set (h_users h) \<or> dryRun then h else try_sys w (SysUseradd username) h)"

definition subdirs :: "string list" where
  "subdirs = [''headers'', ''envelopes'', ''overlay'', ''wallet'', ''invoices'', ''proofs'', ''mesh'']"

fun makeSubdirs :: "world \<Rightarrow> string \<Rightarrow> string list \<Rightarrow> host \<Rightarrow> host" where
  "makeSubdirs w dataDir [] h = h"
| "makeSubdirs w dataDir (sub # rest) h =
     (let dir = path_join dataDir sub in makeSubdirs w dataDir rest (try_sys w (SysChown True dir) (os_mkdirall w dir h)))"

definition identityText :: "string \<Rightarrow> string \<Rightarrow> string" where
  "identityText node wif = text_lines [''# Anvil Node '' @ to_upper node @ '' identity '' @ [CHR 0xE2, CHR 0x80, CHR 0x94] @ '' generated by anvil deploy'', ''ANVIL_IDENTITY_WIF='' @ wif]"

definition createIdentity :: "deploy_env \<Rightarrow> string \<Rightarrow> string \<Rightarrow> string \<Rightarrow> host \<Rightarrow> unit outcome \<times> host" where
  "createIdentity E node configDir envFile h =
     (let h1 = os_mkdirall (de_world E) configDir h in
      case de_key E (h_calls h1) of
        Inl e \<Rightarrow> (Fatal (''failed to generate private key: '' @ e), tick h1)
      | Inr (wif, pubkey) \<Rightarrow>
         (Returned (), try_sys (de_world E) (SysChown False envFile) (snd (os_writefile (de_world E) envFile (identityText node wif) (tick h1)))))"

definition preflight :: "deploy_env \<Rightarrow> string \<Rightarrow> string \<Rightarrow> string \<Rightarrow> bool \<Rightarrow> host \<Rightarrow> unit outcome \<times> host" where
  "preflight E node configDir dataDir dryRun h =
     (let h1 = (if dryRun then h else makeSubdirs (de_world E) dataDir subdirs h);
          envFile = envFileOf configDir node
      in case os_stat (de_world E) envFile h1 of (st, h2) \<Rightarrow>
        (if st = StatNotExist \<and> \<not> dryRun then createIdentity E node configDir envFile h2 else (Returned (), h2)))"

fun preflights :: "deploy_env \<Rightarrow> string \<Rightarrow> string \<Rightarrow> bool \<Rightarrow> string list \<Rightarrow> host \<Rightarrow> unit outcome \<times> host" where
  "preflights E configDir dataBase dryRun [] h = (Returned (), h)"
| "preflights E configDir dataBase dryRun (n # ns) h =
     (case preflight E n configDir (nodeDataDir dataBase n) dryRun h of
        (Fatal e, h1) \<Rightarrow> (Fatal e, h1)
      | (Returned _, h1) \<Rightarrow> preflights E configDir dataBase dryRun ns h1)"

definition copyFile :: "world \<Rightarrow> string \<Rightarrow> string \<Rightarrow> host \<Rightarrow> unit outcome \<times> host" where
  \<comment> \<open>the error of \<^verbatim>\<open>io.Copy\<close> is ignored\<close>
  "copyFile w src dst h =
     (case os_open w src h of
        (False, h1) \<Rightarrow> (Fatal ''open source binary'', h1)
      | (True, h1) \<Rightarrow>
         (case os_create w dst h1 of
            (None, h2) \<Rightarrow> (Fatal ''create dest binary'', h2)
          | (Some q, h2) \<Rightarrow> (Returned (), snd (io_copy w q (case read_file (h_fs h2) src of None \<Rightarrow> [] | Some b \<Rightarrow> b) False h2))))"

definition stopServices :: "world \<Rightarrow> string list \<Rightarrow> host \<Rightarrow> host" where
  "stopServices w nodes h = stopAll w (map serviceName nodes) h"

definition installSelf :: "deploy_env \<Rightarrow> string \<Rightarrow> string list \<Rightarrow> host \<Rightarrow> unit outcome \<times> host" where
  "installSelf E installDir nodeList h =
     (let w = de_world E; destBin = path_join installDir ''anvil'' in
      case copyFile w (de_selfBin E) destBin (stopServices w nodeList (os_mkdirall w installDir h)) of
        (Fatal e, h1) \<Rightarrow> (Fatal e, h1)
      | (Returned _, h1) \<Rightarrow> (Returned (), try_sys w (SysSymlink destBin symlinkPath) (try_sys w (SysRemove symlinkPath) h1)))"

record deploy_opts =
  do_configDir :: string
  do_dataBase :: string
  do_installDir :: string
  do_nodes :: string
  do_seed :: string
  do_name :: string
  do_publicURL :: string
  do_dryRun :: bool
  do_skipHealth :: bool

definition deployDefaults :: deploy_opts where
  "deployDefaults = \<lparr>do_configDir = ''/etc/anvil'', do_dataBase = ''/var/lib'', do_installDir = ''/opt/anvil'', do_nodes = ''a'',
     do_seed = [], do_name = [], do_publicURL = [], do_dryRun = False, do_skipHealth = False\<rparr>"

definition writeConfig :: "deploy_env \<Rightarrow> deploy_opts \<Rightarrow> string \<Rightarrow> string \<Rightarrow> host \<Rightarrow> host" where
  "writeConfig E dop node dataDir h =
     (let tomlPath = tomlPathOf (do_configDir dop) node in
      case os_stat (de_world E) tomlPath h of (st, h1) \<Rightarrow>
        if st = StatNotExist then
          (case renderConfig E node dataDir (do_seed dop) (do_name dop) (do_publicURL dop) (do_configDir dop) h1 of (tomlContent, h2) \<Rightarrow>
             if do_dryRun dop then h2 else snd (os_writefile (de_world E) tomlPath tomlContent h2))
        else h1)"

definition deployNode :: "deploy_env \<Rightarrow> deploy_opts \<Rightarrow> string \<Rightarrow> host \<Rightarrow> host" where
  "deployNode E dop node h =
     (let w = de_world E; dataDir = nodeDataDir (do_dataBase dop) node;
          unitContent = renderUnit node (do_configDir dop) dataDir (do_installDir dop);
          h1 = (if do_dryRun dop then h else snd (os_writefile w (unitPathOf node) unitContent h))
      in try_sys w (SysChown True dataDir) (writeConfig E dop node dataDir h1))"

fun deployNodes :: "deploy_env \<Rightarrow> deploy_opts \<Rightarrow> string list \<Rightarrow> host \<Rightarrow> host" where
  "deployNodes E dop [] h = h"
| "deployNodes E dop (n # ns) h = deployNodes E dop ns (deployNode E dop n h)"

fun startServices :: "world \<Rightarrow> string list \<Rightarrow> host \<Rightarrow> host" where
  "startServices w [] h = h"
| "startServices w (n # ns) h =
     startServices w ns (try_sys w (SysSystemctl ''start'' (serviceName n)) (try_sys w (SysSystemctl ''enable'' (serviceName n))
       (try_sys w (SysSystemctl ''daemon-reload'' []) h)))"

fun healthTries :: "world \<Rightarrow> nat \<Rightarrow> string \<Rightarrow> host \<Rightarrow> bool \<times> host" where
  "healthTries w 0 url h = (False, h)"
| "healthTries w (Suc n) url h =
     (case http_get w url h of
        (Inr r, h1) \<Rightarrow> (if hr_status r = 200 then (True, h1) else healthTries w n url h1)
      | (Inl e, h1) \<Rightarrow> healthTries w n url h1)"

definition healthCheck :: "world \<Rightarrow> string \<Rightarrow> host \<Rightarrow> bool \<times> host" where
  "healthCheck w port h = healthTries w 6 (''http://127.0.0.1:'' @ port @ ''/status'') h"

fun healthChecks :: "world \<Rightarrow> string list \<Rightarrow> host \<Rightarrow> bool \<times> host" where
  "healthChecks w [] h = (True, h)"
| "healthChecks w (n # ns) h =
     (case healthCheck w (apiPort n) h of (good, h1) \<Rightarrow> (case healthChecks w ns h1 of (rest, h2) \<Rightarrow> (good \<and> rest, h2)))"

datatype deploy_result = DryRunComplete | DeployedUnchecked | Deployed bool

definition deployRest :: "deploy_env \<Rightarrow> deploy_opts \<Rightarrow> string list \<Rightarrow> host \<Rightarrow> deploy_result outcome \<times> host" where
  \<comment> \<open>from the configuration files on\<close>
  "deployRest E dop nodeList h =
     (let h1 = deployNodes E dop nodeList h in
      if do_dryRun dop then (Returned DryRunComplete, h1)
      else let h2 = startServices (de_world E) nodeList h1 in
        if do_skipHealth dop then (Returned DeployedUnchecked, h2)
        else case healthChecks (de_world E) nodeList h2 of (allHealthy, h3) \<Rightarrow> (Returned (Deployed allHealthy), h3))"

definition cmdDeploy :: "deploy_env \<Rightarrow> deploy_opts \<Rightarrow> host \<Rightarrow> deploy_result outcome \<times> host" where
  "cmdDeploy E dop h =
     (let w = de_world E; nodeList = parseNodeList (do_nodes dop) in
      if nodeList = [] then (Fatal ''--nodes must be a, b, or ab'', h)
      else if \<not> do_dryRun dop \<and> w_euid w \<noteq> 0 then (Fatal ''anvil deploy requires root (use sudo)'', h)
      else case preflights E (do_configDir dop) (do_dataBase dop) (do_dryRun dop) nodeList (ensureUser w ''anvil'' (do_dryRun dop) h) of
        (Fatal e, h1) \<Rightarrow> (Fatal e, h1)
      | (Returned _, h1) \<Rightarrow>
         (case (if do_dryRun dop then (Returned (), h1) else installSelf E (do_installDir dop) nodeList h1) of
            (Fatal e, h2) \<Rightarrow> (Fatal e, h2)
          | (Returned _, h2) \<Rightarrow> deployRest E dop nodeList h2))"

end
