(* ===== verification/Deploy_Safety.thy ===== *)
theory Deploy_Safety
  imports Deploy Upgrade_Safety
begin

text \<open>
  What \<^verbatim>\<open>anvil deploy\<close> overwrites: the binary, the units and the link, and nothing else, so that an identity or
  a configuration that exists is kept whatever fails.
\<close>

section \<open>Files that exist are kept\<close>

definition kept :: "string \<Rightarrow> host \<Rightarrow> host \<Rightarrow> bool" where
  \<comment> \<open>the file was there all the time, unchanged, and no link leads to it\<close>
  "kept p h0 h \<longleftrightarrow> guarded p {h_fs h0 p} h0 h \<and> (\<exists>b. h_fs h0 p = Some (File b)) \<and> no_link_to p (h_fs h)"

lemma kept_self: "h_fs h p = Some (File b) \<Longrightarrow> no_link_to p (h_fs h) \<Longrightarrow> kept p h h"
  by (simp add: kept_def guarded_refl)

lemma kept_file: "kept p h0 h \<Longrightarrow> \<exists>b. h_fs h p = Some (File b)"
  unfolding kept_def using guarded_now by force

lemma kept_tick [simp]: "kept p h0 (tick h) = kept p h0 h"
  by (simp add: kept_def)

lemma kept_effect:
  assumes "kept p h0 h" "p \<notin> touches c" "\<And>q. c \<noteq> SysSymlink p q"
  shows "kept p h0 (effect c h)"
proof -
  have "no_link_to p (fs_effect c (h_fs h))" using assms(1,3) by (cases c) (auto simp: kept_def no_link_to_def)
  with assms guarded_quiet show ?thesis by (auto simp: kept_def)
qed

named_theorems kept_intros

lemma kept_syscall [kept_intros]:
  assumes "kept p h0 h" "\<And>q. c \<noteq> SysSymlink p q" "p \<notin> touches c \<or> (\<exists>q. c = SysMkdir q)"
  shows "kept p h0 (snd (syscall w c h))"
proof (cases "fst (syscall w c h)")
  case True
  then have c: "sys_allowed c (h_fs h)" "snd (syscall w c h) = effect c (tick h)" by (auto simp: syscall_def split: if_splits)
  then have "p \<notin> touches c" using assms(3) kept_file [OF assms(1)] by auto
  with c assms(1,2) kept_effect show ?thesis by simp
qed (use assms in \<open>auto simp: syscall_def split: if_splits\<close>)

lemma kept_try [kept_intros]: "kept p h0 h \<Longrightarrow> (\<And>q. c \<noteq> SysSymlink p q) \<Longrightarrow> p \<notin> touches c \<Longrightarrow> kept p h0 (try_sys w c h)"
  by (simp add: try_sys_def kept_syscall)

lemma kept_stat [kept_intros]: "kept p h0 h \<Longrightarrow> kept p h0 (snd (os_stat w q h))"
  by (simp add: os_stat_def)

lemma kept_mkdirs: "kept p h0 h \<Longrightarrow> kept p h0 (mkdirs w ds h)"
proof (induction ds arbitrary: h)
  case (Cons d ds)
  have "kept p h0 (snd (syscall w (SysMkdir d) h))" by (rule kept_syscall [OF Cons.prems]) auto
  with Cons.IH Cons.prems show ?case by (cases "syscall w (SysMkdir d) h") simp
qed simp

lemma kept_mkdirall [kept_intros]: "kept p h0 h \<Longrightarrow> kept p h0 (os_mkdirall w q h)"
  by (simp add: os_mkdirall_def kept_mkdirs)

lemma kept_create:
  assumes "kept p h0 h" "p \<noteq> q" "os_create w q h = (r, h')"
  shows "kept p h0 h'" "r = Some x \<Longrightarrow> x \<noteq> p"
proof -
  have nl: "no_link_to p (h_fs h)" using assms(1) by (simp add: kept_def)
  show "r = Some x \<Longrightarrow> x \<noteq> p"
    using assms(2,3) follow_other [OF _ _ nl, of max_links q] by (auto simp: os_create_def split: option.splits prod.splits if_splits)
  show "kept p h0 h'"
  proof (cases "follow max_links (h_fs h) q")
    case (Some y)
    then have "y \<noteq> p" using follow_other [OF _ _ nl] assms(2) by blast
    with kept_syscall [OF assms(1), of "SysWrite y []" w] Some assms(3) show ?thesis by (auto simp: os_create_def split: prod.splits)
  qed (use assms in \<open>auto simp: os_create_def\<close>)
qed

lemma kept_copy: "kept p h0 h \<Longrightarrow> p \<noteq> q \<Longrightarrow> kept p h0 (snd (io_copy w q b e h))"
  by (auto simp: io_copy_def kept_effect split: option.splits)

lemma kept_writefile [kept_intros]:
  assumes "kept p h0 h" "p \<noteq> q"
  shows "kept p h0 (snd (os_writefile w q b h))"
proof -
  obtain r h' where c: "os_create w q h = (r, h')" by fastforce
  note k = kept_create [OF assms c]
  show ?thesis
  proof (cases r)
    case (Some x)
    with c k(1) k(2) [OF Some] kept_copy [of p h0 h' x w b False] show ?thesis by (simp add: os_writefile_def)
  qed (use c k in \<open>simp add: os_writefile_def\<close>)
qed

lemma kept_copyFile [kept_intros]:
  assumes "kept p h0 h" "p \<noteq> dst"
  shows "kept p h0 (snd (copyFile w src dst h))"
proof -
  obtain a h1 where a: "os_open w src h = (a, h1)" by fastforce
  then have k1: "kept p h0 h1" using assms(1) by (auto simp: os_open_def)
  obtain r h2 where c: "os_create w dst h1 = (r, h2)" by fastforce
  note k = kept_create [OF k1 assms(2) c]
  show ?thesis
  proof (cases "a \<and> r \<noteq> None")
    case True
    then obtain x where x: "r = Some x" by blast
    with a c k k(2) [OF x] True kept_copy [of p h0 h2 x] show ?thesis by (simp add: copyFile_def)
  qed (use a c k k1 in \<open>cases a; auto simp: copyFile_def\<close>)
qed

lemma kept_stopAll [kept_intros]: "kept p h0 h \<Longrightarrow> kept p h0 (stopAll w svcs h)"
  by (induction svcs arbitrary: h) (simp_all add: kept_try)

lemma kept_http [kept_intros]: "kept p h0 h \<Longrightarrow> kept p h0 (snd (http_get w url h))"
  by (simp add: http_get_def)

section \<open>The steps of a deployment\<close>

lemma kept_subdirs: "kept p h0 h \<Longrightarrow> kept p h0 (makeSubdirs w d ss h)"
  by (induction ss arbitrary: h) (simp_all add: Let_def kept_try kept_mkdirall)

lemma stat_kept: "kept p h0 h \<Longrightarrow> fst (os_stat w p h) \<noteq> StatNotExist"
  using kept_file [of p h0 h] follow_here [of "h_fs h" p] by (auto simp: os_stat_def)

lemma kept_identity:
  assumes "kept p h0 h" "p \<noteq> q"
  shows "kept p h0 (snd (createIdentity E n cd q h))"
  using assms by (auto simp: createIdentity_def Let_def kept_mkdirall kept_try kept_writefile split: sum.splits)

lemma kept_preflight: "kept p h0 h \<Longrightarrow> kept p h0 (snd (preflight E n cd dd dry h))"
proof -
  assume k: "kept p h0 h"
  define h1 where "h1 = (if dry then h else makeSubdirs (de_world E) dd subdirs h)"
  have k1: "kept p h0 h1" using k kept_subdirs by (simp add: h1_def)
  obtain st h2 where s: "os_stat (de_world E) (envFileOf cd n) h1 = (st, h2)" by fastforce
  have k2: "kept p h0 h2" using kept_stat [OF k1, of "de_world E" "envFileOf cd n"] s by simp
  have "st = StatNotExist \<Longrightarrow> p \<noteq> envFileOf cd n" using stat_kept [OF k1, of "de_world E"] s by auto
  with k2 kept_identity [OF k2] s show ?thesis by (auto simp: preflight_def Let_def h1_def [symmetric])
qed

lemma kept_preflights: "kept p h0 h \<Longrightarrow> kept p h0 (snd (preflights E cd db dry ns h))"
proof (induction ns arbitrary: h)
  case (Cons n ns)
  from kept_preflight [OF Cons.prems] have "kept p h0 (snd (preflight E n cd (nodeDataDir db n) dry h))" .
  with Cons.IH show ?case by (auto split: prod.splits outcome.splits)
qed simp

lemma kept_install:
  assumes "kept p h0 h" "p \<noteq> path_join idir ''anvil''" "p \<noteq> symlinkPath"
  shows "kept p h0 (snd (installSelf E idir ns h))"
proof -
  obtain r h1 where c: "copyFile (de_world E) (de_selfBin E) (path_join idir ''anvil'') (stopServices (de_world E) ns (os_mkdirall (de_world E) idir h)) = (r, h1)" by fastforce
  have "kept p h0 h1" using kept_copyFile [OF kept_stopAll [OF kept_mkdirall [OF assms(1)]] assms(2)] c
    by (simp add: stopServices_def) (metis snd_conv)
  then have "kept p h0 (try_sys (de_world E) (SysSymlink (path_join idir ''anvil'') symlinkPath) (try_sys (de_world E) (SysRemove symlinkPath) h1))"
    using assms by (intro kept_try) auto
  with c \<open>kept p h0 h1\<close> show ?thesis by (cases r) (simp_all add: installSelf_def Let_def)
qed

lemma kept_detect: "kept p h0 h \<Longrightarrow> kept p h0 (snd (detectFrom w urls h))"
  by (induction urls arbitrary: h) (auto simp: Let_def http_get_def split: sum.splits)

lemma kept_publicIP: "kept p h0 h \<Longrightarrow> kept p h0 (snd (detectPublicIP w h))"
  by (simp only: detectPublicIP_def kept_detect)

lemma kept_render:
  assumes "kept p h0 h"
  shows "kept p h0 (snd (renderConfig E n dd sp nn pu cd h))"
proof -
  obtain nm h1 where n: "(if nn = [] then autoNodeName E n cd h else (nn, h)) = (nm, h1)" by fastforce
  have k1: "kept p h0 h1" using n assms by (auto simp: autoNodeName_def Let_def split: if_splits)
  obtain ip h2 where i: "detectPublicIP (de_world E) h1 = (ip, h2)" by fastforce
  have "kept p h0 h2" using kept_publicIP [OF k1, of "de_world E"] i by simp
  with k1 show ?thesis unfolding renderConfig_def Let_def n prod.case i by simp
qed

lemma kept_config: "kept p h0 h \<Longrightarrow> kept p h0 (writeConfig E dop n dd h)"
proof -
  assume k: "kept p h0 h"
  let ?t = "tomlPathOf (do_configDir dop) n"
  obtain st h1 where s: "os_stat (de_world E) ?t h = (st, h1)" by fastforce
  have k1: "kept p h0 h1" using kept_stat [OF k, of "de_world E" ?t] s by simp
  have ne: "st = StatNotExist \<Longrightarrow> p \<noteq> ?t" using stat_kept [OF k, of "de_world E"] s by auto
  obtain c h2 where r: "renderConfig E n dd (do_seed dop) (do_name dop) (do_publicURL dop) (do_configDir dop) h1 = (c, h2)" by fastforce
  have k2: "kept p h0 h2" using kept_render [OF k1] r by (metis snd_conv)
  show ?thesis using s r k1 k2 ne kept_writefile [OF k2] by (auto simp: writeConfig_def Let_def)
qed

lemma kept_nodes:
  assumes "\<And>n. n \<in> set ns \<Longrightarrow> p \<noteq> unitPathOf n" "kept p h0 h"
  shows "kept p h0 (deployNodes E dop ns h)"
  using assms
proof (induction ns arbitrary: h)
  case (Cons n ns)
  have "kept p h0 (deployNode E dop n h)" using Cons.prems by (auto simp: deployNode_def Let_def intro!: kept_try kept_config kept_writefile)
  with Cons show ?case by simp
qed simp

lemma kept_startServices: "kept p h0 h \<Longrightarrow> kept p h0 (startServices w ns h)"
  by (induction ns arbitrary: h) (simp_all add: kept_try)

lemma kept_tries: "kept p h0 h \<Longrightarrow> kept p h0 (snd (healthTries w n url h))"
  by (induction n arbitrary: h) (auto simp: http_get_def split: sum.splits)

lemma kept_health: "kept p h0 h \<Longrightarrow> kept p h0 (snd (healthChecks w ns h))"
proof (induction ns arbitrary: h)
  case (Cons n ns)
  from kept_tries [OF Cons.prems] have "kept p h0 (snd (healthCheck w (apiPort n) h))" by (simp add: healthCheck_def)
  with Cons.IH show ?case by (auto split: prod.splits) (metis snd_conv)
qed simp

section \<open>A dry run\<close>

definition only_chown :: "host \<Rightarrow> host \<Rightarrow> bool" where
  \<comment> \<open>nothing but the owner of files has changed\<close>
  "only_chown h0 h \<longleftrightarrow> h_fs h = h_fs h0 \<and> h_users h = h_users h0 \<and> h_active h = h_active h0
     \<and> (\<exists>ds. h_trace h = h_trace h0 @ map (SysChown True) ds)"

lemma only_chown_refl: "only_chown h h"
  by (auto simp: only_chown_def)

lemma only_chown_tick [simp]: "only_chown h0 (tick h) = only_chown h0 h"
  by (simp add: only_chown_def)

lemma only_chown_chown: "only_chown h0 h \<Longrightarrow> only_chown h0 (try_sys w (SysChown True d) h)"
proof -
  assume o: "only_chown h0 h"
  then obtain ds where "h_trace h = h_trace h0 @ map (SysChown True) ds" by (auto simp: only_chown_def)
  then have "h_trace h @ [SysChown True d] = h_trace h0 @ map (SysChown True) (ds @ [d])" by simp
  with o show ?thesis unfolding only_chown_def try_sys_def syscall_def by (cases "fails w h") (auto simp del: map_append)
qed

lemma only_chown_preflights:
  assumes "only_chown h0 h"
  shows "\<exists>h'. preflights E cd db True ns h = (Returned (), h') \<and> only_chown h0 h'"
  using assms by (induction ns arbitrary: h) (simp_all add: preflight_def Let_def os_stat_def)

lemma only_chown_detect: "only_chown h0 h \<Longrightarrow> only_chown h0 (snd (detectFrom w urls h))"
  by (induction urls arbitrary: h) (auto simp: Let_def http_get_def split: sum.splits)

lemma only_chown_render:
  assumes "only_chown h0 h"
  shows "only_chown h0 (snd (renderConfig E n dd sp nn pu cd h))"
proof -
  obtain nm h1 where n: "(if nn = [] then autoNodeName E n cd h else (nn, h)) = (nm, h1)" by fastforce
  have k1: "only_chown h0 h1" using n assms by (auto simp: autoNodeName_def Let_def split: if_splits)
  obtain ip h2 where i: "detectPublicIP (de_world E) h1 = (ip, h2)" by fastforce
  have "only_chown h0 h2" using only_chown_detect [OF k1, of "de_world E"] i unfolding detectPublicIP_def by (metis snd_conv)
  with k1 show ?thesis unfolding renderConfig_def Let_def n prod.case i by simp
qed

lemma only_chown_node:
  assumes "only_chown h0 h" "do_dryRun dop"
  shows "only_chown h0 (deployNode E dop n h)"
proof -
  let ?dd = "nodeDataDir (do_dataBase dop) n" and ?t = "tomlPathOf (do_configDir dop) n"
  obtain st h1 where s: "os_stat (de_world E) ?t h = (st, h1)" by fastforce
  then have k1: "only_chown h0 h1" using assms(1) by (auto simp: os_stat_def)
  obtain c h2 where r: "renderConfig E n ?dd (do_seed dop) (do_name dop) (do_publicURL dop) (do_configDir dop) h1 = (c, h2)" by fastforce
  then have "only_chown h0 h2" using only_chown_render [OF k1] by (metis snd_conv)
  with s r k1 assms(2) have "only_chown h0 (writeConfig E dop n ?dd h)" by (simp add: writeConfig_def Let_def)
  with only_chown_chown assms(2) show ?thesis by (simp add: deployNode_def Let_def)
qed

lemma only_chown_nodes: "only_chown h0 h \<Longrightarrow> do_dryRun dop \<Longrightarrow> only_chown h0 (deployNodes E dop ns h)"
  by (induction ns arbitrary: h) (simp_all add: only_chown_node)

section \<open>The whole command\<close>

lemma nodeList_cases: "n \<in> set (parseNodeList s) \<Longrightarrow> n \<in> {''a'', ''b''}"
  by (auto simp: parseNodeList_def Let_def split: if_splits)

lemma kept_deploy:
  assumes k: "kept p h0 h" and p: "p \<notin> {unitPathOf ''a'', unitPathOf ''b'', path_join (do_installDir dop) ''anvil'', symlinkPath}"
  shows "kept p h0 (snd (cmdDeploy E dop h))"
proof -
  let ?w = "de_world E" and ?ns = "parseNodeList (do_nodes dop)"
  define h1 where "h1 = ensureUser ?w ''anvil'' (do_dryRun dop) h"
  have k1: "kept p h0 h1" using k by (auto simp: h1_def ensureUser_def intro: kept_try)
  obtain r2 h2 where s2: "preflights E (do_configDir dop) (do_dataBase dop) (do_dryRun dop) ?ns h1 = (r2, h2)" by fastforce
  have k2: "kept p h0 h2" using kept_preflights [OF k1] s2 by (metis snd_conv)
  obtain r3 h3 where s3: "(if do_dryRun dop then (Returned (), h2) else installSelf E (do_installDir dop) ?ns h2) = (r3, h3)" by fastforce
  have k3: "kept p h0 h3" using kept_install [OF k2, where idir = "do_installDir dop" and E = E and ns = ?ns] p s3 k2 by (auto split: if_splits)
  have un: "n \<in> set ?ns \<Longrightarrow> p \<noteq> unitPathOf n" for n using nodeList_cases [of n "do_nodes dop"] p by auto
  have k4: "kept p h0 (snd (deployRest E dop ?ns h3))"
    using kept_nodes [OF un k3, where E = E and dop = dop] by (auto simp: deployRest_def Let_def kept_startServices kept_health split: prod.splits) (metis kept_health kept_startServices snd_conv)
  show ?thesis using k k2 k3 k4 unfolding cmdDeploy_def Let_def h1_def [symmetric] s2 prod.case s3
    by (cases r2; cases r3) auto
qed


definition demo_deploy :: deploy_env where
  "demo_deploy = \<lparr>de_world = demo_world, de_key = (\<lambda>n. Inr (''L1'', ''02'')), de_wifPub = (\<lambda>s. None), de_hostname = None, de_selfBin = ''/root/anvil''\<rparr>"


section \<open>Where the command falls short\<close>

text \<open>
  A failing write of the binary is not noticed: what is installed is a part of it.
\<close>

lemma copyFile_truncates:
  assumes "w_fault w (h_calls h) = None" "w_fault w (Suc (h_calls h)) = None" "w_fault w (Suc (Suc (h_calls h))) = Some k"
    and "h_fs h src = Some (File b)" "h_fs h dst = None" "src \<noteq> dst"
  shows "\<exists>h'. copyFile w src dst h = (Returned (), h') \<and> h_fs h' dst = Some (File (take k b))"
proof -
  have f: "follow max_links (h_fs h) src = Some src" "follow max_links (h_fs h) dst = Some dst"
    "follow max_links ((h_fs h)(dst \<mapsto> File [])) src = Some src" using assms(4-6) by (simp_all add: follow_here)
  show ?thesis using assms f by (simp add: copyFile_def os_open_def os_create_def syscall_def io_copy_def fails_def tick_def read_file_def)
qed

text \<open>
  The test for public addresses lets the broadcast address and the carrier-grade range pass.
\<close>

lemma broadcast_address_public: "isValidPublicIPv4 ''255.255.255.255'' \<and> isValidPublicIPv4 ''100.64.0.1'' \<and> \<not> isValidPublicIPv4 ''192.168.1.1''"
  by code_simp

end
