(* ===== verification/Doctor.thy ===== *)
theory Doctor
  imports Config Deploy
begin

text \<open>
  \<^verbatim>\<open>cmd/anvil/info.go\<close>, \<^verbatim>\<open>token.go\<close> and \<^verbatim>\<open>doctor.go\<close>: the environment file that is read before the configuration, the
  commands that print the identity and the token, and the diagnosis. The diagnosis only reads: what it sees of the
  machine and the network is a record of functions, and its answer is the report with the exit status, or a panic
  where the code slices a short string. Messages are given in ASCII.
\<close>

section \<open>The environment file\<close>

definition filepath_ext :: "string \<Rightarrow> string" where
  \<comment> \<open>\<^verbatim>\<open>filepath.Ext\<close>: from the last dot of the last element\<close>
  "filepath_ext p =
     (let r = takeWhile (\<lambda>c. c \<noteq> CHR ''.'' \<and> c \<noteq> CHR ''/'') (rev p)
      in case drop (length r) (rev p) of c # _ \<Rightarrow> if c = CHR ''.'' then CHR ''.'' # rev r else [] | [] \<Rightarrow> [])"

definition envPathFor :: "string \<Rightarrow> string" where
  "envPathFor configPath = take (length configPath - length (filepath_ext configPath)) configPath @ ''.env''"

definition os_setenv :: "string \<Rightarrow> string \<Rightarrow> (string \<Rightarrow> string) \<Rightarrow> (string \<Rightarrow> string)" where
  \<comment> \<open>\<^verbatim>\<open>os.Setenv\<close>, whose error is ignored; an unset variable reads as the empty text\<close>
  "os_setenv key val env =
     (if key = [] \<or> CHR ''='' \<in> set key \<or> CHR 0x00 \<in> set key \<or> CHR 0x00 \<in> set val then env else env(key := val))"

definition envLine :: "string \<Rightarrow> (string \<Rightarrow> string) \<Rightarrow> (string \<Rightarrow> string)" where
  "envLine raw env =
     (let l = trim_space raw in
      if l = [] \<or> prefix ''#'' l then env
      else case split_n2 (CHR ''='') l of
        (_, None) \<Rightarrow> env
      | (k, Some v) \<Rightarrow>
         (let key = trim_space k; val = trim_space v in if env key = [] then os_setenv key val env else env))"

definition max_token :: nat where "max_token = 65536"

definition loadEnvFile :: "(string \<Rightarrow> bytes option) \<Rightarrow> string \<Rightarrow> (string \<Rightarrow> string) \<Rightarrow> (string \<Rightarrow> string)" where
  \<comment> \<open>the scanner stops at a line that does not fit in its buffer\<close>
  "loadEnvFile readFile configPath env =
     (case readFile (envPathFor configPath) of
        None \<Rightarrow> env
      | Some b \<Rightarrow> fold envLine (takeWhile (\<lambda>l. length l < max_token) (split_on (CHR 0x0A) b)) env)"

definition defaultConfigPath :: "(string \<Rightarrow> bool) \<Rightarrow> string" where
  "defaultConfigPath statOk = (if statOk ''/etc/anvil/node-a.toml'' then ''/etc/anvil/node-a.toml'' else ''anvil.toml'')"

section \<open>info and token\<close>

record cli_env =
  cli_toml :: "bytes \<Rightarrow> Config \<Rightarrow> string + Config"
  cli_hmac :: "bytes \<Rightarrow> bytes \<Rightarrow> bytes"
  cli_env :: "string \<Rightarrow> string"
  cli_read :: "string \<Rightarrow> string + bytes"
  cli_wif :: "string \<Rightarrow> string + bytes" \<comment> \<open>\<^verbatim>\<open>PrivateKeyFromWif\<close> and the compressed public key\<close>
  cli_address :: "bytes \<Rightarrow> string + string"

definition loadFor :: "cli_env \<Rightarrow> string \<Rightarrow> config_err + Config" where
  \<comment> \<open>\<^verbatim>\<open>loadEnvFile\<close>, then \<^verbatim>\<open>config.Load\<close>\<close>
  "loadFor E path =
     Load (cli_toml E) (cli_hmac E) (loadEnvFile (\<lambda>p. case cli_read E p of Inl _ \<Rightarrow> None | Inr b \<Rightarrow> Some b) path (cli_env E)) (cli_read E) path"

definition cmdInfo :: "cli_env \<Rightarrow> string \<Rightarrow> (string \<times> string \<times> string) outcome" where
  \<comment> \<open>identity, address and token\<close>
  "cmdInfo E path =
     (case loadFor E path of
        Inl e \<Rightarrow> Fatal ''config''
      | Inr cfg \<Rightarrow>
         (if c_WIF cfg = [] then Fatal ''no identity''
          else case cli_wif E (c_WIF cfg) of
            Inl e \<Rightarrow> Fatal (''invalid WIF: '' @ e)
          | Inr pub \<Rightarrow>
             (case cli_address E pub of
                Inl e \<Rightarrow> Fatal (''address derivation failed: '' @ e)
              | Inr addr \<Rightarrow> Returned (hex_encode pub, addr, api_AuthToken (c_API cfg)))))"

definition cmdToken :: "cli_env \<Rightarrow> string \<Rightarrow> string outcome" where
  "cmdToken E path =
     (case loadFor E path of
        Inl e \<Rightarrow> Fatal ''config''
      | Inr cfg \<Rightarrow> (if api_AuthToken (c_API cfg) = [] then Fatal ''no auth token'' else Returned (api_AuthToken (c_API cfg))))"

section \<open>doctor: helpers\<close>

definition has_suffix :: "string \<Rightarrow> string \<Rightarrow> bool" where "has_suffix s suf = suffix suf s"

definition normalizePort :: "string \<Rightarrow> string" where
  "normalizePort listen = (if CHR '':'' \<notin> set listen then '':'' @ listen else '':'' @ last (split_on (CHR '':'') listen))"

definition guessServiceName :: "Config \<Rightarrow> string" where
  "guessServiceName cfg = (if has_suffix (normalizePort (nc_APIListen (c_Node cfg))) '':9334'' then ''anvil-b'' else ''anvil-a'')"

definition replace_first :: "string \<Rightarrow> string \<Rightarrow> string \<Rightarrow> string" where
  \<comment> \<open>\<^verbatim>\<open>strings.Replace(s, a, b, 1)\<close> for a non-empty \<open>a\<close>\<close>
  "replace_first a b s = (case bytes_index a s of None \<Rightarrow> s | Some i \<Rightarrow> take i s @ b @ drop (i + length a) s)"

definition meshSeedToAPI :: "string \<Rightarrow> string option" where
  \<comment> \<open>\<^term>\<open>None\<close> is the panic of \<^verbatim>\<open>s[8:]\<close>\<close>
  "meshSeedToAPI seed =
     (let s = replace_first ''ws://'' ''http://'' (replace_first ''wss://'' ''https://'' seed) in
      case slice_from s 8 of
        None \<Rightarrow> None
      | Some r \<Rightarrow>
         (let s1 = (case bytes_index ''/'' r of None \<Rightarrow> s | Some idx \<Rightarrow> take (8 + idx) s)
          in Some (replace_first '':8334'' '':9334'' (replace_first '':8333'' '':9333'' s1))))"

datatype jv = JNull | JBool bool | JNum rat | JStr string | JArr "jv list" | JObj "(string \<times> jv) list"

definition trunc :: "rat \<Rightarrow> int" where
  \<comment> \<open>\<^verbatim>\<open>int(f)\<close>\<close>
  "trunc x = (if x \<ge> 0 then floor x else - floor (- x))"

fun as_obj :: "jv option \<Rightarrow> (string \<times> jv) list option" where
  "as_obj (Some (JObj fs)) = Some fs"
| "as_obj _ = None"

fun as_num :: "jv option \<Rightarrow> rat option" where
  "as_num (Some (JNum x)) = Some x"
| "as_num _ = None"

fun as_arr :: "jv option \<Rightarrow> jv list option" where
  "as_arr (Some (JArr xs)) = Some xs"
| "as_arr _ = None"

record doctor_env =
  dr_get :: "string \<Rightarrow> (int \<times> bytes) option" \<comment> \<open>status and body of a GET, \<^term>\<open>None\<close> on an error\<close>
  dr_getAuth :: "string \<Rightarrow> string \<Rightarrow> (int \<times> bytes) option"
  dr_url_ok :: "string \<Rightarrow> bool" \<comment> \<open>whether \<^verbatim>\<open>http.NewRequest\<close> accepts the URL\<close>
  dr_cors :: "string \<Rightarrow> string option" \<comment> \<open>the CORS header of a HEAD\<close>
  dr_json :: "bytes \<Rightarrow> jv option"
  dr_show :: "jv \<Rightarrow> string"
  dr_tag :: "bytes \<Rightarrow> string" \<comment> \<open>the tag of a release, empty if there is none\<close>
  dr_stat :: "string \<Rightarrow> entry option"
  dr_owner :: "string \<Rightarrow> string option"
  dr_status :: "string \<Rightarrow> string"
  dr_resolve :: "string \<Rightarrow> bool"

definition httpGet :: "doctor_env \<Rightarrow> string \<Rightarrow> (string \<times> jv) list option" where
  "httpGet D url =
     (case dr_get D url of None \<Rightarrow> None | Some (code, body) \<Rightarrow> if code \<noteq> 200 then None else as_obj (dr_json D body))"

definition httpGetAuth :: "doctor_env \<Rightarrow> string \<Rightarrow> string \<Rightarrow> (string \<times> jv) list option option" where
  \<comment> \<open>the outer \<^term>\<open>None\<close> is the panic on a request that could not be built\<close>
  "httpGetAuth D url token =
     (if \<not> dr_url_ok D url then None
      else Some (case dr_getAuth D url token of None \<Rightarrow> None | Some (code, body) \<Rightarrow> if code \<noteq> 200 then None else as_obj (dr_json D body)))"

definition corsOK :: "doctor_env \<Rightarrow> string \<Rightarrow> bool" where
  "corsOK D url = (case dr_cors D url of None \<Rightarrow> False | Some v \<Rightarrow> v \<noteq> [])"

definition fileOwner :: "doctor_env \<Rightarrow> string \<Rightarrow> string" where
  "fileOwner D path = (case dr_owner D path of None \<Rightarrow> [] | Some o' \<Rightarrow> trim_space o')"

definition serviceStatus :: "doctor_env \<Rightarrow> string \<Rightarrow> string" where
  "serviceStatus D name = trim_space (dr_status D name)"

definition doctorCheckLatest :: "doctor_env \<Rightarrow> string" where
  "doctorCheckLatest D =
     (case dr_get D githubAPI of None \<Rightarrow> [] | Some (code, body) \<Rightarrow> if code \<noteq> 200 then [] else dr_tag D body)"

section \<open>doctor: checks\<close>

datatype line_item = Pass string | Fail string | Warn string

type_synonym report = "line_item list"

definition checkIdentity :: "Config \<Rightarrow> report option" where
  "checkIdentity cfg =
     (if c_WIF cfg = [] then Some [Fail ''no identity WIF configured (set ANVIL_IDENTITY_WIF)'']
      else map_option (\<lambda>s. [Pass (''identity WIF present ('' @ s @ ''...)'')]) (slice (c_WIF cfg) 0 8))"

definition checkToken :: "Config \<Rightarrow> report option" where
  "checkToken cfg =
     (let tok = api_AuthToken (c_API cfg) in
      if tok = [] then Some [Fail ''auth token not derived (WIF missing or invalid)'']
      else map_option (\<lambda>s. [Pass (''auth token derived ('' @ s @ ''...)'')]) (slice tok 0 12))"

definition checkSeeds :: "Config \<Rightarrow> report" where
  "checkSeeds cfg =
     (let seeds = mc_Seeds (c_Mesh cfg) in
      if seeds = [] then [Warn ''no mesh seeds configured -- this node will not auto-connect to the mesh'']
      else Pass (itoa (int (length seeds)) @ '' mesh seed(s) configured'')
        # map (\<lambda>s. Warn (''mesh seed is not wss:// -- '' @ s)) (filter (\<lambda>s. \<not> prefix ''wss://'' s) seeds))"

definition checkVersion :: "doctor_env \<Rightarrow> report" where
  "checkVersion D =
     Pass (''running v'' @ versionString) #
     (let latest = doctorCheckLatest D in
      if latest \<noteq> [] then
        [if versionNewerOrEqual versionString (trim_prefix ''v'' latest) then Pass (''up to date (latest release: '' @ latest @ '')'')
         else Warn (''update available: '' @ latest)]
      else [Warn ''could not check GitHub for latest release''])"

definition requiredDirs :: "string list" where
  "requiredDirs = [''headers'', ''envelopes'', ''overlay'', ''wallet'', ''invoices'', ''proofs'']"

definition checkDir :: "doctor_env \<Rightarrow> string \<Rightarrow> line_item" where
  "checkDir D dir = (case dr_stat D dir of None \<Rightarrow> Fail (dir @ '': does not exist'') | Some Dir \<Rightarrow> Pass dir | Some _ \<Rightarrow> Fail (dir @ '': not a directory''))"

definition checkDirs :: "doctor_env \<Rightarrow> Config \<Rightarrow> report" where
  "checkDirs D cfg =
     map (\<lambda>sub. checkDir D (path_join (nc_DataDir (c_Node cfg)) sub)) requiredDirs
     @ (let owner = fileOwner D (nc_DataDir (c_Node cfg)) in if owner \<noteq> ''anvil'' \<and> owner \<noteq> [] then [Warn (nc_DataDir (c_Node cfg) @ '' owned by '' @ owner)] else [])"

definition checkService :: "doctor_env \<Rightarrow> Config \<Rightarrow> report" where
  "checkService D cfg =
     (let svcName = guessServiceName cfg in
      if svcName \<noteq> [] then
        (let status = serviceStatus D svcName in
         if status = ''active'' then [Pass (svcName @ '' is running'')]
         else if status = ''inactive'' \<or> status = ''failed'' then [Fail (svcName @ '' is '' @ status)]
         else [Warn (svcName @ '' status: '' @ status)])
      else [Warn ''could not determine systemd service name''])"

definition apiURLOf :: "Config \<Rightarrow> string" where
  "apiURLOf cfg = ''http://127.0.0.1'' @ normalizePort (nc_APIListen (c_Node cfg))"

definition headerLines :: "(string \<times> jv) list \<Rightarrow> report" where
  "headerLines st =
     (case as_obj (map_of st ''headers'') of
        None \<Rightarrow> []
      | Some h \<Rightarrow>
         (case as_num (map_of h ''height'') of None \<Rightarrow> [] | Some x \<Rightarrow> [Pass (''header height: '' @ itoa (trunc x))])
         @ (case as_num (map_of h ''sync_lag_secs'') of
              None \<Rightarrow> []
            | Some lag \<Rightarrow> (let m = ''header sync lag: '' @ itoa (trunc lag) @ ''s'' in [if trunc lag > 1800 then Warn m else Pass m])))"

definition spvLines :: "(string \<times> jv) list \<Rightarrow> report" where
  "spvLines st =
     (case as_obj (map_of st ''spv'') of
        None \<Rightarrow> []
      | Some s \<Rightarrow>
         (case as_num (map_of s ''proofs_stored'') of None \<Rightarrow> [] | Some x \<Rightarrow> [Pass (''stored proofs: '' @ itoa (trunc x))])
         @ (case as_obj (map_of s ''validations'') of
              None \<Rightarrow> []
            | Some v \<Rightarrow>
               (case as_num (map_of v ''invalid'') of
                  None \<Rightarrow> []
                | Some x \<Rightarrow> (if x > 0 then [Warn (''SPV invalid count observed: '' @ itoa (trunc x))] else []))))"

definition warningLines :: "doctor_env \<Rightarrow> (string \<times> jv) list \<Rightarrow> report" where
  "warningLines D st = (case as_arr (map_of st ''warnings'') of None \<Rightarrow> [] | Some ws \<Rightarrow> map (\<lambda>x. Warn (''node warning: '' @ dr_show D x)) ws)"

definition checkAPI :: "doctor_env \<Rightarrow> Config \<Rightarrow> report" where
  "checkAPI D cfg =
     (let apiURL = apiURLOf cfg; x402Resp = httpGet D (apiURL @ ''/.well-known/x402'') in
      (case httpGet D (apiURL @ ''/status'') of
         Some st \<Rightarrow> Pass (''API responding at '' @ apiURL) # headerLines st @ spvLines st @ warningLines D st
       | None \<Rightarrow> [Fail (''API not responding at '' @ apiURL)])
      @ [if corsOK D (apiURL @ ''/status'') then Pass ''CORS headers present'' else Warn ''no CORS headers on /status''] @
      (if api_PaymentSatoshis (c_API cfg) > 0 then
         [if x402Resp \<noteq> None then Pass ''x402 discovery responding'' else Fail ''x402 discovery not responding'']
       else if x402Resp = None then [Pass ''x402 disabled (payment_satoshis=0)''] else []))"

definition checkBSVNode :: "doctor_env \<Rightarrow> string \<Rightarrow> line_item" where
  "checkBSVNode D nd = (if dr_resolve D (hd (split_on (CHR '':'') nd)) then Pass (''BSV node reachable: '' @ nd) else Fail (''BSV node unreachable: '' @ nd))"

definition checkExternal :: "doctor_env \<Rightarrow> Config \<Rightarrow> report" where
  "checkExternal D cfg =
     map (checkBSVNode D) (c_BSVNodes cfg)
     @ (if ac_Enabled (c_ARC cfg) then
          [if httpGet D (ac_URL (c_ARC cfg) @ ''/v1/policy'') \<noteq> None then Pass (''ARC responding: '' @ ac_URL (c_ARC cfg))
           else Warn (''ARC not responding: '' @ ac_URL (c_ARC cfg))] else [])
     @ [if httpGet D ''https://api.whatsonchain.com/v1/bsv/main/chain/info'' \<noteq> None then Pass ''WhatsOnChain API reachable''
        else Warn ''WhatsOnChain unreachable (UTXO scanner will fail)'']"

fun seedLines :: "doctor_env \<Rightarrow> string list \<Rightarrow> report option" where
  "seedLines D [] = Some []"
| "seedLines D (seed # seeds) =
     (case meshSeedToAPI seed of
        None \<Rightarrow> None
      | Some seedAPI \<Rightarrow>
         map_option (\<lambda>r. (if seedAPI \<noteq> [] then
             [if httpGet D (seedAPI @ ''/status'') \<noteq> None then Pass (''mesh peer responding: '' @ seedAPI) else Warn (''mesh peer not responding: '' @ seedAPI)]
           else []) @ r) (seedLines D seeds))"

definition checkMesh :: "doctor_env \<Rightarrow> Config \<Rightarrow> report option" where
  "checkMesh D cfg =
     (let apiURL = apiURLOf cfg in
      map_option (\<lambda>r.
        (if httpGet D (apiURL @ ''/status'') \<noteq> None \<and> httpGet D (apiURL @ ''/data?topic=*&limit=0'') \<noteq> None then [Pass ''envelope store responding''] else [])
        @ (case Option.bind (httpGet D (apiURL @ ''/mesh/status'')) (\<lambda>m. as_obj (map_of m ''mesh'')) of
             None \<Rightarrow> []
           | Some mesh \<Rightarrow>
              (case as_num (map_of mesh ''peers'') of
                 None \<Rightarrow> []
               | Some x \<Rightarrow>
                  (if trunc x > 0 then [Pass (''live mesh peers: '' @ itoa (trunc x))]
                   else if mc_Seeds (c_Mesh cfg) \<noteq> [] then [Warn ''live mesh peers: 0''] else [])))
        @ r) (seedLines D (mc_Seeds (c_Mesh cfg))))"

fun outputSats :: "jv \<Rightarrow> int" where
  "outputSats (JObj o') = (case as_num (map_of o' ''satoshis'') of None \<Rightarrow> 0 | Some x \<Rightarrow> trunc x)"
| "outputSats _ = 0"

definition checkWallet :: "doctor_env \<Rightarrow> Config \<Rightarrow> report option" where
  "checkWallet D cfg =
     (if api_AuthToken (c_API cfg) = [] then Some []
      else case httpGetAuth D (apiURLOf cfg @ ''/wallet/outputs'') (api_AuthToken (c_API cfg)) of
        None \<Rightarrow> None
      | Some None \<Rightarrow> Some [Warn ''wallet not responding (may need funding)'']
      | Some (Some r) \<Rightarrow>
         Some (case as_num (map_of r ''totalOutputs'') of
            None \<Rightarrow> []
          | Some n \<Rightarrow>
             Pass (''wallet responding: '' @ itoa (trunc n) @ '' outputs'') #
             (case as_arr (map_of r ''outputs'') of
                None \<Rightarrow> []
              | Some os \<Rightarrow>
                 (let sats = foldl (\<lambda>a x. wrap64 (a + outputSats x)) 0 os
                  in [if sats > 0 then Pass (''wallet balance: '' @ itoa sats @ '' sats'') else Warn ''wallet has 0 sats'']))))"

fun run_checks :: "(report option) list \<Rightarrow> report \<Rightarrow> report + report" where
  \<comment> \<open>in order; the left side is the report at a panic\<close>
  "run_checks [] acc = Inr acc"
| "run_checks (None # cs) acc = Inl acc"
| "run_checks (Some r # cs) acc = run_checks cs (acc @ r)"

datatype doctor_result = Exit nat report | Panicked report

fun is_fail :: "line_item \<Rightarrow> bool" where
  "is_fail (Fail m) = True"
| "is_fail _ = False"

definition doctorChecks :: "doctor_env \<Rightarrow> Config \<Rightarrow> (report option) list" where
  "doctorChecks D cfg =
     [checkIdentity cfg, checkToken cfg, Some (checkSeeds cfg), Some (checkVersion D), Some (checkDirs D cfg), Some (checkService D cfg),
      Some (checkAPI D cfg), Some (checkExternal D cfg), checkMesh D cfg, checkWallet D cfg]"

definition cmdDoctor :: "doctor_env \<Rightarrow> cli_env \<Rightarrow> string \<Rightarrow> doctor_result" where
  \<comment> \<open>every failed check is one issue\<close>
  "cmdDoctor D E path =
     (case loadFor E path of
        Inl e \<Rightarrow> Exit 1 [Fail ''config load'']
      | Inr cfg \<Rightarrow>
         (case run_checks (doctorChecks D cfg) [Pass (''config loaded from '' @ path)] of
            Inl r \<Rightarrow> Panicked r
          | Inr r \<Rightarrow> Exit (if filter is_fail r = [] then 0 else 1) r))"

section \<open>A deployed identity is read back\<close>

lemma split_on_append: "c \<notin> set a \<Longrightarrow> split_on c (a @ c # b) = a # split_on c b"
  by (induction a) (auto split: list.splits)

definition blank :: "char \<Rightarrow> bool" where
  "blank c \<longleftrightarrow> c \<in> {CHR '' '', CHR 0x09, CHR 0x0A, CHR 0x0B, CHR 0x0C, CHR 0x0D}"

lemma trim_space_id: "s \<noteq> [] \<Longrightarrow> \<not> blank (hd s) \<Longrightarrow> \<not> blank (last s) \<Longrightarrow> trim_space s = s"
proof -
  assume s: "s \<noteq> []" "\<not> blank (hd s)" "\<not> blank (last s)"
  have "dropWhile blank s = s" using s by (cases s) auto
  moreover have "dropWhile blank (rev s) = rev s" using s by (cases "rev s") (auto simp: hd_rev [symmetric])
  moreover have "(\<lambda>c. c \<in> {CHR '' '', CHR 0x09, CHR 0x0A, CHR 0x0B, CHR 0x0C, CHR 0x0D}) = blank" by (simp add: fun_eq_iff blank_def)
  ultimately show ?thesis by (simp only: trim_space_def Let_def) simp
qed

definition wif_text :: "string \<Rightarrow> bool" where
  \<comment> \<open>no blanks and no NUL, and no longer than an encoded key\<close>
  "wif_text s \<longleftrightarrow> s \<noteq> [] \<and> length s \<le> 60 \<and> list_all (\<lambda>c. \<not> blank c \<and> c \<noteq> CHR 0x00) s"

lemma envLine_identity:
  assumes "wif_text wif" "env ''ANVIL_IDENTITY_WIF'' = []"
  shows "envLine (''ANVIL_IDENTITY_WIF='' @ wif) env = env(''ANVIL_IDENTITY_WIF'' := wif)"
proof -
  have w: "wif \<noteq> []" "\<not> blank (hd wif)" "\<not> blank (last wif)" "CHR 0x00 \<notin> set wif"
    using assms(1) by (auto simp: wif_text_def list_all_iff)
  have 1: "trim_space (''ANVIL_IDENTITY_WIF='' @ wif) = ''ANVIL_IDENTITY_WIF='' @ wif" by (rule trim_space_id) (use w in \<open>simp_all add: blank_def\<close>)
  have 2: "split_n2 (CHR ''='') (''ANVIL_IDENTITY_WIF='' @ wif) = (''ANVIL_IDENTITY_WIF'', Some wif)"
    using split_n2_join [of "CHR ''=''" "''ANVIL_IDENTITY_WIF''" wif] by simp
  have 3: "trim_space wif = wif" "trim_space ''ANVIL_IDENTITY_WIF'' = ''ANVIL_IDENTITY_WIF''"
    using trim_space_id w by blast (rule trim_space_id; simp add: blank_def)
  show ?thesis unfolding envLine_def Let_def 1 2 using assms(2) 3 w(4) by (simp add: os_setenv_def)
qed

lemma comment_line: "envLine (CHR ''#'' # s) env = env"
proof -
  have "\<exists>t. trim_space (CHR ''#'' # s) = CHR ''#'' # t"
    by (simp add: trim_space_def Let_def dropWhile_append3)
  then show ?thesis by (auto simp: envLine_def Let_def)
qed

lemma deploy_env_path: "n \<in> {''a'', ''b''} \<Longrightarrow> envPathFor (tomlPathOf ''/etc/anvil'' n) = envFileOf ''/etc/anvil'' n"
proof -
  have "envPathFor (tomlPathOf ''/etc/anvil'' ''a'') = envFileOf ''/etc/anvil'' ''a''" "envPathFor (tomlPathOf ''/etc/anvil'' ''b'') = envFileOf ''/etc/anvil'' ''b''"
    by code_simp+
  then show "n \<in> {''a'', ''b''} \<Longrightarrow> envPathFor (tomlPathOf ''/etc/anvil'' n) = envFileOf ''/etc/anvil'' n" by auto
qed

lemma loadEnvFile_identity:
  assumes wif: "wif_text wif" and n: "n \<in> {''a'', ''b''}" and e: "env ''ANVIL_IDENTITY_WIF'' = []"
    and f: "readFile (envPathFor path) = Some (identityText n wif)"
  shows "loadEnvFile readFile path env = env(''ANVIL_IDENTITY_WIF'' := wif)"
proof -
  define l1 where "l1 = ''# Anvil Node '' @ to_upper n @ '' identity '' @ [CHR 0xE2, CHR 0x80, CHR 0x94] @ '' generated by anvil deploy''"
  define l2 where "l2 = ''ANVIL_IDENTITY_WIF='' @ wif"
  have t: "identityText n wif = l1 @ CHR 0x0A # l2 @ CHR 0x0A # []" by (simp add: identityText_def text_lines_def l1_def l2_def)
  have "to_upper ''a'' = ''A''" "to_upper ''b'' = ''B''" by code_simp+
  then have "CHR 0x0A \<notin> set (to_upper n)" using n by auto
  then have nl1: "CHR 0x0A \<notin> set l1" by (simp add: l1_def)
  have nl2: "CHR 0x0A \<notin> set l2" using wif by (auto simp: l2_def wif_text_def list_all_iff blank_def)
  have s: "split_on (CHR 0x0A) (identityText n wif) = [l1, l2, []]" unfolding t by (simp add: split_on_append [OF nl1] split_on_append [OF nl2])
  have len: "length l1 < max_token" "length l2 < max_token" "length [] < max_token"
    using n wif by (auto simp: l1_def l2_def max_token_def to_upper_def wif_text_def)
  have c: "envLine l1 env = env" unfolding l1_def by (simp add: comment_line)
  have b: "envLine [] x = x" for x by (simp add: envLine_def trim_space_def Let_def)
  show ?thesis unfolding loadEnvFile_def f option.case s using len c b envLine_identity [where env = env, OF wif e] by (simp add: l2_def)
qed


definition demo_cli :: cli_env where
  "demo_cli = \<lparr>cli_toml = (\<lambda>b c. Inr c), cli_hmac = (\<lambda>k m. ''h'' @ k), cli_env = (\<lambda>_. []),
     cli_read = (\<lambda>p. if p = envFileOf ''/etc/anvil'' ''a'' then Inr (identityText ''a'' ''L1'') else Inr []),
     cli_wif = (\<lambda>s. Inr s), cli_address = (\<lambda>b. Inr b)\<rparr>"


section \<open>What an exit status of zero means\<close>

lemma run_checks_Inr: "run_checks cs acc = Inr r \<Longrightarrow> (\<forall>c \<in> set cs. \<exists>s. c = Some s \<and> set s \<subseteq> set r) \<and> set acc \<subseteq> set r"
  by (induction cs acc rule: run_checks.induct) auto

lemma checkDirs_clean:
  assumes "filter is_fail (checkDirs D cfg) = []" "d \<in> set requiredDirs"
  shows "dr_stat D (path_join (nc_DataDir (c_Node cfg)) d) = Some Dir"
proof -
  have "\<not> is_fail (checkDir D (path_join (nc_DataDir (c_Node cfg)) d))" using assms by (auto simp: checkDirs_def filter_empty_conv)
  then show ?thesis by (auto simp: checkDir_def split: option.splits entry.splits)
qed

lemma checkAPI_clean:
  assumes "filter is_fail (checkAPI D cfg) = []"
  shows "httpGet D (apiURLOf cfg @ ''/status'') \<noteq> None"
    and "api_PaymentSatoshis (c_API cfg) > 0 \<longrightarrow> httpGet D (apiURLOf cfg @ ''/.well-known/x402'') \<noteq> None"
proof -
  show "httpGet D (apiURLOf cfg @ ''/status'') \<noteq> None"
  proof
    assume "httpGet D (apiURLOf cfg @ ''/status'') = None"
    then have "Fail (''API not responding at '' @ apiURLOf cfg) \<in> set (checkAPI D cfg)" by (simp add: checkAPI_def Let_def)
    with assms show False by (fastforce simp: filter_empty_conv)
  qed
  show "api_PaymentSatoshis (c_API cfg) > 0 \<longrightarrow> httpGet D (apiURLOf cfg @ ''/.well-known/x402'') \<noteq> None"
  proof (rule impI, rule notI)
    assume "api_PaymentSatoshis (c_API cfg) > 0" "httpGet D (apiURLOf cfg @ ''/.well-known/x402'') = None"
    then have "Fail ''x402 discovery not responding'' \<in> set (checkAPI D cfg)" by (simp add: checkAPI_def Let_def)
    with assms show False by (fastforce simp: filter_empty_conv)
  qed
qed

lemma checkService_clean:
  assumes "filter is_fail (checkService D cfg) = []"
  shows "serviceStatus D (guessServiceName cfg) \<notin> {''inactive'', ''failed''}"
proof
  assume "serviceStatus D (guessServiceName cfg) \<in> {''inactive'', ''failed''}"
  moreover have "guessServiceName cfg \<noteq> []" by (simp add: guessServiceName_def)
  ultimately have "filter is_fail (checkService D cfg) \<noteq> []" unfolding checkService_def Let_def by auto
  with assms show False by simp
qed

lemma checkExternal_clean:
  assumes "filter is_fail (checkExternal D cfg) = []" "n \<in> set (c_BSVNodes cfg)"
  shows "dr_resolve D (hd (split_on (CHR '':'') n))"
proof -
  have "\<not> is_fail (checkBSVNode D n)" using assms unfolding checkExternal_def filter_append append_is_Nil_conv filter_empty_conv by simp
  then show ?thesis by (auto simp: checkBSVNode_def split: if_splits)
qed

text \<open>
  A healthy node. When \<^verbatim>\<open>anvil doctor\<close> exits with status zero, the configuration loads with an identity and a
  token, the data directories are there, the service is not stopped, the local API answers, every Bitcoin node
  resolves, and payment discovery answers if the node charges.
\<close>

theorem doctor_healthy:
  assumes "cmdDoctor D E path = Exit 0 r"
  shows "\<exists>cfg. loadFor E path = Inr cfg \<and> c_WIF cfg \<noteq> [] \<and> api_AuthToken (c_API cfg) \<noteq> []
    \<and> (\<forall>d \<in> set requiredDirs. dr_stat D (path_join (nc_DataDir (c_Node cfg)) d) = Some Dir)
    \<and> serviceStatus D (guessServiceName cfg) \<notin> {''inactive'', ''failed''}
    \<and> httpGet D (apiURLOf cfg @ ''/status'') \<noteq> None
    \<and> (\<forall>n \<in> set (c_BSVNodes cfg). dr_resolve D (hd (split_on (CHR '':'') n)))
    \<and> (api_PaymentSatoshis (c_API cfg) > 0 \<longrightarrow> httpGet D (apiURLOf cfg @ ''/.well-known/x402'') \<noteq> None)"
proof -
  from assms obtain cfg where cfg: "loadFor E path = Inr cfg" by (cases "loadFor E path") (auto simp: cmdDoctor_def)
  from assms cfg have rc: "run_checks (doctorChecks D cfg) [Pass (''config loaded from '' @ path)] = Inr r" and nf: "filter is_fail r = []"
    by (auto simp: cmdDoctor_def split: sum.splits if_splits)
  have clean: "c \<in> set (doctorChecks D cfg) \<Longrightarrow> \<exists>s. c = Some s \<and> filter is_fail s = []" for c
    using run_checks_Inr [OF rc] nf by (fastforce simp: filter_empty_conv)
  have "c_WIF cfg \<noteq> []" using clean [of "checkIdentity cfg"] by (auto simp: doctorChecks_def checkIdentity_def)
  moreover have "api_AuthToken (c_API cfg) \<noteq> []" using clean [of "checkToken cfg"] by (auto simp: doctorChecks_def checkToken_def)
  moreover have "\<forall>d \<in> set requiredDirs. dr_stat D (path_join (nc_DataDir (c_Node cfg)) d) = Some Dir"
    using clean [of "Some (checkDirs D cfg)"] checkDirs_clean by (auto simp: doctorChecks_def)
  moreover have "serviceStatus D (guessServiceName cfg) \<notin> {''inactive'', ''failed''}"
    using clean [of "Some (checkService D cfg)"] checkService_clean by (auto simp: doctorChecks_def)
  moreover have "httpGet D (apiURLOf cfg @ ''/status'') \<noteq> None"
    "api_PaymentSatoshis (c_API cfg) > 0 \<longrightarrow> httpGet D (apiURLOf cfg @ ''/.well-known/x402'') \<noteq> None"
    using clean [of "Some (checkAPI D cfg)"] checkAPI_clean by (auto simp: doctorChecks_def)
  moreover have "\<forall>n \<in> set (c_BSVNodes cfg). dr_resolve D (hd (split_on (CHR '':'') n))"
    using clean [of "Some (checkExternal D cfg)"] checkExternal_clean by (auto simp: doctorChecks_def)
  ultimately show ?thesis using cfg by blast
qed

text \<open>
  The diagnosis ends in a panic on a short seed or token that the node itself accepts.
\<close>

lemma short_seed_panics: "length seed < 4 \<Longrightarrow> meshSeedToAPI seed = None"
  by (cases "bytes_index ''wss://'' seed"; cases "bytes_index ''ws://'' seed")
     (auto simp: meshSeedToAPI_def replace_first_def slice_from_def Let_def dest!: bytes_index_Some prefix_length_le)

lemma short_token_panics: "api_AuthToken (c_API cfg) = ''secret'' \<Longrightarrow> checkToken cfg = None"
  by (simp add: checkToken_def slice_def Let_def)

lemma seed_examples:
  "meshSeedToAPI ''wss://anvil.sendbsv.com/mesh'' = Some ''https://anvil.sendbsv.com'' \<and> meshSeedToAPI ''ws://127.0.0.1:8333'' = Some ''http://127.0.0.1:9333''"
  by code_simp

end
