(* ===== verification/Node.thy ===== *)
theory Node
  imports Routes Config Feeds Uhrp Host
begin

text \<open>
  \<^verbatim>\<open>cmd/anvil/main.go\<close> and \<^verbatim>\<open>setup_mempool.go\<close>: which components a node starts with under a configuration, in which order,
  and how they are wired. What the outside answers when a database or the wallet is opened is part of the
  environment. The loops that run in the background are the operations of the components they call, at every tick.
\<close>

section \<open>Subcommands\<close>

datatype subcommand = SubDeploy | SubDoctor | SubToken | SubInfo | SubUpgrade | SubHelp | RunNode

definition mainRoute :: "string list \<Rightarrow> subcommand \<times> string list" where
  \<comment> \<open>of \<^verbatim>\<open>os.Args\<close>: the command and its arguments\<close>
  "mainRoute args =
     (case args of
        _ # sub # rest \<Rightarrow>
          (if sub = ''deploy'' then (SubDeploy, rest) else if sub = ''doctor'' then (SubDoctor, rest) else if sub = ''token'' then (SubToken, rest)
           else if sub = ''info'' then (SubInfo, rest) else if sub = ''upgrade'' then (SubUpgrade, rest)
           else if sub \<in> {''help'', ''--help'', ''-h''} then (SubHelp, rest) else (RunNode, sub # rest))
      | _ \<Rightarrow> (RunNode, []))"

section \<open>Header synchronisation at start\<close>

fun syncNodes :: "nat \<Rightarrow> ('db, bytes) leveldb_ops \<Rightarrow> wire \<Rightarrow> (string \<Rightarrow> string + 'tx conn) \<Rightarrow> string \<Rightarrow> string \<Rightarrow> 64 word \<Rightarrow> string list \<Rightarrow> 'db Syncer
    \<Rightarrow> (uint32 option \<times> 'db Syncer \<times> 64 word) option" where
  \<comment> \<open>from the first node that answers; the outer \<^term>\<open>None\<close> is fuel that is used up\<close>
  "syncNodes fuel ops w dial t1 t2 nc [] sy = Some (None, sy, nc)"
| "syncNodes fuel ops w dial t1 t2 nc (node # nodes) sy =
     (case SyncFrom fuel ops w dial t1 t2 nc node sy of
        None \<Rightarrow> None
      | Some (Inl e, sy', nc') \<Rightarrow> syncNodes fuel ops w dial t1 t2 nc' nodes sy'
      | Some (Inr h, sy', nc') \<Rightarrow> Some (Some h, sy', nc'))"

section \<open>Mempool monitoring\<close>

definition coverageOf :: "int list \<Rightarrow> char list" where
  "coverageOf ps =
     (if ps \<noteq> [] then remdups (map (\<lambda>p. char_of (nat p)) (filter (\<lambda>p. 0 \<le> p \<and> p \<le> 255) ps))
      else map char_of [0 :: nat, 1, 2, 3, 4])"

definition hash_string :: "bytes \<Rightarrow> string" where
  \<comment> \<open>\<^verbatim>\<open>chainhash.Hash.String\<close>\<close>
  "hash_string h = hex_encode (rev h)"

definition onMempoolTx :: "watch_env \<Rightarrow> 'w hit_ops \<Rightarrow> int \<Rightarrow> bytes \<times> bytes \<Rightarrow> txIndex \<times> 'w watcher \<Rightarrow> txIndex \<times> 'w watcher" where
  \<comment> \<open>the callback of the monitor\<close>
  "onMempoolTx W hops now tx iw =
     (case (tx, iw) of ((txHash, raw), (idx, wt)) \<Rightarrow>
       (snd (AddIndex idx txHash \<lparr>FirstSeen = now, TxSize = word_of_nat (length raw)\<rparr>), CheckTx W hops now (hash_string txHash) raw wt))"

definition evictTTL :: "Config \<Rightarrow> int" where
  "evictTTL cfg = (let t = wrap64 (mp_TTLSeconds (c_Mempool cfg) * second) in if t = 0 then 3600 * second else t)"

definition evictTick :: "Config \<Rightarrow> int \<Rightarrow> txIndex \<Rightarrow> txIndex" where
  "evictTick cfg now idx = snd (ExpireBefore (now - evictTTL cfg) idx)"

record ('tx, 'w) mempoolComponents =
  mc_index :: txIndex
  mc_watcher :: "'w watcher"
  mc_monitor :: "'tx MempoolMonitor option"

definition setupMempool :: "'w hit_ops \<Rightarrow> string + 'w \<Rightarrow> (string \<Rightarrow> string + 'tx conn) \<Rightarrow> 64 word \<Rightarrow> Config
    \<Rightarrow> ('tx, 'w) mempoolComponents option \<times> 64 word" where
  \<comment> \<open>\<open>watchDB\<close> is the outcome of opening the store of the watcher, \<open>dial\<close> that of the monitor's connection; the second result is the nonce counter\<close>
  "setupMempool hops watchDB dial nc cfg =
     (if \<not> mp_Enabled (c_Mempool cfg) \<or> c_BSVNodes cfg = [] then (None, nc)
      else let wt = NewWatcher hops (case watchDB of Inl e \<Rightarrow> None | Inr db \<Rightarrow> Some db);
               m0 = NewMempoolMonitor (hd (c_BSVNodes cfg)) (coverageOf (mp_Prefixes (c_Mempool cfg))) (mp_MaxTxSize (c_Mempool cfg)) True in
        case StartMonitor dial nc m0 of
          (Inl e, _, nc') \<Rightarrow> (Some \<lparr>mc_index = NewIndex, mc_watcher = wt, mc_monitor = None\<rparr>, nc')
        | (Inr _, m, nc') \<Rightarrow> (Some \<lparr>mc_index = NewIndex, mc_watcher = wt, mc_monitor = Some m\<rparr>, nc'))"

definition CloseMempool :: "('tx, 'w) mempoolComponents option \<Rightarrow> ('tx, 'w) mempoolComponents option option" where
  \<comment> \<open>\<^const>\<open>None\<close>: it does not return. The last call closes the database of the watcher, a library call with no state here.\<close>
  "CloseMempool mc =
     (case mc of
        None \<Rightarrow> Some None
      | Some c \<Rightarrow>
         (case mc_monitor c of
            None \<Rightarrow> Some (Some c)
          | Some m \<Rightarrow> map_option (\<lambda>m'. Some (c\<lparr>mc_monitor := Some m'\<rparr>)) (StopMonitor m)))"

section \<open>Overlay\<close>

definition bootDomain :: "Config \<Rightarrow> string" where
  "bootDomain cfg = (if nc_PublicURL (c_Node cfg) = [] then nc_Listen (c_Node cfg) else nc_PublicURL (c_Node cfg))"

definition identityHexOf :: "('k, 'pk) brc_lib \<Rightarrow> 'k \<Rightarrow> string" where
  "identityHexOf L k = hex_encode (bl_Compressed L (bl_PubKey L k))"

definition bootOverlay :: "('k, 'pk) brc_lib \<Rightarrow> ('d, dir_value) leveldb_ops \<Rightarrow> (string \<Rightarrow> string + 'k) \<Rightarrow> int \<Rightarrow> Config \<Rightarrow> 'd \<Rightarrow> 'd directory" where
  "bootOverlay L dops parseWIF now cfg db =
     (let d = NewDirectory db in
      if c_WIF cfg = [] then d
      else case parseWIF (c_WIF cfg) of
        Inl e \<Rightarrow> d
      | Inr k \<Rightarrow>
         Bootstrap L dops now (snd (CleanupOnBoot dops now d [bootDomain cfg \<mapsto> identityHexOf L k])) k (bootDomain cfg)
           (nc_Name (c_Node cfg)) versionString (oc_Topics (c_Overlay cfg)))"

definition newOverlayEngine :: "tx_codec \<Rightarrow> ('o, UHRPEntry) output_ops \<Rightarrow> (bytes \<Rightarrow> string + UHRPLookupQuery) \<Rightarrow> 'o \<Rightarrow> ('o, UHRPEntry) engine" where
  "newOverlayEngine lib oops decode db =
     RegisterLookup UHRPLookupServiceName (NewUHRPLookupService oops decode) [UHRPTopicName]
       (RegisterTopic UHRPTopicName (NewUHRPTopicManager lib) (NewEngine db))"

section \<open>Mesh\<close>

fun collectPubkeys :: "string list \<Rightarrow> string list \<Rightarrow> string list" where
  "collectPubkeys acc [] = acc"
| "collectPubkeys acc (pk # pks) =
     (let p = to_lower (trim_space pk) in collectPubkeys (if p = [] \<or> p \<in> set acc then acc else acc @ [p]) pks)"

definition meshPubkeys :: "string \<Rightarrow> Config \<Rightarrow> string list" where
  "meshPubkeys identityPub cfg = collectPubkeys (if identityPub \<noteq> [] then [identityPub] else []) (mc_LocalPubkeys (c_Mesh cfg))"

definition meshWanted :: "Config \<Rightarrow> bool" where
  "meshWanted cfg \<longleftrightarrow> mc_Seeds (c_Mesh cfg) \<noteq> [] \<or> nc_Listen (c_Node cfg) \<noteq> []"

definition meshBond :: "Config \<Rightarrow> Checker option" where
  "meshBond cfg = (if mc_MinBondSats (c_Mesh cfg) > 0 then Some (NewChecker (mc_MinBondSats (c_Mesh cfg)) (mc_BondCheckURL (c_Mesh cfg))) else None)"

definition meshManager :: "string \<Rightarrow> string \<Rightarrow> 'e envelope_store \<Rightarrow> 'd directory option \<Rightarrow> bool \<Rightarrow> Config \<Rightarrow> ('e, 'd directory) manager" where
  \<comment> \<open>\<open>logOk\<close>: whether the connection log could be opened\<close>
  "meshManager self identityPub store dir logOk cfg =
     NewManager \<lparr>cfg_self = self, cfg_store = Some store, cfg_localInterests = [[]], cfg_maxSeen = 10000, cfg_hasHook = True,
       cfg_overlayDir = dir, cfg_bondChecker = meshBond cfg, cfg_catchUpTopics = [''anvil:catalog'', ''mesh:heartbeat'', ''mesh:blocks''],
       cfg_localPubkeys = meshPubkeys identityPub cfg, cfg_connLog = (if logOk then Some (NewConnectionLog 50) else None)\<rparr>"

section \<open>Payments\<close>

record 'w payment_wiring =
  pw_satoshis :: int
  pw_payeeScriptHex :: string
  pw_nonce :: "'w WalletNonceProvider UTXONoncePool option"

definition wirePayments :: "(string \<Rightarrow> string + 'k) \<Rightarrow> ('k \<Rightarrow> string + bytes) \<Rightarrow> Config \<Rightarrow> 'w option \<Rightarrow> 'w payment_wiring outcome" where
  \<comment> \<open>\<open>payeeLock\<close>: the address of the key and its locking script\<close>
  "wirePayments parseWIF payeeLock cfg wallet =
     (let sats = api_PaymentSatoshis (c_API cfg) in
      case (if c_WIF cfg \<noteq> [] then wallet else None) of
        Some wal \<Rightarrow>
          (case parseWIF (c_WIF cfg) of
             Inl e \<Rightarrow> Fatal (''x402: invalid identity WIF: '' @ e)
           | Inr k \<Rightarrow>
              (case payeeLock k of
                 Inl e \<Rightarrow> Fatal (''x402: '' @ e)
               | Inr script \<Rightarrow>
                  Returned \<lparr>pw_satoshis = sats, pw_payeeScriptHex = hex_encode script, pw_nonce = Some (NewUTXONoncePool (NewWalletNonceProvider wal) 100)\<rparr>))
      | None \<Rightarrow> Returned \<lparr>pw_satoshis = (if sats > 0 then 0 else sats), pw_payeeScriptHex = [], pw_nonce = None\<rparr>)"

section \<open>The server\<close>

definition arcOf :: "Config \<Rightarrow> ARCClient option" where
  "arcOf cfg = (if ac_Enabled (c_ARC cfg) then Some (NewARCClient (ac_URL (c_ARC cfg)) (ac_APIKey (c_ARC cfg))) else None)"

definition fetcherIface :: "'f \<Rightarrow> Config \<Rightarrow> 'f iface" where
  \<comment> \<open>a nil pointer in an interface if no node is configured\<close>
  "fetcherIface f cfg = (if c_BSVNodes cfg \<noteq> [] then Src f else TypedNil)"

definition serverConfig :: "Config \<Rightarrow> 'h Syncer \<Rightarrow> 'p \<Rightarrow> 'e envelope_store \<Rightarrow> 'd directory option \<Rightarrow> ('e, 'd directory) manager option
    \<Rightarrow> 'w payment_wiring \<Rightarrow> string \<Rightarrow> Checker option \<Rightarrow> 'hw watcher option \<Rightarrow> 64 word
    \<Rightarrow> ('e, 'd, 'p, 'hw, 'w WalletNonceProvider UTXONoncePool, 'h, 'tx) ServerConfig" where
  "serverConfig cfg sy proofs store dir mgr pw identityPub bc wt nc =
     \<lparr>cfg_HeaderStore = sy_store sy, cfg_ProofStore = proofs, cfg_EnvelopeStore = Some store, cfg_EmptyStore = store, cfg_OverlayDir = dir,
      cfg_Validator = Some NewValidator, cfg_Broadcaster = Some (NewBroadcaster NewMempool (arcOf cfg)), cfg_GossipMgr = mgr,
      cfg_AuthToken = api_AuthToken (c_API cfg), cfg_RateLimit = api_RateLimit (c_API cfg), cfg_TrustProxy = api_TrustProxy (c_API cfg),
      cfg_PaymentSatoshis = pw_satoshis pw, cfg_PayeeScriptHex = pw_payeeScriptHex pw, cfg_NonceProvider = pw_nonce pw,
      cfg_AllowPassthrough = ap_AllowPassthrough (api_AppPayments (c_API cfg)), cfg_AllowSplit = ap_AllowSplit (api_AppPayments (c_API cfg)),
      cfg_AllowTokenGating = ap_AllowTokenGating (api_AppPayments (c_API cfg)), cfg_MaxAppPriceSats = ap_MaxAppPriceSats (api_AppPayments (c_API cfg)),
      cfg_EndpointPrices = map_of (api_EndpointPrices (c_API cfg)), cfg_ARCClient = arcOf cfg, cfg_RequireMempool = api_RequireMempool (c_API cfg),
      cfg_NodeName = nc_Name (c_Node cfg), cfg_IdentityPub = identityPub, cfg_BondChecker = bc,
      cfg_P2PTxSource = fetcherIface (NewTxFetcher (c_BSVNodes cfg)) cfg, cfg_P2PBlockSource = fetcherIface (NewBlockTxFetcher (c_BSVNodes cfg)) cfg,
      cfg_Nonce = nc, cfg_ExplorerOrigin = api_ExplorerOrigin (c_API cfg), cfg_PublicURL = nc_PublicURL (c_Node cfg), cfg_SyncStatus = Some (Stats sy),
      cfg_SPVProofSource = (if ac_Enabled (c_ARC cfg) then ''arc+woc-fallback'' else ''woc''), cfg_Watcher = wt,
      cfg_ProofFetcher = Some (NewProofFetcher (arcOf cfg))\<rparr>"

section \<open>The start of a node\<close>

record ('h, 'e, 'd, 'p, 'hw, 'wal, 'inv, 'k, 'pk, 'tx) node_env =
  ne_fuel :: nat
  ne_now :: int
  ne_clock :: "string \<times> string"
  ne_nonce :: "64 word"
  ne_headerOps :: "('h, bytes) leveldb_ops"
  ne_dirOps :: "('d, dir_value) leveldb_ops"
  ne_hitOps :: "'hw hit_ops"
  ne_wire :: wire
  ne_dial :: "string \<Rightarrow> string + 'tx conn"
  ne_brc :: "('k, 'pk) brc_lib"
  ne_parseWIF :: "string \<Rightarrow> string + 'k"
  ne_payeeLock :: "'k \<Rightarrow> string + bytes"
  ne_headerDB :: "string + 'h" \<comment> \<open>the outcomes of opening the databases and the wallet\<close>
  ne_proofDB :: "string + 'p"
  ne_envelopeDB :: "string + 'e"
  ne_overlayDB :: "string + 'd"
  ne_watchDB :: "string + 'hw"
  ne_wallet :: "wallet_err + ('wal, 'inv, 'k) NodeWallet"
  ne_cgo :: "wallet_err \<Rightarrow> bool" \<comment> \<open>whether the error says that the binary lacks cgo\<close>
  ne_self :: string \<comment> \<open>the identity key of the wallet\<close>
  ne_logOk :: bool

record ('h, 'e, 'd, 'p, 'hw, 'wal, 'inv, 'k, 'tx) node =
  nd_api :: "('e, 'd, 'p, 'hw, 'wal WalletNonceProvider UTXONoncePool, 'h, 'tx) api_node"
  nd_wallet :: "('wal, 'inv, 'k) NodeWallet option"
  nd_mempool :: "('tx, 'hw) mempoolComponents option"

definition openWallet :: "('h, 'e, 'd, 'p, 'hw, 'wal, 'inv, 'k, 'pk, 'tx) node_env \<Rightarrow> Config \<Rightarrow> ('wal, 'inv, 'k) NodeWallet option outcome" where
  "openWallet N cfg =
     (if c_WIF cfg = [] then Returned None
      else case ne_wallet N of
        Inl e \<Rightarrow> (if ne_cgo N e then Fatal ''binary was built with CGO_ENABLED=0 but the wallet requires CGO'' else Returned None)
      | Inr nw \<Rightarrow> Returned (Some nw))"

definition openOverlay :: "('h, 'e, 'd, 'p, 'hw, 'wal, 'inv, 'k, 'pk, 'tx) node_env \<Rightarrow> Config \<Rightarrow> 'd directory option outcome" where
  "openOverlay N cfg =
     (if \<not> oc_Enabled (c_Overlay cfg) then Returned None
      else case ne_overlayDB N of
        Inl e \<Rightarrow> Fatal (''overlay directory: '' @ e)
      | Inr db \<Rightarrow> Returned (Some (bootOverlay (ne_brc N) (ne_dirOps N) (ne_parseWIF N) (ne_now N) cfg db)))"

definition identityPubOf :: "('h, 'e, 'd, 'p, 'hw, 'wal, 'inv, 'k, 'pk, 'tx) node_env \<Rightarrow> Config \<Rightarrow> string" where
  "identityPubOf N cfg =
     (if c_WIF cfg = [] then [] else case ne_parseWIF N (c_WIF cfg) of Inl e \<Rightarrow> [] | Inr k \<Rightarrow> identityHexOf (ne_brc N) k)"

definition assembleNode :: "('h, 'e, 'd, 'p, 'hw, 'wal, 'inv, 'k, 'pk, 'tx) node_env \<Rightarrow> Config \<Rightarrow> 'h Syncer \<Rightarrow> 'p \<Rightarrow> 'e envelope_store
    \<Rightarrow> 'd directory option \<Rightarrow> ('wal, 'inv, 'k) NodeWallet option \<Rightarrow> 64 word \<Rightarrow> ('h, 'e, 'd, 'p, 'hw, 'wal, 'inv, 'k, 'tx) node outcome" where
  \<comment> \<open>mempool, mesh, payments and server; \<open>nc\<close> is the nonce counter of the P2P package after the synchronisation\<close>
  "assembleNode N cfg sy proofs store dir wallet nc =
     (let mesh = (meshWanted cfg \<and> wallet \<noteq> None);
          mgr = (if mesh then Some (meshManager (ne_self N) (identityPubOf N cfg) store dir (ne_logOk N) cfg) else None);
          (mp, nc1) = setupMempool (ne_hitOps N) (ne_watchDB N) (ne_dial N) nc cfg
      in case wirePayments (ne_parseWIF N) (ne_payeeLock N) cfg (map_option nw_inner wallet) of
        Fatal e \<Rightarrow> Fatal e
      | Returned pw \<Rightarrow>
         Returned \<lparr>nd_api = NewServer (serverConfig cfg sy proofs store dir mgr pw (identityPubOf N cfg) (if mesh then meshBond cfg else None)
                     (map_option mc_watcher mp) nc1),
           nd_wallet = wallet, nd_mempool = mp\<rparr>)"

definition openStores :: "('h, 'e, 'd, 'p, 'hw, 'wal, 'inv, 'k, 'pk, 'tx) node_env \<Rightarrow> Config \<Rightarrow> 'h Syncer \<Rightarrow> 64 word
    \<Rightarrow> ('h, 'e, 'd, 'p, 'hw, 'wal, 'inv, 'k, 'tx) node outcome" where
  "openStores N cfg sy nc =
     (case ne_proofDB N of Inl e \<Rightarrow> Fatal (''proof store: '' @ e) | Inr proofs \<Rightarrow>
      case ne_envelopeDB N of Inl e \<Rightarrow> Fatal (''envelope store: '' @ e) | Inr edb \<Rightarrow>
      let store = NewEnvelopeStore edb (ec_MaxEphemeralTTL (c_Envelopes cfg)) (ec_MaxDurableSize (c_Envelopes cfg)) in
      case openOverlay N cfg of Fatal e \<Rightarrow> Fatal e | Returned dir \<Rightarrow>
      case openWallet N cfg of Fatal e \<Rightarrow> Fatal e | Returned wallet \<Rightarrow> assembleNode N cfg sy proofs store dir wallet nc)"

definition startNode :: "('h, 'e, 'd, 'p, 'hw, 'wal, 'inv, 'k, 'pk, 'tx) node_env \<Rightarrow> config_err + Config
    \<Rightarrow> ('h, 'e, 'd, 'p, 'hw, 'wal, 'inv, 'k, 'tx) node outcome option" where
  \<comment> \<open>of a configuration that was loaded; the outer \<^term>\<open>None\<close> is a synchronisation that does not end\<close>
  "startNode N loaded =
     (case loaded of
        Inl e \<Rightarrow> Some (Fatal ''config'')
      | Inr cfg \<Rightarrow>
         (case ne_headerDB N of
            Inl e \<Rightarrow> Some (Fatal (''header store: '' @ e))
          | Inr hdb \<Rightarrow>
             (case NewStore (ne_headerOps N) (ne_wire N) hdb of
                Inl e \<Rightarrow> Some (Fatal ''header store'')
              | Inr hs \<Rightarrow>
                 map_option (\<lambda>(_, sy, nc). openStores N cfg sy nc)
                   (syncNodes (ne_fuel N) (ne_headerOps N) (ne_wire N) (ne_dial N) (fst (ne_clock N)) (snd (ne_clock N)) (ne_nonce N) (c_BSVNodes cfg) (NewSyncer hs)))))"

definition tipHash :: "('h, bytes) leveldb_ops \<Rightarrow> wire \<Rightarrow> 'h header_store \<Rightarrow> uint32 \<Rightarrow> string" where
  \<comment> \<open>the \<^verbatim>\<open>hashFn\<close> of the block tips and the header lookup of the server\<close>
  "tipHash ops w s height = (case HashAtHeight ops w s height of Inl e \<Rightarrow> [] | Inr h \<Rightarrow> hash_string h)"

section \<open>What a running node guarantees\<close>

lemma collectPubkeys_set:
  "set (collectPubkeys acc pks) = set acc \<union> {p. p \<noteq> [] \<and> (\<exists>pk \<in> set pks. p = to_lower (trim_space pk))}
   \<and> (distinct acc \<longrightarrow> distinct (collectPubkeys acc pks))"
  by (induction acc pks rule: collectPubkeys.induct) (auto simp: Let_def)

text \<open>
  The keys that are exempt from double-publish detection are the node's own and the configured ones, each once.
\<close>

lemma meshPubkeys_exact:
  "distinct (meshPubkeys pub cfg)
   \<and> set (meshPubkeys pub cfg) = {p. p \<noteq> [] \<and> (p = pub \<or> (\<exists>pk \<in> set (mc_LocalPubkeys (c_Mesh cfg)). p = to_lower (trim_space pk)))}"
  using collectPubkeys_set [of "if pub \<noteq> [] then [pub] else []" "mc_LocalPubkeys (c_Mesh cfg)"] by (auto simp: meshPubkeys_def)

lemma HasIndex_Add: "HasIndex (snd (AddIndex idx t m)) u \<longleftrightarrow> u = t \<or> HasIndex idx u"
  by (auto simp: AddIndex_def HasIndex_def Let_def)

text \<open>
  Between two evictions the index holds exactly the transactions the monitor delivered. The monitor delivers
  every transaction a peer sends, also one it did not ask for and whose hash is outside the coverage.
\<close>

lemma mempool_indexed:
  "HasIndex (fst (fold (\<lambda>(now, tx). onMempoolTx W hops now tx) txs (idx, wt))) t \<longleftrightarrow> HasIndex idx t \<or> t \<in> (fst \<circ> snd) ` set txs"
proof (induction txs arbitrary: idx wt)
  case (Cons x txs)
  obtain now h raw where x: "x = (now, h, raw)" by (cases x)
  have "onMempoolTx W hops now (h, raw) (idx, wt) = (snd (AddIndex idx h \<lparr>FirstSeen = now, TxSize = word_of_nat (length raw)\<rparr>), CheckTx W hops now (hash_string h) raw wt)"
    by (simp add: onMempoolTx_def)
  with x show ?case by (auto simp: Cons.IH HasIndex_Add)
qed simp

text \<open>Shutdown returns: the monitor that is kept was started, so \<^verbatim>\<open>Stop\<close> has a read loop to wait for.\<close>

lemma CloseMempool_returns: "CloseMempool (fst (setupMempool hops watchDB dial nc cfg)) \<noteq> None"
proof -
  have "StopMonitor m \<noteq> None" if "StartMonitor dial nc m0 = (Inr u, m, nc')" for m0 m :: "'a MempoolMonitor" and u nc'
    using that by (auto simp: StartMonitor_def launchMonitor_def StopMonitor_def split: sum.splits prod.splits)
  then show ?thesis by (auto simp: CloseMempool_def setupMempool_def Let_def split: sum.splits prod.splits option.splits)
qed

lemma unsolicited_delivered:
  assumes "onTx_set m" "maxTxSize m \<le> 0"
  shows "TxHash lib tx \<in> fst ` set (MempoolMonitor.delivered (handleTx lib m tx))"
  using assms by (simp add: handleTx_def Let_def)

definition gateOf :: "Config \<Rightarrow> 'w payment_wiring \<Rightarrow> 'w WalletNonceProvider UTXONoncePool PaymentGate option" where
  \<comment> \<open>the payment gate that the server builds from the wiring\<close>
  "gateOf cfg pw = NewPaymentGate \<lparr>pg_PriceSats = pw_satoshis pw, pg_PayeeScriptHex = pw_payeeScriptHex pw,
     pg_NonceProvider = pw_nonce pw, pg_ChallengeTTL = 0, pg_RequireMempool = api_RequireMempool (c_API cfg), pg_ARCClient = arcOf cfg,
     pg_Resolver = True, pg_AllowPassthrough = ap_AllowPassthrough (api_AppPayments (c_API cfg)), pg_AllowSplit = ap_AllowSplit (api_AppPayments (c_API cfg)),
     pg_MaxAppPriceSats = ap_MaxAppPriceSats (api_AppPayments (c_API cfg)), pg_EndpointPrices = map_of (api_EndpointPrices (c_API cfg))\<rparr>"

lemma serverConfig_fields:
  "gossipMgr (an_server (NewServer (serverConfig cfg sy proofs store dir mgr pw ident bc wt nc))) = mgr"
  "authToken (an_server (NewServer (serverConfig cfg sy proofs store dir mgr pw ident bc wt nc))) = api_AuthToken (c_API cfg)"
  "paymentGate (an_server (NewServer (serverConfig cfg sy proofs store dir mgr pw ident bc wt nc))) = gateOf cfg pw"
  by (simp_all add: NewServer_def serverConfig_def gateOf_def)

lemma startNode_cases:
  assumes "startNode N (Inr cfg) = Some (Returned n)"
  obtains hdb hs r sy nc proofs edb dir wallet where
    "ne_headerDB N = Inr hdb" "NewStore (ne_headerOps N) (ne_wire N) hdb = Inr hs"
    "syncNodes (ne_fuel N) (ne_headerOps N) (ne_wire N) (ne_dial N) (fst (ne_clock N)) (snd (ne_clock N)) (ne_nonce N) (c_BSVNodes cfg) (NewSyncer hs) = Some (r, sy, nc)"
    "openWallet N cfg = Returned wallet"
    "assembleNode N cfg sy proofs (NewEnvelopeStore edb (ec_MaxEphemeralTTL (c_Envelopes cfg)) (ec_MaxDurableSize (c_Envelopes cfg))) dir wallet nc = Returned n"
proof -
  from assms obtain hdb hs where h: "ne_headerDB N = Inr hdb" "NewStore (ne_headerOps N) (ne_wire N) hdb = Inr hs"
    by (auto simp: startNode_def split: sum.splits)
  with assms obtain r sy nc where s: "syncNodes (ne_fuel N) (ne_headerOps N) (ne_wire N) (ne_dial N) (fst (ne_clock N)) (snd (ne_clock N)) (ne_nonce N) (c_BSVNodes cfg) (NewSyncer hs) = Some (r, sy, nc)"
    "openStores N cfg sy nc = Returned n" by (auto simp: startNode_def)
  from s(2) obtain proofs edb dir wallet where "openWallet N cfg = Returned wallet"
    "assembleNode N cfg sy proofs (NewEnvelopeStore edb (ec_MaxEphemeralTTL (c_Envelopes cfg)) (ec_MaxDurableSize (c_Envelopes cfg))) dir wallet nc = Returned n"
    by (auto simp: openStores_def Let_def split: sum.splits outcome.splits)
  with h s(1) that show ?thesis by blast
qed

lemma wirePayments_cases:
  assumes "wirePayments pw' lk cfg wal = Returned pw"
  obtains (off) "pw_nonce pw = None" "pw_satoshis pw \<le> 0" "wal = None \<or> c_WIF cfg = []"
    | (on) w k script where "wal = Some w" "c_WIF cfg \<noteq> []" "pw' (c_WIF cfg) = Inr k" "lk k = Inr script"
      "pw = \<lparr>pw_satoshis = api_PaymentSatoshis (c_API cfg), pw_payeeScriptHex = hex_encode script,
        pw_nonce = Some (NewUTXONoncePool (NewWalletNonceProvider w) 100)\<rparr>"
proof (cases "c_WIF cfg \<noteq> [] \<and> wal \<noteq> None")
  case True
  with assms on show ?thesis by (auto simp: wirePayments_def Let_def split: sum.splits)
next
  case False
  with assms off show ?thesis by (cases wal) (auto simp: wirePayments_def Let_def split: if_splits)
qed

text \<open>
  C22: a node takes money only for itself and talks to the mesh only under its identity. A node that has started
  has a payment gate only with an identity and a wallet; then every challenge is minted from that wallet, the
  payee is the locking script of the identity key and the price is the configured one. It is part of the mesh
  exactly when it has a wallet and a listener or a seed, its bond requirement is then the configured one, and the
  API demands the configured token.
\<close>

theorem node_wiring:
  assumes s: "startNode N (Inr cfg) = Some (Returned n)"
  defines "srv \<equiv> an_server (nd_api n)"
  shows "(\<forall>g. paymentGate srv = Some g \<longrightarrow>
        (\<exists>nw k script. nd_wallet n = Some nw \<and> c_WIF cfg \<noteq> [] \<and> ne_parseWIF N (c_WIF cfg) = Inr k \<and> ne_payeeLock N k = Inr script
          \<and> payeeScriptHex g = hex_encode script \<and> priceSats g = api_PaymentSatoshis (c_API cfg)
          \<and> wn_wallet (inner (nonceProvider g)) = nw_inner nw \<and> pool (nonceProvider g) = []))
    \<and> (gossipMgr srv \<noteq> None \<longleftrightarrow> nd_wallet n \<noteq> None \<and> (mc_Seeds (c_Mesh cfg) \<noteq> [] \<or> nc_Listen (c_Node cfg) \<noteq> []))
    \<and> (\<forall>m. gossipMgr srv = Some m \<longrightarrow> c_WIF cfg \<noteq> [] \<and> bondChecker m = meshBond cfg)
    \<and> authToken srv = api_AuthToken (c_API cfg)"
proof -
  from startNode_cases [OF s] obtain sy proofs store dir wallet nc where w: "openWallet N cfg = Returned wallet"
    and a: "assembleNode N cfg sy proofs store dir wallet nc = Returned n" by metis
  have wif: "wallet \<noteq> None \<Longrightarrow> c_WIF cfg \<noteq> []" using w by (auto simp: openWallet_def split: if_splits)
  define mgr where "mgr = (if meshWanted cfg \<and> wallet \<noteq> None then Some (meshManager (ne_self N) (identityPubOf N cfg) store dir (ne_logOk N) cfg) else None)"
  obtain mp nc1 where mp: "setupMempool (ne_hitOps N) (ne_watchDB N) (ne_dial N) nc cfg = (mp, nc1)" by fastforce
  from a obtain pw where pw: "wirePayments (ne_parseWIF N) (ne_payeeLock N) cfg (map_option nw_inner wallet) = Returned pw"
    by (auto simp: assembleNode_def Let_def mp split: outcome.splits)
  with a obtain bc wt where "n = \<lparr>nd_api = NewServer (serverConfig cfg sy proofs store dir mgr pw (identityPubOf N cfg) bc wt nc1),
      nd_wallet = wallet, nd_mempool = mp\<rparr>"
    by (simp add: assembleNode_def Let_def mgr_def mp) blast
  then have n: "nd_wallet n = wallet" "gossipMgr srv = mgr" "authToken srv = api_AuthToken (c_API cfg)" and g: "paymentGate srv = gateOf cfg pw"
    by (simp_all add: srv_def serverConfig_fields)
  have "\<exists>nw k script. wallet = Some nw \<and> c_WIF cfg \<noteq> [] \<and> ne_parseWIF N (c_WIF cfg) = Inr k \<and> ne_payeeLock N k = Inr script
      \<and> payeeScriptHex gt = hex_encode script \<and> priceSats gt = api_PaymentSatoshis (c_API cfg)
      \<and> wn_wallet (inner (nonceProvider gt)) = nw_inner nw \<and> pool (nonceProvider gt) = []" if "paymentGate srv = Some gt" for gt
    using pw
  proof (cases rule: wirePayments_cases)
    case off
    with that g show ?thesis by (simp add: gateOf_def NewPaymentGate_def Let_def split: if_splits)
  next
    case (on wl k script)
    then obtain nw where nw: "wallet = Some nw" "wl = nw_inner nw" by auto
    from that g on have "payeeScriptHex gt = hex_encode script" "priceSats gt = api_PaymentSatoshis (c_API cfg)"
      "nonceProvider gt = NewUTXONoncePool (NewWalletNonceProvider wl) 100" by (auto simp: gateOf_def NewPaymentGate_def Let_def split: if_splits)
    with on nw show ?thesis by (simp add: NewUTXONoncePool_def NewWalletNonceProvider_def)
  qed
  moreover have "bondChecker m = meshBond cfg" if "mgr = Some m" for m
    using that by (auto simp: mgr_def meshManager_def NewManager_def split: if_splits)
  ultimately show ?thesis using n wif by (auto simp: mgr_def meshWanted_def)
qed

definition demo_node :: "((bytes \<times> bytes) list, unit, (bytes \<times> dir_value) list, unit, (bytes \<times> WatchHit json) list, unit, unit, string, string, unit) node_env" where
  "demo_node = \<lparr>ne_fuel = 1, ne_now = 0, ne_clock = ([], []), ne_nonce = 0, ne_headerOps = mem_ops, ne_dirOps = mem_ops, ne_hitOps = mem_ops,
     ne_wire = demo_wire, ne_dial = (\<lambda>_. Inl ''refused''), ne_brc = demo_brc, ne_parseWIF = Inr, ne_payeeLock = Inr,
     ne_headerDB = Inr [], ne_proofDB = Inr (), ne_envelopeDB = Inr (), ne_overlayDB = Inl ''closed'', ne_watchDB = Inl ''closed'',
     ne_wallet = Inr \<lparr>nw_inner = (), nw_validator = NewValidator, nw_scanner = None, invoiceDB = (), nw_nextID = 0\<rparr>,
     ne_cgo = (\<lambda>_. False), ne_self = ''self'', ne_logOk = True\<rparr>"

definition demo_config :: Config where
  "demo_config = defaultConfig\<lparr>c_WIF := ''L1'', c_BSVNodes := [], c_Overlay := \<lparr>oc_Enabled = False, oc_Topics = []\<rparr>,
     c_API := (c_API defaultConfig)\<lparr>api_AuthToken := ''t'', api_PaymentSatoshis := 5\<rparr>\<rparr>"

lemma demo_starts: "\<exists>n. startNode demo_node (Inr demo_config) = Some (Returned n) \<and> paymentGate (an_server (nd_api n)) \<noteq> None"
proof -
  obtain s where s: "NewStore mem_ops demo_wire [] = Inr s" using demo_opens by blast
  then show ?thesis
    by (simp add: startNode_def demo_node_def demo_config_def defaultConfig_def openStores_def openOverlay_def openWallet_def assembleNode_def Let_def setupMempool_def
        wirePayments_def NewServer_def serverConfig_def NewPaymentGate_def)
qed

theorem node_wiring_witness:
  "\<exists>n g. startNode demo_node (Inr demo_config) = Some (Returned n) \<and> paymentGate (an_server (nd_api n)) = Some g
     \<and> payeeScriptHex g = hex_encode ''L1'' \<and> priceSats g = 5 \<and> gossipMgr (an_server (nd_api n)) \<noteq> None \<and> authToken (an_server (nd_api n)) = ''t''"
proof -
  obtain n g where s: "startNode demo_node (Inr demo_config) = Some (Returned n)" and g: "paymentGate (an_server (nd_api n)) = Some g"
    using demo_starts by auto
  have c: "c_WIF demo_config = ''L1''" "api_PaymentSatoshis (c_API demo_config) = 5" "api_AuthToken (c_API demo_config) = ''t''"
    "nc_Listen (c_Node demo_config) \<noteq> []" by (simp_all add: demo_config_def defaultConfig_def)
  have d: "ne_parseWIF demo_node ''L1'' = Inr ''L1''" "ne_payeeLock demo_node ''L1'' = Inr ''L1''" by (simp_all add: demo_node_def)
  from node_wiring [OF s] g c d s show ?thesis by auto
qed

end
