(* ===== verification/Spec2Isabelle.thy ===== *)
theory Spec2Isabelle
  imports Header_Sync P2p Envelope_Store Directory Rate_Limit Bond Slash Gossip Gossip_Safety
    Http Txrelay Nonce Payment Payment_Safety Spv Brc Engine Uhrp Watcher Api Api_Safety Content_Safety Wallet_Safety Status_Safety Routes_Safety
    Config Feeds Transport Upgrade_Safety Deploy_Safety Doctor Node
begin

text \<open>
  A verification library for Anvil, a node of the BSV overlay network written in Go (\<^verbatim>\<open>src/\<close>). The node
  follows the block header chain, validates transactions against it, keeps signed data envelopes and gossips
  them over a mesh of bonded peers, runs an overlay engine with topic managers, and sells access to all of this
  over an HTTP API with payments. It has a wallet, serves inscriptions, and comes with a command line that
  installs and upgrades it.

  \<^bold>\<open>How the parts interact.\<close> Peers on the Bitcoin network (\<^verbatim>\<open>internal/p2p\<close>) deliver headers to the header
  store (\<^verbatim>\<open>internal/headers\<close>), which is the root of trust of the SPV validator (\<^verbatim>\<open>internal/spv\<close>). The API
  (\<^verbatim>\<open>internal/api\<close>) reads and writes the envelope store (\<^verbatim>\<open>internal/envelope\<close>), the proof store, the overlay
  directory and engine (\<^verbatim>\<open>internal/overlay\<close>), the transaction relay (\<^verbatim>\<open>internal/txrelay\<close>), the mempool watcher
  (\<^verbatim>\<open>internal/mempool\<close>), the wallet (\<^verbatim>\<open>internal/wallet\<close>) and the content server (\<^verbatim>\<open>internal/content\<close>); its
  middleware authenticates operators, limits rates and demands payment. The mesh manager (\<^verbatim>\<open>internal/gossip\<close>)
  feeds the same envelope store and directory, checks bonds (\<^verbatim>\<open>internal/bond\<close>) and slashes peers that misbehave.
  \<^verbatim>\<open>internal/feeds\<close> publishes the node's own envelopes, \<^verbatim>\<open>internal/config\<close> is read at start, and \<^verbatim>\<open>cmd/anvil\<close>
  wires everything together.

  \<^bold>\<open>Conventions.\<close> Go strings and byte slices are lists of bytes; fixed-width integers are words, or integers with
  the wrap-around written out (\<^verbatim>\<open>wrap64\<close>); errors are the left side of a sum or an option; a Go panic is a value
  of its own where the code can panic. Operations are functions on explicit records of state; goroutines and
  request handlers that interleave are steps of an inductive relation or elements of a list of steps, at the
  granularity of the critical sections of the code. Time and random bytes are arguments. Code outside the
  repository (goleveldb, go-sdk, go-wallet-toolbox, the HTTP services, JSON and TOML codecs, hash functions
  and curves) is a parameter; where a statement relies on it, the laws are the assumptions of a locale that
  is interpreted on the model's own operations over a concrete instance.

  \<^bold>\<open>The theories.\<close>
  \<^item> \<^verbatim>\<open>Anvil_Prelude\<close>, \<^verbatim>\<open>Http\<close>, \<^verbatim>\<open>Gotext\<close>: Go types and the parts of its standard library that are used (decimal and
    hexadecimal text, base64, query strings, slices, requests and replies), with their round trips.
  \<^item> \<^verbatim>\<open>Leveldb\<close>: the interface of goleveldb as a record of operations with the locale of its laws, interpreted
    on an in-memory store, over which every database of the node is modelled.
  \<^item> \<^verbatim>\<open>Pow\<close>, \<^verbatim>\<open>Header_Store\<close>, \<^verbatim>\<open>Header_Sync\<close> (\<^verbatim>\<open>internal/headers\<close>): targets, proof of work, the store with batched
    appends, roll-back and recovery, and synchronisation with reorganisations. A reachable store holds a linked
    chain that meets its targets, appending refines the abstract chain, a roll-back undoes an append, and
    synchronisation with an honest peer reaches its tip and returns.
  \<^item> \<^verbatim>\<open>P2p\<close> (\<^verbatim>\<open>internal/p2p\<close>): the wire session, the transaction and block fetchers and the mempool monitor. What
    a fetcher returns has the hash that was asked for, and a monitor asks for what it covers only, however its
    start, its two loops and its stop interleave.
  \<^item> \<^verbatim>\<open>Envelope\<close>, \<^verbatim>\<open>Envelope_Store\<close> (\<^verbatim>\<open>internal/envelope\<close>): signing, validation, and the two-level store. Signed
    envelopes validate, the digest determines the signed fields, and the store only holds valid envelopes.
  \<^item> \<^verbatim>\<open>Directory\<close>, \<^verbatim>\<open>Brc\<close>, \<^verbatim>\<open>Engine\<close>, \<^verbatim>\<open>Uhrp\<close> (\<^verbatim>\<open>internal/overlay\<close>, \<^verbatim>\<open>pkg/brc\<close>): the SHIP and SLAP directory, token scripts and
    their derivation, discovery on chain, the topic engine and the UHRP topic. Only the owner of an identity is
    registered; a submission changes the UHRP index as its abstract specification says.
  \<^item> \<^verbatim>\<open>Rate_Limit\<close>, \<^verbatim>\<open>Bond\<close>, \<^verbatim>\<open>Slash\<close>, \<^verbatim>\<open>Gossip\<close>, \<^verbatim>\<open>Gossip_Safety\<close>, \<^verbatim>\<open>Transport\<close> (\<^verbatim>\<open>internal/gossip\<close>, \<^verbatim>\<open>internal/bond\<close>,
    \<^verbatim>\<open>internal/api/auth.go\<close>): token buckets, the bond check, warnings and slashing, the manager with all its
    message handlers, and the websocket loop below it. Envelopes are delivered once, forwarded only to interested
    peers, and everything that reaches the store is authentic; a target is deregistered only on the word of two
    reporters; unbonded peers are not listened to; messages arrive in order.
  \<^item> \<^verbatim>\<open>Txrelay\<close>, \<^verbatim>\<open>Spv\<close>, \<^verbatim>\<open>Watcher\<close> (\<^verbatim>\<open>internal/txrelay\<close>, \<^verbatim>\<open>internal/spv\<close>, \<^verbatim>\<open>internal/mempool\<close>): broadcasting, BEEF
    validation with proof conversion, the sharded index and the address watcher. A verified verdict has only
    roots of the local chain; a TSC proof and its conversion compute the same root; the watcher survives restarts.
  \<^item> \<^verbatim>\<open>Nonce\<close>, \<^verbatim>\<open>Payment\<close>, \<^verbatim>\<open>Payment_Safety\<close> (\<^verbatim>\<open>internal/api/payment*.go\<close>, \<^verbatim>\<open>nonce_*.go\<close>): the HTTP 402 gate. A receipt
    certifies a payment to every payee bound to the request, and a challenge is redeemed once.
  \<^item> \<^verbatim>\<open>Api\<close>, \<^verbatim>\<open>Api_Safety\<close>, \<^verbatim>\<open>Status\<close>, \<^verbatim>\<open>Status_Safety\<close>, \<^verbatim>\<open>Routes\<close>, \<^verbatim>\<open>Routes_Safety\<close> (the rest of \<^verbatim>\<open>internal/api\<close>): middleware,
    handlers, event streams, status pages and the route table. Writes need the operator or, where allowed, a
    payment; paid payloads are shown to those who paid; no two patterns of the route table conflict.
  \<^item> \<^verbatim>\<open>Content\<close>, \<^verbatim>\<open>Content_Safety\<close> (\<^verbatim>\<open>internal/content\<close>), \<^verbatim>\<open>Wallet\<close>, \<^verbatim>\<open>Wallet_Safety\<close> (\<^verbatim>\<open>internal/wallet\<close>): the inscription
    server and the wallet. What is served was parsed from the requested transaction; invoices keep their ids over
    restarts; internalisation is gated by SPV.
  \<^item> \<^verbatim>\<open>Config\<close> (\<^verbatim>\<open>internal/config\<close>), \<^verbatim>\<open>Feeds\<close> (\<^verbatim>\<open>internal/feeds\<close>): a configuration with an identity always has an API
    token; announced block tips increase.
  \<^item> \<^verbatim>\<open>Host\<close>, \<^verbatim>\<open>Upgrade\<close>, \<^verbatim>\<open>Upgrade_Safety\<close>, \<^verbatim>\<open>Deploy\<close>, \<^verbatim>\<open>Deploy_Safety\<close>, \<^verbatim>\<open>Doctor\<close>, \<^verbatim>\<open>Node\<close> (\<^verbatim>\<open>cmd/anvil\<close>): a machine whose every system call may fail, the upgrade and
    deployment commands on it, the diagnosis, and the start of a node from its configuration. At every moment of an upgrade
    the installed binary is the old one or the complete new one; a deployment keeps every existing identity and
    configuration; the identity it writes is the one the node and the operator commands read; a node takes
    payments only with an identity and a wallet, and to its own key.

  \<^bold>\<open>Bounds and fuel.\<close> Loops over data are structural recursion. The header download \<^verbatim>\<open>SyncWith\<close> has no bound of its
  own and takes fuel: against an honest peer one more than the number of missing headers is enough, and against
  any peer one more than the number of messages the connection delivers, which is what the convergence and
  the termination statements show. Links of the file system are followed forty times, as Linux does; the tries
  of the health check are the six of the code. Positions in transactions and amounts are 64-bit where the code's
  arithmetic can wrap.

  \<^bold>\<open>Not modelled.\<close> Log and progress output; \<^verbatim>\<open>cmd/anvil/help.go\<close>, which prints fixed text; opening the JungleBus
  subscription, which only calls the client library; listening sockets, TLS, signals, and the goroutines of
  \<^verbatim>\<open>main.go\<close> that only call an operation at every tick of a timer, which is an operation of the component they
  call; \<^verbatim>\<open>chmod\<close> and the owners of files, which no statement depends on.
\<close>

end
